(* ===== verification/Ptp_Prelude.thy ===== *)
theory Ptp_Prelude
  imports Main "HOL-Library.Word" "HOL-Library.Signed_Division"
begin

text \<open>
  Shared vocabulary of the development: the C integer types of
  \<^verbatim>\<open>dep/datatypes_dep.h\<close>, conversions to the signed types written out with their
  wrap-around, the shifts the Cortex-M3 executes, \<^verbatim>\<open>memcmp\<close>, and loads and stores
  of a byte buffer at an offset.  Unsigned C types are words; signed C types are values
  of type \<^typ>\<open>int\<close> that every store brings back into range with \<open>i8\<close> to \<open>i64\<close>.
\<close>

unbundle bit_operations_syntax

named_theorems c_defs \<open>definitions of the C-level helpers\<close>
named_theorems buf_simps \<open>reads of a buffer after writes\<close>

subsection \<open>C integer types\<close>

type_synonym Octet = "8 word"
type_synonym Nibble = "8 word"
type_synonym UInteger4 = "8 word"
type_synonym Enumeration4 = "8 word"
type_synonym Enumeration8 = "8 word"
type_synonym UInteger8 = "8 word"
type_synonym UInteger16 = "16 word"
type_synonym UInteger32 = "32 word"
type_synonym Integer8 = int
type_synonym Integer16 = int
type_synonym Integer32 = int
type_synonym Integer64 = int
type_synonym Boolean = bool

definition i8 :: "int \<Rightarrow> int" where
  "i8 x = (x + 128) mod 256 - 128"

definition i16 :: "int \<Rightarrow> int" where
  "i16 x = (x + 32768) mod 65536 - 32768"

definition i32 :: "int \<Rightarrow> int" where
  "i32 x = (x + 2147483648) mod 4294967296 - 2147483648"

definition i64 :: "int \<Rightarrow> int" where
  "i64 x = (x + 9223372036854775808) mod 18446744073709551616 - 9223372036854775808"

definition INT_MAX :: int where
  "INT_MAX = 2147483647"

definition in_i32 :: "int \<Rightarrow> bool" where
  "in_i32 x \<longleftrightarrow> -2147483648 \<le> x \<and> x \<le> 2147483647"

lemma i8_id [simp]: "-128 \<le> x \<Longrightarrow> x \<le> 127 \<Longrightarrow> i8 x = x"
  by (simp add: i8_def)

lemma i16_id [simp]: "-32768 \<le> x \<Longrightarrow> x \<le> 32767 \<Longrightarrow> i16 x = x"
  by (simp add: i16_def)

lemma i32_id [simp]: "-2147483648 \<le> x \<Longrightarrow> x \<le> 2147483647 \<Longrightarrow> i32 x = x"
  by (simp add: i32_def)

lemma i64_id [simp]:
  "-9223372036854775808 \<le> x \<Longrightarrow> x \<le> 9223372036854775807 \<Longrightarrow> i64 x = x"
  by (simp add: i64_def)

lemma i32_range: "-2147483648 \<le> i32 x" "i32 x \<le> 2147483647"
  by (auto simp: i32_def)

lemma in_i32_i32 [simp, intro]: "in_i32 (i32 x)"
  by (simp add: in_i32_def i32_range)

lemma in_i32_id: "in_i32 x \<Longrightarrow> i32 x = x"
  by (simp add: in_i32_def)

lemma i8_range: "-128 \<le> i8 x" "i8 x \<le> 127"
  by (auto simp: i8_def)

lemma i16_range: "-32768 \<le> i16 x" "i16 x \<le> 32767"
  by (auto simp: i16_def)

text \<open>The wrapped value is what the two's complement word of that width holds.\<close>

lemma i32_sint: "i32 x = sint (word_of_int x :: 32 word)"
  by (simp add: i32_def int_word_sint)

lemma i16_sint: "i16 x = sint (word_of_int x :: 16 word)"
  by (simp add: i16_def int_word_sint)

lemma i8_sint: "i8 x = sint (word_of_int x :: 8 word)"
  by (simp add: i8_def int_word_sint)

lemma i64_sint: "i64 x = sint (word_of_int x :: 64 word)"
  by (simp add: i64_def int_word_sint)

lemma i32_uint: "i32 (uint (w :: 32 word)) = sint w"
  by (simp add: i32_sint)

lemma word_of_int_i32 [simp]: "(word_of_int (i32 x) :: 32 word) = word_of_int x"
  by (simp add: i32_sint)

lemma i32_idem [simp]: "i32 (i32 x) = i32 x"
  using i32_range [of x] by (rule i32_id)

lemma i32_add_i32 [simp]: "i32 (i32 x + y) = i32 (x + y)" "i32 (x + i32 y) = i32 (x + y)"
  by (simp_all add: i32_def mod_simps algebra_simps)

text \<open>
  C's \<^verbatim>\<open>/\<close> and \<^verbatim>\<open>%\<close> on signed operands truncate towards zero: the library's
  \<open>sdiv\<close> and \<open>smod\<close>.
\<close>

lemma sdiv_pos: "0 < d \<Longrightarrow> x sdiv d = (if 0 \<le> x then x div d else - ((- x) div d))" for x :: int
  by (auto simp: signed_divide_int_def sgn_if)

lemma smod_pos: "0 < d \<Longrightarrow> x smod d = (if 0 \<le> x then x mod d else - ((- x) mod d))" for x :: int
  by (auto simp: signed_modulo_int_def signed_divide_int_def sgn_if minus_div_mult_eq_mod [symmetric])

lemma sdiv_smod: "x sdiv d * d + x smod d = x" for x :: int
  by (rule sdiv_mult_smod_eq)

subsection \<open>Shifts by a register\<close>

text \<open>
  A shift by a variable amount is, on the Cortex-M3, a register shift: it uses the low
  byte of the amount, and an amount of 32 or more shifts everything out.  Where the C
  standard leaves the shift undefined (an amount that is negative or too large) this is
  what the code computes on its target.
\<close>

definition lsl32 :: "int \<Rightarrow> int \<Rightarrow> int" where
  "lsl32 x s = i32 (x * 2 ^ nat (s mod 256))"

definition asr32 :: "int \<Rightarrow> int \<Rightarrow> int" where
  "asr32 x s = x div 2 ^ nat (s mod 256)"

definition c_abs :: "int \<Rightarrow> int" where
  "c_abs x = i32 \<bar>x\<bar>"

lemma asr32_nonneg: "0 \<le> s \<Longrightarrow> s < 256 \<Longrightarrow> asr32 x s = x div 2 ^ nat s"
  by (simp add: asr32_def)

lemma lsl32_nonneg: "0 \<le> s \<Longrightarrow> s < 256 \<Longrightarrow> lsl32 x s = i32 (x * 2 ^ nat s)"
  by (simp add: lsl32_def)

lemma c_abs_eq: "-2147483648 < x \<Longrightarrow> x \<le> 2147483647 \<Longrightarrow> c_abs x = \<bar>x\<bar>"
  by (simp add: c_abs_def)

subsection \<open>Flags\<close>

text \<open>The macros \<^verbatim>\<open>getFlag\<close>, \<^verbatim>\<open>setFlag\<close> and \<^verbatim>\<open>clearFlag\<close> of \<^verbatim>\<open>dep/ptpd_dep.h\<close>.\<close>

definition getFlag :: "'a::len word \<Rightarrow> 'a word \<Rightarrow> bool" where
  "getFlag f m = (f AND m = m)"

definition setFlag :: "'a::len word \<Rightarrow> 'a word \<Rightarrow> 'a word" where
  "setFlag f m = f OR m"

definition clearFlag :: "'a::len word \<Rightarrow> 'a word \<Rightarrow> 'a word" where
  "clearFlag f m = f AND NOT m"

lemma getFlag_bits: "getFlag f m \<longleftrightarrow> (\<forall>n. bit m n \<longrightarrow> bit f n)"
  unfolding getFlag_def bit_eq_iff by (auto simp: bit_simps dest: bit_imp_le_length)

lemma word_disjoint_bits: "m AND m' = 0 \<longleftrightarrow> (\<forall>n. \<not> (bit m n \<and> bit m' n))"
  for m m' :: "'a::len word"
  unfolding bit_eq_iff by (auto simp: bit_simps dest: bit_imp_le_length)

lemma getFlag_setFlag [simp]: "getFlag (setFlag f m) m"
  by (simp add: getFlag_bits setFlag_def bit_simps)

lemma getFlag_setFlag_mono: "getFlag f m \<Longrightarrow> getFlag (setFlag f m') m"
  by (simp add: getFlag_bits setFlag_def bit_simps)

lemma getFlag_setFlag_other: "m AND m' = 0 \<Longrightarrow> getFlag (setFlag f m') m = getFlag f m"
  by (auto simp: getFlag_bits setFlag_def word_disjoint_bits bit_simps)

lemma getFlag_clearFlag: "m \<noteq> 0 \<Longrightarrow> \<not> getFlag (clearFlag f m) m"
  unfolding getFlag_bits clearFlag_def by (auto simp: bit_eq_iff bit_simps)

lemma getFlag_clearFlag_other: "m AND m' = 0 \<Longrightarrow> getFlag (clearFlag f m') m = getFlag f m"
  by (auto simp: getFlag_bits clearFlag_def word_disjoint_bits bit_simps dest: bit_imp_le_length)

subsection \<open>memcmp\<close>

text \<open>
  \<^verbatim>\<open>memcmp(a, b, n)\<close> of the C library: the difference of the first pair of bytes that
  differ among the first \<^verbatim>\<open>n\<close>, 0 when there is none.
\<close>

fun bytecmp :: "Octet list \<Rightarrow> Octet list \<Rightarrow> int" where
  "bytecmp (x # xs) (y # ys) = (if x = y then bytecmp xs ys else uint x - uint y)"
| "bytecmp _ _ = 0"

definition memcmp :: "Octet list \<Rightarrow> Octet list \<Rightarrow> nat \<Rightarrow> int" where
  "memcmp a b n = bytecmp (take n a) (take n b)"

lemma bytecmp_antisym: "bytecmp b a = - bytecmp a b"
  by (induction a b rule: bytecmp.induct) auto

lemma bytecmp_refl [simp]: "bytecmp a a = 0"
  by (induction a) auto

lemma bytecmp_zero: "length a = length b \<Longrightarrow> bytecmp a b = 0 \<longleftrightarrow> a = b"
proof (induction a b rule: bytecmp.induct)
  case (1 x xs y ys)
  then show ?case by (auto simp: word_uint_eq_iff)
qed auto

lemma bytecmp_less_trans:
  "bytecmp a b < 0 \<Longrightarrow> bytecmp b c < 0 \<Longrightarrow> length a = length b \<Longrightarrow> length b = length c
    \<Longrightarrow> bytecmp a c < 0"
proof (induction a b arbitrary: c rule: bytecmp.induct)
  case (1 x xs y ys)
  then obtain z zs where c: "c = z # zs" by (cases c) auto
  from 1 show ?case
    by (auto simp: c word_uint_eq_iff split: if_splits)
qed auto

lemma bytecmp_range: "-256 < bytecmp a b" "bytecmp a b < 256"
proof (induction a b rule: bytecmp.induct)
  case (1 x xs y ys)
  have b: "0 \<le> uint x" "uint x < 256" "0 \<le> uint y" "uint y < 256"
    using uint_lt2p [of x] uint_lt2p [of y] by simp_all
  { case 1 show ?case using "1.IH"(1) b by (simp, linarith)
  next
    case 2 show ?case using "1.IH"(2) b by (simp, linarith) }
qed auto

lemma memcmp_antisym: "memcmp b a n = - memcmp a b n"
  by (simp add: memcmp_def bytecmp_antisym [of "take n b"])

lemma memcmp_refl [simp]: "memcmp a a n = 0"
  by (simp add: memcmp_def)

lemma memcmp_zero: "length a = n \<Longrightarrow> length b = n \<Longrightarrow> memcmp a b n = 0 \<longleftrightarrow> a = b"
  by (simp add: memcmp_def bytecmp_zero)

lemma memcmp_less_trans:
  "memcmp a b n < 0 \<Longrightarrow> memcmp b c n < 0 \<Longrightarrow> length a = n \<Longrightarrow> length b = n \<Longrightarrow> length c = n
    \<Longrightarrow> memcmp a c n < 0"
  by (simp add: memcmp_def) (metis bytecmp_less_trans)

lemma memcmp_range: "-256 < memcmp a b n" "memcmp a b n < 256"
  by (simp_all add: memcmp_def bytecmp_range)

end
