(* ===== verification/Ptp_Bytes.thy ===== *)
theory Ptp_Bytes
  imports Ptp_Prelude
begin

text \<open>
  Byte order and buffer access: \<^verbatim>\<open>htons\<close> and \<^verbatim>\<open>htonl\<close> of
  \<^verbatim>\<open>lwip-1.3.1/src/core/ipv4/inet.c\<close> (the \<^verbatim>\<open>flip16\<close> and \<^verbatim>\<open>flip32\<close> of
  \<^verbatim>\<open>dep/ptpd_dep.h\<close>), the little-endian loads and stores behind the casts
  \<^verbatim>\<open>*(UInteger16*)(buf + n)\<close> of \<^verbatim>\<open>dep/msg.c\<close>, and \<^verbatim>\<open>memcpy\<close> and \<^verbatim>\<open>memset\<close> into a
  buffer.  The lemmas in \<open>buf_simps\<close> read a buffer back after writes at other or the
  same offsets.
\<close>

unbundle bit_operations_syntax

definition htons :: "UInteger16 \<Rightarrow> UInteger16" where
  "htons n = push_bit 8 (n AND 0xff) OR drop_bit 8 (n AND 0xff00)"

definition htonl :: "UInteger32 \<Rightarrow> UInteger32" where
  "htonl n = push_bit 24 (n AND 0xff) OR push_bit 8 (n AND 0xff00)
     OR drop_bit 8 (n AND 0xff0000) OR drop_bit 24 (n AND 0xff000000)"

abbreviation flip16 :: "UInteger16 \<Rightarrow> UInteger16" where "flip16 \<equiv> htons"
abbreviation flip32 :: "UInteger32 \<Rightarrow> UInteger32" where "flip32 \<equiv> htonl"

text \<open>\<^verbatim>\<open>memcpy(buf + i, bs, length bs)\<close> and \<^verbatim>\<open>memset(buf + i, b, n)\<close>.\<close>

fun put_bytes :: "Octet list \<Rightarrow> nat \<Rightarrow> Octet list \<Rightarrow> Octet list" where
  "put_bytes buf i [] = buf"
| "put_bytes buf i (b # bs) = put_bytes (buf[i := b]) (Suc i) bs"

definition memset_at :: "Octet list \<Rightarrow> nat \<Rightarrow> Octet \<Rightarrow> nat \<Rightarrow> Octet list" where
  "memset_at buf i b n = put_bytes buf i (replicate n b)"

definition get_bytes :: "Octet list \<Rightarrow> nat \<Rightarrow> nat \<Rightarrow> Octet list" where
  "get_bytes buf i n = map (\<lambda>k. buf ! (i + k)) [0..<n]"

definition get8 :: "Octet list \<Rightarrow> nat \<Rightarrow> Octet" where
  "get8 buf i = buf ! i"

definition put8 :: "Octet list \<Rightarrow> nat \<Rightarrow> Octet \<Rightarrow> Octet list" where
  "put8 buf i b = put_bytes buf i [b]"

text \<open>Little-endian images of the 16 and 32 bit words.\<close>

definition le16 :: "UInteger16 \<Rightarrow> Octet list" where
  "le16 v = [ucast v, ucast (drop_bit 8 v)]"

definition un_le16 :: "Octet list \<Rightarrow> UInteger16" where
  "un_le16 bs = ucast (bs ! 0) OR push_bit 8 (ucast (bs ! 1))"

definition le32 :: "UInteger32 \<Rightarrow> Octet list" where
  "le32 v = [ucast v, ucast (drop_bit 8 v), ucast (drop_bit 16 v), ucast (drop_bit 24 v)]"

definition un_le32 :: "Octet list \<Rightarrow> UInteger32" where
  "un_le32 bs = ucast (bs ! 0) OR push_bit 8 (ucast (bs ! 1))
     OR push_bit 16 (ucast (bs ! 2)) OR push_bit 24 (ucast (bs ! 3))"

definition put16 :: "Octet list \<Rightarrow> nat \<Rightarrow> UInteger16 \<Rightarrow> Octet list" where
  "put16 buf i v = put_bytes buf i (le16 v)"

definition put32 :: "Octet list \<Rightarrow> nat \<Rightarrow> UInteger32 \<Rightarrow> Octet list" where
  "put32 buf i v = put_bytes buf i (le32 v)"

definition get16 :: "Octet list \<Rightarrow> nat \<Rightarrow> UInteger16" where
  "get16 buf i = un_le16 (get_bytes buf i 2)"

definition get32 :: "Octet list \<Rightarrow> nat \<Rightarrow> UInteger32" where
  "get32 buf i = un_le32 (get_bytes buf i 4)"

subsection \<open>Lengths\<close>

lemma length_put_bytes [simp]: "length (put_bytes buf i bs) = length buf"
  by (induction buf i bs rule: put_bytes.induct) auto

lemma length_puts [simp]:
  "length (put8 buf i b) = length buf" "length (put16 buf i v) = length buf"
  "length (put32 buf i w) = length buf" "length (memset_at buf i b n) = length buf"
  by (simp_all add: put8_def put16_def put32_def memset_at_def)

lemma length_get_bytes [simp]: "length (get_bytes buf i n) = n"
  by (simp add: get_bytes_def)

lemma length_le [simp]: "length (le16 v) = 2" "length (le32 w) = 4"
  by (simp_all add: le16_def le32_def)

subsection \<open>Reads after writes\<close>

lemma nth_put_bytes:
  "k < length buf \<Longrightarrow>
    put_bytes buf i bs ! k = (if i \<le> k \<and> k < i + length bs then bs ! (k - i) else buf ! k)"
proof (induction buf i bs rule: put_bytes.induct)
  case (2 buf i b bs)
  then show ?case
    by (auto simp: nth_list_update nth_Cons' Suc_le_eq not_less le_antisym)
qed auto

lemma get_bytes_put_same [buf_simps]:
  "i + length bs \<le> length buf \<Longrightarrow> n = length bs \<Longrightarrow> get_bytes (put_bytes buf i bs) i n = bs"
  by (rule nth_equalityI) (auto simp: get_bytes_def nth_put_bytes)

lemma get_bytes_put_other [buf_simps]:
  "j + length bs \<le> i \<or> i + n \<le> j \<Longrightarrow> i + n \<le> length buf \<Longrightarrow>
    get_bytes (put_bytes buf j bs) i n = get_bytes buf i n"
  by (rule nth_equalityI) (auto simp: get_bytes_def nth_put_bytes)

lemma take_put_bytes:
  assumes "m \<le> length b" and "m \<le> length buf"
  shows "take m (put_bytes buf 0 b) = take m b"
  by (rule nth_equalityI) (use assms in \<open>simp_all add: nth_put_bytes\<close>)

lemma get8_put_other [buf_simps]:
  "j + length bs \<le> i \<or> i < j \<Longrightarrow> i < length buf \<Longrightarrow> get8 (put_bytes buf j bs) i = get8 buf i"
  by (auto simp: get8_def nth_put_bytes)

lemma get8_put8 [buf_simps]: "i < length buf \<Longrightarrow> get8 (put_bytes buf i [b]) i = b"
  by (simp add: get8_def)

declare put_bytes.simps [simp del]

lemmas put_get_defs = put8_def put16_def put32_def memset_at_def get16_def get32_def

subsection \<open>Byte images are faithful\<close>

lemma word8_le_bits: "bit (b :: Octet) n \<Longrightarrow> n < 8"
  by (drule bit_imp_le_length) simp

lemma un_le16_le16 [simp]: "un_le16 (le16 v) = v"
  unfolding un_le16_def le16_def
  by (rule bit_word_eqI) (auto simp: bit_simps)

lemma byte_cases:
  fixes n :: nat
  obtains "n < 8" | "8 \<le> n" "n < 16" | "16 \<le> n" "n < 24" | "24 \<le> n"
  by linarith

lemma un_le32_le32 [simp]: "un_le32 (le32 v) = v"
proof (rule bit_word_eqI)
  fix n assume "n < LENGTH(32)"
  then show "bit (un_le32 (le32 v)) n = bit v n"
    by (cases n rule: byte_cases) (auto simp: un_le32_def le32_def bit_simps dest: word8_le_bits)
qed

lemma get16_put16 [buf_simps]: "i + 2 \<le> length buf \<Longrightarrow> get16 (put16 buf i v) i = v"
  by (simp add: get16_def put16_def get_bytes_put_same)

lemma get32_put32 [buf_simps]: "i + 4 \<le> length buf \<Longrightarrow> get32 (put32 buf i v) i = v"
  by (simp add: get32_def put32_def get_bytes_put_same)

subsection \<open>Network byte order\<close>

lemma byte_masks16: "(0xff :: 16 word) = mask 8" "(0xff00 :: 16 word) = push_bit 8 (mask 8)"
  by (simp_all add: mask_eq_exp_minus_1)

lemma byte_masks32:
  "(0xff :: 32 word) = mask 8" "(0xff00 :: 32 word) = push_bit 8 (mask 8)"
  "(0xff0000 :: 32 word) = push_bit 16 (mask 8)" "(0xff000000 :: 32 word) = push_bit 24 (mask 8)"
  by (simp_all add: mask_eq_exp_minus_1)

text \<open>
  After \<^verbatim>\<open>flip16\<close> and \<^verbatim>\<open>flip32\<close>, the little-endian store writes the most significant
  byte first: the messages are in network byte order.
\<close>

lemma le16_htons: "le16 (htons v) = [ucast (drop_bit 8 v), ucast v]"
  unfolding le16_def htons_def byte_masks16
  by (auto simp: bit_simps intro!: bit_word_eqI)

lemma le32_htonl:
  "le32 (htonl v) =
    [ucast (drop_bit 24 v), ucast (drop_bit 16 v), ucast (drop_bit 8 v), ucast v]"
  unfolding le32_def htonl_def byte_masks32
  by (auto simp: bit_simps intro!: bit_word_eqI)

lemma htons_htons [simp]: "htons (htons v) = v"
  unfolding htons_def byte_masks16
  by (rule bit_word_eqI) (auto simp: bit_simps)

lemma htonl_htonl [simp]: "htonl (htonl v) = v"
proof (rule bit_word_eqI)
  fix n assume "n < LENGTH(32)"
  then show "bit (htonl (htonl v)) n = bit v n"
    unfolding htonl_def byte_masks32
    by (cases n rule: byte_cases) (auto simp: bit_simps)
qed

end
