(* ===== verification/Ptp_Datatypes.thy ===== *)
theory Ptp_Datatypes
  imports Ptp_Bytes
begin

text \<open>
  The data of the PTP stack: \<^verbatim>\<open>constants.h\<close>, \<^verbatim>\<open>datatypes.h\<close> and the queue types of
  \<^verbatim>\<open>dep/datatypes_dep.h\<close>.  A C struct is a record with the fields of the source; a
  field name that two structs share carries a prefix of its struct.  The union
  \<^verbatim>\<open>msgTmp\<close> is a record with one slot per member: every handler writes the member it
  reads first.
\<close>

subsection \<open>Constants\<close>

definition CLOCK_IDENTITY_LENGTH :: nat where "CLOCK_IDENTITY_LENGTH = 8"
definition PTP_UUID_LENGTH :: nat where "PTP_UUID_LENGTH = 6"
definition PACKET_SIZE :: nat where "PACKET_SIZE = 300"
definition PBUF_QUEUE_SIZE :: int where "PBUF_QUEUE_SIZE = 4"
definition ptpMonitorlConstant :: nat where "ptpMonitorlConstant = 16"
definition ADJ_FREQ_MAX :: int where "ADJ_FREQ_MAX = 512000"
definition MAX_ADJ_OFFSET_NS :: int where "MAX_ADJ_OFFSET_NS = 100000000"
definition DEFAULT_CALIBRATED_OFFSET_NS :: int where "DEFAULT_CALIBRATED_OFFSET_NS = 10000"
definition DEFAULT_UNCALIBRATED_OFFSET_NS :: int where "DEFAULT_UNCALIBRATED_OFFSET_NS = 1000000"

definition HEADER_LENGTH :: int where "HEADER_LENGTH = 34"
definition ANNOUNCE_LENGTH :: int where "ANNOUNCE_LENGTH = 64"
definition SYNC_LENGTH :: int where "SYNC_LENGTH = 44"
definition FOLLOW_UP_LENGTH :: int where "FOLLOW_UP_LENGTH = 44"
definition PDELAY_REQ_LENGTH :: int where "PDELAY_REQ_LENGTH = 54"
definition DELAY_REQ_LENGTH :: int where "DELAY_REQ_LENGTH = 44"
definition DELAY_RESP_LENGTH :: int where "DELAY_RESP_LENGTH = 54"
definition PDELAY_RESP_LENGTH :: int where "PDELAY_RESP_LENGTH = 54"
definition PDELAY_RESP_FOLLOW_UP_LENGTH :: int where "PDELAY_RESP_FOLLOW_UP_LENGTH = 54"
definition MANAGEMENT_LENGTH :: int where "MANAGEMENT_LENGTH = 48"

definition PTP_EVENT_PORT :: nat where "PTP_EVENT_PORT = 319"
definition PTP_GENERAL_PORT :: nat where "PTP_GENERAL_PORT = 320"

lemmas length_consts [c_defs] =
  CLOCK_IDENTITY_LENGTH_def PTP_UUID_LENGTH_def PACKET_SIZE_def PBUF_QUEUE_SIZE_def
  ptpMonitorlConstant_def HEADER_LENGTH_def ANNOUNCE_LENGTH_def SYNC_LENGTH_def
  FOLLOW_UP_LENGTH_def PDELAY_REQ_LENGTH_def DELAY_REQ_LENGTH_def DELAY_RESP_LENGTH_def
  PDELAY_RESP_LENGTH_def PDELAY_RESP_FOLLOW_UP_LENGTH_def MANAGEMENT_LENGTH_def

text \<open>The port states (Table 8), the delay mechanisms (Table 9) and the timers.\<close>

datatype PtpState =
    PTP_INITIALIZING
  | PTP_FAULTY
  | PTP_DISABLED
  | PTP_LISTENING
  | PTP_PRE_MASTER
  | PTP_MASTER
  | PTP_PASSIVE
  | PTP_UNCALIBRATED
  | PTP_SLAVE

datatype DelayMechanism = E2E | P2P | DELAY_DISABLED

abbreviation (input) PDELAYREQ_INTERVAL_TIMER :: nat where "PDELAYREQ_INTERVAL_TIMER \<equiv> 0"
abbreviation (input) DELAYREQ_INTERVAL_TIMER :: nat where "DELAYREQ_INTERVAL_TIMER \<equiv> 1"
abbreviation (input) SYNC_INTERVAL_TIMER :: nat where "SYNC_INTERVAL_TIMER \<equiv> 2"
abbreviation (input) ANNOUNCE_RECEIPT_TIMER :: nat where "ANNOUNCE_RECEIPT_TIMER \<equiv> 3"
abbreviation (input) ANNOUNCE_INTERVAL_TIMER :: nat where "ANNOUNCE_INTERVAL_TIMER \<equiv> 4"
abbreviation (input) MANAGEMENT_INTERVAL_TIMER :: nat where "MANAGEMENT_INTERVAL_TIMER \<equiv> 5"
abbreviation (input) QUALIFICATION_TIMEOUT :: nat where "QUALIFICATION_TIMEOUT \<equiv> 6"

definition TIMER_ARRAY_SIZE :: nat where "TIMER_ARRAY_SIZE = 7"

text \<open>The message types (Table 19, with the source's value for management messages).\<close>

abbreviation (input) SYNC :: Enumeration4 where "SYNC \<equiv> 0x0"
abbreviation (input) DELAY_REQ :: Enumeration4 where "DELAY_REQ \<equiv> 0x1"
abbreviation (input) PDELAY_REQ :: Enumeration4 where "PDELAY_REQ \<equiv> 0x2"
abbreviation (input) PDELAY_RESP :: Enumeration4 where "PDELAY_RESP \<equiv> 0x3"
abbreviation (input) MANAGEMENT :: Enumeration4 where "MANAGEMENT \<equiv> 0x4"
abbreviation (input) FOLLOW_UP :: Enumeration4 where "FOLLOW_UP \<equiv> 0x8"
abbreviation (input) DELAY_RESP :: Enumeration4 where "DELAY_RESP \<equiv> 0x9"
abbreviation (input) PDELAY_RESP_FOLLOW_UP :: Enumeration4 where "PDELAY_RESP_FOLLOW_UP \<equiv> 0xA"
abbreviation (input) ANNOUNCE :: Enumeration4 where "ANNOUNCE \<equiv> 0xB"

abbreviation (input) CTRL_SYNC :: UInteger8 where "CTRL_SYNC \<equiv> 0"
abbreviation (input) CTRL_DELAY_REQ :: UInteger8 where "CTRL_DELAY_REQ \<equiv> 1"
abbreviation (input) CTRL_FOLLOW_UP :: UInteger8 where "CTRL_FOLLOW_UP \<equiv> 2"
abbreviation (input) CTRL_DELAY_RESP :: UInteger8 where "CTRL_DELAY_RESP \<equiv> 3"
abbreviation (input) CTRL_MANAGEMENT :: UInteger8 where "CTRL_MANAGEMENT \<equiv> 4"
abbreviation (input) CTRL_OTHER :: UInteger8 where "CTRL_OTHER \<equiv> 5"

abbreviation (input) FLAG0_TWO_STEP :: Octet where "FLAG0_TWO_STEP \<equiv> 0x02"
abbreviation (input) FLAG1_LEAP61 :: Octet where "FLAG1_LEAP61 \<equiv> 0x01"
abbreviation (input) FLAG1_LEAP59 :: Octet where "FLAG1_LEAP59 \<equiv> 0x02"
abbreviation (input) FLAG1_UTC_OFFSET_VALID :: Octet where "FLAG1_UTC_OFFSET_VALID \<equiv> 0x04"
abbreviation (input) FLAG1_PTP_TIMESCALE :: Octet where "FLAG1_PTP_TIMESCALE \<equiv> 0x08"
abbreviation (input) FLAG1_TIME_TRACEABLE :: Octet where "FLAG1_TIME_TRACEABLE \<equiv> 0x10"
abbreviation (input) FLAG1_FREQUENCY_TRACEABLE :: Octet where "FLAG1_FREQUENCY_TRACEABLE \<equiv> 0x20"

text \<open>The bits of the field \<^verbatim>\<open>events\<close>.\<close>

abbreviation (input) STATE_DECISION_EVENT :: UInteger32 where "STATE_DECISION_EVENT \<equiv> 0x0040"
abbreviation (input) SYNCHRONIZATION_FAULT :: UInteger32 where "SYNCHRONIZATION_FAULT \<equiv> 0x0200"
abbreviation (input) MASTER_CLOCK_SELECTED :: UInteger32 where "MASTER_CLOCK_SELECTED \<equiv> 0x0400"
abbreviation (input) MASTER_CLOCK_CHANGED :: UInteger32 where "MASTER_CLOCK_CHANGED \<equiv> 0x0800"

subsection \<open>Derived data types (5.3)\<close>

record UInteger48 =
  lsb :: UInteger32
  msb :: UInteger16

record Timestamp =
  secondsField :: UInteger48
  nanosecondsField :: UInteger32

type_synonym ClockIdentity = "Octet list"

record PortIdentity =
  clockIdentity :: ClockIdentity
  portNumber :: UInteger16

record ClockQuality =
  clockClass :: UInteger8
  clockAccuracy :: Enumeration8
  offsetScaledLogVariance :: UInteger16

record TimeInternal =
  seconds :: Integer32
  nanoseconds :: Integer32

subsection \<open>Messages\<close>

record MsgHeader =
  transportSpecific :: Nibble
  messageType :: Enumeration4
  versionPTP :: UInteger4
  messageLength :: UInteger16
  hdr_domainNumber :: UInteger8
  flagField :: "Octet list"
  correctionfield :: Integer64
  sourcePortIdentity :: PortIdentity
  sequenceId :: UInteger16
  controlField :: UInteger8
  logMessageInterval :: Integer8

record MsgAnnounce =
  ann_originTimestamp :: Timestamp
  ann_currentUtcOffset :: Integer16
  ann_grandmasterPriority1 :: UInteger8
  ann_grandmasterClockQuality :: ClockQuality
  ann_grandmasterPriority2 :: UInteger8
  ann_grandmasterIdentity :: ClockIdentity
  ann_stepsRemoved :: UInteger16
  ann_timeSource :: Enumeration8

record MsgSync =
  sync_originTimestamp :: Timestamp

record MsgDelayReq =
  req_originTimestamp :: Timestamp

record MsgDelayResp =
  receiveTimestamp :: Timestamp
  resp_requestingPortIdentity :: PortIdentity

record MsgFollowUp =
  preciseOriginTimestamp :: Timestamp

record MsgPDelayReq =
  preq_originTimestamp :: Timestamp

record MsgPDelayResp =
  requestReceiptTimestamp :: Timestamp
  presp_requestingPortIdentity :: PortIdentity

record MsgPDelayRespFollowUp =
  responseOriginTimestamp :: Timestamp
  prespfollow_requestingPortIdentity :: PortIdentity

record MsgManagement =
  mng_ipaddr :: UInteger32
  toMasterOffset :: Timestamp

record MsgTmp =
  sync :: MsgSync
  follow :: MsgFollowUp
  resp :: MsgDelayResp
  presp :: MsgPDelayResp
  prespfollow :: MsgPDelayRespFollowUp
  manage :: MsgManagement
  announce :: MsgAnnounce

subsection \<open>Timers and data sets\<close>

record IntervalTimer =
  interval :: Integer32
  left :: Integer32
  expire :: Boolean

record ForeignMasterRecord =
  foreignMasterPortIdentity :: PortIdentity
  foreignMasterAnnounceMessages :: UInteger16
  fmr_announce :: MsgAnnounce
  fmr_header :: MsgHeader

record DefaultDS =
  twoStepFlag :: Boolean
  dds_clockIdentity :: ClockIdentity
  numberPorts :: UInteger16
  clockQuality :: ClockQuality
  priority1 :: UInteger8
  priority2 :: UInteger8
  domainNumber :: UInteger8
  slaveOnly :: Boolean

record CurrentDS =
  stepsRemoved :: UInteger16
  offsetFromMaster :: TimeInternal
  meanPathDelay :: TimeInternal

record ParentDS =
  parentPortIdentity :: PortIdentity
  parentStats :: Boolean
  observedParentOffsetScaledLogVariance :: Integer16
  observedParentClockPhaseChangeRate :: Integer32
  grandmasterIdentity :: ClockIdentity
  grandmasterClockQuality :: ClockQuality
  grandmasterPriority1 :: UInteger8
  grandmasterPriority2 :: UInteger8

record TimePropertiesDS =
  currentUtcOffset :: Integer16
  currentUtcOffsetValid :: Boolean
  leap59 :: Boolean
  leap61 :: Boolean
  timeTraceable :: Boolean
  frequencyTraceable :: Boolean
  ptpTimescale :: Boolean
  timeSource :: Enumeration8

record PortDS =
  portIdentity :: PortIdentity
  portState :: PtpState
  logMinDelayReqInterval :: Integer8
  peerMeanPathDelay :: TimeInternal
  logAnnounceInterval :: Integer8
  announceReceiptTimeout :: UInteger8
  logSyncInterval :: Integer8
  delayMechanism :: DelayMechanism
  logMinPdelayReqInterval :: Integer8
  versionNumber :: UInteger4

text \<open>
  The foreign master data set: \<^verbatim>\<open>records\<close> points to the static array
  \<^verbatim>\<open>ptpForeignRecords\<close>, here its contents; the other fields index it.
\<close>

record ForeignMasterDS =
  records :: "ForeignMasterRecord list"
  count :: nat
  capacity :: nat
  fm_i :: nat
  best :: nat

record Servo =
  noResetClock :: Boolean
  noAdjust :: Boolean
  ap :: Integer16
  ai :: Integer16
  sDelay :: Integer16
  sOffset :: Integer16

record ptp_control =
  ipaddr :: UInteger32
  Offset :: TimeInternal
  Time :: UInteger32

record RunTimeOpts =
  announceInterval :: Integer8
  syncInterval :: Integer8
  rt_clockQuality :: ClockQuality
  rt_priority1 :: UInteger8
  rt_priority2 :: UInteger8
  rt_domainNumber :: UInteger8
  rt_slaveOnly :: Boolean
  rt_currentUtcOffset :: Integer16
  rt_stats :: Enumeration8
  rt_inboundLatency :: TimeInternal
  rt_outboundLatency :: TimeInternal
  maxForeignRecords :: Integer16
  rt_delayMechanism :: DelayMechanism
  rt_servo :: Servo

record Filter =
  y_prev :: Integer32
  y_sum :: Integer32
  fs :: Integer16
  s_prev :: Integer16
  fn :: Integer32

text \<open>
  A received lwIP packet buffer: the payloads of its chain, the total length and the
  timestamp the driver took; \<open>pb_id\<close> stands for its address.
\<close>

record pbuf =
  pb_id :: nat
  payloads :: "Octet list list"
  time_sec :: Integer32
  time_nsec :: Integer32

definition tot_len :: "pbuf \<Rightarrow> int" where
  "tot_len p = int (length (concat (payloads p)))"

record BufQueue =
  q_pbuf :: "pbuf option list"
  q_get :: Integer32
  q_put :: Integer32
  q_count :: Integer32

record NetPath =
  multicastAddr :: UInteger32
  peerMulticastAddr :: UInteger32
  unicastAddr :: UInteger32
  eventPcb :: "nat option"
  generalPcb :: "nat option"
  eventQ :: BufQueue
  generalQ :: BufQueue

subsection \<open>The main program structure\<close>

record PtpClock =
  defaultDS :: DefaultDS
  currentDS :: CurrentDS
  parentDS :: ParentDS
  timePropertiesDS :: TimePropertiesDS
  portDS :: PortDS
  foreignMasterDS :: ForeignMasterDS
  msgTmpHeader :: MsgHeader
  msgTmp :: MsgTmp
  msgObuf :: "Octet list"
  msgIbuf :: "Octet list"
  msgIbufLength :: Integer32
  Tms :: TimeInternal
  Tsm :: TimeInternal
  pdelay_t1 :: TimeInternal
  pdelay_t2 :: TimeInternal
  pdelay_t3 :: TimeInternal
  pdelay_t4 :: TimeInternal
  timestamp_syncRecieve :: TimeInternal
  timestamp_delayReqSend :: TimeInternal
  timestamp_delayReqRecieve :: TimeInternal
  correctionField_sync :: TimeInternal
  correctionField_pDelayResp :: TimeInternal
  sentPDelayReqSequenceId :: UInteger16
  sentDelayReqSequenceId :: UInteger16
  sentSyncSequenceId :: UInteger16
  sentAnnounceSequenceId :: UInteger16
  recvPDelayReqSequenceId :: UInteger16
  recvSyncSequenceId :: UInteger16
  waitingForFollowUp :: Boolean
  waitingForPDelayRespFollowUp :: Boolean
  ofm_filt :: Filter
  owd_filt :: Filter
  slv_filt :: Filter
  offsetHistory :: "UInteger16 list"
  observedDrift :: Integer32
  messageActivity :: Boolean
  itimer :: "IntervalTimer list"
  netPath :: NetPath
  recommendedState :: PtpState
  portUuidField :: "Octet list"
  inboundLatency :: TimeInternal
  outboundLatency :: TimeInternal
  servo :: Servo
  events :: UInteger32
  stats :: Enumeration8
  rtOpts :: RunTimeOpts

end
