(* ===== verification/Ptp_Arith.thy ===== *)
theory Ptp_Arith
  imports Ptp_Datatypes
begin

text \<open>
  \<^verbatim>\<open>arith.c\<close>: conversions between scaled nanoseconds, timestamps and the internal time,
  the normalisation of an internal time, its sum, difference and half, and the binary
  logarithm.  \<open>tval\<close> reads an internal time as a number of nanoseconds; on inputs for
  which no 32 bit field overflows the operations compute exactly on that number.
\<close>

definition scaledNanosecondsToInternalTime :: "Integer64 \<Rightarrow> TimeInternal" where
  "scaledNanosecondsToInternalTime scaledNanoseconds =
    (let sign = (if scaledNanoseconds < 0 then -1 else 1);
         ns = (if scaledNanoseconds < 0 then i64 (- scaledNanoseconds) else scaledNanoseconds);
         ns = ns div 2 ^ 16
     in \<lparr>seconds = i32 (sign * (ns sdiv 1000000000)),
         nanoseconds = i32 (sign * (ns smod 1000000000))\<rparr>)"

text \<open>
  A negative time is not converted: the caller's \<open>external\<close> keeps what it held, which
  for an uninitialised local is whatever the stack held.
\<close>

definition fromInternalTime :: "TimeInternal \<Rightarrow> Timestamp \<Rightarrow> Timestamp" where
  "fromInternalTime internal external =
    (if seconds internal < 0 \<or> nanoseconds internal < 0 then external
     else external\<lparr>
       secondsField := \<lparr>lsb = word_of_int (seconds internal), msb = 0\<rparr>,
       nanosecondsField := word_of_int (nanoseconds internal)\<rparr>)"

definition toInternalTime :: "TimeInternal \<Rightarrow> Timestamp \<Rightarrow> TimeInternal" where
  "toInternalTime internal external =
    (if uint (lsb (secondsField external)) < INT_MAX
     then internal\<lparr>
       seconds := i32 (uint (lsb (secondsField external))),
       nanoseconds := i32 (uint (nanosecondsField external))\<rparr>
     else internal)"

definition normalizeTime :: "TimeInternal \<Rightarrow> TimeInternal" where
  "normalizeTime r =
    (let s = i32 (seconds r + nanoseconds r sdiv 1000000000);
         n = i32 (nanoseconds r - nanoseconds r sdiv 1000000000 * 1000000000)
     in if s > 0 \<and> n < 0 then r\<lparr>seconds := i32 (s - 1), nanoseconds := i32 (n + 1000000000)\<rparr>
        else if s < 0 \<and> n > 0 then r\<lparr>seconds := i32 (s + 1), nanoseconds := i32 (n - 1000000000)\<rparr>
        else r\<lparr>seconds := s, nanoseconds := n\<rparr>)"

definition addTime :: "TimeInternal \<Rightarrow> TimeInternal \<Rightarrow> TimeInternal" where
  "addTime x y =
    normalizeTime \<lparr>seconds = i32 (seconds x + seconds y),
                   nanoseconds = i32 (nanoseconds x + nanoseconds y)\<rparr>"

definition subTime :: "TimeInternal \<Rightarrow> TimeInternal \<Rightarrow> TimeInternal" where
  "subTime x y =
    normalizeTime \<lparr>seconds = i32 (seconds x - seconds y),
                   nanoseconds = i32 (nanoseconds x - nanoseconds y)\<rparr>"

definition div2Time :: "TimeInternal \<Rightarrow> TimeInternal" where
  "div2Time r =
    (let n = i32 (nanoseconds r + i32 (seconds r smod 2 * 1000000000))
     in normalizeTime (r\<lparr>seconds := seconds r sdiv 2, nanoseconds := n sdiv 2\<rparr>))"

definition floorLog2 :: "UInteger32 \<Rightarrow> Integer32" where
  "floorLog2 n =
    (if n = 0 then -1 else
     let (n, pos) = (if n \<ge> 2 ^ 16 then (drop_bit 16 n, 16) else (n, 0::int));
         (n, pos) = (if n \<ge> 2 ^ 8 then (drop_bit 8 n, pos + 8) else (n, pos));
         (n, pos) = (if n \<ge> 2 ^ 4 then (drop_bit 4 n, pos + 4) else (n, pos));
         (n, pos) = (if n \<ge> 2 ^ 2 then (drop_bit 2 n, pos + 2) else (n, pos));
         pos = (if n \<ge> 2 then pos + 1 else pos)
     in pos)"

text \<open>\<^verbatim>\<open>max\<close> and \<^verbatim>\<open>min\<close> of \<^verbatim>\<open>ptpd.h\<close>.\<close>

definition max_i32 :: "Integer32 \<Rightarrow> Integer32 \<Rightarrow> Integer32" where
  "max_i32 a b = (if a > b then a else b)"

definition min_i32 :: "Integer32 \<Rightarrow> Integer32 \<Rightarrow> Integer32" where
  "min_i32 a b = (if a > b then b else a)"

subsection \<open>Internal times as numbers of nanoseconds\<close>

definition tval :: "TimeInternal \<Rightarrow> int" where
  "tval t = seconds t * 1000000000 + nanoseconds t"

text \<open>The form \<^verbatim>\<open>normalizeTime\<close> establishes: less than a second of nanoseconds, equal signs.\<close>

definition normal_time :: "TimeInternal \<Rightarrow> bool" where
  "normal_time t \<longleftrightarrow> \<bar>nanoseconds t\<bar> < 1000000000
     \<and> (0 < seconds t \<longrightarrow> 0 \<le> nanoseconds t) \<and> (seconds t < 0 \<longrightarrow> nanoseconds t \<le> 0)"

definition time_in_range :: "TimeInternal \<Rightarrow> bool" where
  "time_in_range t \<longleftrightarrow> in_i32 (seconds t) \<and> in_i32 (nanoseconds t)"

lemma sdiv_1e9: "x sdiv 1000000000 = (if 0 \<le> x then x div 1000000000 else - ((- x) div 1000000000))"
  for x :: int
  by (simp add: sdiv_pos)

lemma normalizeTime_exact:
  assumes "\<bar>seconds r\<bar> < 2147483640" and "in_i32 (nanoseconds r)"
  shows "tval (normalizeTime r) = tval r" and "normal_time (normalizeTime r)"
proof -
  define q where "q = nanoseconds r sdiv 1000000000"
  have q: "-3 < q" "q < 3" and n: "\<bar>nanoseconds r - q * 1000000000\<bar> < 1000000000"
    and qs: "0 \<le> nanoseconds r \<Longrightarrow> 0 \<le> nanoseconds r - q * 1000000000"
    and qn: "nanoseconds r \<le> 0 \<Longrightarrow> nanoseconds r - q * 1000000000 \<le> 0"
    using assms(2) unfolding q_def in_i32_def sdiv_1e9 by (auto split: if_splits)
  have s: "i32 (seconds r + q) = seconds r + q"
    and m: "i32 (nanoseconds r - q * 1000000000) = nanoseconds r - q * 1000000000"
    using assms q n by (auto intro!: i32_id)
  show "tval (normalizeTime r) = tval r" "normal_time (normalizeTime r)"
    using assms(1) q n unfolding normalizeTime_def tval_def normal_time_def
    by (auto simp: q_def [symmetric] s m Let_def)
qed


lemma tval_simps [simp]: "tval \<lparr>seconds = s, nanoseconds = n\<rparr> = s * 1000000000 + n"
  by (simp add: tval_def)

lemma normal_time_ns: "normal_time t \<Longrightarrow> -1000000000 < nanoseconds t \<and> nanoseconds t < 1000000000"
  by (auto simp: normal_time_def)

text \<open>Two normal times of different sign differ: the normal form is a numeral.\<close>

lemma normal_time_unique:
  assumes "normal_time x" and "normal_time y" and "tval x = tval y"
  shows "seconds x = seconds y \<and> nanoseconds x = nanoseconds y"
proof -
  have "seconds x = seconds y"
    using assms unfolding normal_time_def tval_def
    by (cases "seconds x" "0 :: int" rule: linorder_cases;
        cases "seconds y" "0 :: int" rule: linorder_cases) auto
  then show ?thesis using assms(3) by (simp add: tval_def)
qed

definition add_in_range :: "TimeInternal \<Rightarrow> TimeInternal \<Rightarrow> bool" where
  "add_in_range x y \<longleftrightarrow> normal_time x \<and> normal_time y \<and> \<bar>seconds x + seconds y\<bar> < 2147483640"

definition sub_in_range :: "TimeInternal \<Rightarrow> TimeInternal \<Rightarrow> bool" where
  "sub_in_range x y \<longleftrightarrow> normal_time x \<and> normal_time y \<and> \<bar>seconds x - seconds y\<bar> < 2147483640"

lemma addTime_exact_lemma:
  assumes "add_in_range x y"
  shows "tval (addTime x y) = tval x + tval y \<and> normal_time (addTime x y)"
proof -
  let ?r = "\<lparr>seconds = i32 (seconds x + seconds y), nanoseconds = i32 (nanoseconds x + nanoseconds y)\<rparr>"
  have r: "tval ?r = tval x + tval y" "\<bar>seconds ?r\<bar> < 2147483640" "in_i32 (nanoseconds ?r)"
    using assms normal_time_ns [of x] normal_time_ns [of y]
    by (auto simp: add_in_range_def tval_def in_i32_def)
  show ?thesis
    unfolding addTime_def using normalizeTime_exact [OF r(2,3)] r(1) by simp
qed

text \<open>\<^verbatim>\<open>addTime\<close> adds: on normalised times whose seconds do not overflow, the
  nanosecond value of the result is the sum, and the result is normalised again.\<close>

theorem addTime_exact:
  assumes "add_in_range x y"
  shows "tval (addTime x y) = tval x + tval y \<and> normal_time (addTime x y)"
  using assms by (rule addTime_exact_lemma)

lemma subTime_exact_lemma:
  assumes "sub_in_range x y"
  shows "tval (subTime x y) = tval x - tval y \<and> normal_time (subTime x y)"
proof -
  let ?r = "\<lparr>seconds = i32 (seconds x - seconds y), nanoseconds = i32 (nanoseconds x - nanoseconds y)\<rparr>"
  have r: "tval ?r = tval x - tval y" "\<bar>seconds ?r\<bar> < 2147483640" "in_i32 (nanoseconds ?r)"
    using assms normal_time_ns [of x] normal_time_ns [of y]
    by (auto simp: sub_in_range_def tval_def in_i32_def)
  show ?thesis
    unfolding subTime_def using normalizeTime_exact [OF r(2,3)] r(1) by simp
qed

text \<open>\<^verbatim>\<open>subTime\<close> subtracts, on the same terms.\<close>

theorem subTime_exact:
  assumes "sub_in_range x y"
  shows "tval (subTime x y) = tval x - tval y \<and> normal_time (subTime x y)"
  using assms by (rule subTime_exact_lemma)

lemma half_carry:
  fixes s n :: int
  assumes "0 \<le> s" and "0 \<le> n" and "n < 1000000000"
  shows "s div 2 * 1000000000 + (n + s mod 2 * 1000000000) div 2 = (s * 1000000000 + n) div 2"
    and "(n + s mod 2 * 1000000000) div 2 < 1000000000"
proof -
  have "s * 1000000000 + n = (n + s mod 2 * 1000000000) + (s div 2 * 1000000000) * 2"
    using mult_div_mod_eq [of 2 s] by linarith
  then show "s div 2 * 1000000000 + (n + s mod 2 * 1000000000) div 2 = (s * 1000000000 + n) div 2"
    by simp
  have "s mod 2 < 2" by simp
  then show "(n + s mod 2 * 1000000000) div 2 < 1000000000"
    using assms by linarith
qed

lemma div2Time_exact_lemma:
  assumes "normal_time r" and "\<bar>seconds r\<bar> < 2147483640"
  shows "tval (div2Time r) = tval r sdiv 2 \<and> normal_time (div2Time r)"
proof -
  let ?n = "nanoseconds r + seconds r smod 2 * 1000000000"
  let ?h = "r\<lparr>seconds := seconds r sdiv 2, nanoseconds := ?n sdiv 2\<rparr>"
  have m: "\<bar>seconds r smod 2\<bar> \<le> 1"
    unfolding smod_pos [of 2, simplified] by presburger
  then have n: "i32 (seconds r smod 2 * 1000000000) = seconds r smod 2 * 1000000000" "i32 ?n = ?n"
    using normal_time_ns [OF assms(1)] by (auto intro!: i32_id)
  have "\<bar>?n\<bar> < 2000000000" using m normal_time_ns [OF assms(1)] by linarith
  then have h: "\<bar>seconds ?h\<bar> < 2147483640" "in_i32 (nanoseconds ?h)"
    using assms(2) by (auto simp: sdiv_pos in_i32_def)
  have v: "tval ?h = tval r sdiv 2"
  proof (cases "0 \<le> tval r")
    case True
    then have "0 \<le> seconds r" "0 \<le> nanoseconds r" "nanoseconds r < 1000000000"
      using assms(1) by (auto simp: tval_def normal_time_def)
    then show ?thesis
      using half_carry(1) [of "seconds r" "nanoseconds r"]
      by (simp add: sdiv_pos smod_pos tval_def)
  next
    case False
    then have a: "0 \<le> - seconds r" "0 \<le> - nanoseconds r" "- nanoseconds r < 1000000000"
      using assms(1) by (auto simp: tval_def normal_time_def)
    have "?n \<le> 0" using a by (auto simp: smod_pos)
    then show ?thesis
      using half_carry(1) [OF a] a False
      by (auto simp: sdiv_pos smod_pos tval_def algebra_simps)
  qed
  show ?thesis
    unfolding div2Time_def Let_def n using normalizeTime_exact [OF h] v by simp
qed

text \<open>\<^verbatim>\<open>div2Time\<close> halves a normalised time, rounding towards zero.\<close>

theorem div2Time_exact:
  assumes "normal_time r" and "\<bar>seconds r\<bar> < 2147483640"
  shows "tval (div2Time r) = tval r sdiv 2 \<and> normal_time (div2Time r)"
  using assms by (rule div2Time_exact_lemma)

text \<open>the correction field of a message, in units of \<open>2\<^sup>-\<^sup>16\<close> nanoseconds, is converted to
  the internal time of that many whole nanoseconds, rounded towards zero; only the most
  negative 64 bit value, whose negation overflows, is excluded.\<close>

theorem scaledNanosecondsToInternalTime_exact:
  assumes "-9223372036854775808 < x" and "x \<le> 9223372036854775807"
  shows "tval (scaledNanosecondsToInternalTime x) = x sdiv 65536
    \<and> normal_time (scaledNanosecondsToInternalTime x)"
proof -
  define a where "a = \<bar>x\<bar> div 65536"
  have a: "0 \<le> a" "a < 140737488355328" using assms by (auto simp: a_def)
  have q: "0 \<le> a div 1000000000" "a div 1000000000 < 140738" using a by auto
  have r: "0 \<le> a mod 1000000000" "a mod 1000000000 < 1000000000" by auto
  have split: "a div 1000000000 * 1000000000 + a mod 1000000000 = a" by simp
  show ?thesis
  proof (cases "x < 0")
    case True
    then have ax: "(- x) div 65536 = a" by (simp add: a_def)
    from True have "scaledNanosecondsToInternalTime x
        = \<lparr>seconds = - (a div 1000000000), nanoseconds = - (a mod 1000000000)\<rparr>"
      using assms a q r
      by (simp add: scaledNanosecondsToInternalTime_def ax sdiv_pos smod_pos Let_def)
    moreover have "x sdiv 65536 = - a" using True by (simp add: sdiv_pos ax)
    ultimately show ?thesis
      using r q by (simp add: normal_time_def) (insert split, linarith)
  next
    case False
    then have ax: "x div 65536 = a" by (simp add: a_def)
    from False have "scaledNanosecondsToInternalTime x
        = \<lparr>seconds = a div 1000000000, nanoseconds = a mod 1000000000\<rparr>"
      using assms a q r
      by (simp add: scaledNanosecondsToInternalTime_def ax sdiv_pos smod_pos Let_def)
    moreover have "x sdiv 65536 = a" using False by (simp add: sdiv_pos ax)
    ultimately show ?thesis using r split q by (auto simp: normal_time_def)
  qed
qed

text \<open>The excluded value comes out with the wrong sign.\<close>

lemma scaledNanoseconds_min_flips_sign:
  "tval (scaledNanosecondsToInternalTime (-9223372036854775808)) = 140737488355328"
  by (simp add: scaledNanosecondsToInternalTime_def i64_def sdiv_pos smod_pos)

text \<open>a timestamp sent by the clock reads back as the time it was made from: for a
  non-negative time below \<^verbatim>\<open>INT_MAX\<close> seconds \<^verbatim>\<open>toInternalTime\<close> inverts
  \<^verbatim>\<open>fromInternalTime\<close>, whatever the two buffers held before.\<close>

theorem internalTime_roundtrip:
  assumes "0 \<le> seconds t" "seconds t < INT_MAX" "0 \<le> nanoseconds t" "nanoseconds t \<le> INT_MAX"
  shows "toInternalTime t' (fromInternalTime t e)
    = t'\<lparr>seconds := seconds t, nanoseconds := nanoseconds t\<rparr>"
  using assms
  by (simp add: toInternalTime_def fromInternalTime_def INT_MAX_def uint_word_of_int)

lemma fromInternalTime_negative:
  "seconds t < 0 \<or> nanoseconds t < 0 \<Longrightarrow> fromInternalTime t e = e"
  by (simp add: fromInternalTime_def)

lemma toInternalTime_large:
  "INT_MAX \<le> uint (lsb (secondsField e)) \<Longrightarrow> toInternalTime t e = t"
  by (simp add: toInternalTime_def)

subsection \<open>The binary logarithm\<close>

definition log_step :: "nat \<Rightarrow> UInteger32 \<times> int \<Rightarrow> UInteger32 \<times> int" where
  "log_step k = (\<lambda>(n, pos). if n \<ge> 2 ^ k then (drop_bit k n, pos + int k) else (n, pos))"

lemma floorLog2_steps:
  "n \<noteq> 0 \<Longrightarrow> floorLog2 n = snd (log_step 1 (log_step 2 (log_step 4 (log_step 8 (log_step 16 (n, 0))))))"
proof -
  assume "n \<noteq> 0"
  moreover have "\<And>n pos. (if n \<ge> 2 ^ 16 then (drop_bit 16 n, 16) else (n, 0)) = log_step 16 (n, 0)"
    "\<And>n pos. (if n \<ge> 2 ^ 8 then (drop_bit 8 n, pos + 8) else (n, pos)) = log_step 8 (n, pos)"
    "\<And>n pos. (if n \<ge> 2 ^ 4 then (drop_bit 4 n, pos + 4) else (n, pos)) = log_step 4 (n, pos)"
    "\<And>n pos. (if n \<ge> 2 ^ 2 then (drop_bit 2 n, pos + 2) else (n, pos)) = log_step 2 (n, pos)"
    "\<And>n pos. (if n \<ge> 2 then pos + 1 else pos) = snd (log_step 1 (n, pos))"
    by (simp_all add: log_step_def)
  ultimately show ?thesis unfolding floorLog2_def by (simp add: Let_def split_beta)
qed

text \<open>One step of the search keeps the bounds: \<open>n\<close> is the input shifted by \<open>pos\<close>.\<close>

definition log_inv :: "int \<Rightarrow> int \<Rightarrow> nat \<Rightarrow> bool" where
  "log_inv N n pos \<longleftrightarrow> 0 < n \<and> n * 2 ^ pos \<le> N \<and> N < (n + 1) * 2 ^ pos"

lemma log_inv_step:
  assumes "log_inv N n pos" and "2 ^ k \<le> n"
  shows "log_inv N (n div 2 ^ k) (pos + k)"
proof -
  have d: "n div 2 ^ k * 2 ^ k \<le> n" "n + 1 \<le> (n div 2 ^ k + 1) * 2 ^ k"
    using mult_div_mod_eq [of "2 ^ k" n] add1_zle_eq [THEN iffD2, OF pos_mod_bound [of "2 ^ k" n]]
    by (simp_all add: algebra_simps minus_mod_eq_mult_div [symmetric])
  have "0 < n div 2 ^ k" using assms(2) by (simp add: pos_imp_zdiv_pos_iff)
  moreover have "n div 2 ^ k * 2 ^ k * 2 ^ pos \<le> N" "N < (n div 2 ^ k + 1) * 2 ^ k * 2 ^ pos"
    using order_trans [OF mult_right_mono [OF d(1), of "2 ^ pos"]]
      less_le_trans [OF _ mult_right_mono [OF d(2), of "2 ^ pos"]] assms(1)
    unfolding log_inv_def by simp_all
  then have "n div 2 ^ k * 2 ^ (pos + k) \<le> N" "N < (n div 2 ^ k + 1) * 2 ^ (pos + k)"
    by (simp_all only: power_add mult.assoc mult.commute [of "2 ^ pos"])
  ultimately show ?thesis by (simp add: log_inv_def)
qed

lemma uint_2_power: "k < 32 \<Longrightarrow> uint (2 ^ k :: 32 word) = 2 ^ k"
  by (rule uint_2p) (simp add: word_gt_0)

text \<open>The bounds of a pair \<open>(n, pos)\<close> of the search for the input \<open>N\<close>, \<open>n\<close> below \<open>2\<^sup>m\<close>.\<close>

definition log_bounds :: "UInteger32 \<Rightarrow> nat \<Rightarrow> UInteger32 \<times> int \<Rightarrow> bool" where
  "log_bounds N m = (\<lambda>(n, pos). 0 \<le> pos \<and> log_inv (uint N) (uint n) (nat pos) \<and> uint n < 2 ^ m)"

lemma int_div_less: "x < c * d \<Longrightarrow> 0 < d \<Longrightarrow> x div d < c" for x :: int
  using mult_right_mono [of c "x div d" d] minus_mod_eq_div_mult [of x d] pos_mod_sign [of d x]
  by linarith

lemma log_step_bounds:
  assumes "log_bounds N (2 * k) x" and "k < 32"
  shows "log_bounds N k (log_step k x)"
proof -
  obtain n pos where x: "x = (n, pos)" by (cases x)
  have le: "2 ^ k \<le> n \<longleftrightarrow> 2 ^ k \<le> uint n"
    by (simp add: word_le_def uint_2_power [OF assms(2)])
  have d: "uint (drop_bit k n) = uint n div 2 ^ k"
    by (simp add: drop_bit_eq_div uint_div uint_2_power [OF assms(2)])
  have p: "0 \<le> pos \<Longrightarrow> nat (pos + int k) = nat pos + k" by (simp add: nat_add_distrib)
  have "uint n < 2 ^ (2 * k) \<Longrightarrow> uint n div 2 ^ k < 2 ^ k"
    by (rule int_div_less) (simp_all add: mult_2 power_add)
  then show ?thesis
    using assms(1) log_inv_step [of "uint N" "uint n" "nat pos" k]
    by (auto simp: x log_step_def log_bounds_def le d p)
qed

lemma floorLog2_bounds_lemma:
  assumes "n \<noteq> 0"
  shows "0 \<le> floorLog2 n \<and> 2 ^ nat (floorLog2 n) \<le> uint n \<and> uint n < 2 ^ nat (floorLog2 n + 1)"
proof -
  have "0 < uint n" using assms uint_ge_0 [of n] uint_0_iff [of n] by linarith
  then have "log_bounds n 32 (n, 0)"
    using uint_lt2p [of n] by (simp add: log_bounds_def log_inv_def)
  then have "log_bounds n 16 (log_step 16 (n, 0))"
    using log_step_bounds [of n 16 "(n, 0)"] by simp
  then have "log_bounds n 8 (log_step 8 (log_step 16 (n, 0)))"
    using log_step_bounds [of n 8] by simp
  then have "log_bounds n 4 (log_step 4 (log_step 8 (log_step 16 (n, 0))))"
    using log_step_bounds [of n 4] by simp
  then have "log_bounds n 2 (log_step 2 (log_step 4 (log_step 8 (log_step 16 (n, 0)))))"
    using log_step_bounds [of n 2] by simp
  then have "log_bounds n 1 (log_step 1 (log_step 2 (log_step 4 (log_step 8 (log_step 16 (n, 0))))))"
    using log_step_bounds [of n 1] by simp
  then obtain m where "0 \<le> floorLog2 n" "log_inv (uint n) m (nat (floorLog2 n))" "m < 2"
    unfolding floorLog2_steps [OF assms] log_bounds_def by auto
  moreover from this have "m = 1" by (simp add: log_inv_def)
  ultimately show ?thesis by (simp add: log_inv_def nat_add_distrib)
qed

text \<open>\<^verbatim>\<open>floorLog2\<close> is the binary logarithm: on every non-zero input its result \<open>p\<close>
  satisfies \<open>2\<^sup>p \<le> n < 2\<^sup>p\<^sup>+\<^sup>1\<close>.\<close>

theorem floorLog2_bounds:
  assumes "n \<noteq> 0"
  shows "0 \<le> floorLog2 n \<and> 2 ^ nat (floorLog2 n) \<le> uint n \<and> uint n < 2 ^ nat (floorLog2 n + 1)"
  using assms by (rule floorLog2_bounds_lemma)

end
