(* ===== verification/Ptp_World.thy ===== *)
theory Ptp_World
  imports Ptp_Datatypes
begin

text \<open>
  The state the stack runs in.  \<open>World\<close> extends the \<^verbatim>\<open>PtpClock\<close> structure with the globals of
  the other files (\<^verbatim>\<open>elapsed_ms\<close>, \<^verbatim>\<open>old_localtime\<close>, the monitor table) and with what the
  hardware, lwIP and the C library answer: each answer is read from a stream of the state,
  at a counter that advances, so every run of the code is a run of the model for suitable
  streams.  A protocol control block is the number of the \<^verbatim>\<open>udp_new\<close> that made it;
  \<open>udp_live\<close> lists those not yet removed and \<open>udp_fault\<close> remembers a removal of one that is not
  live; \<open>overrun\<close> remembers an access outside an array.  \<open>outputs\<close> records what the code does to the outside, most recent first.
  The constants \<open>\<dots>_zero\<close> are the contents of the statically allocated globals before
  \<^verbatim>\<open>PTPd_Init\<close>.
\<close>

datatype Mcast = DefaultGroup | PeerGroup

datatype Output =
    Sent Mcast nat "Octet list"
  | SendFailed Mcast nat "Octet list"
  | PbufFree nat
  | IgmpJoin UInteger32
  | IgmpLeave UInteger32
  | SetPtpTime bool UInteger32 UInteger32
  | UpdatePtpTime bool UInteger32 UInteger32
  | SetAddend UInteger32
  | SetIncrement UInteger32

text \<open>
  What one \<^verbatim>\<open>netSend\<close> meets: whether \<^verbatim>\<open>pbuf_alloc\<close>, \<^verbatim>\<open>pbuf_take\<close> and \<^verbatim>\<open>udp_sendto\<close>
  succeed, and the transmit timestamp the driver leaves in the buffer.
\<close>

record TxResult =
  alloc_ok :: bool
  take_ok :: bool
  sendto_ok :: bool
  tx_time :: TimeInternal

record World = PtpClock +
  elapsed_ms :: UInteger32
  old_localtime :: UInteger32
  ptpMonitorl :: "ptp_control list"
  mon_cnt :: UInteger8
  overrun :: bool
  hw_reads :: "nat \<Rightarrow> UInteger32"
  hw_n :: nat
  rands :: "nat \<Rightarrow> UInteger32"
  rand_n :: nat
  tx_results :: "nat \<Rightarrow> TxResult"
  tx_n :: nat
  udp_new_ok :: "nat \<Rightarrow> bool"
  udp_n :: nat
  udp_live :: "nat list"
  udp_fault :: bool
  aton_default :: "UInteger32 option"
  aton_peer :: "UInteger32 option"
  netif_ip :: UInteger32
  netif_hwaddr :: "Octet list"
  uninit_time :: TimeInternal
  uninit_ts :: Timestamp
  outputs :: "Output list"

type_synonym clock = World

definition emit :: "Output \<Rightarrow> clock \<Rightarrow> clock" where
  "emit x c = c\<lparr>outputs := x # outputs c\<rparr>"

text \<open>A read of a hardware register: the next value of the stream.\<close>

definition hw_read :: "clock \<Rightarrow> UInteger32 \<times> clock" where
  "hw_read c = (hw_reads c (hw_n c), c\<lparr>hw_n := hw_n c + 1\<rparr>)"

definition c_rand :: "clock \<Rightarrow> UInteger32 \<times> clock" where
  "c_rand c = (rands c (rand_n c), c\<lparr>rand_n := rand_n c + 1\<rparr>)"

text \<open>Values of other ports' state machines compare as the numbers of Table 8.\<close>

fun state_num :: "PtpState \<Rightarrow> UInteger8" where
  "state_num PTP_INITIALIZING = 0"
| "state_num PTP_FAULTY = 1"
| "state_num PTP_DISABLED = 2"
| "state_num PTP_LISTENING = 3"
| "state_num PTP_PRE_MASTER = 4"
| "state_num PTP_MASTER = 5"
| "state_num PTP_PASSIVE = 6"
| "state_num PTP_UNCALIBRATED = 7"
| "state_num PTP_SLAVE = 8"

subsection \<open>The globals at power-up\<close>

definition TimeInternal_zero :: TimeInternal where
  "TimeInternal_zero = \<lparr>seconds = 0, nanoseconds = 0\<rparr>"

definition Timestamp_zero :: Timestamp where
  "Timestamp_zero = \<lparr>secondsField = \<lparr>lsb = 0, msb = 0\<rparr>, nanosecondsField = 0\<rparr>"

definition PortIdentity_zero :: PortIdentity where
  "PortIdentity_zero = \<lparr>clockIdentity = replicate 8 0, portNumber = 0\<rparr>"

definition ClockQuality_zero :: ClockQuality where
  "ClockQuality_zero = \<lparr>clockClass = 0, clockAccuracy = 0, offsetScaledLogVariance = 0\<rparr>"

definition MsgHeader_zero :: MsgHeader where
  "MsgHeader_zero = \<lparr>transportSpecific = 0, messageType = 0, versionPTP = 0, messageLength = 0,
     hdr_domainNumber = 0, flagField = [0, 0], correctionfield = 0,
     sourcePortIdentity = PortIdentity_zero, sequenceId = 0, controlField = 0,
     logMessageInterval = 0\<rparr>"

definition MsgAnnounce_zero :: MsgAnnounce where
  "MsgAnnounce_zero = \<lparr>ann_originTimestamp = Timestamp_zero, ann_currentUtcOffset = 0,
     ann_grandmasterPriority1 = 0, ann_grandmasterClockQuality = ClockQuality_zero,
     ann_grandmasterPriority2 = 0, ann_grandmasterIdentity = replicate 8 0,
     ann_stepsRemoved = 0, ann_timeSource = 0\<rparr>"

definition MsgTmp_zero :: MsgTmp where
  "MsgTmp_zero = \<lparr>sync = \<lparr>sync_originTimestamp = Timestamp_zero\<rparr>,
     follow = \<lparr>preciseOriginTimestamp = Timestamp_zero\<rparr>,
     resp = \<lparr>receiveTimestamp = Timestamp_zero, resp_requestingPortIdentity = PortIdentity_zero\<rparr>,
     presp = \<lparr>requestReceiptTimestamp = Timestamp_zero, presp_requestingPortIdentity = PortIdentity_zero\<rparr>,
     prespfollow = \<lparr>responseOriginTimestamp = Timestamp_zero,
       prespfollow_requestingPortIdentity = PortIdentity_zero\<rparr>,
     manage = \<lparr>mng_ipaddr = 0, toMasterOffset = Timestamp_zero\<rparr>,
     announce = MsgAnnounce_zero\<rparr>"

definition IntervalTimer_zero :: IntervalTimer where
  "IntervalTimer_zero = \<lparr>interval = 0, left = 0, expire = False\<rparr>"

definition ForeignMasterRecord_zero :: ForeignMasterRecord where
  "ForeignMasterRecord_zero = \<lparr>foreignMasterPortIdentity = PortIdentity_zero,
     foreignMasterAnnounceMessages = 0, fmr_announce = MsgAnnounce_zero, fmr_header = MsgHeader_zero\<rparr>"

definition Filter_zero :: Filter where
  "Filter_zero = \<lparr>y_prev = 0, y_sum = 0, fs = 0, s_prev = 0, fn = 0\<rparr>"

definition BufQueue_zero :: BufQueue where
  "BufQueue_zero = \<lparr>q_pbuf = replicate 4 None, q_get = 0, q_put = 0, q_count = 0\<rparr>"

definition NetPath_zero :: NetPath where
  "NetPath_zero = \<lparr>multicastAddr = 0, peerMulticastAddr = 0, unicastAddr = 0, eventPcb = None,
     generalPcb = None, eventQ = BufQueue_zero, generalQ = BufQueue_zero\<rparr>"

definition Servo_zero :: Servo where
  "Servo_zero = \<lparr>noResetClock = False, noAdjust = False, ap = 0, ai = 0, sDelay = 0, sOffset = 0\<rparr>"

text \<open>
  The delay mechanism of a zeroed structure is 0, none of the three values; every switch over
  it takes its default branch, as it does for \<open>DELAY_DISABLED\<close>, which stands for it here.
\<close>

definition RunTimeOpts_zero :: RunTimeOpts where
  "RunTimeOpts_zero = \<lparr>announceInterval = 0, syncInterval = 0, rt_clockQuality = ClockQuality_zero,
     rt_priority1 = 0, rt_priority2 = 0, rt_domainNumber = 0, rt_slaveOnly = False,
     rt_currentUtcOffset = 0, rt_stats = 0, rt_inboundLatency = TimeInternal_zero,
     rt_outboundLatency = TimeInternal_zero, maxForeignRecords = 0,
     rt_delayMechanism = DELAY_DISABLED, rt_servo = Servo_zero\<rparr>"

definition DefaultDS_zero :: DefaultDS where
  "DefaultDS_zero = \<lparr>twoStepFlag = False, dds_clockIdentity = replicate 8 0, numberPorts = 0,
     clockQuality = ClockQuality_zero, priority1 = 0, priority2 = 0, domainNumber = 0,
     slaveOnly = False\<rparr>"

definition ParentDS_zero :: ParentDS where
  "ParentDS_zero = \<lparr>parentPortIdentity = PortIdentity_zero, parentStats = False,
     observedParentOffsetScaledLogVariance = 0, observedParentClockPhaseChangeRate = 0,
     grandmasterIdentity = replicate 8 0, grandmasterClockQuality = ClockQuality_zero,
     grandmasterPriority1 = 0, grandmasterPriority2 = 0\<rparr>"

definition TimePropertiesDS_zero :: TimePropertiesDS where
  "TimePropertiesDS_zero = \<lparr>currentUtcOffset = 0, currentUtcOffsetValid = False, leap59 = False,
     leap61 = False, timeTraceable = False, frequencyTraceable = False, ptpTimescale = False,
     timeSource = 0\<rparr>"

definition PortDS_zero :: PortDS where
  "PortDS_zero = \<lparr>portIdentity = PortIdentity_zero, portState = PTP_INITIALIZING,
     logMinDelayReqInterval = 0, peerMeanPathDelay = TimeInternal_zero, logAnnounceInterval = 0,
     announceReceiptTimeout = 0, logSyncInterval = 0, delayMechanism = DELAY_DISABLED,
     logMinPdelayReqInterval = 0, versionNumber = 0\<rparr>"

definition ForeignMasterDS_zero :: ForeignMasterDS where
  "ForeignMasterDS_zero = \<lparr>records = [], count = 0, capacity = 0, fm_i = 0, best = 0\<rparr>"

definition PtpClock_zero :: PtpClock where
  "PtpClock_zero = \<lparr>defaultDS = DefaultDS_zero,
     currentDS = \<lparr>stepsRemoved = 0, offsetFromMaster = TimeInternal_zero, meanPathDelay = TimeInternal_zero\<rparr>,
     parentDS = ParentDS_zero, timePropertiesDS = TimePropertiesDS_zero, portDS = PortDS_zero,
     foreignMasterDS = ForeignMasterDS_zero, msgTmpHeader = MsgHeader_zero, msgTmp = MsgTmp_zero,
     msgObuf = replicate 300 0, msgIbuf = replicate 300 0, msgIbufLength = 0,
     Tms = TimeInternal_zero, Tsm = TimeInternal_zero,
     pdelay_t1 = TimeInternal_zero, pdelay_t2 = TimeInternal_zero,
     pdelay_t3 = TimeInternal_zero, pdelay_t4 = TimeInternal_zero,
     timestamp_syncRecieve = TimeInternal_zero, timestamp_delayReqSend = TimeInternal_zero,
     timestamp_delayReqRecieve = TimeInternal_zero, correctionField_sync = TimeInternal_zero,
     correctionField_pDelayResp = TimeInternal_zero,
     sentPDelayReqSequenceId = 0, sentDelayReqSequenceId = 0, sentSyncSequenceId = 0,
     sentAnnounceSequenceId = 0, recvPDelayReqSequenceId = 0, recvSyncSequenceId = 0,
     waitingForFollowUp = False, waitingForPDelayRespFollowUp = False,
     ofm_filt = Filter_zero, owd_filt = Filter_zero, slv_filt = Filter_zero,
     offsetHistory = [0, 0], observedDrift = 0, messageActivity = False,
     itimer = replicate 7 IntervalTimer_zero, netPath = NetPath_zero,
     recommendedState = PTP_INITIALIZING, portUuidField = replicate 6 0,
     inboundLatency = TimeInternal_zero, outboundLatency = TimeInternal_zero,
     servo = Servo_zero, events = 0, stats = 0, rtOpts = RunTimeOpts_zero\<rparr>"

definition ptp_control_zero :: ptp_control where
  "ptp_control_zero = \<lparr>ipaddr = 0, Offset = TimeInternal_zero, Time = 0\<rparr>"

text \<open>A power-up state for given streams; the interface has an address and every call succeeds.\<close>

definition tx_good :: TxResult where
  "tx_good = \<lparr>alloc_ok = True, take_ok = True, sendto_ok = True,
     tx_time = \<lparr>seconds = 100, nanoseconds = 500\<rparr>\<rparr>"

definition power_up :: "(nat \<Rightarrow> UInteger32) \<Rightarrow> (nat \<Rightarrow> UInteger32) \<Rightarrow> (nat \<Rightarrow> TxResult) \<Rightarrow> clock" where
  "power_up hw rs tx = PtpClock.extend PtpClock_zero
    \<lparr>elapsed_ms = 0, old_localtime = 0, ptpMonitorl = replicate 16 ptp_control_zero, mon_cnt = 0,
     overrun = False, hw_reads = hw, hw_n = 0, rands = rs, rand_n = 0, tx_results = tx, tx_n = 0,
     udp_new_ok = (\<lambda>_. True), udp_n = 0, udp_live = [], udp_fault = False,
     aton_default = Some 0x810100E0, aton_peer = Some 0x6B0000E0, netif_ip = 0x0A01A8C0, netif_hwaddr = [0, 4, 163, 1, 2, 3],
     uninit_time = TimeInternal_zero, uninit_ts = Timestamp_zero, outputs = []\<rparr>"

lemmas zero_defs =
  TimeInternal_zero_def Timestamp_zero_def PortIdentity_zero_def ClockQuality_zero_def
  MsgHeader_zero_def MsgAnnounce_zero_def MsgTmp_zero_def IntervalTimer_zero_def
  ForeignMasterRecord_zero_def Filter_zero_def BufQueue_zero_def NetPath_zero_def Servo_zero_def
  RunTimeOpts_zero_def DefaultDS_zero_def ParentDS_zero_def TimePropertiesDS_zero_def
  PortDS_zero_def ForeignMasterDS_zero_def PtpClock_zero_def ptp_control_zero_def tx_good_def

end
