(* ===== verification/Ptp_Fifo.thy ===== *)
theory Ptp_Fifo
  imports Ptp_Prelude
begin

text \<open>
  The contract of a bounded queue between a producer that must not wait (an interrupt handler, the
  DMA engine) and a consumer that polls: what is put in comes out once and in order, what is put into
  a full queue is dropped, and an element the consumer does not accept stays at the front.  The
  packet queues of \<^verbatim>\<open>dep/net.c\<close> and the receive descriptors of \<^verbatim>\<open>port/ethernetif.c\<close> keep it.
\<close>

datatype ('x, 'e) fifo_event = Put 'x | Get 'e

text \<open>A run of the implementation; what \<open>Get\<close> meets in its environment comes with the event.\<close>

fun fifo_run :: "('x \<Rightarrow> 's \<Rightarrow> 's) \<Rightarrow> ('e \<Rightarrow> 's \<Rightarrow> 'y option \<times> 's) \<Rightarrow> ('x, 'e) fifo_event list \<Rightarrow> 's \<Rightarrow> 'y list \<times> 's" where
  "fifo_run put get [] s = ([], s)"
| "fifo_run put get (Put x # es) s = fifo_run put get es (put x s)"
| "fifo_run put get (Get e # es) s =
    (let (y, s) = get e s; (ys, s) = fifo_run put get es s
     in (case y of None \<Rightarrow> ys | Some y \<Rightarrow> y # ys, s))"

text \<open>The same run of a list.\<close>

fun fifo_spec :: "nat \<Rightarrow> ('x \<Rightarrow> bool) \<Rightarrow> ('e \<Rightarrow> 'x \<Rightarrow> 'y option) \<Rightarrow> ('x, 'e) fifo_event list \<Rightarrow> 'x list \<Rightarrow> 'y list \<times> 'x list" where
  "fifo_spec cap acceptable out [] q = ([], q)"
| "fifo_spec cap acceptable out (Put x # es) q = fifo_spec cap acceptable out es (if length q < cap then q @ [x] else q)"
| "fifo_spec cap acceptable out (Get e # es) q =
    (case q of
       [] \<Rightarrow> fifo_spec cap acceptable out es []
     | x # r \<Rightarrow>
         if acceptable x
         then
           let (ys, r) = fifo_spec cap acceptable out es r
           in (case out e x of None \<Rightarrow> ys | Some y \<Rightarrow> y # ys, r)
         else fifo_spec cap acceptable out es q)"

locale polled_queue =
  fixes holds :: "'x list \<Rightarrow> 's \<Rightarrow> bool"
    and cap :: nat
    and ok :: "'x \<Rightarrow> bool"
    and acceptable :: "'x \<Rightarrow> bool"
    and put :: "'x \<Rightarrow> 's \<Rightarrow> 's"
    and get :: "'e \<Rightarrow> 's \<Rightarrow> 'y option \<times> 's"
    and out :: "'e \<Rightarrow> 'x \<Rightarrow> 'y option"
  assumes put_room: "holds q s \<Longrightarrow> ok x \<Longrightarrow> length q < cap \<Longrightarrow> holds (q @ [x]) (put x s)"
    and put_full: "holds q s \<Longrightarrow> ok x \<Longrightarrow> \<not> length q < cap \<Longrightarrow> holds q (put x s)"
    and get_empty: "holds [] s \<Longrightarrow> get e s = (None, s)"
    and get_front: "holds (x # q) s \<Longrightarrow> acceptable x \<Longrightarrow> fst (get e s) = out e x \<and> holds q (snd (get e s))"
    and get_blocked: "holds (x # q) s \<Longrightarrow> \<not> acceptable x \<Longrightarrow> get e s = (None, s)"
begin

lemma run_refines:
  assumes "holds q s" and "\<forall>x. Put x \<in> set es \<longrightarrow> ok x"
  shows "fst (fifo_run put get es s) = fst (fifo_spec cap acceptable out es q)
    \<and> holds (snd (fifo_spec cap acceptable out es q)) (snd (fifo_run put get es s))"
  using assms
proof (induction es arbitrary: q s)
  case (Cons a es)
  show ?case
  proof (cases a)
    case (Put x)
    then have "holds (if length q < cap then q @ [x] else q) (put x s)" using Cons.prems put_room put_full by simp
    then show ?thesis using Cons Put by simp
  next
    case (Get e)
    show ?thesis
    proof (cases q)
      case Nil
      then show ?thesis using Cons Get get_empty by (auto split: prod.splits)
    next
      case (Cons x r)
      show ?thesis
      proof (cases "acceptable x")
        case True
        obtain y s' where g: "get e s = (y, s')" by fastforce
        then have "y = out e x" "holds r s'" using get_front [of x r s e] \<open>holds q s\<close> Cons True by auto
        moreover have "fst (fifo_run put get es s') = fst (fifo_spec cap acceptable out es r)
            \<and> holds (snd (fifo_spec cap acceptable out es r)) (snd (fifo_run put get es s'))"
          using Cons.IH \<open>holds r s'\<close> Cons.prems by simp
        ultimately show ?thesis using Cons True Get g by (auto split: prod.splits option.splits)
      next
        case False
        then show ?thesis using Cons.IH Cons.prems Cons Get get_blocked by (auto split: prod.splits)
      qed
    qed
  qed
qed simp

end

text \<open>An element that is not acceptable ends the output: only what was before it comes out.\<close>

lemma fifo_spec_blocked:
  assumes "\<not> acceptable x"
  shows "length (fst (fifo_spec cap acceptable out es (q @ x # r))) \<le> length q"
  using assms
proof (induction es arbitrary: q r)
  case (Cons a es)
  show ?case
  proof (cases a)
    case (Put z)
    then show ?thesis using Cons by (cases "length (q @ x # r) < cap") simp_all
  next
    case (Get e)
    show ?thesis
    proof (cases q)
      case Nil
      then show ?thesis using Cons(1) [of "[]" r] Cons(2) Get by simp
    next
      case (Cons y q')
      have "length (fst (fifo_spec cap acceptable out es (q' @ x # r))) \<le> length q'" using Cons.IH assms by blast
      moreover have "length (fst (fifo_spec cap acceptable out es (q @ x # r))) \<le> length q" using Cons.IH assms by blast
      ultimately show ?thesis using Get Cons by (auto split: prod.splits option.splits)
    qed
  qed
qed simp

end
