(* ===== verification/Ptp_Net.thy ===== *)
theory Ptp_Net
  imports Ptp_World Ptp_Fifo
begin

text \<open>
  \<^verbatim>\<open>dep/net.c\<close>: the two packet queues that the lwIP callbacks fill and the stack drains,
  opening and closing the sockets, receiving into the input buffer and sending from the
  output buffer.  \<open>bounded_fifo\<close> is the contract of a queue; the ring buffer of the code is its
  interpretation.
\<close>

subsection \<open>The packet queue\<close>

definition netQInit :: "BufQueue \<Rightarrow> BufQueue" where
  "netQInit q = q\<lparr>q_get := 0, q_put := 0, q_count := 0\<rparr>"

definition netQPut :: "BufQueue \<Rightarrow> pbuf \<Rightarrow> Boolean \<times> BufQueue" where
  "netQPut q p =
    (if q_count q \<ge> PBUF_QUEUE_SIZE then (False, q)
     else (True, q\<lparr>q_pbuf := (q_pbuf q)[nat (q_put q) := Some p],
                   q_put := (q_put q + 1) smod PBUF_QUEUE_SIZE,
                   q_count := q_count q + 1\<rparr>))"

definition netQGet :: "BufQueue \<Rightarrow> pbuf option \<times> BufQueue" where
  "netQGet q =
    (if q_count q = 0 then (None, q)
     else (q_pbuf q ! nat (q_get q),
           q\<lparr>q_get := (q_get q + 1) smod PBUF_QUEUE_SIZE, q_count := q_count q - 1\<rparr>))"

text \<open>The loop of \<^verbatim>\<open>netQEmpty\<close>, with the buffers it frees.\<close>

fun netQEmptyLoop :: "nat \<Rightarrow> BufQueue \<Rightarrow> BufQueue \<times> nat list" where
  "netQEmptyLoop 0 q = (q, [])"
| "netQEmptyLoop (Suc cnt) q =
    (let (p, q) = netQGet q; (q', freed) = netQEmptyLoop cnt q
     in (q', (case p of None \<Rightarrow> freed | Some p \<Rightarrow> pb_id p # freed)))"

definition netQEmpty :: "BufQueue \<Rightarrow> BufQueue \<times> nat list" where
  "netQEmpty q = netQEmptyLoop (nat (q_count q)) q"

definition netQCheck :: "BufQueue \<Rightarrow> Boolean" where
  "netQCheck q \<longleftrightarrow> q_count q \<noteq> 0"

subsection \<open>Receive callbacks\<close>

definition netRecvEventCallback :: "pbuf \<Rightarrow> clock \<Rightarrow> clock" where
  "netRecvEventCallback p c =
    (let (ok, q) = netQPut (eventQ (netPath c)) p;
         c = c\<lparr>netPath := (netPath c)\<lparr>eventQ := q\<rparr>\<rparr>
     in if \<not> ok then emit (PbufFree (pb_id p)) c else c)"

definition netRecvGeneralCallback :: "pbuf \<Rightarrow> clock \<Rightarrow> clock" where
  "netRecvGeneralCallback p c =
    (let (ok, q) = netQPut (generalQ (netPath c)) p;
         c = c\<lparr>netPath := (netPath c)\<lparr>generalQ := q\<rparr>\<rparr>
     in if \<not> ok then emit (PbufFree (pb_id p)) c else c)"

subsection \<open>Opening and closing the sockets\<close>

text \<open>\<^verbatim>\<open>udp_new\<close> and \<^verbatim>\<open>udp_remove\<close> of lwIP, as far as the code sees them.\<close>

definition udp_new :: "clock \<Rightarrow> nat option \<times> clock" where
  "udp_new c =
    (let n = udp_n c; c' = c\<lparr>udp_n := n + 1\<rparr>
     in if udp_new_ok c n then (Some n, c'\<lparr>udp_live := n # udp_live c\<rparr>) else (None, c'))"

definition udp_remove :: "nat option \<Rightarrow> clock \<Rightarrow> clock" where
  "udp_remove pcb c =
    (case pcb of
       Some n \<Rightarrow> if n \<in> set (udp_live c) then c\<lparr>udp_live := removeAll n (udp_live c)\<rparr>
                 else c\<lparr>udp_fault := True\<rparr>
     | None \<Rightarrow> c\<lparr>udp_fault := True\<rparr>)"

definition netShutdown :: "clock \<Rightarrow> clock" where
  "netShutdown c =
    (let c = emit (IgmpLeave (multicastAddr (netPath c))) c;
         c = (if eventPcb (netPath c) \<noteq> None
              then (let c = udp_remove (eventPcb (netPath c)) c
                    in c\<lparr>netPath := (netPath c)\<lparr>eventPcb := None\<rparr>\<rparr>) else c);
         c = (if generalPcb (netPath c) \<noteq> None
              then (let c = udp_remove (generalPcb (netPath c)) c
                    in c\<lparr>netPath := (netPath c)\<lparr>generalPcb := None\<rparr>\<rparr>) else c)
     in c\<lparr>netPath := (netPath c)\<lparr>multicastAddr := 0, unicastAddr := 0\<rparr>\<rparr>)"

definition findIface :: "clock \<Rightarrow> UInteger32 \<times> clock" where
  "findIface c = (netif_ip c, c\<lparr>portUuidField := put_bytes (portUuidField c) 0 (netif_hwaddr c)\<rparr>)"

definition netInit :: "clock \<Rightarrow> Boolean \<times> clock" where
  "netInit c =
    (let (ip, c) = findIface c
     in if ip = 0 then (False, c)
     else let (ev, c) = udp_new c; c = c\<lparr>netPath := (netPath c)\<lparr>eventPcb := ev\<rparr>\<rparr>
     in if ev = None then (False, c)
     else let (ge, c) = udp_new c; c = c\<lparr>netPath := (netPath c)\<lparr>generalPcb := ge\<rparr>\<rparr>
     in if ge = None then (False, udp_remove (eventPcb (netPath c)) c)
     else let c = c\<lparr>netPath := (netPath c)\<lparr>eventQ := netQInit (eventQ (netPath c)),
                                          generalQ := netQInit (generalQ (netPath c)),
                                          unicastAddr := 0\<rparr>\<rparr>
     in case aton_default c of
          None \<Rightarrow> (False, udp_remove (eventPcb (netPath c)) (udp_remove (generalPcb (netPath c)) c))
        | Some a \<Rightarrow>
     let c = emit (IgmpJoin a) (c\<lparr>netPath := (netPath c)\<lparr>multicastAddr := a\<rparr>\<rparr>)
     in case aton_peer c of
          None \<Rightarrow> (False, udp_remove (eventPcb (netPath c)) (udp_remove (generalPcb (netPath c)) c))
        | Some a \<Rightarrow> (True, emit (IgmpJoin a) (c\<lparr>netPath := (netPath c)\<lparr>peerMulticastAddr := a\<rparr>\<rparr>)))"

subsection \<open>Receiving\<close>

definition netSelect :: "'a PtpClock_scheme \<Rightarrow> Integer32" where
  "netSelect c = (if netQCheck (eventQ (netPath c)) \<or> netQCheck (generalQ (netPath c)) then 1 else 0)"

definition netEmptyEventQ :: "clock \<Rightarrow> clock" where
  "netEmptyEventQ c =
    (let (q, freed) = netQEmpty (eventQ (netPath c))
     in c\<lparr>netPath := (netPath c)\<lparr>eventQ := q\<rparr>,
          outputs := rev (map PbufFree freed) @ outputs c\<rparr>)"

text \<open>
  The copy loop of \<^verbatim>\<open>netRecv\<close>: \<open>n\<close> bytes to go from position \<open>j\<close> of the first buffer of the
  chain to position \<open>i\<close> of \<open>buf\<close>; \<open>None\<close> when the walk leaves the chain or a buffer.
\<close>

fun copyChain :: "nat \<Rightarrow> Octet list list \<Rightarrow> nat \<Rightarrow> Octet list \<Rightarrow> nat \<Rightarrow> Octet list option" where
  "copyChain 0 chain j buf i = Some buf"
| "copyChain (Suc n) [] j buf i = None"
| "copyChain (Suc n) (p # chain) j buf i =
    (if j < length p \<and> i < length buf then
       (let buf = buf[i := p ! j]; j = j + 1
        in if j = length p then copyChain n chain 0 buf (i + 1)
           else copyChain n (p # chain) j buf (i + 1))
     else None)"

text \<open>The result: length, buffer, time, queue, the pbuf freed, and whether the copy went wrong.\<close>

definition netRecv ::
  "Octet list \<Rightarrow> TimeInternal \<Rightarrow> BufQueue \<Rightarrow> int \<times> Octet list \<times> TimeInternal \<times> BufQueue \<times> nat option \<times> bool"
where
  "netRecv buf t q =
    (case netQGet q of
       (None, q) \<Rightarrow> (0, buf, t, q, None, False)
     | (Some p, q) \<Rightarrow>
         if tot_len p > int PACKET_SIZE then (0, buf, t, q, None, False)
         else
           let t = \<lparr>seconds = time_sec p, nanoseconds = time_nsec p\<rparr>;
               len = tot_len p
           in case copyChain (nat len) (payloads p) 0 buf 0 of
                Some buf \<Rightarrow> (len, buf, t, q, Some (pb_id p), False)
              | None \<Rightarrow> (len, buf, t, q, Some (pb_id p), True))"

definition netRecvEvent :: "TimeInternal \<Rightarrow> clock \<Rightarrow> int \<times> TimeInternal \<times> clock" where
  "netRecvEvent t c =
    (let (len, buf, t, q, freed, bad) = netRecv (msgIbuf c) t (eventQ (netPath c));
         c = c\<lparr>msgIbuf := buf, netPath := (netPath c)\<lparr>eventQ := q\<rparr>, overrun := overrun c \<or> bad\<rparr>
     in (len, t, case freed of None \<Rightarrow> c | Some n \<Rightarrow> emit (PbufFree n) c))"

definition netRecvGeneral :: "TimeInternal \<Rightarrow> clock \<Rightarrow> int \<times> TimeInternal \<times> clock" where
  "netRecvGeneral t c =
    (let (len, buf, t, q, freed, bad) = netRecv (msgIbuf c) t (generalQ (netPath c));
         c = c\<lparr>msgIbuf := buf, netPath := (netPath c)\<lparr>generalQ := q\<rparr>, overrun := overrun c \<or> bad\<rparr>
     in (len, t, case freed of None \<Rightarrow> c | Some n \<Rightarrow> emit (PbufFree n) c))"

subsection \<open>Sending\<close>

text \<open>
  \<open>tm\<close> is the time argument, \<open>None\<close> for a \<^verbatim>\<open>NULL\<close> pointer; the first result is what the
  function returns.
\<close>

definition netSend ::
  "Mcast \<Rightarrow> nat \<Rightarrow> Octet list \<Rightarrow> UInteger16 \<Rightarrow> TimeInternal option \<Rightarrow> clock
    \<Rightarrow> int \<times> TimeInternal option \<times> clock" where
  "netSend addr port buf len tm c =
    (let r = tx_results c (tx_n c);
         c = c\<lparr>tx_n := tx_n c + 1\<rparr>;
         msg = take (unat len) buf
     in if \<not> alloc_ok r then (uint len, tm, emit (SendFailed addr port msg) c)
        else if \<not> take_ok r then (uint len, tm, emit (SendFailed addr port msg) c)
        else if \<not> sendto_ok r then (uint len, tm, emit (SendFailed addr port msg) c)
        else (uint len, (case tm of None \<Rightarrow> None | Some _ \<Rightarrow> Some (tx_time r)),
              emit (Sent addr port msg) c))"

definition netSendEvent :: "Octet list \<Rightarrow> UInteger16 \<Rightarrow> TimeInternal \<Rightarrow> clock \<Rightarrow> int \<times> TimeInternal \<times> clock" where
  "netSendEvent buf len tm c =
    (let (r, tm', c) = netSend DefaultGroup PTP_EVENT_PORT buf len (Some tm) c in (r, the tm', c))"

definition netSendGeneral :: "Octet list \<Rightarrow> UInteger16 \<Rightarrow> clock \<Rightarrow> int \<times> clock" where
  "netSendGeneral buf len c =
    (let (r, tm', c) = netSend DefaultGroup PTP_GENERAL_PORT buf len None c in (r, c))"

definition netSendPeerGeneral :: "Octet list \<Rightarrow> UInteger16 \<Rightarrow> clock \<Rightarrow> int \<times> clock" where
  "netSendPeerGeneral buf len c =
    (let (r, tm', c) = netSend PeerGroup PTP_GENERAL_PORT buf len None c in (r, c))"

definition netSendPeerEvent :: "Octet list \<Rightarrow> UInteger16 \<Rightarrow> TimeInternal \<Rightarrow> clock \<Rightarrow> int \<times> TimeInternal \<times> clock" where
  "netSendPeerEvent buf len tm c =
    (let (r, tm', c) = netSend PeerGroup PTP_EVENT_PORT buf len (Some tm) c in (r, the tm', c))"

subsection \<open>The contract of a bounded queue\<close>

locale bounded_fifo =
  fixes ok :: "'q \<Rightarrow> bool"
    and contents :: "'q \<Rightarrow> 'e list"
    and cap :: nat
    and init :: "'q \<Rightarrow> 'q"
    and put :: "'q \<Rightarrow> 'e \<Rightarrow> bool \<times> 'q"
    and get :: "'q \<Rightarrow> 'e option \<times> 'q"
  assumes init_law: "ok q \<Longrightarrow> ok (init q) \<and> contents (init q) = []"
    and bound: "ok q \<Longrightarrow> length (contents q) \<le> cap"
    and put_room: "ok q \<Longrightarrow> length (contents q) < cap \<Longrightarrow>
      fst (put q e) \<and> ok (snd (put q e)) \<and> contents (snd (put q e)) = contents q @ [e]"
    and put_full: "ok q \<Longrightarrow> length (contents q) = cap \<Longrightarrow> put q e = (False, q)"
    and get_empty: "ok q \<Longrightarrow> contents q = [] \<Longrightarrow> get q = (None, q)"
    and get_cons: "ok q \<Longrightarrow> contents q = x # xs \<Longrightarrow>
      fst (get q) = Some x \<and> ok (snd (get q)) \<and> contents (snd (get q)) = xs"
begin

lemma ok_put: "ok q \<Longrightarrow> ok (snd (put q e))"
  using put_room [of q e] put_full [of q e] bound [of q] by (cases "length (contents q) = cap") auto

lemma ok_get: "ok q \<Longrightarrow> ok (snd (get q))"
  using get_empty [of q] get_cons [of q] by (cases "contents q") auto

end

text \<open>Such a queue is a polled queue that accepts every element.\<close>

sublocale bounded_fifo \<subseteq> polled: polled_queue "\<lambda>xs q. ok q \<and> contents q = xs" cap "\<lambda>_. True" "\<lambda>_. True"
  "\<lambda>x q. snd (put q x)" "\<lambda>(_ :: unit). get" "\<lambda>_. Some"
proof unfold_locales
  fix xs q x assume q: "ok q \<and> contents q = xs" and "\<not> length xs < cap"
  then have "length (contents q) = cap" using bound [of q] by simp
  then show "ok (snd (put q x)) \<and> contents (snd (put q x)) = xs" using q put_full by simp
qed (auto simp: put_room get_empty get_cons)

definition wf_queue :: "BufQueue \<Rightarrow> bool" where
  "wf_queue q \<longleftrightarrow> length (q_pbuf q) = 4 \<and> 0 \<le> q_get q \<and> q_get q < 4 \<and> 0 \<le> q_count q \<and> q_count q \<le> 4
     \<and> q_put q = (q_get q + q_count q) mod 4
     \<and> (\<forall>k. 0 \<le> k \<and> k < q_count q \<longrightarrow> q_pbuf q ! nat ((q_get q + k) mod 4) \<noteq> None)"

definition queued :: "BufQueue \<Rightarrow> pbuf list" where
  "queued q = map (\<lambda>k. the (q_pbuf q ! nat ((q_get q + int k) mod 4))) [0..<nat (q_count q)]"

lemma length_queued [simp]: "length (queued q) = nat (q_count q)"
  by (simp add: queued_def)

lemma queued_Nil_iff: "wf_queue q \<Longrightarrow> queued q = [] \<longleftrightarrow> q_count q = 0"
  using length_queued [of q] by (auto simp: wf_queue_def simp del: length_queued)

lemma ring_slots: "0 \<le> k \<Longrightarrow> k \<le> c \<Longrightarrow> c < 4 \<Longrightarrow> (g + k) mod 4 = (g + c) mod 4 \<longleftrightarrow> k = c"
  for k c g :: int
  using zdvd_not_zless [of "c - k" 4] by (cases "k = c") (auto simp: mod_eq_dvd_iff dvd_diff_commute [of 4 k])

lemma netQPut_room:
  assumes "wf_queue q" and "length (queued q) < 4"
  shows "fst (netQPut q p) \<and> wf_queue (snd (netQPut q p)) \<and> queued (snd (netQPut q p)) = queued q @ [p]"
proof -
  have c: "0 \<le> q_count q" "q_count q < 4" and g: "0 \<le> q_get q" "q_get q < 4"
    and l: "length (q_pbuf q) = 4" and pt: "q_put q = (q_get q + q_count q) mod 4"
    using assms by (auto simp: wf_queue_def)
  define q' where "q' = q\<lparr>q_pbuf := (q_pbuf q)[nat (q_put q) := Some p],
                   q_put := (q_put q + 1) mod 4, q_count := q_count q + 1\<rparr>"
  have put: "netQPut q p = (True, q')"
    using c pt by (simp add: netQPut_def q'_def PBUF_QUEUE_SIZE_def smod_pos)
  have slot: "q_pbuf q' ! nat ((q_get q + k) mod 4)
      = (if k = q_count q then Some p else q_pbuf q ! nat ((q_get q + k) mod 4))"
    if "0 \<le> k" "k \<le> q_count q" for k
  proof -
    have "(q_get q + k) mod 4 = (q_get q + q_count q) mod 4 \<longleftrightarrow> k = q_count q"
      using that c by (intro ring_slots)
    then have "nat ((q_get q + k) mod 4) = nat (q_put q) \<longleftrightarrow> k = q_count q"
      unfolding pt by (simp add: eq_nat_nat_iff)
    moreover have "nat (q_put q) < length (q_pbuf q)" unfolding pt l by simp
    ultimately show ?thesis by (auto simp: q'_def)
  qed
  have "wf_queue q'"
  proof -
    have "q_pbuf q' ! nat ((q_get q' + k) mod 4) \<noteq> None" if "0 \<le> k \<and> k < q_count q'" for k
    proof -
      have k: "0 \<le> k" "k \<le> q_count q" using that by (simp_all add: q'_def)
      have "k \<noteq> q_count q \<Longrightarrow> q_pbuf q ! nat ((q_get q + k) mod 4) \<noteq> None"
        using assms(1) k unfolding wf_queue_def by simp
      then show ?thesis using slot [OF k] by (simp add: q'_def)
    qed
    moreover have "q_put q' = (q_get q' + q_count q') mod 4"
      using pt by (simp add: q'_def mod_simps algebra_simps)
    ultimately show ?thesis
      using c g l unfolding wf_queue_def by (simp add: q'_def)
  qed
  moreover have "queued q' = queued q @ [p]"
  proof -
    have "nat (q_count q') = Suc (nat (q_count q))" using c by (simp add: q'_def)
    moreover have "q_get q' = q_get q" by (simp add: q'_def)
    moreover have "k \<in> set [0..<nat (q_count q)] \<Longrightarrow>
        q_pbuf q' ! nat ((q_get q + int k) mod 4) = q_pbuf q ! nat ((q_get q + int k) mod 4)" for k
      using slot [of "int k"] by auto
    ultimately show ?thesis
      using slot [of "q_count q"] c by (simp add: queued_def)
  qed
  ultimately show ?thesis by (simp add: put)
qed

lemma netQPut_full: "wf_queue q \<Longrightarrow> length (queued q) = 4 \<Longrightarrow> netQPut q p = (False, q)"
  by (auto simp: netQPut_def PBUF_QUEUE_SIZE_def wf_queue_def)

lemma netQGet_empty: "wf_queue q \<Longrightarrow> queued q = [] \<Longrightarrow> netQGet q = (None, q)"
  by (simp add: queued_Nil_iff netQGet_def)

lemma netQGet_cons:
  assumes "wf_queue q" and "queued q = x # xs"
  shows "fst (netQGet q) = Some x \<and> wf_queue (snd (netQGet q)) \<and> queued (snd (netQGet q)) = xs"
proof -
  have c: "0 < q_count q" "q_count q \<le> 4" and g: "0 \<le> q_get q" "q_get q < 4"
    using assms queued_Nil_iff [OF assms(1)] by (auto simp: wf_queue_def)
  obtain n where n: "nat (q_count q) = Suc n" using c by (cases "nat (q_count q)") auto
  define q' where "q' = q\<lparr>q_get := (q_get q + 1) mod 4, q_count := q_count q - 1\<rparr>"
  have get: "netQGet q = (q_pbuf q ! nat (q_get q), q')"
    using c g by (simp add: netQGet_def q'_def PBUF_QUEUE_SIZE_def smod_pos)
  have shift: "(q_get q' + k) mod 4 = (q_get q + (k + 1)) mod 4" for k
    by (simp add: q'_def mod_simps algebra_simps)
  have q: "queued q = the (q_pbuf q ! nat (q_get q)) # queued q'"
  proof -
    have "nat (q_count q') = n" using n c by (simp add: q'_def)
    then show ?thesis
      using g by (simp add: queued_def n upt_conv_Cons map_Suc_upt [symmetric] shift del: upt_Suc)
        (simp add: q'_def algebra_simps)
  qed
  have "q_pbuf q ! nat (q_get q) \<noteq> None"
    using assms(1) c g unfolding wf_queue_def by (metis add.right_neutral mod_pos_pos_trivial order_refl)
  moreover have "wf_queue q'"
  proof -
    have "q_pbuf q' ! nat ((q_get q' + k) mod 4) \<noteq> None" if "0 \<le> k \<and> k < q_count q'" for k
    proof -
      have "0 \<le> k + 1 \<and> k + 1 < q_count q" using that by (simp add: q'_def)
      then have "q_pbuf q ! nat ((q_get q + (k + 1)) mod 4) \<noteq> None"
        using assms(1) unfolding wf_queue_def by blast
      then show ?thesis unfolding shift by (simp add: q'_def)
    qed
    moreover have "q_put q' = (q_get q' + q_count q') mod 4"
      using assms(1) by (simp add: shift wf_queue_def) (simp add: q'_def wf_queue_def)
    ultimately show ?thesis
      using assms(1) c unfolding wf_queue_def by (simp add: q'_def)
  qed
  ultimately show ?thesis using q assms(2) by (auto simp: get)
qed

interpretation netQ: bounded_fifo wf_queue queued 4 netQInit netQPut netQGet
proof unfold_locales
  fix q :: BufQueue assume q: "wf_queue q"
  then show "wf_queue (netQInit q) \<and> queued (netQInit q) = []"
    by (auto simp: wf_queue_def netQInit_def queued_def)
  show "length (queued q) \<le> 4" using q by (auto simp: wf_queue_def)
qed (simp_all add: netQPut_room netQPut_full netQGet_empty netQGet_cons)

text \<open>C23: the ring buffer is a bounded first-in first-out queue: after \<^verbatim>\<open>netQInit\<close>, however puts and
  gets are interleaved, the packets that come out are those of a list of at most four elements
  that takes at its end and gives from its front, and a packet offered to a full queue is refused and changes nothing.\<close>

theorem netQ_fifo:
  assumes "wf_queue q"
  shows "fst (fifo_run (\<lambda>p q. snd (netQPut q p)) (\<lambda>(_ :: unit). netQGet) es (netQInit q))
      = fst (fifo_spec 4 (\<lambda>_. True) (\<lambda>_. Some) es [])
    \<and> wf_queue (snd (netQPut q p)) \<and> wf_queue (snd (netQGet q))
    \<and> (fst (netQPut q p) \<longleftrightarrow> length (queued q) < 4)
    \<and> queued (snd (netQPut q p)) = (if length (queued q) < 4 then queued q @ [p] else queued q)
    \<and> fst (netQGet q) = (case queued q of [] \<Rightarrow> None | x # xs \<Rightarrow> Some x)
    \<and> queued (snd (netQGet q)) = tl (queued q)"
proof (intro conjI)
  have b: "length (queued q) \<le> 4" by (rule netQ.bound [OF assms])
  show "fst (fifo_run (\<lambda>p q. snd (netQPut q p)) (\<lambda>(_ :: unit). netQGet) es (netQInit q))
      = fst (fifo_spec 4 (\<lambda>_. True) (\<lambda>_. Some) es [])"
    using netQ.polled.run_refines [where q = "[]" and s = "netQInit q" and es = es] netQ.init_law [OF assms] by simp
  show "wf_queue (snd (netQPut q p))" "wf_queue (snd (netQGet q))"
    by (rule netQ.ok_put [OF assms], rule netQ.ok_get [OF assms])
  show "fst (netQPut q p) \<longleftrightarrow> length (queued q) < 4"
    "queued (snd (netQPut q p)) = (if length (queued q) < 4 then queued q @ [p] else queued q)"
    using netQPut_room [OF assms] netQPut_full [OF assms] b
    by (cases "length (queued q) < 4"; simp add: not_less)+
  show "fst (netQGet q) = (case queued q of [] \<Rightarrow> None | x # xs \<Rightarrow> Some x)"
    "queued (snd (netQGet q)) = tl (queued q)"
    using netQGet_empty [OF assms] netQGet_cons [OF assms] by (cases "queued q"; simp)+
qed

definition sample_pbuf :: "nat \<Rightarrow> Octet list list \<Rightarrow> pbuf" where
  "sample_pbuf n ps = \<lparr>pb_id = n, payloads = ps, time_sec = 50, time_nsec = 7\<rparr>"

lemma wf_queue_zero: "wf_queue BufQueue_zero"
  by (auto simp: wf_queue_def zero_defs)

theorem netQ_fifo_witness:
  "fst (fifo_run (\<lambda>p q. snd (netQPut q p)) (\<lambda>(_ :: unit). netQGet)
     [Get (), Put (sample_pbuf 1 [[1]]), Put (sample_pbuf 2 [[2]]), Get (), Get ()] (netQInit BufQueue_zero))
   = [sample_pbuf 1 [[1]], sample_pbuf 2 [[2]]]"
  using netQ_fifo [OF wf_queue_zero, of "[Get (), Put (sample_pbuf 1 [[1]]), Put (sample_pbuf 2 [[2]]), Get (), Get ()]"]
  by simp

subsection \<open>Receiving\<close>

lemma copyChain_concat:
  "j < length p \<Longrightarrow> [] \<notin> set ps \<Longrightarrow> n = length (drop j p @ concat ps) \<Longrightarrow> i + n \<le> length buf \<Longrightarrow>
    copyChain n (p # ps) j buf i = Some (put_bytes buf i (drop j p @ concat ps))"
proof (induction n arbitrary: p ps j buf i)
  case 0
  then show ?case by simp
next
  case (Suc n)
  have d: "drop j p = p ! j # drop (Suc j) p" using Suc.prems(1) by (rule Cons_nth_drop_Suc [symmetric])
  have i: "i < length buf" using Suc.prems(4) by simp
  show ?case
  proof (cases "Suc j = length p")
    case False
    then show ?thesis
      using Suc.IH [of "Suc j" p ps "Suc i" "buf[i := p ! j]"] Suc.prems d i
      by (simp add: put_bytes.simps Let_def)
  next
    case True
    then have dj: "drop j p = [p ! j]" using d by simp
    show ?thesis
    proof (cases ps)
      case Nil
      then show ?thesis using Suc.prems True dj i by (simp add: put_bytes.simps Let_def)
    next
      case (Cons p' ps')
      then show ?thesis
        using Suc.IH [of 0 p' ps' "Suc i" "buf[i := p ! j]"] Suc.prems True dj i
        by (auto simp: put_bytes.simps Let_def)
    qed
  qed
qed

lemma netRecv_spec_lemma:
  assumes "wf_queue q" and "length buf = PACKET_SIZE"
    and "\<forall>p\<in>set (queued q). [] \<notin> set (payloads p)"
  shows "case queued q of
      [] \<Rightarrow> netRecv buf t q = (0, buf, t, q, None, False)
    | p # ps \<Rightarrow> \<exists>q'. wf_queue q' \<and> queued q' = ps \<and> netRecv buf t q =
        (if length (concat (payloads p)) \<le> PACKET_SIZE
         then (int (length (concat (payloads p))), put_bytes buf 0 (concat (payloads p)),
               \<lparr>seconds = time_sec p, nanoseconds = time_nsec p\<rparr>, q', Some (pb_id p), False)
         else (0, buf, t, q', None, False))"
proof (cases "queued q")
  case Nil
  then show ?thesis using netQGet_empty [OF assms(1)] by (simp add: netRecv_def)
next
  case (Cons p ps)
  obtain q' where g: "netQGet q = (Some p, q')" "wf_queue q'" "queued q' = ps"
    using netQGet_cons [OF assms(1) Cons] by (cases "netQGet q") auto
  have "copyChain (length (concat (payloads p))) (payloads p) 0 buf 0
      = Some (put_bytes buf 0 (concat (payloads p)))" if "length (concat (payloads p)) \<le> PACKET_SIZE"
    using assms(2,3) Cons that copyChain_concat [of 0 "hd (payloads p)" "tl (payloads p)"]
    by (cases "payloads p") (auto simp: put_bytes.simps)
  then show ?thesis
    using g Cons by (auto simp: netRecv_def tot_len_def Let_def intro!: exI [of _ q'])
qed

text \<open>\<^verbatim>\<open>netRecv\<close> delivers the oldest packet: its payload chain, laid end to end, is copied to
  the start of the buffer and nothing else of the buffer changes, the receive timestamp is
  the one the driver took, the result is the length, and exactly this pbuf is freed; from an
  empty queue it returns 0.  A packet longer than the buffer is taken from the queue and
  dropped with result 0, like an empty queue, but it is never freed.\<close>

theorem netRecv_spec:
  assumes "wf_queue q" and "length buf = PACKET_SIZE"
    and "\<forall>p\<in>set (queued q). [] \<notin> set (payloads p)"
  shows "case queued q of
      [] \<Rightarrow> netRecv buf t q = (0, buf, t, q, None, False)
    | p # ps \<Rightarrow> \<exists>q'. wf_queue q' \<and> queued q' = ps \<and> netRecv buf t q =
        (if length (concat (payloads p)) \<le> PACKET_SIZE
         then (int (length (concat (payloads p))), put_bytes buf 0 (concat (payloads p)),
               \<lparr>seconds = time_sec p, nanoseconds = time_nsec p\<rparr>, q', Some (pb_id p), False)
         else (0, buf, t, q', None, False))"
  using assms by (rule netRecv_spec_lemma)

text \<open>A one-entry queue holding a chain of two buffers.\<close>

definition one_packet :: BufQueue where
  "one_packet = \<lparr>q_pbuf = [Some (sample_pbuf 3 [[1, 2], [3]]), None, None, None],
     q_get = 0, q_put = 1, q_count = 1\<rparr>"

lemma one_packet_simps: "wf_queue one_packet" "queued one_packet = [sample_pbuf 3 [[1, 2], [3]]]"
proof -
  show "wf_queue one_packet" by (auto simp: wf_queue_def one_packet_def)
  show "queued one_packet = [sample_pbuf 3 [[1, 2], [3]]]" by (simp add: queued_def one_packet_def)
qed

subsection \<open>Sending\<close>

text \<open>\<^verbatim>\<open>netSend\<close> reports success whatever happens: each of its four entry points returns
  the length it was given even when no buffer could be allocated, filled or sent, in which case
  nothing goes out and the time argument keeps its old value.  The callers' tests for a result
  of 0 never succeed.\<close>

theorem netSend_always_reports_length:
  "fst (netSendEvent buf len t c) = uint len \<and> fst (netSendGeneral buf len c) = uint len
    \<and> fst (netSendPeerEvent buf len t c) = uint len \<and> fst (netSendPeerGeneral buf len c) = uint len
    \<and> (\<not> (alloc_ok (tx_results c (tx_n c)) \<and> take_ok (tx_results c (tx_n c)) \<and> sendto_ok (tx_results c (tx_n c)))
       \<longrightarrow> fst (snd (netSendEvent buf len t c)) = t
         \<and> outputs (snd (snd (netSendEvent buf len t c)))
           = SendFailed DefaultGroup PTP_EVENT_PORT (take (unat len) buf) # outputs c)"
  by (simp add: netSendEvent_def netSendGeneral_def netSendPeerEvent_def netSendPeerGeneral_def
      netSend_def emit_def Let_def)

subsection \<open>Opening and closing\<close>

lemma emit_simps [simp]:
  "netPath (emit x c) = netPath c" "udp_live (emit x c) = udp_live c" "udp_fault (emit x c) = udp_fault c"
  "aton_peer (emit x c) = aton_peer c" "udp_n (emit x c) = udp_n c" "udp_new_ok (emit x c) = udp_new_ok c"
  "netif_ip (emit x c) = netif_ip c" "aton_default (emit x c) = aton_default c"
  by (simp_all add: emit_def)

lemma udp_remove_simps [simp]:
  "netPath (udp_remove pcb c) = netPath c" "udp_n (udp_remove pcb c) = udp_n c"
  by (simp_all add: udp_remove_def split: option.splits)

text \<open>The block of a socket that is open is live, and the next block is a new one.\<close>

definition wf_pcbs :: "clock \<Rightarrow> bool" where
  "wf_pcbs c \<longleftrightarrow> (\<forall>n. eventPcb (netPath c) = Some n \<or> generalPcb (netPath c) = Some n \<longrightarrow> n \<in> set (udp_live c))
     \<and> (eventPcb (netPath c) \<noteq> None \<longrightarrow> eventPcb (netPath c) \<noteq> generalPcb (netPath c))
     \<and> (\<forall>n\<in>set (udp_live c). n < udp_n c) \<and> \<not> udp_fault c"

text \<open>closing and opening the sockets.  With both blocks live \<^verbatim>\<open>netShutdown\<close> removes each
  once; \<^verbatim>\<open>netInit\<close> succeeds exactly when the interface has an address, both blocks are
  granted and both group addresses parse, and then both sockets are open on live blocks and
  both queues are empty.\<close>

theorem netInit_netShutdown_spec:
  assumes "wf_pcbs c"
  shows "wf_pcbs (netShutdown c) \<and> eventPcb (netPath (netShutdown c)) = None
      \<and> generalPcb (netPath (netShutdown c)) = None
    \<and> (fst (netInit c) \<longleftrightarrow> netif_ip c \<noteq> 0 \<and> udp_new_ok c (udp_n c) \<and> udp_new_ok c (udp_n c + 1)
        \<and> aton_default c \<noteq> None \<and> aton_peer c \<noteq> None)
    \<and> (fst (netInit c) \<longrightarrow> wf_pcbs (snd (netInit c)) \<and> eventPcb (netPath (snd (netInit c))) \<noteq> None
        \<and> generalPcb (netPath (snd (netInit c))) \<noteq> None
        \<and> netSelect (snd (netInit c)) = 0)"
proof (intro conjI)
  show "wf_pcbs (netShutdown c)" "eventPcb (netPath (netShutdown c)) = None"
    "generalPcb (netPath (netShutdown c)) = None"
    using assms by (auto simp: netShutdown_def wf_pcbs_def Let_def udp_remove_def emit_def)
  show "fst (netInit c) \<longleftrightarrow> netif_ip c \<noteq> 0 \<and> udp_new_ok c (udp_n c) \<and> udp_new_ok c (udp_n c + 1)
      \<and> aton_default c \<noteq> None \<and> aton_peer c \<noteq> None"
    by (auto simp: netInit_def findIface_def udp_new_def Let_def split: option.splits)
  show "fst (netInit c) \<longrightarrow> wf_pcbs (snd (netInit c)) \<and> eventPcb (netPath (snd (netInit c))) \<noteq> None
      \<and> generalPcb (netPath (snd (netInit c))) \<noteq> None \<and> netSelect (snd (netInit c)) = 0"
    using assms
    by (auto simp: netInit_def findIface_def udp_new_def Let_def wf_pcbs_def netSelect_def netQCheck_def
        netQInit_def emit_def split: option.splits)
qed

text \<open>a failed start frees a socket twice.  When the second \<^verbatim>\<open>udp_new\<close> of \<^verbatim>\<open>netInit\<close> fails, the
  first block is removed but stays in \<^verbatim>\<open>eventPcb\<close>, so the \<^verbatim>\<open>netShutdown\<close> of the next attempt
  removes it again.\<close>

theorem failed_netInit_double_remove:
  assumes "wf_pcbs c" and "netif_ip c \<noteq> 0" and "udp_new_ok c (udp_n c)" and "\<not> udp_new_ok c (udp_n c + 1)"
  shows "\<not> fst (netInit c) \<and> \<not> udp_fault (snd (netInit c)) \<and> udp_fault (netShutdown (snd (netInit c)))"
  using assms
  by (auto simp: netInit_def netShutdown_def findIface_def udp_new_def udp_remove_def Let_def wf_pcbs_def emit_def)

end
