(* ===== verification/Ptp_Sys.thy ===== *)
theory Ptp_Sys
  imports Ptp_World
begin

text \<open>
  \<^verbatim>\<open>dep/sys_time.c\<close> and the PTP clock of \<^verbatim>\<open>port/ethernetif.c\<close>: reading and setting the
  hardware time in seconds and binary sub-seconds, and steering its rate through the addend
  register.  A register read takes the next value of the stream; writes are outputs.  The
  loops that poll a status bit until the hardware clears it are not modelled.
\<close>

definition ETH_PTPSubSecond2NanoSecond :: "UInteger32 \<Rightarrow> UInteger32" where
  "ETH_PTPSubSecond2NanoSecond v = word_of_int ((uint v * 1000000000) div 2 ^ 31)"

definition ETH_PTPNanoSecond2SubSecond :: "UInteger32 \<Rightarrow> UInteger32" where
  "ETH_PTPNanoSecond2SubSecond v = word_of_int ((uint v * 0x80000000) div 1000000000)"

definition ADJ_FREQ_BASE_ADDEND :: int where "ADJ_FREQ_BASE_ADDEND = 0xB191D856"
definition ADJ_FREQ_BASE_INCREMENT :: int where "ADJ_FREQ_BASE_INCREMENT = 43"

text \<open>The low register is read before the high one.\<close>

definition ETH_PTPTime_GetTime :: "clock \<Rightarrow> TimeInternal \<times> clock" where
  "ETH_PTPTime_GetTime c =
    (let (lo, c) = hw_read c; (hi, c) = hw_read c
     in (\<lparr>seconds = i32 (uint hi), nanoseconds = i32 (uint (ETH_PTPSubSecond2NanoSecond lo))\<rparr>, c))"

definition ETH_PTPStart :: "bool \<Rightarrow> clock \<Rightarrow> clock" where
  "ETH_PTPStart fine c =
    (let c = emit (SetIncrement (word_of_int ADJ_FREQ_BASE_INCREMENT)) c;
         c = (if fine then emit (SetAddend (word_of_int ADJ_FREQ_BASE_ADDEND)) c else c)
     in emit (SetPtpTime True 0 0) c)"

definition freqAddend :: "int \<Rightarrow> UInteger32" where
  "freqAddend Adj =
    (let Adj = (if Adj > 5120000 then 5120000 else Adj);
         Adj = (if Adj < -5120000 then -5120000 else Adj)
     in word_of_int ((((275 * Adj) div 2 ^ 8) * (ADJ_FREQ_BASE_ADDEND div 2 ^ 24)) div 2 ^ 6
          + ADJ_FREQ_BASE_ADDEND))"

definition ETH_PTPTime_AdjFreq :: "int \<Rightarrow> clock \<Rightarrow> clock" where
  "ETH_PTPTime_AdjFreq Adj c = emit (SetAddend (freqAddend Adj)) c"

text \<open>Sign, seconds and sub-seconds of a time; the sign is positive for \<open>True\<close>.\<close>

definition signedParts :: "TimeInternal \<Rightarrow> bool \<times> UInteger32 \<times> UInteger32" where
  "signedParts t =
    (if seconds t < 0 \<or> (seconds t = 0 \<and> nanoseconds t < 0)
     then (False, word_of_int (- seconds t), word_of_int (- nanoseconds t))
     else (True, word_of_int (seconds t), word_of_int (nanoseconds t)))"

definition ETH_PTPTime_UpdateOffset :: "TimeInternal \<Rightarrow> clock \<Rightarrow> clock" where
  "ETH_PTPTime_UpdateOffset timeoffset c =
    (let (sign, sec, ns) = signedParts timeoffset;
         sub = ETH_PTPNanoSecond2SubSecond ns;
         (addend, c) = hw_read c;
         c = emit (UpdatePtpTime sign sec sub) c
     in emit (SetAddend addend) c)"

definition ETH_PTPTime_SetTime :: "TimeInternal \<Rightarrow> clock \<Rightarrow> clock" where
  "ETH_PTPTime_SetTime timestamp c =
    (let (sign, sec, ns) = signedParts timestamp;
         sub = ETH_PTPNanoSecond2SubSecond ns
     in emit (SetPtpTime sign sec sub) c)"

subsection \<open>sys.c\<close>

definition getTime :: "clock \<Rightarrow> TimeInternal \<times> clock" where
  "getTime c = ETH_PTPTime_GetTime c"

definition setTime :: "TimeInternal \<Rightarrow> clock \<Rightarrow> clock" where
  "setTime t c = ETH_PTPTime_SetTime t c"

definition updateTime :: "TimeInternal \<Rightarrow> clock \<Rightarrow> clock" where
  "updateTime t c =
    ETH_PTPTime_UpdateOffset \<lparr>seconds = i32 (- seconds t), nanoseconds = i32 (- nanoseconds t)\<rparr> c"

definition getRand :: "UInteger32 \<Rightarrow> clock \<Rightarrow> UInteger32 \<times> clock" where
  "getRand randMax c = (let (r, c) = c_rand c in (r mod randMax, c))"

definition adjFreq :: "Integer32 \<Rightarrow> clock \<Rightarrow> clock" where
  "adjFreq adj c =
    (let adj = (if adj > ADJ_FREQ_MAX then ADJ_FREQ_MAX
                else if adj < - ADJ_FREQ_MAX then - ADJ_FREQ_MAX else adj)
     in ETH_PTPTime_AdjFreq adj c)"

subsection \<open>Sub-seconds\<close>

text \<open>the conversion between nanoseconds and the \<open>2\<^sup>-\<^sup>3\<^sup>1\<close> second sub-seconds of the hardware:
  below a second both directions stay below a second, they round down, and writing a time and
  reading it back loses at most one nanosecond.\<close>

theorem subsecond_roundtrip:
  assumes "uint n < 1000000000"
  shows "uint (ETH_PTPNanoSecond2SubSecond n) < 2 ^ 31
    \<and> uint (ETH_PTPSubSecond2NanoSecond (ETH_PTPNanoSecond2SubSecond n)) \<le> uint n
    \<and> uint n \<le> uint (ETH_PTPSubSecond2NanoSecond (ETH_PTPNanoSecond2SubSecond n)) + 1"
proof -
  define s where "s = uint n * 2147483648 div 1000000000"
  have n: "0 \<le> uint n" by simp
  have s: "0 \<le> s" "s < 2147483648" "s * 1000000000 \<le> uint n * 2147483648"
    using assms n unfolding s_def by linarith+
  have s': "uint n * 2147483648 < s * 1000000000 + 1000000000"
    using pos_mod_bound [of 1000000000 "uint n * 2147483648"]
    by (simp add: s_def minus_mod_eq_div_mult [symmetric])
  have us: "uint (ETH_PTPNanoSecond2SubSecond n) = s"
    using s by (simp add: ETH_PTPNanoSecond2SubSecond_def s_def [symmetric] uint_word_of_int)
  define m where "m = s * 1000000000 div 2147483648"
  have m: "0 \<le> m" "m \<le> uint n" "uint n \<le> m + 1"
    using s s' n unfolding m_def by linarith+
  have "uint (ETH_PTPSubSecond2NanoSecond (ETH_PTPNanoSecond2SubSecond n)) = m"
    using m assms by (simp add: ETH_PTPSubSecond2NanoSecond_def us m_def [symmetric] uint_word_of_int)
  then show ?thesis using us m s by simp
qed

subsection \<open>The addend\<close>

lemma uint_word_small: "0 \<le> k \<Longrightarrow> k < 2 ^ 32 \<Longrightarrow> uint (word_of_int k :: 32 word) = k"
  by (simp add: uint_word_of_int)

text \<open>frequency steering: a request for 0 writes the nominal addend, the addend grows with
  the request, and within the limits of \<^verbatim>\<open>adjFreq\<close> it is the nominal value plus between 2.96
  and 2.98 units per thousandth of a ppm, with no wrap-around of the 32 bit register.\<close>

theorem freqAddend_linear:
  assumes "-512000 \<le> a" and "a \<le> b" and "b \<le> 512000"
  shows "freqAddend a \<le> freqAddend b \<and> uint (freqAddend 0) = ADJ_FREQ_BASE_ADDEND
    \<and> \<bar>100 * (uint (freqAddend b) - ADJ_FREQ_BASE_ADDEND) - 297 * b\<bar> \<le> \<bar>b\<bar> + 500"
proof -
  define f :: "int \<Rightarrow> int" where "f x = (275 * x) div 256 * 177 div 64" for x
  have mono: "f a \<le> f b"
    unfolding f_def using assms by (intro zdiv_mono1 mult_right_mono) auto
  have est: "100 * f x - 297 * x \<le> \<bar>x\<bar> + 500" "- (\<bar>x\<bar> + 500) \<le> 100 * f x - 297 * x" for x
    unfolding f_def by linarith+
  have range: "\<bar>f x\<bar> \<le> 1600000" if "-512000 \<le> x" "x \<le> 512000" for x
    using that unfolding f_def by linarith
  have u: "uint (freqAddend x) = f x + 2979125334" if "-512000 \<le> x" "x \<le> 512000" for x
  proof -
    have "freqAddend x = word_of_int (f x + 2979125334)"
      using that by (simp add: freqAddend_def f_def ADJ_FREQ_BASE_ADDEND_def)
    moreover have "0 \<le> f x + 2979125334" "f x + 2979125334 < 2 ^ 32"
      using range [OF that] by auto
    ultimately show ?thesis by (simp only: uint_word_small)
  qed
  show ?thesis
    using mono est [of b] u [of a] u [of b] u [of 0] assms
    by (simp add: word_le_def ADJ_FREQ_BASE_ADDEND_def) (simp add: f_def abs_le_iff)
qed

lemma adjFreq_outputs:
  "outputs (adjFreq adj c) = SetAddend (freqAddend (max (- 512000) (min 512000 adj))) # outputs c"
  by (simp add: adjFreq_def ETH_PTPTime_AdjFreq_def emit_def ADJ_FREQ_MAX_def Let_def min_def max_def)

end
