(* ===== verification/Ptp_Servo.thy ===== *)
theory Ptp_Servo
  imports Ptp_Arith Ptp_Net Ptp_Sys
begin

text \<open>
  \<^verbatim>\<open>dep/servo.c\<close>: the clock servo.  Offset and delay are computed from the four
  timestamps, smoothed by an exponential filter in integer arithmetic, and turned by a PI
  controller into a frequency adjustment, or, when the offset is too large, into a step of the
  clock.  \<open>DEFAULT_PARENTS_STATS\<close> is a compile-time switch that is off in this build.
\<close>

definition DEFAULT_PARENTS_STATS :: bool where "DEFAULT_PARENTS_STATS = False"

definition initClock :: "clock \<Rightarrow> clock" where
  "initClock c =
    (let c = c\<lparr>Tms := \<lparr>seconds = 0, nanoseconds = 0\<rparr>, observedDrift := 0\<rparr>;
         c = c\<lparr>owd_filt := (owd_filt c)\<lparr>fn := 0, fs := sDelay (servo c)\<rparr>\<rparr>;
         c = c\<lparr>ofm_filt := (ofm_filt c)\<lparr>fn := 0, fs := sOffset (servo c)\<rparr>\<rparr>;
         c = (if DEFAULT_PARENTS_STATS
              then c\<lparr>slv_filt := (slv_filt c)\<lparr>fn := 0, fs := 6\<rparr>, offsetHistory := [0, 0]\<rparr> else c);
         c = c\<lparr>waitingForFollowUp := False, waitingForPDelayRespFollowUp := False\<rparr>;
         z = \<lparr>seconds = 0, nanoseconds = 0\<rparr>;
         c = c\<lparr>pdelay_t1 := z, pdelay_t2 := z, pdelay_t3 := z, pdelay_t4 := z\<rparr>;
         c = c\<lparr>parentDS := (parentDS c)\<lparr>parentStats := False,
               observedParentClockPhaseChangeRate := 0,
               observedParentOffsetScaledLogVariance := 0\<rparr>\<rparr>;
         c = (if \<not> noAdjust (servo c) then adjFreq 0 c else c)
     in netEmptyEventQ c)"

definition order :: "Integer32 \<Rightarrow> Integer32" where
  "order n =
    (let n = (if n < 0 then i32 (- n) else n)
     in if n = 0 then 0 else floorLog2 (word_of_int n))"

definition filter_ptp :: "Integer32 \<Rightarrow> Filter \<Rightarrow> Integer32 \<times> Filter" where
  "filter_ptp nsec_current filt =
    (let filt = filt\<lparr>fn := i32 (fn filt + 1)\<rparr>;
         filt = (if fn filt = 1
                 then filt\<lparr>y_prev := nsec_current, y_sum := nsec_current, s_prev := 0\<rparr> else filt);
         s = fs filt;
         (s, filt) = (if lsl32 1 s > fn filt then (order (fn filt), filt)
                      else (s, filt\<lparr>fn := lsl32 1 s\<rparr>));
         s2 = 30 - order (max_i32 (y_prev filt) nsec_current);
         s = min_i32 s s2;
         filt = (if s_prev filt > s
                 then filt\<lparr>y_sum := asr32 (y_sum filt) (s_prev filt - s)\<rparr>
                 else if s_prev filt < s
                 then filt\<lparr>y_sum := lsl32 (y_sum filt) (s - s_prev filt)\<rparr>
                 else filt);
         filt = filt\<lparr>y_sum := i32 (y_sum filt + i32 (nsec_current - y_prev filt))\<rparr>;
         filt = filt\<lparr>y_prev := asr32 (y_sum filt) s\<rparr>;
         filt = filt\<lparr>s_prev := i16 s\<rparr>
     in (y_prev filt, filt))"

text \<open>The first half of \<^verbatim>\<open>updateOffset\<close>: the raw offset from master.\<close>

definition computeOffset ::
  "'a PtpClock_scheme \<Rightarrow> TimeInternal \<Rightarrow> TimeInternal \<Rightarrow> TimeInternal \<Rightarrow> 'a PtpClock_scheme" where
  "computeOffset c syncEventIngressTimestamp preciseTime correctionField =
    (let c = c\<lparr>Tms := subTime syncEventIngressTimestamp preciseTime\<rparr>;
         c = c\<lparr>Tms := subTime (Tms c) correctionField\<rparr>;
         c = c\<lparr>currentDS := (currentDS c)\<lparr>offsetFromMaster := Tms c\<rparr>\<rparr>
     in case delayMechanism (portDS c) of
          E2E \<Rightarrow> c\<lparr>currentDS := (currentDS c)\<lparr>offsetFromMaster :=
            subTime (offsetFromMaster (currentDS c)) (meanPathDelay (currentDS c))\<rparr>\<rparr>
        | P2P \<Rightarrow> c\<lparr>currentDS := (currentDS c)\<lparr>offsetFromMaster :=
            subTime (offsetFromMaster (currentDS c)) (peerMeanPathDelay (portDS c))\<rparr>\<rparr>
        | DELAY_DISABLED \<Rightarrow> c)"

definition updateOffset ::
  "'a PtpClock_scheme \<Rightarrow> TimeInternal \<Rightarrow> TimeInternal \<Rightarrow> TimeInternal \<Rightarrow> 'a PtpClock_scheme" where
  "updateOffset c syncEventIngressTimestamp preciseTime correctionField =
    (let c = computeOffset c syncEventIngressTimestamp preciseTime correctionField
     in if seconds (offsetFromMaster (currentDS c)) \<noteq> 0
        then (if portState (portDS c) = PTP_SLAVE
              then c\<lparr>events := setFlag (events c) SYNCHRONIZATION_FAULT\<rparr> else c)
        else
          let (ns, filt) = filter_ptp (nanoseconds (offsetFromMaster (currentDS c))) (ofm_filt c);
              c = c\<lparr>currentDS := (currentDS c)\<lparr>offsetFromMaster :=
                    (offsetFromMaster (currentDS c))\<lparr>nanoseconds := ns\<rparr>\<rparr>, ofm_filt := filt\<rparr>
          in if c_abs (nanoseconds (offsetFromMaster (currentDS c))) < DEFAULT_CALIBRATED_OFFSET_NS
             then (if portState (portDS c) = PTP_UNCALIBRATED
                   then c\<lparr>events := setFlag (events c) MASTER_CLOCK_SELECTED\<rparr> else c)
             else if c_abs (nanoseconds (offsetFromMaster (currentDS c))) > DEFAULT_UNCALIBRATED_OFFSET_NS
             then (if portState (portDS c) = PTP_SLAVE
                   then c\<lparr>events := setFlag (events c) SYNCHRONIZATION_FAULT\<rparr> else c)
             else c)"

definition updateDelay ::
  "'a PtpClock_scheme \<Rightarrow> TimeInternal \<Rightarrow> TimeInternal \<Rightarrow> TimeInternal \<Rightarrow> 'a PtpClock_scheme" where
  "updateDelay c delayEventEgressTimestamp recieveTimestamp correctionField =
    (if fn (ofm_filt c) = 0 then c
     else
       let c = c\<lparr>Tsm := subTime recieveTimestamp delayEventEgressTimestamp\<rparr>;
           c = c\<lparr>Tsm := subTime (Tsm c) correctionField\<rparr>;
           c = c\<lparr>currentDS := (currentDS c)\<lparr>meanPathDelay := addTime (Tms c) (Tsm c)\<rparr>\<rparr>;
           c = c\<lparr>currentDS := (currentDS c)\<lparr>meanPathDelay := div2Time (meanPathDelay (currentDS c))\<rparr>\<rparr>
       in if seconds (meanPathDelay (currentDS c)) \<noteq> 0 then c
          else let (ns, filt) = filter_ptp (nanoseconds (meanPathDelay (currentDS c))) (owd_filt c)
               in c\<lparr>currentDS := (currentDS c)\<lparr>meanPathDelay :=
                      (meanPathDelay (currentDS c))\<lparr>nanoseconds := ns\<rparr>\<rparr>, owd_filt := filt\<rparr>)"

definition updatePeerDelay ::
  "'a PtpClock_scheme \<Rightarrow> TimeInternal \<Rightarrow> Boolean \<Rightarrow> 'a PtpClock_scheme" where
  "updatePeerDelay c correctionField twoStep =
    (let c = (if twoStep
              then (let Tab = subTime (pdelay_t2 c) (pdelay_t1 c);
                        Tba = subTime (pdelay_t4 c) (pdelay_t3 c)
                    in c\<lparr>portDS := (portDS c)\<lparr>peerMeanPathDelay := addTime Tab Tba\<rparr>\<rparr>)
              else c\<lparr>portDS := (portDS c)\<lparr>peerMeanPathDelay := subTime (pdelay_t4 c) (pdelay_t1 c)\<rparr>\<rparr>);
         c = c\<lparr>portDS := (portDS c)\<lparr>peerMeanPathDelay := subTime (peerMeanPathDelay (portDS c)) correctionField\<rparr>\<rparr>;
         c = c\<lparr>portDS := (portDS c)\<lparr>peerMeanPathDelay := div2Time (peerMeanPathDelay (portDS c))\<rparr>\<rparr>
     in if seconds (peerMeanPathDelay (portDS c)) \<noteq> 0 then c
        else let (ns, filt) = filter_ptp (nanoseconds (peerMeanPathDelay (portDS c))) (owd_filt c)
             in c\<lparr>portDS := (portDS c)\<lparr>peerMeanPathDelay :=
                    (peerMeanPathDelay (portDS c))\<lparr>nanoseconds := ns\<rparr>\<rparr>, owd_filt := filt\<rparr>)"

text \<open>The statistics that \<^verbatim>\<open>updateClock\<close> keeps when \<^verbatim>\<open>DEFAULT_PARENTS_STATS\<close> is set.\<close>

definition updateStats :: "clock \<Rightarrow> clock" where
  "updateStats c =
    (let c = c\<lparr>parentDS := (parentDS c)\<lparr>parentStats := True,
               observedParentClockPhaseChangeRate := i32 (1100 * observedDrift c)\<rparr>\<rparr>;
         ns = nanoseconds (offsetFromMaster (currentDS c));
         a = i32 (uint (offsetHistory c ! 1) - 2 * uint (offsetHistory c ! 0) + ns);
         c = c\<lparr>offsetHistory := [word_of_int ns, offsetHistory c ! 0]\<rparr>;
         slv = lsl32 (order (i32 (a * a))) 8;
         (slv, filt) = filter_ptp slv (slv_filt c)
     in c\<lparr>slv_filt := filt, parentDS := (parentDS c)\<lparr>
            observedParentOffsetScaledLogVariance := i16 (17000 + slv)\<rparr>\<rparr>)"

definition updateClock :: "clock \<Rightarrow> clock" where
  "updateClock c =
    (if seconds (offsetFromMaster (currentDS c)) \<noteq> 0
        \<or> uint (word_of_int (c_abs (nanoseconds (offsetFromMaster (currentDS c)))) :: 32 word) > MAX_ADJ_OFFSET_NS
     then
       (if \<not> noAdjust (servo c) then
          (if \<not> noResetClock (servo c) then
             (let (timeTmp, c) = getTime c;
                  timeTmp = subTime timeTmp (offsetFromMaster (currentDS c));
                  c = setTime timeTmp c
              in initClock c)
           else
             (let adj = (if nanoseconds (offsetFromMaster (currentDS c)) > 0 then ADJ_FREQ_MAX else - ADJ_FREQ_MAX)
              in adjFreq (- adj) c))
        else c)
     else
       let offsetNorm = nanoseconds (offsetFromMaster (currentDS c));
           offsetNorm = (if logSyncInterval (portDS c) > 0 then asr32 offsetNorm (logSyncInterval (portDS c))
                         else if logSyncInterval (portDS c) < 0
                         then lsl32 offsetNorm (- logSyncInterval (portDS c)) else offsetNorm);
           c = c\<lparr>observedDrift := i32 (observedDrift c + offsetNorm sdiv ai (servo c))\<rparr>;
           c = (if observedDrift c > ADJ_FREQ_MAX then c\<lparr>observedDrift := ADJ_FREQ_MAX\<rparr>
                else if observedDrift c < - ADJ_FREQ_MAX then c\<lparr>observedDrift := - ADJ_FREQ_MAX\<rparr>
                else c);
           c = (if \<not> noAdjust (servo c)
                then (let adj = i32 (offsetNorm sdiv ap (servo c) + observedDrift c) in adjFreq (i32 (- adj)) c)
                else c)
       in if DEFAULT_PARENTS_STATS then updateStats c else c)"

subsection \<open>The exponential filter\<close>

lemma order_bounds:
  assumes "0 \<le> n" and "n \<le> 2147483647"
  shows "0 \<le> order n" and "order n \<le> 30" and "n < 2 ^ nat (order n + 1)"
    and "0 < n \<Longrightarrow> 2 ^ nat (order n) \<le> n"
proof -
  have u: "uint (word_of_int n :: 32 word) = n" using assms by (simp add: uint_word_of_int)
  have "0 \<le> order n \<and> n < 2 ^ nat (order n + 1) \<and> (0 < n \<longrightarrow> 2 ^ nat (order n) \<le> n)"
  proof (cases "n = 0")
    case True then show ?thesis by (simp add: order_def)
  next
    case False
    then have "(word_of_int n :: 32 word) \<noteq> 0" using u by auto
    from floorLog2_bounds_lemma [OF this] show ?thesis
      using False assms u by (simp add: order_def)
  qed
  moreover have "order n \<le> 30"
  proof (rule ccontr)
    assume "\<not> order n \<le> 30"
    then have o: "31 \<le> nat (order n)" by simp
    then have "n \<noteq> 0" by (auto simp: order_def)
    then have "0 < n" using assms by simp
    moreover have "(2 :: int) ^ 31 \<le> 2 ^ nat (order n)" using o by (rule power_increasing) simp
    ultimately show False using \<open>0 \<le> order n \<and> _\<close> assms by auto
  qed
  ultimately show "0 \<le> order n" "order n \<le> 30" "n < 2 ^ nat (order n + 1)"
    "0 < n \<Longrightarrow> 2 ^ nat (order n) \<le> n" by auto
qed

text \<open>The heart of the filter: the new mean lies between the old mean and the sample.\<close>

lemma mean_step:
  fixes y x S :: int and s :: nat
  assumes "S div 2 ^ s = y"
  shows "min y x \<le> (S + (x - y)) div 2 ^ s" and "(S + (x - y)) div 2 ^ s \<le> max y x"
proof -
  define P :: int where "P = 2 ^ s"
  have P: "1 \<le> P" by (simp add: P_def)
  have S: "y * P \<le> S" "S < (y + 1) * P"
    using P minus_mod_eq_div_mult [of S P] pos_mod_bound [of P S] pos_mod_sign [of P S]
    unfolding assms [folded P_def, symmetric] distrib_right by linarith+
  have mono: "1 * \<bar>x - y\<bar> \<le> P * \<bar>x - y\<bar>" using P by (rule mult_right_mono) simp
  have lo: "min y x * P \<le> S + (x - y)"
  proof (cases "y \<le> x")
    case True then show ?thesis using S by simp
  next
    case False
    then have "min y x * P = y * P - (y - x) * P" by (simp add: algebra_simps)
    moreover have "y - x \<le> (y - x) * P" using mono False by (simp add: algebra_simps)
    ultimately show ?thesis using S by simp
  qed
  have hi: "S + (x - y) < (max y x + 1) * P"
  proof (cases "y \<le> x")
    case True
    then have "(max y x + 1) * P = (y + 1) * P + (x - y) * P" by (simp add: algebra_simps)
    moreover have "x - y \<le> (x - y) * P" using mono True by (simp add: algebra_simps)
    ultimately show ?thesis using S by simp
  next
    case False then show ?thesis using S by (simp add: max_def)
  qed
  show "min y x \<le> (S + (x - y)) div 2 ^ s"
    using zdiv_mono1 [OF lo, of P] P by (simp add: P_def [symmetric])
  show "(S + (x - y)) div 2 ^ s \<le> max y x"
    using int_div_less [OF hi] P by (simp add: P_def [symmetric])
qed

definition wf_filter :: "Filter \<Rightarrow> bool" where
  "wf_filter f \<longleftrightarrow> 0 \<le> fs f \<and> fs f \<le> 15 \<and> 0 \<le> s_prev f \<and> s_prev f \<le> 15
     \<and> 0 \<le> y_sum f \<and> y_prev f = y_sum f div 2 ^ nat (s_prev f) \<and> y_prev f \<le> 2147483647
     \<and> 1 \<le> fn f \<and> fn f \<le> 32768"

lemma pow2_split: "0 \<le> a \<Longrightarrow> 0 \<le> b \<Longrightarrow> (2 :: int) ^ nat (a + b) = 2 ^ nat a * 2 ^ nat b"
  by (simp add: nat_add_distrib power_add)

text \<open>The change of order keeps the mean and stays within 31 bits.\<close>

definition resized :: "int \<Rightarrow> int \<Rightarrow> int \<Rightarrow> int" where
  "resized S sp s = (if sp > s then asr32 S (sp - s) else if sp < s then lsl32 S (s - sp) else S)"

lemma resized_mean:
  assumes "0 \<le> S" and "0 \<le> sp" "sp \<le> 15" and "0 \<le> s" "s \<le> 15"
    and "(S div 2 ^ nat sp + 1) * 2 ^ nat s \<le> 2147483648"
  shows "0 \<le> resized S sp s" and "resized S sp s div 2 ^ nat s = S div 2 ^ nat sp"
proof -
  have "0 \<le> resized S sp s \<and> resized S sp s div 2 ^ nat s = S div 2 ^ nat sp"
  proof (cases "sp > s")
    case True
    have "S div 2 ^ nat (sp - s) div 2 ^ nat s = S div (2 ^ nat (sp - s) * 2 ^ nat s)"
      by (rule zdiv_zmult2_eq [symmetric]) simp
    also have "\<dots> = S div 2 ^ nat sp"
      using pow2_split [of "sp - s" s] True assms by simp
    finally show ?thesis
      using True assms by (simp add: resized_def asr32_nonneg pos_imp_zdiv_nonneg_iff)
  next
    case False
    show ?thesis
    proof (cases "sp = s")
      case True then show ?thesis using assms(1) by (simp add: resized_def)
    next
      case False
      with \<open>\<not> sp > s\<close> have lt: "sp < s" by simp
      have e: "2 ^ nat s = (2 :: int) ^ nat sp * 2 ^ nat (s - sp)"
        using pow2_split [of sp "s - sp"] lt assms by simp
      have "S < (S div 2 ^ nat sp + 1) * 2 ^ nat sp"
        using pos_mod_bound [of "2 ^ nat sp" S] by (simp add: minus_mod_eq_div_mult [symmetric] distrib_right)
      then have "S * 2 ^ nat (s - sp) < (S div 2 ^ nat sp + 1) * 2 ^ nat sp * 2 ^ nat (s - sp)"
        by (intro mult_strict_right_mono) simp_all
      also have "\<dots> \<le> 2147483648" using assms(6) unfolding e mult.assoc .
      finally have "S * 2 ^ nat (s - sp) < 2147483648" .
      moreover have "0 \<le> S * 2 ^ nat (s - sp)" using assms(1) by simp
      ultimately have "i32 (S * 2 ^ nat (s - sp)) = S * 2 ^ nat (s - sp)"
        by (intro i32_id) linarith+
      then have r: "resized S sp s = S * 2 ^ nat (s - sp)"
        using lt assms by (simp add: resized_def lsl32_nonneg)
      have "S * 2 ^ nat (s - sp) div 2 ^ nat s = S div 2 ^ nat sp"
        unfolding e by (simp add: mult.commute)
      then show ?thesis using r assms(1) by simp
    qed
  qed
  then show "0 \<le> resized S sp s" "resized S sp s div 2 ^ nat s = S div 2 ^ nat sp" by auto
qed

definition filter_order :: "int \<Rightarrow> Filter \<Rightarrow> int" where
  "filter_order x f =
    min (if 2 ^ nat (fs f) > fn f + 1 then order (fn f + 1) else fs f) (30 - order (max (y_prev f) x))"

lemma filter_order_range:
  assumes "wf_filter f" and "0 \<le> x" and "x \<le> 2147483647"
  shows "0 \<le> filter_order x f" and "filter_order x f \<le> 15"
    and "(max (y_prev f) x + 1) * 2 ^ nat (filter_order x f) \<le> 2147483648"
proof -
  have y: "0 \<le> y_prev f" "y_prev f \<le> 2147483647"
    using assms(1) by (auto simp: wf_filter_def pos_imp_zdiv_nonneg_iff)
  let ?m = "max (y_prev f) x"
  have m: "0 \<le> ?m" "?m \<le> 2147483647" using y assms(2,3) by auto
  note om = order_bounds [OF m]
  have n: "0 \<le> fn f + 1" "fn f + 1 \<le> 2147483647" "0 < fn f + 1" and s: "0 \<le> fs f" "fs f \<le> 15"
    using assms(1) by (auto simp: wf_filter_def)
  have small: "order (fn f + 1) \<le> 15" if "2 ^ nat (fs f) > fn f + 1"
  proof (rule ccontr)
    assume "\<not> order (fn f + 1) \<le> 15"
    then have "(2 :: int) ^ nat (fs f) \<le> 2 ^ nat (order (fn f + 1))"
      using s by (intro power_increasing) auto
    then show False using order_bounds(4) [OF n] that by linarith
  qed
  show r: "0 \<le> filter_order x f" "filter_order x f \<le> 15"
    using order_bounds(1) [OF n(1,2)] om(2) small s by (auto simp: filter_order_def)
  have "(?m + 1) * 2 ^ nat (filter_order x f) \<le> 2 ^ nat (order ?m + 1) * 2 ^ nat (filter_order x f)"
    using zless_imp_add1_zle [OF om(3)] by (rule mult_right_mono) simp
  also have "\<dots> = 2 ^ nat (order ?m + 1 + filter_order x f)"
    using pow2_split [of "order ?m + 1" "filter_order x f"] om(1) r by simp
  also have "\<dots> \<le> 2 ^ 31"
    by (intro power_increasing) (auto simp: filter_order_def)
  finally show "(?m + 1) * 2 ^ nat (filter_order x f) \<le> 2147483648" by simp
qed

lemma lsl_one:
  assumes "0 \<le> k" and "k \<le> 15"
  shows "lsl32 1 k = 2 ^ nat k"
proof -
  have "(2 :: int) ^ nat k \<le> 2 ^ 15" using assms by (intro power_increasing) auto
  then have "(2 :: int) ^ nat k \<le> 32768" by simp
  moreover have "(0 :: int) \<le> 2 ^ nat k" by simp
  ultimately have "i32 (2 ^ nat k) = 2 ^ nat k" by (intro i32_id) linarith+
  then show ?thesis using assms by (simp add: lsl32_nonneg)
qed

lemma resize_record:
  "(if s_prev g > t then g\<lparr>y_sum := asr32 (y_sum g) (s_prev g - t)\<rparr>
    else if s_prev g < t then g\<lparr>y_sum := lsl32 (y_sum g) (t - s_prev g)\<rparr> else g)
    = g\<lparr>y_sum := resized (y_sum g) (s_prev g) t\<rparr>" for g :: Filter
  by (simp add: resized_def)

lemma filter_unfold:
  assumes "wf_filter f" and "0 \<le> x" and "x \<le> 2147483647"
  shows "filter_ptp x f =
    (let s = filter_order x f; S = resized (y_sum f) (s_prev f) s + (x - y_prev f)
     in (S div 2 ^ nat s, f\<lparr>fn := min (fn f + 1) (2 ^ nat (fs f)), y_sum := S,
          y_prev := S div 2 ^ nat s, s_prev := s\<rparr>))"
proof -
  define s where "s = filter_order x f"
  define R where "R = resized (y_sum f) (s_prev f) s"
  note o = filter_order_range [OF assms, folded s_def]
  have w: "0 \<le> fs f" "fs f \<le> 15" "0 \<le> s_prev f" "s_prev f \<le> 15" "0 \<le> y_sum f" "1 \<le> fn f" "fn f \<le> 32768"
    "y_prev f = y_sum f div 2 ^ nat (s_prev f)" "0 \<le> y_prev f" "y_prev f \<le> 2147483647"
    using assms(1) by (auto simp: wf_filter_def pos_imp_zdiv_nonneg_iff)
  note one = lsl_one [OF w(1,2)]
  have n: "i32 (fn f + 1) = fn f + 1" "fn f + 1 \<noteq> 1" using w by simp_all
  have "(y_prev f + 1) * 2 ^ nat s \<le> (max (y_prev f) x + 1) * 2 ^ nat s"
    by (intro mult_right_mono) simp_all
  then have R: "0 \<le> R" "R div 2 ^ nat s = y_prev f"
    using resized_mean [of "y_sum f" "s_prev f" s] w o unfolding R_def w(8) by linarith+
  note ms = mean_step [OF R(2), of x]
  have "R + (x - y_prev f) < (max (y_prev f) x + 1) * 2 ^ nat s"
  proof -
    have "R + (x - y_prev f) < ((R + (x - y_prev f)) div 2 ^ nat s + 1) * 2 ^ nat s"
      using pos_mod_bound [of "2 ^ nat s" "R + (x - y_prev f)"]
      by (simp add: minus_mod_eq_div_mult [symmetric] distrib_right)
    also have "\<dots> \<le> (max (y_prev f) x + 1) * 2 ^ nat s"
      using ms(2) by (intro mult_right_mono) simp_all
    finally show ?thesis .
  qed
  moreover have "0 \<le> (R + (x - y_prev f)) div 2 ^ nat s" using ms(1) w(9) assms(2) by simp
  then have "0 \<le> R + (x - y_prev f)" by (simp add: pos_imp_zdiv_nonneg_iff)
  ultimately have S: "i32 (R + (x - y_prev f)) = R + (x - y_prev f)"
    using o(3) w assms by simp
  have lo: "(if lsl32 1 (fs f) > fn f + 1 then order (fn f + 1) else fs f)
      = (if 2 ^ nat (fs f) > fn f + 1 then order (fn f + 1) else fs f)" by (simp add: one)
  have mm: "min_i32 a b = min a b" "max_i32 a b = max a b" for a b
    by (auto simp: min_i32_def max_i32_def)
  define N where "N = min (fn f + 1) (2 ^ nat (fs f))"
  define s0 where "s0 = (if 2 ^ nat (fs f) > fn f + 1 then order (fn f + 1) else fs f)"
  have s0: "min s0 (30 - order (max (y_prev f) x)) = s"
    by (simp add: s_def s0_def filter_order_def)
  have i: "i16 s = s" using o by simp
  have z: "fn f \<noteq> 0" using w by simp
  have A: "asr32 v s = v div 2 ^ nat s" for v using o by (intro asr32_nonneg) auto
  show ?thesis
  proof (cases "2 ^ nat (fs f) > fn f + 1")
    case True
    then have "order (fn f + 1) = s0" "N = fn f + 1" by (simp_all add: s0_def N_def)
    with True show ?thesis
      unfolding filter_ptp_def
      by (simp add: Let_def n z one mm s0 resize_record R_def [symmetric] s_def [symmetric] N_def [symmetric]
          S i A split del: if_split)
  next
    case False
    then have "N = 2 ^ nat (fs f)" and s0': "min (fs f) (30 - order (max (y_prev f) x)) = s"
      using s0 by (simp_all add: s0_def N_def)
    with False show ?thesis
      unfolding filter_ptp_def
      by (simp add: Let_def n z one mm s0' resize_record R_def [symmetric] s_def [symmetric] N_def [symmetric]
          S i A split del: if_split)
  qed
qed

lemma filter_first:
  assumes "fn g = 0" and "0 \<le> fs g" and "fs g \<le> 15" and "0 \<le> x" and "x \<le> 2147483647"
  shows "filter_ptp x g = (x, g\<lparr>fn := 1, y_prev := x, y_sum := x, s_prev := 0\<rparr>)"
proof -
  have o: "0 \<le> 30 - order x" using order_bounds [OF assms(4,5)] by simp
  have o1: "order 1 = 0" by (simp add: order_def floorLog2_def Let_def word_le_nat_alt)
  have z: "asr32 v 0 = v" for v by (simp add: asr32_def)
  have x: "i32 x = x" using assms(4,5) by (intro i32_id) linarith+
  have mm: "min_i32 0 (30 - order x) = 0" "max_i32 x x = x" using o by (auto simp: min_i32_def max_i32_def)
  show ?thesis
  proof (cases "fs g = 0")
    case True
    then show ?thesis
      unfolding filter_ptp_def
      by (simp add: Let_def assms mm z lsl_one [OF order_refl] x split del: if_split)
  next
    case False
    then have "1 < (2 :: int) ^ nat (fs g)" using assms(2) by simp
    then show ?thesis
      unfolding filter_ptp_def
      by (simp add: Let_def assms mm z o1 x lsl_one [OF assms(2,3)] split del: if_split)
  qed
qed

text \<open>C21: the smoothing filter.  Its first sample passes unchanged and starts a well-formed
  filter; on non-negative samples every later output lies between the previous output and the
  new sample, at any order the filter chooses, nothing overflows, and the filter stays
  well-formed.\<close>

theorem filter_between:
  assumes "wf_filter f" and "0 \<le> x" and "x \<le> 2147483647"
  shows "min (y_prev f) x \<le> fst (filter_ptp x f) \<and> fst (filter_ptp x f) \<le> max (y_prev f) x
    \<and> y_prev (snd (filter_ptp x f)) = fst (filter_ptp x f) \<and> wf_filter (snd (filter_ptp x f))
    \<and> (\<forall>g. fn g = 0 \<and> 0 \<le> fs g \<and> fs g \<le> 15 \<longrightarrow>
         fst (filter_ptp x g) = x \<and> wf_filter (snd (filter_ptp x g)))"
proof (intro conjI allI impI)
  define s where "s = filter_order x f"
  define S where "S = resized (y_sum f) (s_prev f) s + (x - y_prev f)"
  note o = filter_order_range [OF assms, folded s_def]
  have w: "0 \<le> s_prev f" "s_prev f \<le> 15" "0 \<le> y_sum f" "1 \<le> fn f" "fn f \<le> 32768" "0 \<le> fs f" "fs f \<le> 15"
    "y_prev f = y_sum f div 2 ^ nat (s_prev f)" "0 \<le> y_prev f" "y_prev f \<le> 2147483647"
    using assms(1) by (auto simp: wf_filter_def pos_imp_zdiv_nonneg_iff)
  have u: "filter_ptp x f = (S div 2 ^ nat s, f\<lparr>fn := min (fn f + 1) (2 ^ nat (fs f)), y_sum := S,
      y_prev := S div 2 ^ nat s, s_prev := s\<rparr>)"
    unfolding filter_unfold [OF assms] by (simp add: Let_def s_def S_def)
  have "(y_prev f + 1) * 2 ^ nat s \<le> (max (y_prev f) x + 1) * 2 ^ nat s"
    by (intro mult_right_mono) simp_all
  then have "resized (y_sum f) (s_prev f) s div 2 ^ nat s = y_prev f"
    using resized_mean [of "y_sum f" "s_prev f" s] w o unfolding w(8) by linarith
  note m = mean_step [OF this, of x, folded S_def]
  show "min (y_prev f) x \<le> fst (filter_ptp x f)" "fst (filter_ptp x f) \<le> max (y_prev f) x"
    using m by (simp_all add: u)
  show "y_prev (snd (filter_ptp x f)) = fst (filter_ptp x f)" by (simp add: u)
  have "0 \<le> S div 2 ^ nat s" using m(1) w assms(2) by simp
  then have "0 \<le> S" by (simp add: pos_imp_zdiv_nonneg_iff)
  moreover have "(1 :: int) \<le> 2 ^ nat (fs f)" by simp
  moreover have "(2 :: int) ^ nat (fs f) \<le> 2 ^ 15" using w by (intro power_increasing) auto
  moreover have "S div 2 ^ nat s \<le> 2147483647" using m(2) w(10) assms(3) by linarith
  ultimately show "wf_filter (snd (filter_ptp x f))"
    using o w by (simp add: u wf_filter_def min_le_iff_disj)
  fix g :: Filter assume g: "fn g = 0 \<and> 0 \<le> fs g \<and> fs g \<le> 15"
  then show "fst (filter_ptp x g) = x" "wf_filter (snd (filter_ptp x g))"
    using filter_first [of g x] assms(2,3) by (auto simp: wf_filter_def)
qed

definition sample_filter :: Filter where
  "sample_filter = \<lparr>y_prev = 100, y_sum = 6400, fs = 6, s_prev = 6, fn = 64\<rparr>"

theorem filter_between_witness:
  "100 \<le> fst (filter_ptp 500 sample_filter) \<and> fst (filter_ptp 500 sample_filter) \<le> 500"
  using filter_between [of sample_filter 500] by (simp add: wf_filter_def sample_filter_def)

text \<open>the guard against overflow fails for negative means.  The guard takes the order of the
  larger of the two values, not of the larger magnitude: from a mean of -1 s held at order 1, a
  delay sample of 1 ns raises the order to 6, the shifted sum overflows 32 bits, and the output
  is about +22 ms, outside the range of mean and sample.\<close>

theorem filter_negative_overflow:
  "fst (filter_ptp 1 \<lparr>y_prev = -1000000000, y_sum = -2000000000, fs = 6, s_prev = 1, fn = 64\<rparr>)
    = 22257960"
  by code_simp

subsection \<open>Offset and delay\<close>

lemma setFlag_get [simp]:
  "getFlag (setFlag e SYNCHRONIZATION_FAULT) MASTER_CLOCK_SELECTED = getFlag e MASTER_CLOCK_SELECTED"
  for e :: "32 word"
  by (rule getFlag_setFlag_other) simp

definition path_delay :: "'a PtpClock_scheme \<Rightarrow> TimeInternal" where
  "path_delay c = (case delayMechanism (portDS c) of
      E2E \<Rightarrow> meanPathDelay (currentDS c) | P2P \<Rightarrow> peerMeanPathDelay (portDS c)
    | DELAY_DISABLED \<Rightarrow> TimeInternal_zero)"

definition raw_offset :: "'a PtpClock_scheme \<Rightarrow> TimeInternal \<Rightarrow> TimeInternal \<Rightarrow> TimeInternal \<Rightarrow> TimeInternal" where
  "raw_offset c t og corr =
    (let m = subTime (subTime t og) corr
     in if delayMechanism (portDS c) = DELAY_DISABLED then m else subTime m (path_delay c))"

lemma computeOffset_eq:
  "computeOffset c t og corr = c\<lparr>Tms := subTime (subTime t og) corr,
     currentDS := (currentDS c)\<lparr>offsetFromMaster := raw_offset c t og corr\<rparr>\<rparr>"
  by (cases "delayMechanism (portDS c)") (simp_all add: computeOffset_def raw_offset_def path_delay_def Let_def)

lemma updateOffset_large:
  assumes "seconds (raw_offset c t og corr) \<noteq> 0"
  shows "updateOffset c t og corr = (computeOffset c t og corr)\<lparr>events :=
    (if portState (portDS c) = PTP_SLAVE then setFlag (events c) SYNCHRONIZATION_FAULT else events c)\<rparr>"
  using assms unfolding updateOffset_def computeOffset_eq by (simp add: Let_def)

lemma updateOffset_small:
  assumes "seconds (raw_offset c t og corr) = 0"
    and "filter_ptp (nanoseconds (raw_offset c t og corr)) (ofm_filt c) = (ns, filt)"
  shows "updateOffset c t og corr = (computeOffset c t og corr)\<lparr>
      currentDS := (currentDS c)\<lparr>offsetFromMaster := (raw_offset c t og corr)\<lparr>nanoseconds := ns\<rparr>\<rparr>,
      ofm_filt := filt,
      events := (if c_abs ns < 10000 \<and> portState (portDS c) = PTP_UNCALIBRATED
                 then setFlag (events c) MASTER_CLOCK_SELECTED
                 else if c_abs ns > 1000000 \<and> portState (portDS c) = PTP_SLAVE
                 then setFlag (events c) SYNCHRONIZATION_FAULT else events c)\<rparr>"
  using assms unfolding updateOffset_def computeOffset_eq
  by (simp add: Let_def DEFAULT_CALIBRATED_OFFSET_NS_def DEFAULT_UNCALIBRATED_OFFSET_NS_def)

text \<open>Times for which the three differences of the offset are exact.\<close>

definition offset_exact :: "'a PtpClock_scheme \<Rightarrow> TimeInternal \<Rightarrow> TimeInternal \<Rightarrow> TimeInternal \<Rightarrow> bool" where
  "offset_exact c t og corr \<longleftrightarrow> sub_in_range t og \<and> sub_in_range (subTime t og) corr
     \<and> sub_in_range (subTime (subTime t og) corr) (path_delay c)"

lemma raw_offset_exact:
  assumes "offset_exact c t og corr"
  shows "tval (raw_offset c t og corr) = tval t - tval og - tval corr - tval (path_delay c)" and "normal_time (raw_offset c t og corr)"
proof -
  let ?m = "subTime (subTime t og) corr"
  have r: "sub_in_range t og" "sub_in_range (subTime t og) corr" "sub_in_range ?m (path_delay c)"
    using assms by (auto simp: offset_exact_def)
  have d: "delayMechanism (portDS c) = DELAY_DISABLED \<Longrightarrow> tval (path_delay c) = 0"
    by (simp add: path_delay_def TimeInternal_zero_def)
  show "tval (raw_offset c t og corr) = tval t - tval og - tval corr - tval (path_delay c)" "normal_time (raw_offset c t og corr)"
    using subTime_exact_lemma [OF r(1)] subTime_exact_lemma [OF r(2)] subTime_exact_lemma [OF r(3)] d
    by (auto simp: raw_offset_def Let_def)
qed

text \<open>\<^verbatim>\<open>updateOffset\<close> computes the offset of 11.2 of the standard: the ingress time of the
  Sync minus its origin time, minus the corrections, minus the path delay of the mechanism in
  use, exactly.  An offset of a second or more is kept as it is and a slave reports a
  synchronisation fault; below a second its nanoseconds are filtered, an uncalibrated port with
  a filtered offset under 10 us reports its master selected, and a slave with one over 1 ms a
  fault; no other event changes.\<close>

theorem updateOffset_spec:
  assumes "offset_exact c t og corr"
  shows "tval (raw_offset c t og corr) = tval t - tval og - tval corr - tval (path_delay c)
    \<and> (seconds (raw_offset c t og corr) \<noteq> 0 \<longrightarrow>
        offsetFromMaster (currentDS (updateOffset c t og corr)) = raw_offset c t og corr
        \<and> ofm_filt (updateOffset c t og corr) = ofm_filt c
        \<and> events (updateOffset c t og corr) = (if portState (portDS c) = PTP_SLAVE
            then setFlag (events c) SYNCHRONIZATION_FAULT else events c))
    \<and> (seconds (raw_offset c t og corr) = 0 \<longrightarrow>
        (let ns = fst (filter_ptp (nanoseconds (raw_offset c t og corr)) (ofm_filt c)) in
         nanoseconds (offsetFromMaster (currentDS (updateOffset c t og corr))) = ns
        \<and> events (updateOffset c t og corr) =
           (if c_abs ns < 10000 \<and> portState (portDS c) = PTP_UNCALIBRATED
            then setFlag (events c) MASTER_CLOCK_SELECTED
            else if c_abs ns > 1000000 \<and> portState (portDS c) = PTP_SLAVE
            then setFlag (events c) SYNCHRONIZATION_FAULT else events c)))"
proof (intro conjI)
  show "tval (raw_offset c t og corr) = tval t - tval og - tval corr - tval (path_delay c)"
    using assms by (rule raw_offset_exact)
next
  show "seconds (raw_offset c t og corr) \<noteq> 0 \<longrightarrow>
        offsetFromMaster (currentDS (updateOffset c t og corr)) = raw_offset c t og corr
        \<and> ofm_filt (updateOffset c t og corr) = ofm_filt c
        \<and> events (updateOffset c t og corr) = (if portState (portDS c) = PTP_SLAVE
            then setFlag (events c) SYNCHRONIZATION_FAULT else events c)"
    by (simp add: updateOffset_large computeOffset_eq)
  obtain ns filt where F: "filter_ptp (nanoseconds (raw_offset c t og corr)) (ofm_filt c) = (ns, filt)"
    by fastforce
  show "seconds (raw_offset c t og corr) = 0 \<longrightarrow>
        (let ns = fst (filter_ptp (nanoseconds (raw_offset c t og corr)) (ofm_filt c)) in
         nanoseconds (offsetFromMaster (currentDS (updateOffset c t og corr))) = ns
        \<and> events (updateOffset c t og corr) =
           (if c_abs ns < 10000 \<and> portState (portDS c) = PTP_UNCALIBRATED
            then setFlag (events c) MASTER_CLOCK_SELECTED
            else if c_abs ns > 1000000 \<and> portState (portDS c) = PTP_SLAVE
            then setFlag (events c) SYNCHRONIZATION_FAULT else events c))"
    using updateOffset_small [OF _ F] by (simp add: F)
qed

text \<open>A slave port on the end-to-end mechanism.\<close>

definition slave_clock :: PtpClock where
  "slave_clock = PtpClock_zero\<lparr>
     portDS := PortDS_zero\<lparr>portState := PTP_SLAVE, delayMechanism := E2E\<rparr>,
     currentDS := \<lparr>stepsRemoved = 1, offsetFromMaster = TimeInternal_zero,
       meanPathDelay = \<lparr>seconds = 0, nanoseconds = 400\<rparr>\<rparr>,
     ofm_filt := sample_filter\<lparr>fs := 1, s_prev := 1, y_prev := 3200\<rparr>,
     observedDrift := 100,
     servo := Servo_zero\<lparr>ap := 2, ai := 16\<rparr>\<rparr>"

definition raw_delay :: "'a PtpClock_scheme \<Rightarrow> TimeInternal \<Rightarrow> TimeInternal \<Rightarrow> TimeInternal \<Rightarrow> TimeInternal" where
  "raw_delay c sent received corr = div2Time (addTime (Tms c) (subTime (subTime received sent) corr))"

definition delay_exact :: "'a PtpClock_scheme \<Rightarrow> TimeInternal \<Rightarrow> TimeInternal \<Rightarrow> TimeInternal \<Rightarrow> bool" where
  "delay_exact c sent received corr \<longleftrightarrow> sub_in_range received sent \<and> sub_in_range (subTime received sent) corr
     \<and> add_in_range (Tms c) (subTime (subTime received sent) corr)
     \<and> \<bar>seconds (addTime (Tms c) (subTime (subTime received sent) corr))\<bar> < 2147483640"

text \<open>\<^verbatim>\<open>updateDelay\<close> computes the mean path delay of 11.3: half the sum of the master-to-slave
  interval and the slave-to-master interval less the correction, rounded towards zero, filtered
  when it is below a second; before a first offset is known it changes nothing.\<close>

theorem updateDelay_spec:
  assumes "delay_exact c sent received corr"
  shows "tval (raw_delay c sent received corr) = (tval (Tms c) + (tval received - tval sent - tval corr)) sdiv 2
    \<and> (fn (ofm_filt c) = 0 \<longrightarrow> updateDelay c sent received corr = c)
    \<and> (fn (ofm_filt c) \<noteq> 0 \<longrightarrow> meanPathDelay (currentDS (updateDelay c sent received corr)) =
        (if seconds (raw_delay c sent received corr) \<noteq> 0 then raw_delay c sent received corr
         else (raw_delay c sent received corr)\<lparr>nanoseconds :=
           fst (filter_ptp (nanoseconds (raw_delay c sent received corr)) (owd_filt c))\<rparr>))"
proof (intro conjI)
  let ?sm = "subTime (subTime received sent) corr"
  have d: "sub_in_range received sent" "sub_in_range (subTime received sent) corr" "add_in_range (Tms c) ?sm"
    "\<bar>seconds (addTime (Tms c) ?sm)\<bar> < 2147483640"
    using assms by (auto simp: delay_exact_def)
  show "tval (raw_delay c sent received corr) = (tval (Tms c) + (tval received - tval sent - tval corr)) sdiv 2"
    using subTime_exact_lemma [OF d(1)] subTime_exact_lemma [OF d(2)] addTime_exact_lemma [OF d(3)]
      div2Time_exact_lemma [OF _ d(4)]
    by (simp add: raw_delay_def)
  show "fn (ofm_filt c) = 0 \<longrightarrow> updateDelay c sent received corr = c" by (simp add: updateDelay_def)
  show "fn (ofm_filt c) \<noteq> 0 \<longrightarrow> meanPathDelay (currentDS (updateDelay c sent received corr)) =
      (if seconds (raw_delay c sent received corr) \<noteq> 0 then raw_delay c sent received corr
       else (raw_delay c sent received corr)\<lparr>nanoseconds :=
         fst (filter_ptp (nanoseconds (raw_delay c sent received corr)) (owd_filt c))\<rparr>)"
    by (simp add: updateDelay_def raw_delay_def Let_def split_beta)
qed

definition raw_peer_delay :: "'a PtpClock_scheme \<Rightarrow> TimeInternal \<Rightarrow> bool \<Rightarrow> TimeInternal" where
  "raw_peer_delay c corr twoStep =
    div2Time (subTime (if twoStep then addTime (subTime (pdelay_t2 c) (pdelay_t1 c)) (subTime (pdelay_t4 c) (pdelay_t3 c))
                       else subTime (pdelay_t4 c) (pdelay_t1 c)) corr)"

definition peer_exact :: "'a PtpClock_scheme \<Rightarrow> TimeInternal \<Rightarrow> bool \<Rightarrow> bool" where
  "peer_exact c corr twoStep \<longleftrightarrow>
    (let Tab = subTime (pdelay_t2 c) (pdelay_t1 c); Tba = subTime (pdelay_t4 c) (pdelay_t3 c);
         s = (if twoStep then addTime Tab Tba else subTime (pdelay_t4 c) (pdelay_t1 c))
     in (if twoStep then sub_in_range (pdelay_t2 c) (pdelay_t1 c) \<and> sub_in_range (pdelay_t4 c) (pdelay_t3 c)
            \<and> add_in_range Tab Tba else sub_in_range (pdelay_t4 c) (pdelay_t1 c))
        \<and> sub_in_range s corr \<and> \<bar>seconds (subTime s corr)\<bar> < 2147483640)"

text \<open>\<^verbatim>\<open>updatePeerDelay\<close> computes the peer delay of 11.4 from the four timestamps: half of
  \<open>(t2 - t1) + (t4 - t3)\<close> less the corrections for a two-step peer, half of \<open>t4 - t1\<close> less the
  correction for a one-step peer, filtered when it is below a second.\<close>

theorem updatePeerDelay_spec:
  assumes "peer_exact c corr twoStep"
  shows "tval (raw_peer_delay c corr twoStep) =
      ((if twoStep then (tval (pdelay_t2 c) - tval (pdelay_t1 c)) + (tval (pdelay_t4 c) - tval (pdelay_t3 c))
        else tval (pdelay_t4 c) - tval (pdelay_t1 c)) - tval corr) sdiv 2
    \<and> peerMeanPathDelay (portDS (updatePeerDelay c corr twoStep)) =
        (if seconds (raw_peer_delay c corr twoStep) \<noteq> 0 then raw_peer_delay c corr twoStep
         else (raw_peer_delay c corr twoStep)\<lparr>nanoseconds :=
           fst (filter_ptp (nanoseconds (raw_peer_delay c corr twoStep)) (owd_filt c))\<rparr>)"
proof (intro conjI)
  show "tval (raw_peer_delay c corr twoStep) =
      ((if twoStep then (tval (pdelay_t2 c) - tval (pdelay_t1 c)) + (tval (pdelay_t4 c) - tval (pdelay_t3 c))
        else tval (pdelay_t4 c) - tval (pdelay_t1 c)) - tval corr) sdiv 2"
    using assms
    by (cases twoStep)
      (simp_all add: raw_peer_delay_def peer_exact_def Let_def subTime_exact_lemma addTime_exact_lemma
        div2Time_exact_lemma)
  show "peerMeanPathDelay (portDS (updatePeerDelay c corr twoStep)) =
      (if seconds (raw_peer_delay c corr twoStep) \<noteq> 0 then raw_peer_delay c corr twoStep
       else (raw_peer_delay c corr twoStep)\<lparr>nanoseconds :=
         fst (filter_ptp (nanoseconds (raw_peer_delay c corr twoStep)) (owd_filt c))\<rparr>)"
    by (cases twoStep) (simp_all add: updatePeerDelay_def raw_peer_delay_def Let_def split_beta)
qed

subsection \<open>Steering the clock\<close>

lemma netQEmptyLoop_count:
  "wf_queue q \<Longrightarrow> n = length (queued q) \<Longrightarrow>
    queued (fst (netQEmptyLoop n q)) = [] \<and> wf_queue (fst (netQEmptyLoop n q))
    \<and> snd (netQEmptyLoop n q) = map pb_id (queued q)"
proof (induction n arbitrary: q)
  case (Suc n)
  then obtain x xs where q: "queued q = x # xs" by (cases "queued q") auto
  obtain q' where g: "netQGet q = (Some x, q')" "wf_queue q'" "queued q' = xs"
    using netQGet_cons [OF Suc.prems(1) q] by (cases "netQGet q") auto
  show ?case using Suc.IH [OF g(2)] g Suc.prems(2) q by (simp add: split_beta)
next
  case 0
  then have "queued q = []" by (metis length_0_conv)
  then show ?case using 0 by simp
qed

lemma netEmptyEventQ_simps [simp]:
  "observedDrift (netEmptyEventQ c) = observedDrift c" "ofm_filt (netEmptyEventQ c) = ofm_filt c"
  "owd_filt (netEmptyEventQ c) = owd_filt c" "portDS (netEmptyEventQ c) = portDS c"
  "defaultDS (netEmptyEventQ c) = defaultDS c" "itimer (netEmptyEventQ c) = itimer c"
  "servo (netEmptyEventQ c) = servo c" "events (netEmptyEventQ c) = events c"
  "waitingForFollowUp (netEmptyEventQ c) = waitingForFollowUp c" "Tms (netEmptyEventQ c) = Tms c"
  "foreignMasterDS (netEmptyEventQ c) = foreignMasterDS c" "currentDS (netEmptyEventQ c) = currentDS c"
  "msgObuf (netEmptyEventQ c) = msgObuf c" "msgIbuf (netEmptyEventQ c) = msgIbuf c"
  "recommendedState (netEmptyEventQ c) = recommendedState c" "elapsed_ms (netEmptyEventQ c) = elapsed_ms c"
  "ptpMonitorl (netEmptyEventQ c) = ptpMonitorl c" "mon_cnt (netEmptyEventQ c) = mon_cnt c"
  "overrun (netEmptyEventQ c) = overrun c" "rtOpts (netEmptyEventQ c) = rtOpts c"
  by (simp_all add: netEmptyEventQ_def split_beta)

lemma netEmptyEventQ_queue:
  "wf_queue (eventQ (netPath c)) \<Longrightarrow> queued (eventQ (netPath (netEmptyEventQ c))) = []
    \<and> outputs (netEmptyEventQ c) = rev (map (PbufFree o pb_id) (queued (eventQ (netPath c)))) @ outputs c"
  using netQEmptyLoop_count [of "eventQ (netPath c)" "nat (q_count (eventQ (netPath c)))"]
  by (simp add: netEmptyEventQ_def netQEmpty_def split_beta)

lemma adjFreq_simps [simp]:
  "observedDrift (adjFreq a c) = observedDrift c" "ofm_filt (adjFreq a c) = ofm_filt c"
  "netPath (adjFreq a c) = netPath c" "parentDS (adjFreq a c) = parentDS c"
  by (simp_all add: adjFreq_def ETH_PTPTime_AdjFreq_def emit_def Let_def)

definition clamp_ppb :: "int \<Rightarrow> int" where
  "clamp_ppb x = max (- 512000) (min 512000 x)"

text \<open>The offset scaled to a sync interval of one second.\<close>

definition normal_offset :: "'a PtpClock_scheme \<Rightarrow> int" where
  "normal_offset c =
    (let ns = nanoseconds (offsetFromMaster (currentDS c)); l = logSyncInterval (portDS c)
     in if l > 0 then asr32 ns l else if l < 0 then lsl32 ns (- l) else ns)"

definition next_drift :: "'a PtpClock_scheme \<Rightarrow> int" where
  "next_drift c = clamp_ppb (i32 (observedDrift c + normal_offset c sdiv ai (servo c)))"

definition large_offset :: "'a PtpClock_scheme \<Rightarrow> bool" where
  "large_offset c \<longleftrightarrow> seconds (offsetFromMaster (currentDS c)) \<noteq> 0
     \<or> uint (word_of_int (c_abs (nanoseconds (offsetFromMaster (currentDS c)))) :: 32 word) > 100000000"

lemma clamp_record:
  "(if observedDrift d > ADJ_FREQ_MAX then d\<lparr>observedDrift := ADJ_FREQ_MAX\<rparr>
    else if observedDrift d < - ADJ_FREQ_MAX then d\<lparr>observedDrift := - ADJ_FREQ_MAX\<rparr> else d)
    = d\<lparr>observedDrift := clamp_ppb (observedDrift d)\<rparr>"
  by (simp add: clamp_ppb_def ADJ_FREQ_MAX_def min_def max_def)

lemma normal_offset_eq:
  "(if logSyncInterval (portDS c) > 0 then asr32 (nanoseconds (offsetFromMaster (currentDS c))) (logSyncInterval (portDS c))
    else if logSyncInterval (portDS c) < 0
    then lsl32 (nanoseconds (offsetFromMaster (currentDS c))) (- logSyncInterval (portDS c))
    else nanoseconds (offsetFromMaster (currentDS c))) = normal_offset c"
  by (simp add: normal_offset_def Let_def)

lemma updateClock_small:
  assumes "\<not> large_offset c"
  shows "updateClock c =
    (let c' = c\<lparr>observedDrift := next_drift c\<rparr>
     in if noAdjust (servo c) then c'
        else adjFreq (i32 (- i32 (normal_offset c sdiv ap (servo c) + next_drift c))) c')"
proof -
  have "\<not> (seconds (offsetFromMaster (currentDS c)) \<noteq> 0
      \<or> uint (word_of_int (c_abs (nanoseconds (offsetFromMaster (currentDS c)))) :: 32 word) > MAX_ADJ_OFFSET_NS)"
    using assms by (simp add: large_offset_def MAX_ADJ_OFFSET_NS_def)
  then show ?thesis
    unfolding updateClock_def Let_def normal_offset_eq clamp_record DEFAULT_PARENTS_STATS_def
    by (simp add: next_drift_def)
qed

lemma updateClock_large:
  "large_offset c \<Longrightarrow> updateClock c =
    (if noAdjust (servo c) then c
     else if noResetClock (servo c)
     then adjFreq (if nanoseconds (offsetFromMaster (currentDS c)) > 0 then - 512000 else 512000) c
     else initClock (setTime (subTime (fst (getTime c)) (offsetFromMaster (currentDS c))) (snd (getTime c))))"
  unfolding updateClock_def large_offset_def
  by (simp add: Let_def MAX_ADJ_OFFSET_NS_def ADJ_FREQ_MAX_def split_beta ETH_PTPTime_GetTime_def
      getTime_def hw_read_def)

text \<open>C22: the PI controller.  With an offset below a second and within 100 ms, \<^verbatim>\<open>updateClock\<close>
  adds the scaled offset divided by \<^verbatim>\<open>ai\<close> to the drift, clamps it to the steering range, and
  writes the addend of the negated sum of the drift and the offset divided by \<^verbatim>\<open>ap\<close>, clamped
  again; a clock that must not adjust writes nothing.\<close>

theorem updateClock_controller:
  assumes "\<not> large_offset c"
  shows "observedDrift (updateClock c) = next_drift c \<and> \<bar>next_drift c\<bar> \<le> 512000
    \<and> outputs (updateClock c) =
        (if noAdjust (servo c) then outputs c
         else SetAddend (freqAddend (clamp_ppb
           (i32 (- i32 (normal_offset c sdiv ap (servo c) + next_drift c))))) # outputs c)"
  using assms
  by (auto simp: updateClock_small adjFreq_outputs clamp_ppb_def [symmetric] Let_def)
    (auto simp: next_drift_def clamp_ppb_def)

definition slave_world :: "TimeInternal \<Rightarrow> clock" where
  "slave_world off = (power_up (\<lambda>n. 1000) (\<lambda>_. 0) (\<lambda>_. tx_good))\<lparr>
     portDS := portDS slave_clock, observedDrift := 100, servo := servo slave_clock,
     currentDS := (currentDS slave_clock)\<lparr>offsetFromMaster := off\<rparr>\<rparr>"

lemma slave_world_simps [simp]:
  "observedDrift (slave_world off) = 100" "outputs (slave_world off) = []"
  "portDS (slave_world off) = portDS slave_clock" "servo (slave_world off) = servo slave_clock"
  "offsetFromMaster (currentDS (slave_world off)) = off"
  "netPath (slave_world off) = NetPath_zero"
  by (simp_all add: slave_world_def power_up_def PtpClock.defs PtpClock_zero_def)

lemma slave_clock_simps [simp]:
  "logSyncInterval (portDS slave_clock) = 0" "ai (servo slave_clock) = 16" "ap (servo slave_clock) = 2"
  "noAdjust (servo slave_clock) = False" "noResetClock (servo slave_clock) = False"
  by (simp_all add: slave_clock_def PortDS_zero_def Servo_zero_def)

theorem updateClock_controller_witness:
  "outputs (updateClock (slave_world \<lparr>seconds = 0, nanoseconds = 1600\<rparr>)) = [SetAddend (freqAddend (- 1000))]"
proof -
  let ?w = "slave_world \<lparr>seconds = 0, nanoseconds = 1600\<rparr>"
  have "\<not> large_offset ?w" "normal_offset ?w = 1600" "next_drift ?w = 200"
    by (simp_all add: large_offset_def normal_offset_def next_drift_def clamp_ppb_def c_abs_def sdiv_pos)
  with updateClock_controller [of ?w] show ?thesis
    by (simp add: clamp_ppb_def sdiv_pos)
qed

text \<open>stepping the clock.  With a larger offset a clock that may be reset is set to the
  current hardware time less the offset; the drift, both filters and the pending exchanges are
  cleared, the nominal rate is restored and every queued event packet is freed.\<close>

theorem updateClock_step:
  assumes "large_offset c" and "\<not> noAdjust (servo c)" and "\<not> noResetClock (servo c)"
    and "wf_queue (eventQ (netPath c))"
  shows "observedDrift (updateClock c) = 0 \<and> fn (ofm_filt (updateClock c)) = 0
    \<and> fn (owd_filt (updateClock c)) = 0 \<and> \<not> waitingForFollowUp (updateClock c)
    \<and> queued (eventQ (netPath (updateClock c))) = []
    \<and> (case signedParts (subTime (fst (getTime c)) (offsetFromMaster (currentDS c))) of (sign, sec, ns) \<Rightarrow>
        outputs (updateClock c) = rev (map (PbufFree o pb_id) (queued (eventQ (netPath c))))
          @ SetAddend (freqAddend 0) # SetPtpTime sign sec (ETH_PTPNanoSecond2SubSecond ns) # outputs c)"
proof -
  let ?t = "subTime (fst (getTime c)) (offsetFromMaster (currentDS c))"
  let ?d = "setTime ?t (snd (getTime c))"
  have g: "netPath (snd (getTime c)) = netPath c" "outputs (snd (getTime c)) = outputs c"
    "servo (snd (getTime c)) = servo c"
    by (simp_all add: getTime_def ETH_PTPTime_GetTime_def hw_read_def Let_def)
  have d: "netPath ?d = netPath c" "servo ?d = servo c"
    "outputs ?d = (case signedParts ?t of (sign, sec, ns) \<Rightarrow>
       SetPtpTime sign sec (ETH_PTPNanoSecond2SubSecond ns) # outputs c)"
    using g by (simp_all add: setTime_def ETH_PTPTime_SetTime_def emit_def Let_def split: prod.splits)
  define e where "e = adjFreq 0 (?d\<lparr>Tms := TimeInternal_zero, observedDrift := 0,
      owd_filt := (owd_filt ?d)\<lparr>fn := 0, fs := sDelay (servo ?d)\<rparr>,
      ofm_filt := (ofm_filt ?d)\<lparr>fn := 0, fs := sOffset (servo ?d)\<rparr>,
      waitingForFollowUp := False, waitingForPDelayRespFollowUp := False,
      pdelay_t1 := TimeInternal_zero, pdelay_t2 := TimeInternal_zero, pdelay_t3 := TimeInternal_zero,
      pdelay_t4 := TimeInternal_zero,
      parentDS := (parentDS ?d)\<lparr>parentStats := False, observedParentClockPhaseChangeRate := 0,
        observedParentOffsetScaledLogVariance := 0\<rparr>\<rparr>)"
  have i: "initClock ?d = netEmptyEventQ e"
    using assms(2) d(2)
    by (simp add: initClock_def e_def Let_def DEFAULT_PARENTS_STATS_def TimeInternal_zero_def)
  have "outputs e = SetAddend (freqAddend 0) # outputs ?d" "eventQ (netPath e) = eventQ (netPath c)"
    "observedDrift e = 0" "fn (ofm_filt e) = 0" "fn (owd_filt e) = 0" "\<not> waitingForFollowUp e"
    using d by (simp_all add: e_def adjFreq_def ETH_PTPTime_AdjFreq_def emit_def Let_def ADJ_FREQ_MAX_def)
  then show ?thesis
    using netEmptyEventQ_queue [of e] assms d(3)
    by (simp add: updateClock_large i split_beta)
qed

end
