(* ===== verification/Ptp_Timer.thy ===== *)
theory Ptp_Timer
  imports Ptp_Datatypes
begin

text \<open>
  \<^verbatim>\<open>dep/timer.c\<close>: the seven interval timers of the port and the millisecond count
  \<^verbatim>\<open>elapsed_ms\<close> that the periodic handler accumulates.  The functions take the count and the
  array \<^verbatim>\<open>itimer\<close> and return them updated.  \<open>timer_bank\<close> states what the protocol engine
  relies on; its interpretation is the array of the code.
\<close>

definition catchAlarm :: "UInteger32 \<Rightarrow> UInteger32 \<Rightarrow> UInteger32" where
  "catchAlarm time_ms elapsed_ms = elapsed_ms + time_ms"

definition initTimer :: UInteger32 where
  "initTimer = 0"

text \<open>One turn of the loop of \<^verbatim>\<open>timerUpdate\<close>.\<close>

definition timerStep :: "int \<Rightarrow> IntervalTimer \<Rightarrow> IntervalTimer" where
  "timerStep delta t =
    (if interval t > 0
     then let t = t\<lparr>left := i32 (left t - delta)\<rparr>
          in if left t \<le> 0 then t\<lparr>left := interval t, expire := True\<rparr> else t
     else t)"

definition timerUpdate :: "UInteger32 \<Rightarrow> IntervalTimer list \<Rightarrow> UInteger32 \<times> IntervalTimer list" where
  "timerUpdate elapsed_ms ts =
    (let delta = i32 (uint elapsed_ms)
     in if delta \<le> 0 then (0, ts) else (0, map (timerStep delta) ts))"

definition timerStop :: "nat \<Rightarrow> IntervalTimer list \<Rightarrow> IntervalTimer list" where
  "timerStop index ts =
    (if index \<ge> TIMER_ARRAY_SIZE then ts
     else ts[index := (ts ! index)\<lparr>interval := 0\<rparr>])"

definition timerStart :: "nat \<Rightarrow> UInteger32 \<Rightarrow> IntervalTimer list \<Rightarrow> IntervalTimer list" where
  "timerStart index interval_ms ts =
    (if index \<ge> TIMER_ARRAY_SIZE then ts
     else let l = i32 (uint interval_ms)
          in ts[index := (ts ! index)\<lparr>expire := False, left := l, interval := l\<rparr>])"

definition timerExpired ::
  "nat \<Rightarrow> UInteger32 \<Rightarrow> IntervalTimer list \<Rightarrow> Boolean \<times> UInteger32 \<times> IntervalTimer list" where
  "timerExpired index elapsed_ms ts =
    (let (elapsed_ms, ts) = timerUpdate elapsed_ms ts
     in if index \<ge> TIMER_ARRAY_SIZE then (False, elapsed_ms, ts)
        else if \<not> expire (ts ! index) then (False, elapsed_ms, ts)
        else (True, elapsed_ms, ts[index := (ts ! index)\<lparr>expire := False\<rparr>]))"

subsection \<open>The array keeps its shape\<close>

definition wf_timers :: "IntervalTimer list \<Rightarrow> bool" where
  "wf_timers ts \<longleftrightarrow> length ts = TIMER_ARRAY_SIZE"

named_theorems timer_simps \<open>shape and independence of the timers\<close>

lemma timer_lengths [simp, timer_simps]:
  "length (timerStop i ts) = length ts" "length (timerStart i w ts) = length ts"
  "length (snd (timerUpdate e ts)) = length ts" "length (snd (snd (timerExpired i e ts))) = length ts"
  by (simp_all add: timerStop_def timerStart_def timerUpdate_def timerExpired_def Let_def split_beta)

lemma wf_timers_preserved [simp, timer_simps]:
  "wf_timers (timerStop i ts) = wf_timers ts" "wf_timers (timerStart i w ts) = wf_timers ts"
  "wf_timers (snd (timerUpdate e ts)) = wf_timers ts"
  "wf_timers (snd (snd (timerExpired i e ts))) = wf_timers ts"
  by (simp_all add: wf_timers_def)

lemma timerUpdate_elapsed [simp, timer_simps]: "fst (timerUpdate e ts) = 0"
  by (simp add: timerUpdate_def Let_def)

lemma timerExpired_elapsed [simp, timer_simps]: "fst (snd (timerExpired i e ts)) = 0"
  by (simp add: timerExpired_def Let_def split_beta)

lemma timerStop_other [simp, timer_simps]: "i \<noteq> j \<Longrightarrow> timerStop i ts ! j = ts ! j"
  by (simp add: timerStop_def)

lemma timerStart_other [simp, timer_simps]: "i \<noteq> j \<Longrightarrow> timerStart i w ts ! j = ts ! j"
  by (simp add: timerStart_def Let_def)

lemma timerStop_same [timer_simps]:
  "wf_timers ts \<Longrightarrow> i < TIMER_ARRAY_SIZE \<Longrightarrow> timerStop i ts ! i = (ts ! i)\<lparr>interval := 0\<rparr>"
  by (simp add: timerStop_def wf_timers_def)

lemma timerStart_same [timer_simps]:
  "wf_timers ts \<Longrightarrow> i < TIMER_ARRAY_SIZE \<Longrightarrow> timerStart i w ts ! i
    = (ts ! i)\<lparr>expire := False, left := i32 (uint w), interval := i32 (uint w)\<rparr>"
  by (simp add: timerStart_def wf_timers_def Let_def)

lemma timerStep_simps [simp]:
  "interval (timerStep d t) = interval t"
  "interval t \<le> 0 \<Longrightarrow> timerStep d t = t"
  "expire t \<Longrightarrow> expire (timerStep d t)"
  by (simp_all add: timerStep_def Let_def)

lemma timerUpdate_nth:
  "i < length ts \<Longrightarrow> snd (timerUpdate e ts) ! i
    = (if sint e \<le> 0 then ts ! i else timerStep (sint e) (ts ! i))"
  by (simp add: timerUpdate_def i32_uint Let_def)

subsection \<open>The contract of a bank of timers\<close>

locale timer_bank =
  fixes ok :: "'b \<Rightarrow> bool"
    and slots :: nat
    and start :: "nat \<Rightarrow> UInteger32 \<Rightarrow> 'b \<Rightarrow> 'b"
    and stop :: "nat \<Rightarrow> 'b \<Rightarrow> 'b"
    and tick :: "UInteger32 \<Rightarrow> 'b \<Rightarrow> 'b"
    and armed :: "nat \<Rightarrow> 'b \<Rightarrow> bool"
    and due :: "nat \<Rightarrow> 'b \<Rightarrow> bool"
  assumes ok_start: "ok b \<Longrightarrow> ok (start i w b)"
    and ok_stop: "ok b \<Longrightarrow> ok (stop i b)"
    and ok_tick: "ok b \<Longrightarrow> ok (tick w b)"
    and armed_start: "ok b \<Longrightarrow> i < slots \<Longrightarrow> armed i (start i w b) \<longleftrightarrow> 0 < sint w"
    and due_start: "ok b \<Longrightarrow> i < slots \<Longrightarrow> \<not> due i (start i w b)"
    and armed_stop: "ok b \<Longrightarrow> i < slots \<Longrightarrow> \<not> armed i (stop i b)"
    and due_stop: "ok b \<Longrightarrow> due j (stop i b) = due j b"
    and start_other: "i \<noteq> j \<Longrightarrow> armed j (start i w b) = armed j b \<and> due j (start i w b) = due j b"
    and stop_other: "i \<noteq> j \<Longrightarrow> armed j (stop i b) = armed j b"
    and armed_tick: "ok b \<Longrightarrow> i < slots \<Longrightarrow> armed i (tick w b) = armed i b"
    and due_tick: "ok b \<Longrightarrow> i < slots \<Longrightarrow> due i (tick w b) \<Longrightarrow> due i b \<or> armed i b"
    and due_kept: "ok b \<Longrightarrow> i < slots \<Longrightarrow> due i b \<Longrightarrow> due i (tick w b)"
begin

text \<open>A timer that is neither running nor due never becomes due, however long it is ticked.\<close>

lemma idle_stays_idle:
  "ok b \<Longrightarrow> i < slots \<Longrightarrow> \<not> armed i b \<Longrightarrow> \<not> due i b \<Longrightarrow>
    \<not> armed i (fold tick ws b) \<and> \<not> due i (fold tick ws b)"
proof (induction ws arbitrary: b)
  case (Cons w ws)
  then show ?case using armed_tick due_tick ok_tick by (metis fold_simps(2))
qed simp

lemma ok_ticks: "ok b \<Longrightarrow> ok (fold tick ws b)"
  by (induction ws arbitrary: b) (auto intro: ok_tick)

lemma start_zero_never_due:
  assumes "ok b" and "i < slots" and "sint w \<le> 0"
  shows "\<not> due i (fold tick ws (start i w b))"
  using idle_stays_idle [OF ok_start [OF assms(1)] assms(2)] armed_start [OF assms(1,2)]
    due_start [OF assms(1,2)] assms(3) by (simp add: not_less [symmetric])

lemma stop_silences:
  assumes "ok b" and "i < slots" and "\<not> due i b"
  shows "\<not> due i (fold tick ws (stop i b))"
  using idle_stays_idle [OF ok_stop [OF assms(1)] assms(2)] armed_stop [OF assms(1,2)]
    due_stop [OF assms(1)] assms(3) by blast

end

interpretation itimers: timer_bank wf_timers TIMER_ARRAY_SIZE timerStart timerStop
  "\<lambda>w ts. snd (timerUpdate w ts)" "\<lambda>i ts. 0 < interval (ts ! i)" "\<lambda>i ts. expire (ts ! i)"
proof unfold_locales
  fix b i j and w :: UInteger32
  assume "wf_timers b"
  then show "expire (timerStop i b ! j) = expire (b ! j)"
    by (cases "i = j") (auto simp: timerStop_def wf_timers_def)
qed (auto simp: timerStop_same timerStart_same i32_uint wf_timers_def timerUpdate_nth
    timerStep_def Let_def split: if_splits)

subsection \<open>Expiry\<close>

definition ticks :: "UInteger32 list \<Rightarrow> IntervalTimer list \<Rightarrow> IntervalTimer list" where
  "ticks ws ts = fold (\<lambda>w ts. snd (timerUpdate w ts)) ws ts"

definition total_ms :: "UInteger32 list \<Rightarrow> int" where
  "total_ms ws = sum_list (map uint ws)"

lemma ticks_simps [simp]:
  "ticks [] ts = ts" "ticks (w # ws) ts = ticks ws (snd (timerUpdate w ts))"
  "total_ms [] = 0" "total_ms (w # ws) = uint w + total_ms ws"
  by (simp_all add: ticks_def total_ms_def)

lemma total_ms_nonneg [simp]: "0 \<le> total_ms ws"
  by (induction ws) auto

lemma wf_ticks [simp]: "wf_timers (ticks ws ts) = wf_timers ts"
  by (induction ws arbitrary: ts) auto

lemma sint_small: "uint w < 2147483648 \<Longrightarrow> sint w = uint w" for w :: "32 word"
  using i32_uint [of w] uint_ge_0 [of w] by simp

lemma ticks_countdown:
  "wf_timers ts \<Longrightarrow> i < TIMER_ARRAY_SIZE \<Longrightarrow> 0 < interval (ts ! i) \<Longrightarrow>
    left (ts ! i) \<le> 2147483647 \<Longrightarrow> total_ms ws < left (ts ! i) \<Longrightarrow>
    ticks ws ts ! i = (ts ! i)\<lparr>left := left (ts ! i) - total_ms ws\<rparr>"
proof (induction ws arbitrary: ts)
  case (Cons w ws)
  let ?ts = "snd (timerUpdate w ts)"
  have b: "uint w < left (ts ! i)"
    using Cons.prems(5) total_ms_nonneg [of ws] unfolding ticks_simps by linarith
  then have s: "sint w = uint w" using Cons.prems(4) by (intro sint_small) linarith
  have l: "i32 (left (ts ! i) - uint w) = left (ts ! i) - uint w"
    using b Cons.prems(4) uint_ge_0 [of w] by (intro i32_id) linarith+
  have n: "?ts ! i = (ts ! i)\<lparr>left := left (ts ! i) - uint w\<rparr>"
    using Cons.prems b s l
    by (cases "uint w = 0") (auto simp: timerUpdate_nth wf_timers_def timerStep_def Let_def not_le)
  have "left (?ts ! i) \<le> 2147483647"
    unfolding n using Cons.prems(4) uint_ge_0 [of w] by (simp, linarith)
  then show ?case
    using Cons.IH [of ?ts] Cons.prems n by (simp add: algebra_simps)
qed simp

text \<open>C25: a started timer fires at the right time.  Started with a positive interval, it has
  not expired as long as the milliseconds handed to \<^verbatim>\<open>timerUpdate\<close> add up to less than the
  interval, however they are cut into updates; the update that reaches the interval sets
  \<^verbatim>\<open>expire\<close> and reloads the count.\<close>

theorem timer_fires_at_interval:
  assumes "wf_timers ts" and "i < TIMER_ARRAY_SIZE"
    and "0 < uint k" and "uint k < 2147483648" and "total_ms ws < uint k"
  shows "\<not> expire (ticks ws (timerStart i k ts) ! i)
    \<and> (uint k \<le> total_ms ws + uint w \<and> uint w < 2147483648 \<longrightarrow>
        expire (ticks (ws @ [w]) (timerStart i k ts) ! i)
        \<and> left (ticks (ws @ [w]) (timerStart i k ts) ! i) = uint k)"
proof -
  let ?t = "(ts ! i)\<lparr>expire := False, left := uint k, interval := uint k\<rparr>"
  have s: "timerStart i k ts ! i = ?t"
    using assms by (simp add: timerStart_same i32_uint sint_small)
  have t: "ticks ws (timerStart i k ts) ! i = ?t\<lparr>left := uint k - total_ms ws\<rparr>"
    using ticks_countdown [of "timerStart i k ts" i ws] assms s by simp
  moreover have "ticks (ws @ [w]) (timerStart i k ts)
      = snd (timerUpdate w (ticks ws (timerStart i k ts)))"
    by (simp add: ticks_def)
  moreover have "wf_timers (ticks ws (timerStart i k ts))" using assms(1) by simp
  ultimately show ?thesis
    using assms sint_small [of w]
    by (auto simp: timerUpdate_nth wf_timers_def timerStep_def Let_def)
qed

theorem timer_fires_at_interval_witness:
  "expire (ticks [400, 599, 1] (timerStart SYNC_INTERVAL_TIMER 1000
     (replicate 7 \<lparr>interval = 0, left = 0, expire = False\<rparr>)) ! SYNC_INTERVAL_TIMER)"
  using timer_fires_at_interval [of "replicate 7 \<lparr>interval = 0, left = 0, expire = False\<rparr>"
      SYNC_INTERVAL_TIMER 1000 "[400, 599]" 1]
  by (simp add: wf_timers_def TIMER_ARRAY_SIZE_def)

text \<open>a timer started with an interval of 0 is dead: whatever time passes it never
  expires.  \<^verbatim>\<open>getRand\<close> can return 0, and then the delay request timer it starts is such a
  timer.\<close>

theorem zero_interval_never_fires:
  assumes "wf_timers ts" and "i < TIMER_ARRAY_SIZE"
  shows "\<not> expire (ticks ws (timerStart i 0 ts) ! i)
    \<and> \<not> fst (timerExpired i e (ticks ws (timerStart i 0 ts)))"
proof -
  have n: "\<not> expire (ticks vs (timerStart i 0 ts) ! i)" for vs
    using itimers.start_zero_never_due [OF assms, of 0 vs] by (simp add: ticks_def)
  have "snd (timerUpdate e (ticks ws (timerStart i 0 ts))) = ticks (ws @ [e]) (timerStart i 0 ts)"
    by (simp add: ticks_def)
  then show ?thesis
    using n [of ws] n [of "ws @ [e]"] by (simp add: timerExpired_def split_beta)
qed

text \<open>an expiry is reported once: \<^verbatim>\<open>timerExpired\<close> answers yes exactly when the update it
  starts with leaves \<^verbatim>\<open>expire\<close> set, clears the flag it reports and nothing else, and asking
  again before time has passed answers no.\<close>

theorem timerExpired_once:
  assumes "wf_timers ts" and "i < TIMER_ARRAY_SIZE"
  shows "fst (timerExpired i e ts) = expire (snd (timerUpdate e ts) ! i)
    \<and> \<not> fst (timerExpired i 0 (snd (snd (timerExpired i e ts))))
    \<and> (\<forall>j. j \<noteq> i \<longrightarrow> snd (snd (timerExpired i e ts)) ! j = snd (timerUpdate e ts) ! j)"
  using assms
  by (auto simp: timerExpired_def split_beta wf_timers_def timerUpdate_def Let_def)

end
