(* ===== verification/Ptp_Msg.thy ===== *)
theory Ptp_Msg
  imports Ptp_World
begin

text \<open>
  \<^verbatim>\<open>dep/msg.c\<close>: packing the messages of the protocol into the output buffer and unpacking
  them from the input buffer, byte by byte at the offsets of the source.  The buffer is a
  list of \<^verbatim>\<open>PACKET_SIZE\<close> octets.  \<open>template\<close> is the part of the header that
  \<^verbatim>\<open>msgPackHeader\<close> writes once at start-up and every message relies on.
\<close>

unbundle bit_operations_syntax

subsection \<open>Header\<close>

definition msgUnpackHeader :: "Octet list \<Rightarrow> MsgHeader" where
  "msgUnpackHeader buf =
    (let m = get32 buf 8;
         l = get32 buf 12;
         cf = uint (flip32 m);
         cf = i64 (cf * 2 ^ 32);
         cf = i64 (cf + uint (flip32 l))
     in \<lparr>transportSpecific = drop_bit 4 (get8 buf 0),
         messageType = get8 buf 0 AND 0x0F,
         versionPTP = get8 buf 1 AND 0x0F,
         messageLength = flip16 (get16 buf 2),
         hdr_domainNumber = get8 buf 4,
         flagField = get_bytes buf 6 2,
         correctionfield = cf,
         sourcePortIdentity = \<lparr>clockIdentity = get_bytes buf 20 CLOCK_IDENTITY_LENGTH,
                               portNumber = flip16 (get16 buf 28)\<rparr>,
         sequenceId = flip16 (get16 buf 30),
         controlField = get8 buf 32,
         logMessageInterval = sint (get8 buf 33)\<rparr>)"

definition msgPackHeader :: "'a PtpClock_scheme \<Rightarrow> Octet list \<Rightarrow> Octet list" where
  "msgPackHeader ptpClock buf =
    (let buf = put8 buf 0 0x80;
         buf = put8 buf 1 (versionNumber (portDS ptpClock));
         buf = put8 buf 4 (domainNumber (defaultDS ptpClock));
         buf = (if twoStepFlag (defaultDS ptpClock) then put8 buf 6 FLAG0_TWO_STEP else buf);
         buf = memset_at buf 8 0 8;
         buf = put_bytes buf 20 (take CLOCK_IDENTITY_LENGTH (clockIdentity (portIdentity (portDS ptpClock))));
         buf = put16 buf 28 (flip16 (portNumber (portIdentity (portDS ptpClock))));
         buf = put8 buf 33 0x7F
     in buf)"

text \<open>The two stores that every packer starts with, and the ten bytes of a timestamp.\<close>

definition putMessageType :: "Octet list \<Rightarrow> Enumeration4 \<Rightarrow> Octet list" where
  "putMessageType buf t =
    (let buf = put8 buf 0 (get8 buf 0 AND 0xF0) in put8 buf 0 (get8 buf 0 OR t))"

definition putTimestamp :: "Octet list \<Rightarrow> Timestamp \<Rightarrow> Octet list" where
  "putTimestamp buf ts =
    (let buf = put16 buf 34 (flip16 (msb (secondsField ts)));
         buf = put32 buf 36 (flip32 (lsb (secondsField ts)))
     in put32 buf 40 (flip32 (nanosecondsField ts)))"

definition getTimestamp :: "Octet list \<Rightarrow> Timestamp" where
  "getTimestamp buf =
    \<lparr>secondsField = \<lparr>lsb = flip32 (get32 buf 36), msb = flip16 (get16 buf 34)\<rparr>,
     nanosecondsField = flip32 (get32 buf 40)\<rparr>"

definition putPortIdentity44 :: "Octet list \<Rightarrow> PortIdentity \<Rightarrow> Octet list" where
  "putPortIdentity44 buf p =
    put16 (put_bytes buf 44 (take CLOCK_IDENTITY_LENGTH (clockIdentity p))) 52 (flip16 (portNumber p))"

definition getPortIdentity44 :: "Octet list \<Rightarrow> PortIdentity" where
  "getPortIdentity44 buf =
    \<lparr>clockIdentity = get_bytes buf 44 CLOCK_IDENTITY_LENGTH, portNumber = flip16 (get16 buf 52)\<rparr>"

definition putCorrection :: "Octet list \<Rightarrow> Integer64 \<Rightarrow> Octet list" where
  "putCorrection buf cf =
    put32 (put32 buf 8 (flip32 (word_of_int (cf div 2 ^ 32)))) 12 (flip32 (word_of_int cf))"

subsection \<open>Announce\<close>

definition msgPackAnnounce :: "'a PtpClock_scheme \<Rightarrow> Octet list \<Rightarrow> Octet list" where
  "msgPackAnnounce ptpClock buf =
    (let buf = putMessageType buf ANNOUNCE;
         buf = put16 buf 2 (flip16 (word_of_int ANNOUNCE_LENGTH));
         buf = put16 buf 30 (flip16 (sentAnnounceSequenceId ptpClock));
         buf = put8 buf 32 CTRL_OTHER;
         buf = put8 buf 33 (word_of_int (logAnnounceInterval (portDS ptpClock)));
         buf = memset_at buf 34 0 10;
         buf = put16 buf 44 (flip16 (word_of_int (currentUtcOffset (timePropertiesDS ptpClock))));
         buf = put8 buf 47 (grandmasterPriority1 (parentDS ptpClock));
         buf = put8 buf 48 (clockClass (clockQuality (defaultDS ptpClock)));
         buf = put8 buf 49 (clockAccuracy (clockQuality (defaultDS ptpClock)));
         buf = put16 buf 50 (flip16 (offsetScaledLogVariance (clockQuality (defaultDS ptpClock))));
         buf = put8 buf 52 (grandmasterPriority2 (parentDS ptpClock));
         buf = put_bytes buf 53 (take CLOCK_IDENTITY_LENGTH (grandmasterIdentity (parentDS ptpClock)));
         buf = put16 buf 61 (flip16 (stepsRemoved (currentDS ptpClock)));
         buf = put8 buf 63 (timeSource (timePropertiesDS ptpClock))
     in buf)"

definition msgUnpackAnnounce :: "Octet list \<Rightarrow> MsgAnnounce" where
  "msgUnpackAnnounce buf =
    \<lparr>ann_originTimestamp = getTimestamp buf,
     ann_currentUtcOffset = sint (flip16 (get16 buf 44)),
     ann_grandmasterPriority1 = get8 buf 47,
     ann_grandmasterClockQuality = \<lparr>clockClass = get8 buf 48, clockAccuracy = get8 buf 49,
       offsetScaledLogVariance = flip16 (get16 buf 50)\<rparr>,
     ann_grandmasterPriority2 = get8 buf 52,
     ann_grandmasterIdentity = get_bytes buf 53 CLOCK_IDENTITY_LENGTH,
     ann_stepsRemoved = flip16 (get16 buf 61),
     ann_timeSource = get8 buf 63\<rparr>"

subsection \<open>Sync, Delay_Req and Follow_Up\<close>

definition msgPackSync :: "'a PtpClock_scheme \<Rightarrow> Octet list \<Rightarrow> Timestamp \<Rightarrow> Octet list" where
  "msgPackSync ptpClock buf originTimestamp =
    (let buf = putMessageType buf SYNC;
         buf = put16 buf 2 (flip16 (word_of_int SYNC_LENGTH));
         buf = put16 buf 30 (flip16 (sentSyncSequenceId ptpClock));
         buf = put8 buf 32 CTRL_SYNC;
         buf = put8 buf 33 (word_of_int (logSyncInterval (portDS ptpClock)));
         buf = memset_at buf 8 0 8
     in putTimestamp buf originTimestamp)"

definition msgUnpackSync :: "Octet list \<Rightarrow> MsgSync" where
  "msgUnpackSync buf = \<lparr>sync_originTimestamp = getTimestamp buf\<rparr>"

definition msgPackDelayReq :: "'a PtpClock_scheme \<Rightarrow> Octet list \<Rightarrow> Timestamp \<Rightarrow> Octet list" where
  "msgPackDelayReq ptpClock buf originTimestamp =
    (let buf = putMessageType buf DELAY_REQ;
         buf = put16 buf 2 (flip16 (word_of_int DELAY_REQ_LENGTH));
         buf = put16 buf 30 (flip16 (sentDelayReqSequenceId ptpClock));
         buf = put8 buf 32 CTRL_DELAY_REQ;
         buf = put8 buf 33 0x7F;
         buf = memset_at buf 8 0 8
     in putTimestamp buf originTimestamp)"

definition msgUnpackDelayReq :: "Octet list \<Rightarrow> MsgDelayReq" where
  "msgUnpackDelayReq buf = \<lparr>req_originTimestamp = getTimestamp buf\<rparr>"

definition msgPackFollowUp :: "'a PtpClock_scheme \<Rightarrow> Octet list \<Rightarrow> Timestamp \<Rightarrow> Octet list" where
  "msgPackFollowUp ptpClock buf preciseTime =
    (let buf = putMessageType buf FOLLOW_UP;
         buf = put16 buf 2 (flip16 (word_of_int FOLLOW_UP_LENGTH));
         buf = put16 buf 30 (flip16 (sentSyncSequenceId ptpClock - 1));
         buf = put8 buf 32 CTRL_FOLLOW_UP;
         buf = put8 buf 33 (word_of_int (logSyncInterval (portDS ptpClock)))
     in putTimestamp buf preciseTime)"

definition msgUnpackFollowUp :: "Octet list \<Rightarrow> MsgFollowUp" where
  "msgUnpackFollowUp buf = \<lparr>preciseOriginTimestamp = getTimestamp buf\<rparr>"

subsection \<open>Delay_Resp and the peer delay messages\<close>

definition msgPackDelayResp ::
  "'a PtpClock_scheme \<Rightarrow> Octet list \<Rightarrow> MsgHeader \<Rightarrow> Timestamp \<Rightarrow> Octet list" where
  "msgPackDelayResp ptpClock buf header receiveTime =
    (let buf = putMessageType buf DELAY_RESP;
         buf = put16 buf 2 (flip16 (word_of_int DELAY_RESP_LENGTH));
         buf = memset_at buf 8 0 8;
         buf = putCorrection buf (correctionfield header);
         buf = put16 buf 30 (flip16 (sequenceId header));
         buf = put8 buf 32 CTRL_DELAY_RESP;
         buf = put8 buf 33 (word_of_int (logMinDelayReqInterval (portDS ptpClock)));
         buf = putTimestamp buf receiveTime
     in putPortIdentity44 buf (sourcePortIdentity header))"

definition msgUnpackDelayResp :: "Octet list \<Rightarrow> MsgDelayResp" where
  "msgUnpackDelayResp buf =
    \<lparr>receiveTimestamp = getTimestamp buf, resp_requestingPortIdentity = getPortIdentity44 buf\<rparr>"

definition msgPackPDelayReq :: "'a PtpClock_scheme \<Rightarrow> Octet list \<Rightarrow> Timestamp \<Rightarrow> Octet list" where
  "msgPackPDelayReq ptpClock buf originTimestamp =
    (let buf = putMessageType buf PDELAY_REQ;
         buf = put16 buf 2 (flip16 (word_of_int PDELAY_REQ_LENGTH));
         buf = put16 buf 30 (flip16 (sentPDelayReqSequenceId ptpClock));
         buf = put8 buf 32 CTRL_OTHER;
         buf = put8 buf 33 0x7F;
         buf = memset_at buf 8 0 8;
         buf = putTimestamp buf originTimestamp
     in memset_at buf 44 0 10)"

definition msgUnpackPDelayReq :: "Octet list \<Rightarrow> MsgPDelayReq" where
  "msgUnpackPDelayReq buf = \<lparr>preq_originTimestamp = getTimestamp buf\<rparr>"

definition msgPackPDelayResp :: "Octet list \<Rightarrow> MsgHeader \<Rightarrow> Timestamp \<Rightarrow> Octet list" where
  "msgPackPDelayResp buf header receiptTime =
    (let buf = putMessageType buf PDELAY_RESP;
         buf = put16 buf 2 (flip16 (word_of_int PDELAY_RESP_LENGTH));
         buf = memset_at buf 8 0 8;
         buf = put16 buf 30 (flip16 (sequenceId header));
         buf = put8 buf 32 CTRL_OTHER;
         buf = put8 buf 33 0x7F;
         buf = putTimestamp buf receiptTime
     in putPortIdentity44 buf (sourcePortIdentity header))"

definition msgUnpackPDelayResp :: "Octet list \<Rightarrow> MsgPDelayResp" where
  "msgUnpackPDelayResp buf =
    \<lparr>requestReceiptTimestamp = getTimestamp buf, presp_requestingPortIdentity = getPortIdentity44 buf\<rparr>"

definition msgPackPDelayRespFollowUp :: "Octet list \<Rightarrow> MsgHeader \<Rightarrow> Timestamp \<Rightarrow> Octet list" where
  "msgPackPDelayRespFollowUp buf header responseTime =
    (let buf = putMessageType buf PDELAY_RESP_FOLLOW_UP;
         buf = put16 buf 2 (flip16 (word_of_int PDELAY_RESP_FOLLOW_UP_LENGTH));
         buf = put16 buf 30 (flip16 (sequenceId header));
         buf = put8 buf 32 CTRL_OTHER;
         buf = put8 buf 33 0x7F;
         buf = putCorrection buf (correctionfield header);
         buf = putTimestamp buf responseTime
     in putPortIdentity44 buf (sourcePortIdentity header))"

definition msgUnpackPDelayRespFollowUp :: "Octet list \<Rightarrow> MsgPDelayRespFollowUp" where
  "msgUnpackPDelayRespFollowUp buf =
    \<lparr>responseOriginTimestamp = getTimestamp buf,
     prespfollow_requestingPortIdentity = getPortIdentity44 buf\<rparr>"

subsection \<open>Management: the monitoring message of a slave\<close>

definition msgPackManagement :: "Octet list \<Rightarrow> Timestamp \<Rightarrow> UInteger32 \<Rightarrow> Octet list" where
  "msgPackManagement buf offset local_ip =
    (let buf = putMessageType buf MANAGEMENT;
         buf = put16 buf 2 (flip16 (word_of_int MANAGEMENT_LENGTH));
         buf = put8 buf 32 CTRL_MANAGEMENT;
         buf = put8 buf 33 0x7F;
         buf = putTimestamp buf offset
     in put32 buf 44 (flip32 local_ip))"

definition msgUnpackManagement :: "Octet list \<Rightarrow> MsgManagement" where
  "msgUnpackManagement buf =
    \<lparr>mng_ipaddr = flip32 (get32 buf 44), toMasterOffset = getTimestamp buf\<rparr>"

subsection \<open>The header template\<close>

definition template :: "'a PtpClock_scheme \<Rightarrow> Octet list \<Rightarrow> bool" where
  "template c buf \<longleftrightarrow> length buf = PACKET_SIZE
     \<and> get8 buf 0 AND 0xF0 = 0x80
     \<and> get8 buf 1 = versionNumber (portDS c)
     \<and> get8 buf 4 = domainNumber (defaultDS c)
     \<and> (twoStepFlag (defaultDS c) \<longrightarrow> get8 buf 6 = FLAG0_TWO_STEP)
     \<and> get_bytes buf 20 8 = clockIdentity (portIdentity (portDS c))
     \<and> get16 buf 28 = flip16 (portNumber (portIdentity (portDS c)))"

text \<open>What a receiver sees of every message of the clock \<open>c\<close>.\<close>

definition own_header :: "'a PtpClock_scheme \<Rightarrow> MsgHeader \<Rightarrow> Enumeration4 \<Rightarrow> int \<Rightarrow> bool" where
  "own_header c h t len \<longleftrightarrow> messageType h = t \<and> transportSpecific h = 0x8
     \<and> messageLength h = word_of_int len
     \<and> versionPTP h = versionNumber (portDS c) AND 0x0F
     \<and> hdr_domainNumber h = domainNumber (defaultDS c)
     \<and> (twoStepFlag (defaultDS c) \<longrightarrow> flagField h ! 0 = FLAG0_TWO_STEP)
     \<and> sourcePortIdentity h = \<lparr>clockIdentity = clockIdentity (portIdentity (portDS c)),
          portNumber = portNumber (portIdentity (portDS c))\<rparr>"

lemma nibbles:
  fixes x t :: "8 word"
  assumes "x AND 0xF0 = 0x80" and "t AND 0xF0 = 0"
  shows "(x AND 0xF0 OR t) AND 0x0F = t" and "drop_bit 4 (x AND 0xF0 OR t) = 8"
    and "(x AND 0xF0 OR t) AND 0xF0 = 0x80"
proof -
  have m: "(0xF0 :: 8 word) = NOT (mask 4)" "(0x0F :: 8 word) = mask 4"
    by (simp_all add: mask_eq_exp_minus_1 not_eq_complement)
  have bt: "bit t n \<Longrightarrow> n < 4" for n
    using assms(2) bit_imp_le_length [of t n] unfolding m bit_eq_iff by (auto simp: bit_simps)
  show "(x AND 0xF0 OR t) AND 0x0F = t"
    unfolding m by (rule bit_word_eqI) (auto simp: bit_simps dest: bt)
  have "drop_bit 4 (x AND 0xF0 OR t) = drop_bit 4 (x AND 0xF0)"
    by (rule bit_word_eqI) (auto simp: bit_simps dest: bt)
  also have "\<dots> = 8" unfolding assms(1) by (simp add: drop_bit_eq_div)
  finally show "drop_bit 4 (x AND 0xF0 OR t) = 8" .
  have "(x AND 0xF0 OR t) AND 0xF0 = x AND 0xF0"
    unfolding m by (rule bit_word_eqI) (auto simp: bit_simps dest: bt)
  then show "(x AND 0xF0 OR t) AND 0xF0 = 0x80" using assms(1) by simp
qed

lemma get_bytes_two: "get_bytes buf i 2 = [get8 buf i, get8 buf (i + 1)]"
  by (simp add: get_bytes_def get8_def numeral_2_eq_2)

lemma own_headerI:
  assumes "template c buf" and "get8 buf 0 AND 0x0F = t" and "flip16 (get16 buf 2) = word_of_int len"
  shows "own_header c (msgUnpackHeader buf) t len"
proof -
  have "drop_bit 4 (get8 buf 0) = (8 :: 8 word)"
  proof -
    have m: "(0xF0 :: 8 word) = NOT (mask 4)" by (simp add: mask_eq_exp_minus_1 not_eq_complement)
    have "drop_bit 4 (get8 buf 0) = drop_bit 4 (get8 buf 0 AND 0xF0)"
      unfolding m by (rule bit_word_eqI) (auto simp: bit_simps dest: bit_imp_le_length)
    then show ?thesis using assms(1) by (simp add: template_def drop_bit_eq_div)
  qed
  then show ?thesis
    using assms
    by (simp add: own_header_def msgUnpackHeader_def template_def Let_def get_bytes_two
        CLOCK_IDENTITY_LENGTH_def)
qed

lemma get8_memset [buf_simps]:
  "i \<le> k \<Longrightarrow> k < i + n \<Longrightarrow> k < length buf \<Longrightarrow> get8 (put_bytes buf i (replicate n b)) k = b"
  by (simp add: get8_def nth_put_bytes)

lemma get_bytes_memset [buf_simps]:
  "i \<le> k \<Longrightarrow> k + m \<le> i + n \<Longrightarrow> k + m \<le> length buf \<Longrightarrow>
    get_bytes (put_bytes buf i (replicate n b)) k m = replicate m b"
  by (rule nth_equalityI) (auto simp: get_bytes_def nth_put_bytes)

lemma un_le_zero [buf_simps]: "un_le16 (replicate 2 0) = 0" "un_le32 (replicate 4 0) = 0"
  by (simp_all add: un_le16_def un_le32_def eval_nat_numeral)

lemma hton_zero [buf_simps]: "htons 0 = 0" "htonl 0 = 0"
  by (simp_all add: htons_def htonl_def)

lemmas pack_unfold =
  putMessageType_def putTimestamp_def putPortIdentity44_def putCorrection_def
  put_get_defs Let_def CLOCK_IDENTITY_LENGTH_def

lemma msgPackHeader_template:
  assumes "length buf = PACKET_SIZE" and "length (clockIdentity (portIdentity (portDS c))) = 8"
  shows "template c (msgPackHeader c buf)"
  using assms
  by (simp add: template_def msgPackHeader_def pack_unfold buf_simps PACKET_SIZE_def)

lemma pack_template:
  assumes "template c buf"
  shows "template c (msgPackAnnounce c buf)" and "template c (msgPackSync c buf ts)"
    and "template c (msgPackDelayReq c buf ts)" and "template c (msgPackFollowUp c buf ts)"
    and "template c (msgPackDelayResp c buf h ts)" and "template c (msgPackPDelayReq c buf ts)"
    and "template c (msgPackPDelayResp buf h ts)" and "template c (msgPackPDelayRespFollowUp buf h ts)"
    and "template c (msgPackManagement buf ts ip)"
  using assms
  by (auto simp: template_def pack_unfold buf_simps PACKET_SIZE_def nibbles
      msgPackAnnounce_def msgPackSync_def msgPackDelayReq_def msgPackFollowUp_def msgPackDelayResp_def
      msgPackPDelayReq_def msgPackPDelayResp_def msgPackPDelayRespFollowUp_def msgPackManagement_def)


subsection \<open>Round trips\<close>

lemma correction_roundtrip:
  assumes "-9223372036854775808 \<le> cf" and "cf \<le> 9223372036854775807"
  shows "i64 (i64 (uint (word_of_int (cf div 2 ^ 32) :: 32 word) * 2 ^ 32)
    + uint (word_of_int cf :: 32 word)) = cf"
proof -
  have u: "uint (word_of_int x :: 32 word) = x mod 2 ^ 32" for x
    by (simp add: uint_word_of_int)
  have "i64 (i64 a + b) = i64 (a + b)" for a b
    by (simp add: i64_def mod_simps algebra_simps)
  moreover have "i64 (x mod 2 ^ 32 * 2 ^ 32 + y) = i64 (x * 2 ^ 32 + y)" for x y
  proof -
    have "x mod 2 ^ 32 * 2 ^ 32 = x * 2 ^ 32 - x div 2 ^ 32 * 2 ^ 64"
      by (simp add: minus_div_mult_eq_mod [symmetric] algebra_simps)
    then have "x mod 2 ^ 32 * 2 ^ 32 + y + 9223372036854775808
        = x * 2 ^ 32 + y + 9223372036854775808 + - (x div 2 ^ 32) * 18446744073709551616"
      by simp
    then show ?thesis by (simp only: i64_def mod_mult_self1)
  qed
  moreover have "cf div 2 ^ 32 * 2 ^ 32 + cf mod 2 ^ 32 = cf" by (rule div_mult_mod_eq)
  ultimately show ?thesis using assms by (simp only: u i64_id)
qed

lemma sint_word_of_int_i8: "-128 \<le> x \<Longrightarrow> x \<le> 127 \<Longrightarrow> sint (word_of_int x :: 8 word) = x"
  by (simp add: i8_sint [symmetric])

lemma sint_word_of_int_i16: "-32768 \<le> x \<Longrightarrow> x \<le> 32767 \<Longrightarrow> sint (word_of_int x :: 16 word) = x"
  by (simp add: i16_sint [symmetric])

lemma type_masks:
  "(ANNOUNCE AND 0xF0) = 0" "(SYNC AND 0xF0) = 0" "(DELAY_REQ AND 0xF0) = 0" "(FOLLOW_UP AND 0xF0) = 0"
  "(DELAY_RESP AND 0xF0) = 0" "(PDELAY_REQ AND 0xF0) = 0" "(PDELAY_RESP AND 0xF0) = 0"
  "(PDELAY_RESP_FOLLOW_UP AND 0xF0) = 0" "(MANAGEMENT AND 0xF0) = 0"
  by simp_all

definition wire_range8 :: "int \<Rightarrow> bool" where
  "wire_range8 x \<longleftrightarrow> -128 \<le> x \<and> x \<le> 127"

definition wire_range16 :: "int \<Rightarrow> bool" where
  "wire_range16 x \<longleftrightarrow> -32768 \<le> x \<and> x \<le> 32767"

lemma pid_eta [simp]: "\<lparr>clockIdentity = clockIdentity p, portNumber = portNumber p\<rparr> = p"
  for p :: PortIdentity
  by (cases p) simp

lemma u48_eta [simp]: "\<lparr>lsb = lsb u, msb = msb u\<rparr> = u" for u :: UInteger48
  by (cases u) simp

lemma timestamp_eta [simp]:
  "\<lparr>secondsField = secondsField t, nanosecondsField = nanosecondsField t\<rparr> = t" for t :: Timestamp
  by (cases t) simp

definition wire_range64 :: "int \<Rightarrow> bool" where
  "wire_range64 x \<longleftrightarrow> -9223372036854775808 \<le> x \<and> x \<le> 9223372036854775807"

lemma correction_wire:
  "wire_range64 cf \<Longrightarrow> i64 (i64 (uint (word_of_int (cf div 4294967296) :: 32 word) * 4294967296)
    + uint (word_of_int cf :: 32 word)) = cf"
  using correction_roundtrip [of cf] by (simp add: wire_range64_def)

lemmas roundtrip_simps =
  msgUnpackHeader_def pack_unfold buf_simps PACKET_SIZE_def getTimestamp_def getPortIdentity44_def
  wire_range8_def wire_range16_def sint_word_of_int_i8 sint_word_of_int_i16

lemma template_length: "template c buf \<Longrightarrow> length buf = PACKET_SIZE"
  by (simp add: template_def)

lemma template_nibble: "template c buf \<Longrightarrow> get8 buf 0 AND 0xF0 = 0x80"
  by (simp add: template_def)

lemma pack_own_header:
  assumes "template c buf"
  shows "own_header c (msgUnpackHeader (msgPackAnnounce c buf)) ANNOUNCE ANNOUNCE_LENGTH"
    and "own_header c (msgUnpackHeader (msgPackSync c buf ts)) SYNC SYNC_LENGTH"
    and "own_header c (msgUnpackHeader (msgPackDelayReq c buf ts)) DELAY_REQ DELAY_REQ_LENGTH"
    and "own_header c (msgUnpackHeader (msgPackFollowUp c buf ts)) FOLLOW_UP FOLLOW_UP_LENGTH"
    and "own_header c (msgUnpackHeader (msgPackDelayResp c buf h ts)) DELAY_RESP DELAY_RESP_LENGTH"
    and "own_header c (msgUnpackHeader (msgPackPDelayReq c buf ts)) PDELAY_REQ PDELAY_REQ_LENGTH"
    and "own_header c (msgUnpackHeader (msgPackPDelayResp buf h ts)) PDELAY_RESP PDELAY_RESP_LENGTH"
    and "own_header c (msgUnpackHeader (msgPackPDelayRespFollowUp buf h ts)) PDELAY_RESP_FOLLOW_UP
      PDELAY_RESP_FOLLOW_UP_LENGTH"
    and "own_header c (msgUnpackHeader (msgPackManagement buf ts ip)) MANAGEMENT MANAGEMENT_LENGTH"
  using template_length [OF assms] template_nibble [OF assms]
  by (intro own_headerI pack_template [OF assms];
      simp add: msgPackAnnounce_def msgPackSync_def msgPackDelayReq_def msgPackFollowUp_def
        msgPackDelayResp_def msgPackPDelayReq_def msgPackPDelayResp_def msgPackPDelayRespFollowUp_def
        msgPackManagement_def roundtrip_simps nibbles)+

text \<open>A concrete sender.\<close>

definition sample_clock :: PtpClock where
  "sample_clock = PtpClock_zero\<lparr>
     portDS := PortDS_zero\<lparr>versionNumber := 2,
       portIdentity := \<lparr>clockIdentity = [0, 4, 163, 0xff, 0xfe, 1, 2, 3], portNumber = 1\<rparr>\<rparr>,
     defaultDS := DefaultDS_zero\<lparr>twoStepFlag := True\<rparr>\<rparr>"

definition sample_buf :: "Octet list" where
  "sample_buf = msgPackHeader sample_clock (replicate 300 0)"

lemma sample_template: "template sample_clock sample_buf"
  unfolding sample_buf_def
  by (rule msgPackHeader_template) (simp_all add: sample_clock_def PACKET_SIZE_def zero_defs)

lemmas sample_ranges = sample_clock_def wire_range8_def wire_range16_def wire_range64_def zero_defs

text \<open>C24: an Announce message carries the clock's data sets: unpacking what
  \<^verbatim>\<open>msgPackAnnounce\<close> packed gives the sender's header, its sequence id, and an announcement
  with the parent's grandmaster, the local clock quality, the steps removed and the time
  properties.\<close>

theorem announce_roundtrip:
  assumes "template c buf" and "length (grandmasterIdentity (parentDS c)) = 8"
    and "wire_range8 (logAnnounceInterval (portDS c))"
    and "wire_range16 (currentUtcOffset (timePropertiesDS c))"
  shows "own_header c (msgUnpackHeader (msgPackAnnounce c buf)) ANNOUNCE ANNOUNCE_LENGTH
    \<and> sequenceId (msgUnpackHeader (msgPackAnnounce c buf)) = sentAnnounceSequenceId c
    \<and> logMessageInterval (msgUnpackHeader (msgPackAnnounce c buf)) = logAnnounceInterval (portDS c)
    \<and> msgUnpackAnnounce (msgPackAnnounce c buf) =
       \<lparr>ann_originTimestamp = \<lparr>secondsField = \<lparr>lsb = 0, msb = 0\<rparr>, nanosecondsField = 0\<rparr>,
        ann_currentUtcOffset = currentUtcOffset (timePropertiesDS c),
        ann_grandmasterPriority1 = grandmasterPriority1 (parentDS c),
        ann_grandmasterClockQuality = clockQuality (defaultDS c),
        ann_grandmasterPriority2 = grandmasterPriority2 (parentDS c),
        ann_grandmasterIdentity = grandmasterIdentity (parentDS c),
        ann_stepsRemoved = stepsRemoved (currentDS c),
        ann_timeSource = timeSource (timePropertiesDS c)\<rparr>"
  by (intro conjI pack_own_header [OF assms(1)])
    (use assms template_length [OF assms(1)] in
      \<open>simp_all add: roundtrip_simps msgUnpackAnnounce_def msgPackAnnounce_def\<close>)


theorem announce_roundtrip_witness:
  "ann_grandmasterClockQuality (msgUnpackAnnounce (msgPackAnnounce sample_clock sample_buf)) = ClockQuality_zero"
  using announce_roundtrip [OF sample_template]
  by (simp add: sample_ranges)

text \<open>Sync and Follow_Up: both carry the timestamp given to the packer and the clock's own
  header; the Sync message has the current sequence id and a zero correction, and the
  Follow_Up packed after \<^verbatim>\<open>issueSync\<close> has advanced the counter names the same Sync message.\<close>

theorem sync_followup_roundtrip:
  assumes "template c buf" and "wire_range8 (logSyncInterval (portDS c))"
  shows "own_header c (msgUnpackHeader (msgPackSync c buf ts)) SYNC SYNC_LENGTH
    \<and> own_header c (msgUnpackHeader (msgPackFollowUp c buf ts)) FOLLOW_UP FOLLOW_UP_LENGTH
    \<and> msgUnpackSync (msgPackSync c buf ts) = \<lparr>sync_originTimestamp = ts\<rparr>
    \<and> msgUnpackFollowUp (msgPackFollowUp c buf ts) = \<lparr>preciseOriginTimestamp = ts\<rparr>
    \<and> correctionfield (msgUnpackHeader (msgPackSync c buf ts)) = 0
    \<and> logMessageInterval (msgUnpackHeader (msgPackSync c buf ts)) = logSyncInterval (portDS c)
    \<and> sequenceId (msgUnpackHeader (msgPackFollowUp
         (c\<lparr>sentSyncSequenceId := sentSyncSequenceId c + 1\<rparr>) (msgPackSync c buf ts) ts'))
      = sequenceId (msgUnpackHeader (msgPackSync c buf ts))"
  by (intro conjI pack_own_header [OF assms(1)])
    (use assms template_length [OF assms(1)] in
      \<open>simp_all add: roundtrip_simps msgUnpackSync_def msgPackSync_def msgUnpackFollowUp_def
        msgPackFollowUp_def\<close>)

text \<open>the answer to a Delay_Req: the Delay_Resp carries the sequence id, the 64 bit
  correction field and the port identity of the request and the receive timestamp, so the
  requester finds itself and its request in it.\<close>

theorem delay_resp_roundtrip:
  assumes "template c buf" and "wire_range64 (correctionfield h)"
    and "length (clockIdentity (sourcePortIdentity h)) = 8"
  shows "own_header c (msgUnpackHeader (msgPackDelayResp c buf h ts)) DELAY_RESP DELAY_RESP_LENGTH
    \<and> sequenceId (msgUnpackHeader (msgPackDelayResp c buf h ts)) = sequenceId h
    \<and> correctionfield (msgUnpackHeader (msgPackDelayResp c buf h ts)) = correctionfield h
    \<and> msgUnpackDelayResp (msgPackDelayResp c buf h ts)
      = \<lparr>receiveTimestamp = ts, resp_requestingPortIdentity = sourcePortIdentity h\<rparr>
    \<and> msgUnpackDelayReq (msgPackDelayReq c buf ts) = \<lparr>req_originTimestamp = ts\<rparr>
    \<and> sequenceId (msgUnpackHeader (msgPackDelayReq c buf ts)) = sentDelayReqSequenceId c"
  by (intro conjI pack_own_header [OF assms(1)])
    (use assms template_length [OF assms(1)] in
      \<open>simp_all add: roundtrip_simps msgUnpackDelayResp_def msgPackDelayResp_def correction_wire
        msgUnpackDelayReq_def msgPackDelayReq_def\<close>)

text \<open>the peer delay messages: the request carries its counter and origin time; response
  and follow-up carry the request's sequence id and port identity and their timestamp, and the
  follow-up the correction field of the request.\<close>

theorem pdelay_roundtrip:
  assumes "template c buf" and "wire_range64 (correctionfield h)"
    and "length (clockIdentity (sourcePortIdentity h)) = 8"
  shows "msgUnpackPDelayReq (msgPackPDelayReq c buf ts) = \<lparr>preq_originTimestamp = ts\<rparr>
    \<and> sequenceId (msgUnpackHeader (msgPackPDelayReq c buf ts)) = sentPDelayReqSequenceId c
    \<and> own_header c (msgUnpackHeader (msgPackPDelayResp buf h ts)) PDELAY_RESP PDELAY_RESP_LENGTH
    \<and> sequenceId (msgUnpackHeader (msgPackPDelayResp buf h ts)) = sequenceId h
    \<and> msgUnpackPDelayResp (msgPackPDelayResp buf h ts)
      = \<lparr>requestReceiptTimestamp = ts, presp_requestingPortIdentity = sourcePortIdentity h\<rparr>
    \<and> own_header c (msgUnpackHeader (msgPackPDelayRespFollowUp buf h ts)) PDELAY_RESP_FOLLOW_UP
        PDELAY_RESP_FOLLOW_UP_LENGTH
    \<and> sequenceId (msgUnpackHeader (msgPackPDelayRespFollowUp buf h ts)) = sequenceId h
    \<and> correctionfield (msgUnpackHeader (msgPackPDelayRespFollowUp buf h ts)) = correctionfield h
    \<and> msgUnpackPDelayRespFollowUp (msgPackPDelayRespFollowUp buf h ts)
      = \<lparr>responseOriginTimestamp = ts, prespfollow_requestingPortIdentity = sourcePortIdentity h\<rparr>"
  by (intro conjI pack_own_header [OF assms(1)])
    (use assms template_length [OF assms(1)] in
      \<open>simp_all add: roundtrip_simps msgUnpackPDelayReq_def msgPackPDelayReq_def correction_wire
        msgUnpackPDelayResp_def msgPackPDelayResp_def msgUnpackPDelayRespFollowUp_def
        msgPackPDelayRespFollowUp_def\<close>)

text \<open>the monitoring message carries the slave's offset and address to the master, but the
  packer leaves the sequence id and the correction field of the last message in the buffer.\<close>

theorem management_roundtrip:
  assumes "template c buf"
  shows "msgUnpackManagement (msgPackManagement buf ts ip) = \<lparr>mng_ipaddr = ip, toMasterOffset = ts\<rparr>
    \<and> messageType (msgUnpackHeader (msgPackManagement buf ts ip)) = MANAGEMENT
    \<and> sequenceId (msgUnpackHeader (msgPackManagement buf ts ip)) = sequenceId (msgUnpackHeader buf)
    \<and> correctionfield (msgUnpackHeader (msgPackManagement buf ts ip))
      = correctionfield (msgUnpackHeader buf)"
  using assms template_length [OF assms(1)] template_nibble [OF assms(1)]
  by (simp add: roundtrip_simps nibbles msgUnpackManagement_def msgPackManagement_def)

end
