(* ===== verification/Ptp_Bmc.thy ===== *)
theory Ptp_Bmc
  imports Ptp_World "HOL-Library.Product_Lexorder" "HOL-Library.List_Lexorder"
begin

text \<open>
  \<^verbatim>\<open>bmc.c\<close>: the data sets at initialisation, the foreign master data set, the updates M1 and
  S1, and the best master clock algorithm: the comparison of two announced data sets, the
  state decision and the scan over the foreign masters.  \<open>rank\<close> is the order of Figure 27 of
  the standard; the comparison of the code is related to it, and the scan is analysed in the
  locale \<open>comparison\<close>, of which the comparison of the code is an interpretation.
\<close>

unbundle bit_operations_syntax

subsection \<open>Initialisation of the data sets\<close>

definition EUI48toEUI64 :: "Octet list \<Rightarrow> Octet list" where
  "EUI48toEUI64 eui48 =
    [eui48 ! 0, eui48 ! 1, eui48 ! 2, 0xff, 0xfe, eui48 ! 3, eui48 ! 4, eui48 ! 5]"

definition initData :: "'a PtpClock_scheme \<Rightarrow> 'a PtpClock_scheme" where
  "initData c =
    (let ro = rtOpts c;
         dds = defaultDS c;
         dds = dds\<lparr>twoStepFlag := True\<rparr>;
         dds = (if CLOCK_IDENTITY_LENGTH = 8 \<and> PTP_UUID_LENGTH = 6
                then dds\<lparr>dds_clockIdentity := EUI48toEUI64 (portUuidField c)\<rparr>
                else if CLOCK_IDENTITY_LENGTH = PTP_UUID_LENGTH
                then dds\<lparr>dds_clockIdentity := take CLOCK_IDENTITY_LENGTH (portUuidField c)\<rparr>
                else dds);
         dds = dds\<lparr>numberPorts := 1\<rparr>;
         dds = dds\<lparr>clockQuality :=
           \<lparr>clockClass = clockClass (rt_clockQuality ro),
            clockAccuracy = clockAccuracy (rt_clockQuality ro),
            offsetScaledLogVariance = offsetScaledLogVariance (rt_clockQuality ro)\<rparr>\<rparr>;
         dds = dds\<lparr>priority1 := rt_priority1 ro, priority2 := rt_priority2 ro\<rparr>;
         dds = dds\<lparr>domainNumber := rt_domainNumber ro, slaveOnly := rt_slaveOnly ro\<rparr>;
         pds = portDS c;
         pds = pds\<lparr>portIdentity :=
           \<lparr>clockIdentity = take CLOCK_IDENTITY_LENGTH (dds_clockIdentity dds), portNumber = 1\<rparr>\<rparr>;
         pds = pds\<lparr>logMinDelayReqInterval := 3,
           peerMeanPathDelay := \<lparr>seconds = 0, nanoseconds = 0\<rparr>,
           logAnnounceInterval := announceInterval ro,
           announceReceiptTimeout := 6,
           logSyncInterval := syncInterval ro,
           delayMechanism := rt_delayMechanism ro,
           logMinPdelayReqInterval := 1,
           versionNumber := 2\<rparr>
     in c\<lparr>defaultDS := dds, portDS := pds,
          foreignMasterDS := (foreignMasterDS c)\<lparr>count := 0, capacity := nat (maxForeignRecords ro)\<rparr>,
          inboundLatency := rt_inboundLatency ro,
          outboundLatency := rt_outboundLatency ro,
          servo := (servo c)\<lparr>sDelay := sDelay (rt_servo ro), sOffset := sOffset (rt_servo ro),
            ai := ai (rt_servo ro), ap := ap (rt_servo ro),
            noAdjust := noAdjust (rt_servo ro), noResetClock := noResetClock (rt_servo ro)\<rparr>,
          stats := rt_stats ro\<rparr>)"

definition isSamePortIdentity :: "PortIdentity \<Rightarrow> PortIdentity \<Rightarrow> Boolean" where
  "isSamePortIdentity A B \<longleftrightarrow>
    memcmp (clockIdentity A) (clockIdentity B) CLOCK_IDENTITY_LENGTH = 0 \<and> portNumber A = portNumber B"

subsection \<open>The foreign master data set\<close>

text \<open>The search loop: \<open>n\<close> turns from slot \<open>j\<close>, wrapping at \<open>count\<close>.\<close>

fun foreignSearch :: "nat \<Rightarrow> nat \<Rightarrow> PortIdentity \<Rightarrow> ForeignMasterDS \<Rightarrow> nat option" where
  "foreignSearch 0 j p fm = None"
| "foreignSearch (Suc n) j p fm =
    (if isSamePortIdentity p (foreignMasterPortIdentity (records fm ! j)) then Some j
     else foreignSearch n ((j + 1) mod count fm) p fm)"

definition addForeign :: "'a PtpClock_scheme \<Rightarrow> MsgHeader \<Rightarrow> MsgAnnounce \<Rightarrow> 'a PtpClock_scheme" where
  "addForeign c header ann =
    (let fm = foreignMasterDS c
     in case foreignSearch (count fm) (best fm) (sourcePortIdentity header) fm of
       Some j \<Rightarrow>
         (let r = records fm ! j;
              r = r\<lparr>foreignMasterAnnounceMessages := foreignMasterAnnounceMessages r + 1\<rparr>;
              r = r\<lparr>fmr_header := header, fmr_announce := ann\<rparr>
          in c\<lparr>foreignMasterDS := fm\<lparr>records := (records fm)[j := r]\<rparr>\<rparr>)
     | None \<Rightarrow>
         (let fm = (if count fm < capacity fm then fm\<lparr>count := count fm + 1\<rparr> else fm);
              j = fm_i fm;
              r = records fm ! j;
              r = r\<lparr>foreignMasterPortIdentity :=
                \<lparr>clockIdentity = take CLOCK_IDENTITY_LENGTH (clockIdentity (sourcePortIdentity header)),
                 portNumber = portNumber (sourcePortIdentity header)\<rparr>\<rparr>;
              r = r\<lparr>foreignMasterAnnounceMessages := 0\<rparr>;
              r = r\<lparr>fmr_header := header, fmr_announce := ann\<rparr>;
              fm = fm\<lparr>records := (records fm)[j := r], fm_i := (fm_i fm + 1) mod capacity fm\<rparr>
          in c\<lparr>foreignMasterDS := fm\<rparr>))"

subsection \<open>Updates of the data sets (9.3.5)\<close>

definition m1 :: "'a PtpClock_scheme \<Rightarrow> 'a PtpClock_scheme" where
  "m1 c =
    c\<lparr>currentDS := (currentDS c)\<lparr>stepsRemoved := 0,
        offsetFromMaster := \<lparr>seconds = 0, nanoseconds = 0\<rparr>,
        meanPathDelay := \<lparr>seconds = 0, nanoseconds = 0\<rparr>\<rparr>,
      parentDS := (parentDS c)\<lparr>
        parentPortIdentity :=
          \<lparr>clockIdentity = take CLOCK_IDENTITY_LENGTH (dds_clockIdentity (defaultDS c)), portNumber = 0\<rparr>,
        grandmasterIdentity := take CLOCK_IDENTITY_LENGTH (dds_clockIdentity (defaultDS c)),
        grandmasterClockQuality := clockQuality (defaultDS c),
        grandmasterPriority1 := priority1 (defaultDS c),
        grandmasterPriority2 := priority2 (defaultDS c)\<rparr>,
      timePropertiesDS := (timePropertiesDS c)\<lparr>
        currentUtcOffset := rt_currentUtcOffset (rtOpts c),
        currentUtcOffsetValid := False, leap59 := False, leap61 := False,
        timeTraceable := False, frequencyTraceable := False,
        ptpTimescale := False,
        timeSource := 0xA0\<rparr>\<rparr>"

abbreviation (input) m2 :: "'a PtpClock_scheme \<Rightarrow> 'a PtpClock_scheme" where "m2 \<equiv> m1"

definition p1 :: "'a PtpClock_scheme \<Rightarrow> 'a PtpClock_scheme" where
  "p1 c = c"

definition s1 :: "'a PtpClock_scheme \<Rightarrow> MsgHeader \<Rightarrow> MsgAnnounce \<Rightarrow> 'a PtpClock_scheme" where
  "s1 c header ann =
    (let c = c\<lparr>currentDS := (currentDS c)\<lparr>stepsRemoved := ann_stepsRemoved ann + 1\<rparr>\<rparr>;
         isFromCurrentParent =
           isSamePortIdentity (parentPortIdentity (parentDS c)) (sourcePortIdentity header);
         c = (if \<not> isFromCurrentParent
              then c\<lparr>events := setFlag (events c) MASTER_CLOCK_CHANGED\<rparr> else c);
         f1 = flagField header ! 1
     in c\<lparr>parentDS := (parentDS c)\<lparr>
            parentPortIdentity :=
              \<lparr>clockIdentity = take CLOCK_IDENTITY_LENGTH (clockIdentity (sourcePortIdentity header)),
               portNumber = portNumber (sourcePortIdentity header)\<rparr>,
            grandmasterIdentity := take CLOCK_IDENTITY_LENGTH (ann_grandmasterIdentity ann),
            grandmasterClockQuality := ann_grandmasterClockQuality ann,
            grandmasterPriority1 := ann_grandmasterPriority1 ann,
            grandmasterPriority2 := ann_grandmasterPriority2 ann\<rparr>,
          timePropertiesDS := (timePropertiesDS c)\<lparr>
            currentUtcOffset := ann_currentUtcOffset ann,
            currentUtcOffsetValid := getFlag f1 FLAG1_UTC_OFFSET_VALID,
            leap59 := getFlag f1 FLAG1_LEAP59,
            leap61 := getFlag f1 FLAG1_LEAP61,
            timeTraceable := getFlag f1 FLAG1_TIME_TRACEABLE,
            frequencyTraceable := getFlag f1 FLAG1_FREQUENCY_TRACEABLE,
            ptpTimescale := getFlag f1 FLAG1_PTP_TIMESCALE,
            timeSource := ann_timeSource ann\<rparr>\<rparr>)"

definition copyD0 ::
  "MsgHeader \<Rightarrow> MsgAnnounce \<Rightarrow> 'a PtpClock_scheme \<Rightarrow> MsgHeader \<times> MsgAnnounce" where
  "copyD0 header ann c =
    (header\<lparr>sourcePortIdentity := (sourcePortIdentity header)\<lparr>
       clockIdentity := take CLOCK_IDENTITY_LENGTH (dds_clockIdentity (defaultDS c))\<rparr>\<rparr>,
     ann\<lparr>ann_grandmasterPriority1 := priority1 (defaultDS c),
         ann_grandmasterIdentity := take CLOCK_IDENTITY_LENGTH (dds_clockIdentity (defaultDS c)),
         ann_grandmasterClockQuality := clockQuality (defaultDS c),
         ann_grandmasterPriority2 := priority2 (defaultDS c),
         ann_stepsRemoved := 0\<rparr>)"

subsection \<open>The data set comparison (9.3.4)\<close>

abbreviation (input) A_better_then_B :: int where "A_better_then_B \<equiv> 1"
abbreviation (input) B_better_then_A :: int where "B_better_then_A \<equiv> -1"

text \<open>Part 1, Figure 27: the grandmasters differ by \<open>idc\<close>; \<open>None\<close> when no test decides.\<close>

definition comparePart1 :: "MsgAnnounce \<Rightarrow> MsgAnnounce \<Rightarrow> int \<Rightarrow> int option" where
  "comparePart1 A B idc =
    (if ann_grandmasterPriority1 A > ann_grandmasterPriority1 B then Some B_better_then_A
     else if ann_grandmasterPriority1 B > ann_grandmasterPriority1 A then Some A_better_then_B
     else if clockClass (ann_grandmasterClockQuality A) > clockClass (ann_grandmasterClockQuality B)
     then Some B_better_then_A
     else if clockClass (ann_grandmasterClockQuality B) > clockClass (ann_grandmasterClockQuality A)
     then Some A_better_then_B
     else if clockAccuracy (ann_grandmasterClockQuality A) > clockAccuracy (ann_grandmasterClockQuality B)
     then Some B_better_then_A
     else if clockAccuracy (ann_grandmasterClockQuality B) > clockAccuracy (ann_grandmasterClockQuality A)
     then Some A_better_then_B
     else if offsetScaledLogVariance (ann_grandmasterClockQuality A)
       > offsetScaledLogVariance (ann_grandmasterClockQuality B) then Some B_better_then_A
     else if offsetScaledLogVariance (ann_grandmasterClockQuality B)
       > offsetScaledLogVariance (ann_grandmasterClockQuality A) then Some A_better_then_B
     else if ann_grandmasterPriority2 A > ann_grandmasterPriority2 B then Some B_better_then_A
     else if ann_grandmasterPriority2 B > ann_grandmasterPriority2 A then Some A_better_then_B
     else if idc > 0 then Some B_better_then_A
     else if idc < 0 then Some A_better_then_B
     else None)"

text \<open>Part 2, Figure 28: the same grandmaster, or no decision before.\<close>

definition comparePart2 ::
  "MsgHeader \<Rightarrow> MsgAnnounce \<Rightarrow> MsgHeader \<Rightarrow> MsgAnnounce \<Rightarrow> ClockIdentity \<Rightarrow> int" where
  "comparePart2 hA A hB B port =
    (if uint (ann_stepsRemoved A) > uint (ann_stepsRemoved B) + 1 then B_better_then_A
     else if uint (ann_stepsRemoved B) > uint (ann_stepsRemoved A) + 1 then A_better_then_B
     else if ann_stepsRemoved A > ann_stepsRemoved B then
       (let comp = i16 (memcmp (clockIdentity (sourcePortIdentity hA)) port CLOCK_IDENTITY_LENGTH)
        in if comp > 0 then B_better_then_A else if comp < 0 then -1 else 0)
     else if ann_stepsRemoved A < ann_stepsRemoved B then
       (let comp = i16 (memcmp (clockIdentity (sourcePortIdentity hB)) port CLOCK_IDENTITY_LENGTH)
        in if comp > 0 then A_better_then_B else if comp < 0 then 1 else 0)
     else
       (let comp = i16 (memcmp (clockIdentity (sourcePortIdentity hA))
                          (clockIdentity (sourcePortIdentity hB)) CLOCK_IDENTITY_LENGTH)
        in if comp > 0 then -1 else if comp < 0 then 1 else 0))"

definition bmcDataSetComparison ::
  "MsgHeader \<Rightarrow> MsgAnnounce \<Rightarrow> MsgHeader \<Rightarrow> MsgAnnounce \<Rightarrow> 'a PtpClock_scheme \<Rightarrow> Integer8" where
  "bmcDataSetComparison headerA announceA headerB announceB c =
    (let idc = memcmp (ann_grandmasterIdentity announceA) (ann_grandmasterIdentity announceB)
           CLOCK_IDENTITY_LENGTH;
         port = clockIdentity (portIdentity (portDS c))
     in if idc \<noteq> 0 then
          (case comparePart1 announceA announceB idc of
             Some r \<Rightarrow> r
           | None \<Rightarrow> comparePart2 headerA announceA headerB announceB port)
        else comparePart2 headerA announceA headerB announceB port)"

subsection \<open>State decision and the scan\<close>

definition bmcStateDecision ::
  "MsgHeader \<Rightarrow> MsgAnnounce \<Rightarrow> 'a PtpClock_scheme \<Rightarrow> PtpState \<times> 'a PtpClock_scheme" where
  "bmcStateDecision header ann c =
    (if count (foreignMasterDS c) = 0 \<and> portState (portDS c) = PTP_LISTENING
     then (PTP_LISTENING, c)
     else
       let (h0, a0) = copyD0 (msgTmpHeader c) (announce (msgTmp c)) c;
           c = c\<lparr>msgTmpHeader := h0, msgTmp := (msgTmp c)\<lparr>announce := a0\<rparr>\<rparr>;
           comp = bmcDataSetComparison (msgTmpHeader c) (announce (msgTmp c)) header ann c
       in if clockClass (clockQuality (defaultDS c)) < 128 then
            (if comp = A_better_then_B then (PTP_MASTER, m1 c) else (PTP_PASSIVE, p1 c))
          else
            (if comp = A_better_then_B then (PTP_MASTER, m2 c) else (PTP_SLAVE, s1 c header ann)))"

text \<open>The loop of \<^verbatim>\<open>bmc\<close> over the indices \<open>is\<close>.\<close>

fun bmcScan :: "('r \<Rightarrow> 'r \<Rightarrow> int) \<Rightarrow> 'r list \<Rightarrow> nat list \<Rightarrow> nat \<Rightarrow> nat" where
  "bmcScan cmp rs [] b = b"
| "bmcScan cmp rs (i # is) b = bmcScan cmp rs is (if cmp (rs ! i) (rs ! b) < 0 then i else b)"

definition recordComparison ::
  "'a PtpClock_scheme \<Rightarrow> ForeignMasterRecord \<Rightarrow> ForeignMasterRecord \<Rightarrow> int" where
  "recordComparison c A B =
    bmcDataSetComparison (fmr_header A) (fmr_announce A) (fmr_header B) (fmr_announce B) c"

definition bmc :: "'a PtpClock_scheme \<Rightarrow> PtpState \<times> 'a PtpClock_scheme" where
  "bmc c =
    (let fm = foreignMasterDS c;
         b = bmcScan (recordComparison c) (records fm) [1..<count fm] 0;
         c = c\<lparr>foreignMasterDS := fm\<lparr>best := b\<rparr>\<rparr>
     in bmcStateDecision (fmr_header (records fm ! b)) (fmr_announce (records fm ! b)) c)"

subsection \<open>The order of announced grandmasters\<close>

text \<open>
  Figure 27 ranks a grandmaster by priority 1, class, accuracy, variance, priority 2 and
  identity, smaller being better.  \<open>rank\<close> is that tuple with its lexicographic order.
\<close>

datatype rank = Rank (rank_key: "8 word \<times> 8 word \<times> 8 word \<times> 16 word \<times> 8 word \<times> 8 word list")

instantiation rank :: linorder
begin

definition less_eq_rank :: "rank \<Rightarrow> rank \<Rightarrow> bool" where
  "less_eq_rank r s \<longleftrightarrow> rank_key r \<le> rank_key s"

definition less_rank :: "rank \<Rightarrow> rank \<Rightarrow> bool" where
  "less_rank r s \<longleftrightarrow> rank_key r < rank_key s"

instance
  by standard (auto simp: less_eq_rank_def less_rank_def rank.expand)

end

definition announced_rank :: "MsgAnnounce \<Rightarrow> rank" where
  "announced_rank a = Rank
    (ann_grandmasterPriority1 a,
     clockClass (ann_grandmasterClockQuality a),
     clockAccuracy (ann_grandmasterClockQuality a),
     offsetScaledLogVariance (ann_grandmasterClockQuality a),
     ann_grandmasterPriority2 a,
     ann_grandmasterIdentity a)"

definition wf_announce :: "MsgAnnounce \<Rightarrow> bool" where
  "wf_announce a \<longleftrightarrow> length (ann_grandmasterIdentity a) = CLOCK_IDENTITY_LENGTH"

lemma bytecmp_less: "length a = length b \<Longrightarrow> bytecmp a b < 0 \<longleftrightarrow> a < b"
proof (induction a b rule: bytecmp.induct)
  case (1 x xs y ys)
  then show ?case by (auto simp: word_less_def)
qed auto

lemma memcmp_less:
  "length a = n \<Longrightarrow> length b = n \<Longrightarrow> memcmp a b n < 0 \<longleftrightarrow> a < b"
  "length a = n \<Longrightarrow> length b = n \<Longrightarrow> memcmp a b n > 0 \<longleftrightarrow> b < a"
  using bytecmp_less [of a b] bytecmp_less [of b a] bytecmp_antisym [of a b]
  by (auto simp: memcmp_def)

lemma comparePart1_rank:
  assumes "wf_announce A" and "wf_announce B" and "ann_grandmasterIdentity A \<noteq> ann_grandmasterIdentity B"
  shows "comparePart1 A B (memcmp (ann_grandmasterIdentity A) (ann_grandmasterIdentity B) CLOCK_IDENTITY_LENGTH)
    = Some (if announced_rank A < announced_rank B then 1 else -1)"
proof -
  have "ann_grandmasterIdentity A < ann_grandmasterIdentity B \<longleftrightarrow>
      \<not> ann_grandmasterIdentity B < ann_grandmasterIdentity A"
    using assms(3) by (simp add: not_less order_le_less)
  then show ?thesis
    using assms
    by (auto simp: comparePart1_def announced_rank_def less_rank_def wf_announce_def memcmp_less
        less_prod_def)
qed

text \<open>C18: for different grandmasters the comparison is the order of Figure 27: positive exactly
  when the first announcement ranks better, negative exactly when it ranks worse, never 0.\<close>

theorem bmcDataSetComparison_rank:
  assumes "wf_announce A" and "wf_announce B"
    and "ann_grandmasterIdentity A \<noteq> ann_grandmasterIdentity B"
  shows "bmcDataSetComparison hA A hB B c = (if announced_rank A < announced_rank B then 1 else -1)"
  using assms comparePart1_rank [OF assms]
  by (simp add: bmcDataSetComparison_def memcmp_zero wf_announce_def Let_def)

theorem bmcDataSetComparison_rank_witness:
  "bmcDataSetComparison MsgHeader_zero (MsgAnnounce_zero\<lparr>ann_grandmasterPriority1 := 1\<rparr>)
     MsgHeader_zero (MsgAnnounce_zero\<lparr>ann_grandmasterPriority1 := 2, ann_grandmasterIdentity := replicate 8 5\<rparr>)
     PtpClock_zero = 1"
  using bmcDataSetComparison_rank [of "MsgAnnounce_zero\<lparr>ann_grandmasterPriority1 := 1\<rparr>"
      "MsgAnnounce_zero\<lparr>ann_grandmasterPriority1 := 2, ann_grandmasterIdentity := replicate 8 5\<rparr>"
      MsgHeader_zero MsgHeader_zero PtpClock_zero]
  by (simp add: wf_announce_def MsgAnnounce_zero_def CLOCK_IDENTITY_LENGTH_def announced_rank_def
      less_rank_def)

lemma i16_memcmp: "i16 (memcmp a b n) = memcmp a b n"
  using memcmp_range [of a b n] by simp

lemma comparePart1_antisym:
  "comparePart1 B A (- d) = map_option uminus (comparePart1 A B d)"
proof -
  have step: "(if b > a then Some (-1) else if a > b then Some 1 else map_option uminus r)
      = map_option uminus (if a > b then Some (-1) else if b > a then Some 1 else r)"
    for a b :: "'k::linorder" and r :: "int option"
    by auto
  have base: "(if - d > 0 then Some (-1) else if - d < 0 then Some 1 else None)
      = map_option uminus (if d > 0 then Some (-1) else if d < 0 then Some (1 :: int) else None)"
    by auto
  show ?thesis unfolding comparePart1_def base step by (rule refl)
qed

lemma comparePart2_sgn:
  "comparePart2 hA A hB B port =
    (let a = uint (ann_stepsRemoved A); b = uint (ann_stepsRemoved B);
         toward = (\<lambda>h. if memcmp (clockIdentity (sourcePortIdentity h)) port CLOCK_IDENTITY_LENGTH = 0
           then 0 else 1)
     in if a > b + 1 then -1 else if b > a + 1 then 1
        else if a > b then - toward hA else if a < b then toward hB
        else - sgn (memcmp (clockIdentity (sourcePortIdentity hA))
               (clockIdentity (sourcePortIdentity hB)) CLOCK_IDENTITY_LENGTH))"
proof -
  have t: "(if m > 0 then -1 else if m < 0 then -1 else 0) = (- (if m = 0 then 0 else 1) :: int)"
    "(if m > 0 then 1 else if m < 0 then 1 else 0) = ((if m = 0 then 0 else 1) :: int)"
    "(if m > 0 then -1 else if m < 0 then 1 else 0) = (- sgn m :: int)" for m :: int
    by (auto simp: sgn_if)
  show ?thesis
    unfolding comparePart2_def Let_def i16_memcmp word_less_def t by (rule refl)
qed

lemma comparePart2_antisym: "comparePart2 hB B hA A port = - comparePart2 hA A hB B port"
proof -
  have "memcmp (clockIdentity (sourcePortIdentity hB)) (clockIdentity (sourcePortIdentity hA)) n
      = - memcmp (clockIdentity (sourcePortIdentity hA)) (clockIdentity (sourcePortIdentity hB)) n" for n
    by (rule memcmp_antisym)
  then show ?thesis
    unfolding comparePart2_sgn Let_def by (auto simp: sgn_minus)
qed

lemma comparison_antisym:
  "bmcDataSetComparison hB B hA A c = - bmcDataSetComparison hA A hB B c"
  using memcmp_antisym [of "ann_grandmasterIdentity B" "ann_grandmasterIdentity A" CLOCK_IDENTITY_LENGTH]
    comparePart2_antisym [of hB B hA A]
    comparePart1_antisym [of B A "memcmp (ann_grandmasterIdentity A) (ann_grandmasterIdentity B) CLOCK_IDENTITY_LENGTH"]
  by (auto simp: bmcDataSetComparison_def Let_def split: option.splits)

text \<open>swapping the two data sets negates the result, in both parts of the algorithm and for
  all inputs.\<close>

theorem bmcDataSetComparison_antisym:
  "bmcDataSetComparison hB B hA A c = - bmcDataSetComparison hA A hB B c"
  by (rule comparison_antisym)

subsection \<open>What the scan selects\<close>

text \<open>
  A comparison of data sets: antisymmetric in its sign, and on data sets that are \<open>apart\<close>
  decided by a rank, positive for the better, that is smaller, one.
\<close>

locale comparison =
  fixes cmp :: "'r \<Rightarrow> 'r \<Rightarrow> int"
    and apart :: "'r \<Rightarrow> 'r \<Rightarrow> bool"
    and ranking :: "'r \<Rightarrow> 'k::linorder"
  assumes antisym: "cmp b a = - cmp a b"
    and ranked: "apart a b \<Longrightarrow> cmp a b > 0 \<longleftrightarrow> ranking a < ranking b"
    and apart_sym: "apart a b \<Longrightarrow> apart b a"
begin

lemma worse_iff: "apart a b \<Longrightarrow> cmp a b < 0 \<longleftrightarrow> ranking b < ranking a"
  using ranked [OF apart_sym, of a b] antisym [of b a] by simp

end

text \<open>The slots the scan looks at hold data sets that are pairwise apart.\<close>

definition all_apart :: "('r \<Rightarrow> 'r \<Rightarrow> bool) \<Rightarrow> 'r list \<Rightarrow> nat set \<Rightarrow> bool" where
  "all_apart apart rs I \<longleftrightarrow> (\<forall>i\<in>I. \<forall>j\<in>I. i \<noteq> j \<longrightarrow> apart (rs ! i) (rs ! j))"

context comparison
begin

lemma scan_selects_worst:
  assumes "all_apart apart rs (insert b (set js))"
  shows "bmcScan cmp rs js b \<in> insert b (set js)
    \<and> (\<forall>k\<in>insert b (set js). ranking (rs ! k) \<le> ranking (rs ! bmcScan cmp rs js b))"
  using assms
proof (induction js arbitrary: b)
  case (Cons i js)
  define b' where "b' = (if cmp (rs ! i) (rs ! b) < 0 then i else b)"
  have b': "b' \<in> {b, i}" and sub: "all_apart apart rs (insert b' (set js))"
    using Cons.prems by (auto simp: b'_def all_apart_def)
  have "ranking (rs ! b) \<le> ranking (rs ! b')" "ranking (rs ! i) \<le> ranking (rs ! b')"
    using Cons.prems worse_iff [of "rs ! i" "rs ! b"]
    by (cases "i = b"; auto simp: b'_def all_apart_def not_less)+
  then show ?case
    using Cons.IH [OF sub] b' by (auto simp: b'_def [symmetric] intro: order_trans)
qed simp

end

definition apart_records :: "ForeignMasterRecord \<Rightarrow> ForeignMasterRecord \<Rightarrow> bool" where
  "apart_records A B \<longleftrightarrow> wf_announce (fmr_announce A) \<and> wf_announce (fmr_announce B)
     \<and> ann_grandmasterIdentity (fmr_announce A) \<noteq> ann_grandmasterIdentity (fmr_announce B)"

definition record_rank :: "ForeignMasterRecord \<Rightarrow> rank" where
  "record_rank r = announced_rank (fmr_announce r)"

lemma recordComparison_rank:
  "apart_records A B \<Longrightarrow>
    recordComparison c A B = (if record_rank A < record_rank B then 1 else -1)"
  using comparePart1_rank [of "fmr_announce A" "fmr_announce B"]
  by (simp add: recordComparison_def bmcDataSetComparison_def apart_records_def record_rank_def
      memcmp_zero wf_announce_def Let_def)

lemma recordComparison_antisym: "recordComparison c B A = - recordComparison c A B"
  unfolding recordComparison_def by (rule comparison_antisym)

interpretation foreign: comparison "recordComparison c" apart_records record_rank for c
proof unfold_locales
  fix a b
  show "recordComparison c b a = - recordComparison c a b" by (rule recordComparison_antisym)
  show "apart_records a b \<Longrightarrow> 0 < recordComparison c a b \<longleftrightarrow> record_rank a < record_rank b"
    by (simp add: recordComparison_rank)
  show "apart_records a b \<Longrightarrow> apart_records b a"
    by (auto simp: apart_records_def)
qed

definition foreign_apart :: "ForeignMasterDS \<Rightarrow> bool" where
  "foreign_apart fm \<longleftrightarrow> 0 < count fm \<and> count fm \<le> length (records fm)
     \<and> all_apart apart_records (records fm) {0..<count fm}"

lemma data_set_updates [simp]:
  "foreignMasterDS (m1 c) = foreignMasterDS c" "foreignMasterDS (s1 c h a) = foreignMasterDS c"
  "portDS (m1 c) = portDS c" "portDS (s1 c h a) = portDS c"
  "defaultDS (m1 c) = defaultDS c" "defaultDS (s1 c h a) = defaultDS c" "p1 c = c"
  by (simp_all add: m1_def s1_def p1_def Let_def)

lemma bmcStateDecision_foreign [simp]:
  "foreignMasterDS (snd (bmcStateDecision h a c)) = foreignMasterDS c"
  by (simp add: bmcStateDecision_def copyD0_def Let_def)

lemma bmc_best: "best (foreignMasterDS (snd (bmc c)))
  = bmcScan (recordComparison c) (records (foreignMasterDS c)) [1..<count (foreignMasterDS c)] 0"
  by (simp add: bmc_def Let_def)

text \<open>C17: the scan of \<^verbatim>\<open>bmc\<close> selects the worst announced grandmaster.  When the foreign
  masters announce pairwise different grandmasters, the record whose index ends in \<^verbatim>\<open>best\<close> ranks
  behind or equal to every other record: the test \<^verbatim>\<open>bmcDataSetComparison(i, best) < 0\<close> keeps
  record \<open>i\<close> when \<open>best\<close> is the better of the two.\<close>

theorem bmc_selects_worst:
  assumes "foreign_apart (foreignMasterDS c)" and "k < count (foreignMasterDS c)"
  shows "best (foreignMasterDS (snd (bmc c))) < count (foreignMasterDS c)
    \<and> record_rank (records (foreignMasterDS c) ! k)
      \<le> record_rank (records (foreignMasterDS c) ! best (foreignMasterDS (snd (bmc c))))"
proof -
  have I: "insert 0 (set [1..<count (foreignMasterDS c)]) = {0..<count (foreignMasterDS c)}"
    using assms(1) by (auto simp: foreign_apart_def)
  then have a: "all_apart apart_records (records (foreignMasterDS c)) (insert 0 (set [1..<count (foreignMasterDS c)]))"
    using assms(1) by (simp add: foreign_apart_def)
  show ?thesis
    using foreign.scan_selects_worst [OF a, of c] assms(2)
    unfolding bmc_best I by simp
qed

text \<open>Two masters: the local clock follows the one with the larger priority 1.\<close>

definition sample_record :: "UInteger8 \<Rightarrow> UInteger8 \<Rightarrow> ForeignMasterRecord" where
  "sample_record prio ident = ForeignMasterRecord_zero\<lparr>
     foreignMasterPortIdentity := \<lparr>clockIdentity = replicate 8 ident, portNumber = 1\<rparr>,
     fmr_header := MsgHeader_zero\<lparr>sourcePortIdentity := \<lparr>clockIdentity = replicate 8 ident, portNumber = 1\<rparr>\<rparr>,
     fmr_announce := MsgAnnounce_zero\<lparr>ann_grandmasterPriority1 := prio,
       ann_grandmasterIdentity := replicate 8 ident\<rparr>\<rparr>"

definition two_masters :: PtpClock where
  "two_masters = PtpClock_zero\<lparr>
     defaultDS := DefaultDS_zero\<lparr>priority1 := 248, dds_clockIdentity := replicate 8 9,
       clockQuality := ClockQuality_zero\<lparr>clockClass := 248\<rparr>\<rparr>,
     portDS := PortDS_zero\<lparr>portState := PTP_LISTENING\<rparr>,
     foreignMasterDS := \<lparr>records = [sample_record 10 1, sample_record 20 2, sample_record 0 0,
       sample_record 0 0, sample_record 0 0], count = 2, capacity = 5, fm_i = 2, best = 0\<rparr>\<rparr>"

lemmas sample_bmc_simps =
  two_masters_def sample_record_def zero_defs foreign_apart_def all_apart_def apart_records_def
  wf_announce_def CLOCK_IDENTITY_LENGTH_def record_rank_def announced_rank_def less_eq_rank_def

lemma two_masters_apart: "foreign_apart (foreignMasterDS two_masters)"
proof -
  have "{0..<2} = {0, 1 :: nat}" by auto
  then show ?thesis by (simp add: sample_bmc_simps)
qed

theorem bmc_selects_worst_witness:
  "best (foreignMasterDS (snd (bmc two_masters))) = 1"
proof -
  let ?b = "best (foreignMasterDS (snd (bmc two_masters)))"
  have "?b < 2" "record_rank (sample_record 20 2) \<le> record_rank (records (foreignMasterDS two_masters) ! ?b)"
    using bmc_selects_worst [OF two_masters_apart, of 1] by (simp_all add: two_masters_def)
  then show ?thesis
    by (cases ?b) (auto simp: sample_bmc_simps)
qed

subsection \<open>The state decision\<close>

definition own_rank :: "'a PtpClock_scheme \<Rightarrow> rank" where
  "own_rank c = Rank (priority1 (defaultDS c), clockClass (clockQuality (defaultDS c)),
    clockAccuracy (clockQuality (defaultDS c)), offsetScaledLogVariance (clockQuality (defaultDS c)),
    priority2 (defaultDS c), dds_clockIdentity (defaultDS c))"

definition decided_state :: "'a PtpClock_scheme \<Rightarrow> MsgAnnounce \<Rightarrow> PtpState" where
  "decided_state c a =
    (if own_rank c < announced_rank a then PTP_MASTER
     else if clockClass (clockQuality (defaultDS c)) < 128 then PTP_PASSIVE else PTP_SLAVE)"

lemma isSamePortIdentity_iff:
  "length (clockIdentity A) = 8 \<Longrightarrow> length (clockIdentity B) = 8 \<Longrightarrow> isSamePortIdentity A B \<longleftrightarrow> A = B"
  for A B :: PortIdentity
  by (auto simp: isSamePortIdentity_def CLOCK_IDENTITY_LENGTH_def memcmp_zero)



subsection \<open>The foreign master data set is maintained\<close>

definition wf_foreign :: "ForeignMasterDS \<Rightarrow> bool" where
  "wf_foreign fm \<longleftrightarrow> 0 < capacity fm \<and> capacity fm = length (records fm) \<and> count fm \<le> capacity fm
     \<and> fm_i fm < capacity fm \<and> best fm < capacity fm"

text \<open>Each master has one slot, and a free slot is the next one.\<close>

definition tidy_foreign :: "ForeignMasterDS \<Rightarrow> bool" where
  "tidy_foreign fm \<longleftrightarrow> wf_foreign fm
     \<and> (count fm < capacity fm \<longrightarrow> fm_i fm = count fm)
     \<and> (\<forall>i<count fm. \<forall>j<count fm. i \<noteq> j \<longrightarrow>
          \<not> isSamePortIdentity (foreignMasterPortIdentity (records fm ! i))
              (foreignMasterPortIdentity (records fm ! j)))"

definition port_at :: "ForeignMasterDS \<Rightarrow> nat \<Rightarrow> PortIdentity" where
  "port_at fm j = foreignMasterPortIdentity (records fm ! j)"

lemma foreignSearch_Some:
  "foreignSearch n j p fm = Some k \<Longrightarrow> isSamePortIdentity p (port_at fm k)"
  by (induction n j p fm rule: foreignSearch.induct) (auto simp: port_at_def split: if_splits)

lemma foreignSearch_range:
  "foreignSearch n j p fm = Some k \<Longrightarrow> j < count fm \<Longrightarrow> k < count fm"
proof (induction n j p fm rule: foreignSearch.induct)
  case (2 n j p fm)
  have "(j + 1) mod count fm < count fm" using 2(3) by (intro mod_less_divisor) simp
  with 2 show ?case by (auto split: if_splits)
qed simp

lemma foreignSearch_None:
  "foreignSearch n j p fm = None \<Longrightarrow> t < n \<Longrightarrow> j < count fm \<Longrightarrow>
    \<not> isSamePortIdentity p (port_at fm ((j + t) mod count fm))"
proof (induction n j p fm arbitrary: t rule: foreignSearch.induct)
  case (2 n j p fm)
  have lt: "(j + 1) mod count fm < count fm" using 2(4) by (intro mod_less_divisor) simp
  show ?case
  proof (cases t)
    case 0 with 2 show ?thesis by (auto simp: port_at_def split: if_splits)
  next
    case (Suc u)
    have e: "((j + 1) mod count fm + u) mod count fm = (j + t) mod count fm"
      by (simp add: Suc mod_simps)
    have "foreignSearch n ((j + 1) mod count fm) p fm = None"
      "\<not> isSamePortIdentity p (foreignMasterPortIdentity (records fm ! j))"
      using 2(2) by (auto split: if_splits)
    then show ?thesis using 2(1) [of u] 2(3) Suc lt e by simp
  qed
qed simp

text \<open>The search visits every slot in use.\<close>

lemma foreignSearch_complete:
  assumes "foreignSearch (count fm) j p fm = None" and "j < count fm" and "k < count fm"
  shows "\<not> isSamePortIdentity p (port_at fm k)"
proof -
  define t where "t = (k + count fm - j) mod count fm"
  have "(j + t) mod count fm = (j + (k + count fm - j)) mod count fm"
    unfolding t_def by (rule mod_add_right_eq)
  also have "\<dots> = k" using assms by simp
  finally have "(j + t) mod count fm = k" .
  moreover have "t < count fm" using assms by (simp add: t_def)
  ultimately show ?thesis using foreignSearch_None [OF assms(1) _ assms(2), of t] by simp
qed

lemma isSame_sym: "isSamePortIdentity A B = isSamePortIdentity B A"
  using memcmp_antisym [of "clockIdentity A" "clockIdentity B" CLOCK_IDENTITY_LENGTH]
  by (auto simp: isSamePortIdentity_def)

lemma memcmp_take: "memcmp a (take n b) n = memcmp a b n"
  by (simp add: memcmp_def)

lemma isSame_take:
  "isSamePortIdentity A \<lparr>clockIdentity = take CLOCK_IDENTITY_LENGTH (clockIdentity B), portNumber = portNumber B\<rparr>
    = isSamePortIdentity A B"
  by (simp add: isSamePortIdentity_def memcmp_take)

lemma isSame_take_left:
  "isSamePortIdentity \<lparr>clockIdentity = take CLOCK_IDENTITY_LENGTH (clockIdentity B), portNumber = portNumber B\<rparr> A
    = isSamePortIdentity B A"
  unfolding isSame_sym [of _ A] by (rule isSame_take)

lemma addForeign_known:
  "foreignSearch (count fm) (best fm) (sourcePortIdentity h) fm = Some j \<Longrightarrow> fm = foreignMasterDS c \<Longrightarrow>
    foreignMasterDS (addForeign c h a) = fm\<lparr>records := (records fm)[j := (records fm ! j)\<lparr>
      foreignMasterAnnounceMessages := foreignMasterAnnounceMessages (records fm ! j) + 1,
      fmr_header := h, fmr_announce := a\<rparr>]\<rparr>"
  by (simp add: addForeign_def Let_def)

lemma addForeign_new:
  "foreignSearch (count fm) (best fm) (sourcePortIdentity h) fm = None \<Longrightarrow> fm = foreignMasterDS c \<Longrightarrow>
    foreignMasterDS (addForeign c h a) =
      fm\<lparr>count := (if count fm < capacity fm then count fm + 1 else count fm),
         records := (records fm)[fm_i fm :=
           \<lparr>foreignMasterPortIdentity = \<lparr>clockIdentity =
              take CLOCK_IDENTITY_LENGTH (clockIdentity (sourcePortIdentity h)),
              portNumber = portNumber (sourcePortIdentity h)\<rparr>,
            foreignMasterAnnounceMessages = 0, fmr_announce = a, fmr_header = h\<rparr>],
         fm_i := (fm_i fm + 1) mod capacity fm\<rparr>"
  by (cases "records fm ! fm_i fm") (simp add: addForeign_def Let_def)

lemma addForeign_wf:
  assumes "wf_foreign (foreignMasterDS c)"
  shows "wf_foreign (foreignMasterDS (addForeign c h a))"
proof (cases "foreignSearch (count (foreignMasterDS c)) (best (foreignMasterDS c)) (sourcePortIdentity h)
    (foreignMasterDS c)")
  case None
  then show ?thesis
    unfolding addForeign_new [OF None refl] using assms by (auto simp: wf_foreign_def)
next
  case (Some j)
  then show ?thesis
    unfolding addForeign_known [OF Some refl] using assms by (auto simp: wf_foreign_def)
qed

text \<open>The data set after a message: tidy, and the message in the slot of its sender, the only one that changed.\<close>

definition filed :: "MsgHeader \<Rightarrow> MsgAnnounce \<Rightarrow> ForeignMasterDS \<Rightarrow> ForeignMasterDS \<Rightarrow> bool" where
  "filed h a fm fm' \<longleftrightarrow> tidy_foreign fm' \<and> (\<exists>j < count fm'.
      isSamePortIdentity (sourcePortIdentity h) (port_at fm' j)
      \<and> fmr_header (records fm' ! j) = h \<and> fmr_announce (records fm' ! j) = a
      \<and> (\<forall>k. k \<noteq> j \<longrightarrow> records fm' ! k = records fm ! k))"

lemma addForeign_new_filed:
  assumes "tidy_foreign (foreignMasterDS c)"
    and "count (foreignMasterDS c) = 0 \<or> best (foreignMasterDS c) < count (foreignMasterDS c)"
    and "foreignSearch (count (foreignMasterDS c)) (best (foreignMasterDS c)) (sourcePortIdentity h) (foreignMasterDS c) = None"
  shows "filed h a (foreignMasterDS c) (foreignMasterDS (addForeign c h a))"
proof -
  define fm where "fm = foreignMasterDS c"
  define fm' where "fm' = foreignMasterDS (addForeign c h a)"
  note assms = assms [folded fm_def]
  have wf: "wf_foreign fm" "wf_foreign fm'"
    using assms(1) addForeign_wf [of c h a] by (auto simp: fm_def fm'_def tidy_foreign_def)
  note fm' = addForeign_new [OF assms(3) fm_def, of a, folded fm'_def]
  have other: "\<not> isSamePortIdentity (sourcePortIdentity h) (port_at fm k)" if "k < count fm" for k
    using foreignSearch_complete [OF assms(3) _ that] assms(2) that by (auto simp: fm_def [symmetric])
  have j: "fm_i fm < count fm'" and c: "count fm' \<le> Suc (count fm)"
    and i: "count fm < capacity fm \<Longrightarrow> fm_i fm = count fm"
    using assms(1) wf(1) by (auto simp: fm' fm_def [symmetric] tidy_foreign_def wf_foreign_def)
  have p: "port_at fm' k = (if k = fm_i fm then \<lparr>clockIdentity =
      take CLOCK_IDENTITY_LENGTH (clockIdentity (sourcePortIdentity h)),
      portNumber = portNumber (sourcePortIdentity h)\<rparr> else port_at fm k)" if "k < count fm'" for k
    using wf(1) by (auto simp: fm' port_at_def wf_foreign_def)
  have u: "k < count fm" if "k < count fm'" "k \<noteq> fm_i fm" for k
    using that i by (cases "count fm < capacity fm") (auto simp: fm')
  have old: "\<not> isSamePortIdentity (port_at fm k) (port_at fm l)"
    if "k < count fm" "l < count fm" "k \<noteq> l" for k l
    using assms(1) that by (auto simp: tidy_foreign_def fm_def port_at_def)
  have d: "\<not> isSamePortIdentity (port_at fm' k) (port_at fm' l)"
    if "k < count fm'" "l < count fm'" "k \<noteq> l" for k l
    using that other [OF u [OF that(1)]] other [OF u [OF that(2)]] old [OF u [OF that(1)] u [OF that(2)]]
    by (simp add: p isSame_take isSame_take_left) (auto simp: isSame_sym)
  have "tidy_foreign fm'"
    using wf d i unfolding tidy_foreign_def port_at_def [symmetric]
    by (auto simp: fm' wf_foreign_def)
  moreover have "isSamePortIdentity (sourcePortIdentity h) (port_at fm' (fm_i fm))"
    using p [OF j] by (simp add: isSame_take) (simp add: isSamePortIdentity_def)
  moreover have "fmr_header (records fm' ! fm_i fm) = h" "fmr_announce (records fm' ! fm_i fm) = a"
    using wf(1) by (simp_all add: fm' wf_foreign_def)
  moreover have "\<forall>k. k \<noteq> fm_i fm \<longrightarrow> records fm' ! k = records fm ! k" by (simp add: fm')
  ultimately show ?thesis using j unfolding fm_def [symmetric] fm'_def [symmetric] filed_def by blast
qed

lemma addForeign_known_filed:
  assumes "tidy_foreign (foreignMasterDS c)"
    and "count (foreignMasterDS c) = 0 \<or> best (foreignMasterDS c) < count (foreignMasterDS c)"
    and "foreignSearch (count (foreignMasterDS c)) (best (foreignMasterDS c)) (sourcePortIdentity h) (foreignMasterDS c) = Some j"
  shows "filed h a (foreignMasterDS c) (foreignMasterDS (addForeign c h a))"
proof -
  define fm where "fm = foreignMasterDS c"
  define fm' where "fm' = foreignMasterDS (addForeign c h a)"
  note assms = assms [folded fm_def]
  have wf: "wf_foreign fm" "wf_foreign fm'"
    using assms(1) addForeign_wf [of c h a] by (auto simp: fm_def fm'_def tidy_foreign_def)
  note fm' = addForeign_known [OF assms(3) fm_def, of a, folded fm'_def]
  have "count fm \<noteq> 0" using assms(3) by (cases "count fm") auto
  then have j: "j < count fm" "j < length (records fm)"
    using foreignSearch_range [OF assms(3)] assms(2) wf(1) by (auto simp: fm_def [symmetric] wf_foreign_def)
  have p: "port_at fm' k = port_at fm k" for k
    using j by (cases "k = j") (auto simp: fm' port_at_def)
  have "tidy_foreign fm'"
    using assms(1) wf(2) p unfolding tidy_foreign_def port_at_def [symmetric] fm_def [symmetric]
    by (simp add: fm' [THEN arg_cong [where f = count]] fm' [THEN arg_cong [where f = capacity]]
        fm' [THEN arg_cong [where f = fm_i]])
  then show ?thesis unfolding fm_def [symmetric] fm'_def [symmetric] filed_def
    using foreignSearch_Some [OF assms(3)] j p by (auto simp: fm' intro!: exI [of _ j])
qed

text \<open>C20: the foreign master data set keeps one slot per master.  From a tidy data set an
  Announce message leaves a tidy data set: the count stays within the capacity, the ports in
  use stay pairwise different, and the message ends up in the slot of its sender, whose other
  entries are untouched.\<close>

theorem addForeign_tidy:
  assumes "tidy_foreign (foreignMasterDS c)"
    and "count (foreignMasterDS c) = 0 \<or> best (foreignMasterDS c) < count (foreignMasterDS c)"
  shows "tidy_foreign (foreignMasterDS (addForeign c h a))
    \<and> (\<exists>j < count (foreignMasterDS (addForeign c h a)).
        isSamePortIdentity (sourcePortIdentity h) (port_at (foreignMasterDS (addForeign c h a)) j)
        \<and> fmr_header (records (foreignMasterDS (addForeign c h a)) ! j) = h
        \<and> fmr_announce (records (foreignMasterDS (addForeign c h a)) ! j) = a
        \<and> (\<forall>k. k \<noteq> j \<longrightarrow>
             records (foreignMasterDS (addForeign c h a)) ! k = records (foreignMasterDS c) ! k))"
proof -
  have "filed h a (foreignMasterDS c) (foreignMasterDS (addForeign c h a))"
    using addForeign_new_filed [OF assms] addForeign_known_filed [OF assms]
    by (cases "foreignSearch (count (foreignMasterDS c)) (best (foreignMasterDS c)) (sourcePortIdentity h) (foreignMasterDS c)")
  then show ?thesis unfolding filed_def .
qed

lemma two_masters_tidy: "tidy_foreign (foreignMasterDS two_masters)"
  by (auto simp: tidy_foreign_def wf_foreign_def sample_bmc_simps isSamePortIdentity_iff
      less_Suc_eq numeral_2_eq_2)

theorem addForeign_tidy_witness:
  "tidy_foreign (foreignMasterDS (addForeign two_masters
     (fmr_header (sample_record 5 7)) (fmr_announce (sample_record 5 7))))"
  using addForeign_tidy [OF two_masters_tidy, of "fmr_header (sample_record 5 7)" "fmr_announce (sample_record 5 7)"]
  by (simp add: two_masters_def)

subsection \<open>Initialisation\<close>

text \<open>\<^verbatim>\<open>initData\<close> sets up the data sets from the run-time options: the clock identity is the
  EUI-64 form of the MAC address and becomes the port identity, the version is 2, the peer
  delay is zero, the quality and the priorities are the configured ones; the foreign master
  data set is declared empty but its write index and its records are left as they were.\<close>

theorem initData_spec:
  "dds_clockIdentity (defaultDS (initData c)) = EUI48toEUI64 (portUuidField c)
    \<and> portIdentity (portDS (initData c))
      = \<lparr>clockIdentity = EUI48toEUI64 (portUuidField c), portNumber = 1\<rparr>
    \<and> twoStepFlag (defaultDS (initData c)) \<and> versionNumber (portDS (initData c)) = 2
    \<and> peerMeanPathDelay (portDS (initData c)) = \<lparr>seconds = 0, nanoseconds = 0\<rparr>
    \<and> clockQuality (defaultDS (initData c)) = rt_clockQuality (rtOpts c)
    \<and> priority1 (defaultDS (initData c)) = rt_priority1 (rtOpts c)
    \<and> slaveOnly (defaultDS (initData c)) = rt_slaveOnly (rtOpts c)
    \<and> delayMechanism (portDS (initData c)) = rt_delayMechanism (rtOpts c)
    \<and> portState (portDS (initData c)) = portState (portDS c)
    \<and> count (foreignMasterDS (initData c)) = 0
    \<and> fm_i (foreignMasterDS (initData c)) = fm_i (foreignMasterDS c)
    \<and> records (foreignMasterDS (initData c)) = records (foreignMasterDS c)"
  by (cases "rt_clockQuality (rtOpts c)")
    (simp add: initData_def Let_def EUI48toEUI64_def CLOCK_IDENTITY_LENGTH_def PTP_UUID_LENGTH_def)

text \<open>after a re-initialisation the best master algorithm judges a stale record.  When
  \<^verbatim>\<open>initData\<close> runs with a write index that is not 0, as after a fault with known masters, the
  first Announce message is stored at that index while the count becomes 1, so the record
  the algorithm then reads, number 0, is still the one from before.\<close>

theorem first_master_after_reinit_is_stale:
  assumes "0 < fm_i (foreignMasterDS c)" and "fm_i (foreignMasterDS c) < length (records (foreignMasterDS c))"
    and "0 < maxForeignRecords (rtOpts c)"
  shows "count (foreignMasterDS (addForeign (initData c) h a)) = 1
    \<and> fmr_announce (records (foreignMasterDS (addForeign (initData c) h a)) ! fm_i (foreignMasterDS c)) = a
    \<and> records (foreignMasterDS (addForeign (initData c) h a)) ! 0 = records (foreignMasterDS c) ! 0
    \<and> best (foreignMasterDS (snd (bmc (addForeign (initData c) h a)))) = 0"
proof -
  define fm where "fm = foreignMasterDS (initData c)"
  have fm: "count fm = 0" "fm_i fm = fm_i (foreignMasterDS c)" "records fm = records (foreignMasterDS c)"
    "0 < capacity fm"
    using assms(3) by (simp_all add: fm_def initData_def Let_def)
  then have "foreignSearch (count fm) (best fm) (sourcePortIdentity h) fm = None" by simp
  from addForeign_new [OF this fm_def, of a] show ?thesis
    using assms fm by (simp add: bmc_best)
qed

end
