(* ===== verification/Ptp_Issue.thy ===== *)
theory Ptp_Issue
  imports Ptp_Servo Ptp_Timer Ptp_Msg Ptp_Bmc
begin

text \<open>
  \<^verbatim>\<open>protocol.c\<close>, the lower half: the change of port state with the actions of leaving and
  entering (\<^verbatim>\<open>toState\<close>), the initialisation of the port (\<^verbatim>\<open>doInit\<close>), and the issue functions that
  pack and send each message.
\<close>

text \<open>The macro \<^verbatim>\<open>pow2ms\<close> of \<^verbatim>\<open>dep/constants_dep.h\<close>: \<open>2\<^sup>a\<close> seconds in milliseconds.\<close>

definition pow2ms :: "int \<Rightarrow> int" where
  "pow2ms a = (if a > 0 then lsl32 1000 a else asr32 1000 (- a))"

text \<open>Timer calls on the port's timers and the global millisecond count.\<close>

definition tStart :: "nat \<Rightarrow> UInteger32 \<Rightarrow> clock \<Rightarrow> clock" where
  "tStart i w c = c\<lparr>itimer := timerStart i w (itimer c)\<rparr>"

definition tStop :: "nat \<Rightarrow> clock \<Rightarrow> clock" where
  "tStop i c = c\<lparr>itimer := timerStop i (itimer c)\<rparr>"

definition tExpired :: "nat \<Rightarrow> clock \<Rightarrow> Boolean \<times> clock" where
  "tExpired i c =
    (let (b, e, ts) = timerExpired i (elapsed_ms c) (itimer c)
     in (b, c\<lparr>elapsed_ms := e, itimer := ts\<rparr>))"

definition setState :: "PtpState \<Rightarrow> clock \<Rightarrow> clock" where
  "setState s c = c\<lparr>portDS := (portDS c)\<lparr>portState := s\<rparr>\<rparr>"

text \<open>The announce receipt timeout in milliseconds.\<close>

definition announceTimeout :: "clock \<Rightarrow> UInteger32" where
  "announceTimeout c =
    word_of_int (i32 (uint (announceReceiptTimeout (portDS c)) * pow2ms (logAnnounceInterval (portDS c))))"

definition startAnnounceReceipt :: "clock \<Rightarrow> clock" where
  "startAnnounceReceipt c = tStart ANNOUNCE_RECEIPT_TIMER (announceTimeout c) c"

text \<open>\<^verbatim>\<open>timerStart(i, getRand(m), itimer)\<close>.\<close>

definition startRandom :: "nat \<Rightarrow> int \<Rightarrow> clock \<Rightarrow> clock" where
  "startRandom i m c = (let (r, c) = getRand (word_of_int m) c in tStart i r c)"

subsection \<open>toState\<close>

definition leaveSlave :: "PtpState \<Rightarrow> clock \<Rightarrow> clock" where
  "leaveSlave state c =
    (if state = PTP_UNCALIBRATED \<or> state = PTP_SLAVE then c
     else
       let c = tStop ANNOUNCE_RECEIPT_TIMER c;
           c = tStop MANAGEMENT_INTERVAL_TIMER c;
           c = (case delayMechanism (portDS c) of
                  E2E \<Rightarrow> tStop DELAYREQ_INTERVAL_TIMER c
                | P2P \<Rightarrow> tStop PDELAYREQ_INTERVAL_TIMER c
                | DELAY_DISABLED \<Rightarrow> c)
       in initClock c)"

definition leaveState :: "PtpState \<Rightarrow> clock \<Rightarrow> clock" where
  "leaveState state c =
    (case portState (portDS c) of
       PTP_MASTER \<Rightarrow>
         (let c = initClock c;
              c = tStop SYNC_INTERVAL_TIMER c;
              c = tStop ANNOUNCE_INTERVAL_TIMER c
          in tStop PDELAYREQ_INTERVAL_TIMER c)
     | PTP_UNCALIBRATED \<Rightarrow> leaveSlave state c
     | PTP_SLAVE \<Rightarrow> leaveSlave state c
     | PTP_PASSIVE \<Rightarrow>
         (let c = initClock c; c = tStop PDELAYREQ_INTERVAL_TIMER c
          in tStop ANNOUNCE_RECEIPT_TIMER c)
     | PTP_LISTENING \<Rightarrow> tStop ANNOUNCE_RECEIPT_TIMER (initClock c)
     | PTP_PRE_MASTER \<Rightarrow> tStop QUALIFICATION_TIMEOUT (initClock c)
     | _ \<Rightarrow> c)"

definition enterState :: "PtpState \<Rightarrow> clock \<Rightarrow> clock" where
  "enterState state c =
    (case state of
       PTP_INITIALIZING \<Rightarrow> (setState PTP_INITIALIZING c)\<lparr>recommendedState := PTP_INITIALIZING\<rparr>
     | PTP_FAULTY \<Rightarrow> setState PTP_FAULTY c
     | PTP_DISABLED \<Rightarrow> setState PTP_DISABLED c
     | PTP_LISTENING \<Rightarrow>
         (setState PTP_LISTENING (startAnnounceReceipt c))\<lparr>recommendedState := PTP_LISTENING\<rparr>
     | PTP_PRE_MASTER \<Rightarrow>
         setState PTP_PRE_MASTER (tStart QUALIFICATION_TIMEOUT (word_of_int (pow2ms (- 9))) c)
     | PTP_MASTER \<Rightarrow>
         (let c = c\<lparr>portDS := (portDS c)\<lparr>logMinDelayReqInterval := 3\<rparr>\<rparr>;
              c = tStart SYNC_INTERVAL_TIMER (word_of_int (pow2ms (logSyncInterval (portDS c)))) c;
              c = tStart ANNOUNCE_INTERVAL_TIMER (word_of_int (pow2ms (logAnnounceInterval (portDS c)))) c;
              c = (case delayMechanism (portDS c) of
                     P2P \<Rightarrow> startRandom PDELAYREQ_INTERVAL_TIMER
                              (i32 (pow2ms (logMinPdelayReqInterval (portDS c)) + 1)) c
                   | _ \<Rightarrow> c)
          in setState PTP_MASTER c)
     | PTP_PASSIVE \<Rightarrow>
         (let c = startAnnounceReceipt c;
              c = (if delayMechanism (portDS c) = P2P
                   then startRandom PDELAYREQ_INTERVAL_TIMER
                          (pow2ms (logMinPdelayReqInterval (portDS c) + 1)) c
                   else c)
          in setState PTP_PASSIVE c)
     | PTP_UNCALIBRATED \<Rightarrow>
         (let c = startAnnounceReceipt c;
              c = (case delayMechanism (portDS c) of
                     E2E \<Rightarrow> startRandom DELAYREQ_INTERVAL_TIMER
                              (pow2ms (logMinDelayReqInterval (portDS c) + 1)) c
                   | P2P \<Rightarrow> startRandom PDELAYREQ_INTERVAL_TIMER
                              (pow2ms (logMinPdelayReqInterval (portDS c) + 1)) c
                   | DELAY_DISABLED \<Rightarrow> c)
          in setState PTP_UNCALIBRATED c)
     | PTP_SLAVE \<Rightarrow> tStart MANAGEMENT_INTERVAL_TIMER 1000 (setState PTP_SLAVE c))"

definition toState :: "PtpState \<Rightarrow> clock \<Rightarrow> clock" where
  "toState state c =
    (let c = c\<lparr>messageActivity := True\<rparr>;
         c = leaveState state c
     in enterState state c)"

definition doInit :: "clock \<Rightarrow> Boolean \<times> clock" where
  "doInit c =
    (let c = netShutdown c;
         (ok, c) = netInit c
     in if \<not> ok then (False, c)
        else
          let c = initData c;
              c = c\<lparr>elapsed_ms := initTimer\<rparr>;
              c = initClock c;
              c = m1 c;
              c = c\<lparr>msgObuf := msgPackHeader c (msgObuf c)\<rparr>
          in (True, c))"

subsection \<open>Issuing messages\<close>

definition issueAnnounce :: "clock \<Rightarrow> clock" where
  "issueAnnounce c =
    (let c = c\<lparr>msgObuf := msgPackAnnounce c (msgObuf c)\<rparr>;
         (r, c) = netSendGeneral (msgObuf c) (word_of_int ANNOUNCE_LENGTH) c
     in if r = 0 then toState PTP_FAULTY c
        else c\<lparr>sentAnnounceSequenceId := sentAnnounceSequenceId c + 1\<rparr>)"

definition issueFollowup :: "TimeInternal \<Rightarrow> clock \<Rightarrow> clock" where
  "issueFollowup time c =
    (let ts = fromInternalTime time (uninit_ts c);
         c = c\<lparr>msgObuf := msgPackFollowUp c (msgObuf c) ts\<rparr>;
         (r, c) = netSendGeneral (msgObuf c) (word_of_int FOLLOW_UP_LENGTH) c
     in if r = 0 then toState PTP_FAULTY c else c)"

definition issueSync :: "clock \<Rightarrow> clock" where
  "issueSync c =
    (let (internalTime, c) = getTime c;
         originTimestamp = fromInternalTime internalTime (uninit_ts c);
         c = c\<lparr>msgObuf := msgPackSync c (msgObuf c) originTimestamp\<rparr>;
         (r, internalTime, c) = netSendEvent (msgObuf c) (word_of_int SYNC_LENGTH) internalTime c
     in if r = 0 then toState PTP_FAULTY c
        else
          let c = c\<lparr>sentSyncSequenceId := sentSyncSequenceId c + 1\<rparr>
          in if seconds internalTime \<noteq> 0 \<and> twoStepFlag (defaultDS c)
             then issueFollowup (addTime internalTime (outboundLatency c)) c
             else c)"

definition issueDelayReq :: "clock \<Rightarrow> clock" where
  "issueDelayReq c =
    (let (internalTime, c) = getTime c;
         originTimestamp = fromInternalTime internalTime (uninit_ts c);
         c = c\<lparr>msgObuf := msgPackDelayReq c (msgObuf c) originTimestamp\<rparr>;
         (r, internalTime, c) = netSendEvent (msgObuf c) (word_of_int DELAY_REQ_LENGTH) internalTime c
     in if r = 0 then toState PTP_FAULTY c
        else
          let c = c\<lparr>sentDelayReqSequenceId := sentDelayReqSequenceId c + 1\<rparr>
          in if seconds internalTime \<noteq> 0
             then c\<lparr>timestamp_delayReqSend := addTime internalTime (outboundLatency c)\<rparr>
             else c)"

definition issuePDelayReq :: "clock \<Rightarrow> clock" where
  "issuePDelayReq c =
    (let (internalTime, c) = getTime c;
         originTimestamp = fromInternalTime internalTime (uninit_ts c);
         c = c\<lparr>msgObuf := msgPackPDelayReq c (msgObuf c) originTimestamp\<rparr>;
         (r, internalTime, c) = netSendPeerEvent (msgObuf c) (word_of_int PDELAY_REQ_LENGTH) internalTime c
     in if r = 0 then toState PTP_FAULTY c
        else
          let c = c\<lparr>sentPDelayReqSequenceId := sentPDelayReqSequenceId c + 1\<rparr>
          in if seconds internalTime \<noteq> 0
             then c\<lparr>pdelay_t1 := addTime internalTime (outboundLatency c)\<rparr>
             else c)"

text \<open>\<^verbatim>\<open>issuePDelayResp\<close> overwrites the caller's time with the transmit timestamp.\<close>

definition issuePDelayResp :: "TimeInternal \<Rightarrow> MsgHeader \<Rightarrow> clock \<Rightarrow> TimeInternal \<times> clock" where
  "issuePDelayResp time h c =
    (let ts = fromInternalTime time (uninit_ts c);
         c = c\<lparr>msgObuf := msgPackPDelayResp (msgObuf c) h ts\<rparr>;
         (r, time, c) = netSendPeerEvent (msgObuf c) (word_of_int PDELAY_RESP_LENGTH) time c
     in if r = 0 then (time, toState PTP_FAULTY c)
        else if seconds time \<noteq> 0 then (addTime time (outboundLatency c), c) else (time, c))"

definition issueDelayResp :: "TimeInternal \<Rightarrow> MsgHeader \<Rightarrow> clock \<Rightarrow> clock" where
  "issueDelayResp time h c =
    (let ts = fromInternalTime time (uninit_ts c);
         c = c\<lparr>msgObuf := msgPackDelayResp c (msgObuf c) h ts\<rparr>;
         (r, c) = netSendGeneral (msgObuf c) (word_of_int PDELAY_RESP_LENGTH) c
     in if r = 0 then toState PTP_FAULTY c else c)"

definition issuePDelayRespFollowUp :: "TimeInternal \<Rightarrow> MsgHeader \<Rightarrow> clock \<Rightarrow> clock" where
  "issuePDelayRespFollowUp time h c =
    (let ts = fromInternalTime time (uninit_ts c);
         c = c\<lparr>msgObuf := msgPackPDelayRespFollowUp (msgObuf c) h ts\<rparr>;
         (r, c) = netSendPeerGeneral (msgObuf c) (word_of_int PDELAY_RESP_FOLLOW_UP_LENGTH) c
     in if r = 0 then toState PTP_FAULTY c else c)"

text \<open>
  \<^verbatim>\<open>issueManagement\<close> copies the offset into a local timestamp without setting the upper
  seconds: they keep what the local held.
\<close>

definition issueManagement :: "clock \<Rightarrow> clock" where
  "issueManagement c =
    (let offset = uninit_ts c;
         off = offsetFromMaster (currentDS c);
         offset = offset\<lparr>secondsField := (secondsField offset)\<lparr>lsb := word_of_int (seconds off)\<rparr>\<rparr>;
         offset = offset\<lparr>nanosecondsField := word_of_int (nanoseconds off)\<rparr>;
         c = c\<lparr>msgObuf := msgPackManagement (msgObuf c) offset (netif_ip c)\<rparr>;
         (r, c) = netSendGeneral (msgObuf c) (word_of_int MANAGEMENT_LENGTH) c
     in if r = 0 then toState PTP_FAULTY c else c)"

definition issueDelayReqTimerExpired :: "clock \<Rightarrow> clock" where
  "issueDelayReqTimerExpired c =
    (case delayMechanism (portDS c) of
       E2E \<Rightarrow>
         (if portState (portDS c) \<noteq> PTP_SLAVE then c
          else
            let (ex, c) = tExpired DELAYREQ_INTERVAL_TIMER c
            in if ex
               then issueDelayReq (startRandom DELAYREQ_INTERVAL_TIMER
                      (pow2ms (logMinDelayReqInterval (portDS c) + 1)) c)
               else c)
     | P2P \<Rightarrow>
         (let (ex, c) = tExpired PDELAYREQ_INTERVAL_TIMER c
          in if ex
             then issuePDelayReq (startRandom PDELAYREQ_INTERVAL_TIMER
                    (pow2ms (logMinPdelayReqInterval (portDS c) + 1)) c)
             else c)
     | DELAY_DISABLED \<Rightarrow> c)"

end
