(* ===== verification/Ptp_Handle.thy ===== *)
theory Ptp_Handle
  imports Ptp_Issue
begin

text \<open>
  \<^verbatim>\<open>protocol.c\<close>, the upper half: the handlers of the received messages, the monitor table of a
  master, the dispatch of a received packet (\<^verbatim>\<open>handle\<close>).
\<close>

definition fromParent :: "clock \<Rightarrow> Boolean" where
  "fromParent c =
    isSamePortIdentity (parentPortIdentity (parentDS c)) (sourcePortIdentity (msgTmpHeader c))"

definition handleAnnounce :: "Boolean \<Rightarrow> clock \<Rightarrow> clock" where
  "handleAnnounce isFromSelf c =
    (if msgIbufLength c < ANNOUNCE_LENGTH then toState PTP_FAULTY c
     else if isFromSelf then c
     else if portState (portDS c) \<in> {PTP_INITIALIZING, PTP_FAULTY, PTP_DISABLED} then c
     else if portState (portDS c) \<in> {PTP_UNCALIBRATED, PTP_SLAVE} then
       (let c = c\<lparr>events := setFlag (events c) STATE_DECISION_EVENT\<rparr>;
            isFromCurrentParent = fromParent c;
            c = c\<lparr>msgTmp := (msgTmp c)\<lparr>announce := msgUnpackAnnounce (msgIbuf c)\<rparr>\<rparr>
        in if isFromCurrentParent
           then startAnnounceReceipt (s1 c (msgTmpHeader c) (announce (msgTmp c)))
           else addForeign c (msgTmpHeader c) (announce (msgTmp c)))
     else
       (let c = (if portState (portDS c) = PTP_PASSIVE then startAnnounceReceipt c else c);
            c = c\<lparr>msgTmp := (msgTmp c)\<lparr>announce := msgUnpackAnnounce (msgIbuf c)\<rparr>\<rparr>;
            c = c\<lparr>events := setFlag (events c) STATE_DECISION_EVENT\<rparr>
        in addForeign c (msgTmpHeader c) (announce (msgTmp c))))"

definition handleSyncSlave :: "TimeInternal \<Rightarrow> Boolean \<Rightarrow> clock \<Rightarrow> clock" where
  "handleSyncSlave time isFromSelf c =
    (if isFromSelf then c
     else if \<not> fromParent c then c
     else
       let c = c\<lparr>timestamp_syncRecieve := time\<rparr>;
           correctionField = scaledNanosecondsToInternalTime (correctionfield (msgTmpHeader c))
       in if getFlag (flagField (msgTmpHeader c) ! 0) FLAG0_TWO_STEP
          then c\<lparr>waitingForFollowUp := True, recvSyncSequenceId := sequenceId (msgTmpHeader c),
                 correctionField_sync := correctionField\<rparr>
          else
            let c = c\<lparr>msgTmp := (msgTmp c)\<lparr>sync := msgUnpackSync (msgIbuf c)\<rparr>,
                      waitingForFollowUp := False\<rparr>;
                originTimestamp = toInternalTime (uninit_time c) (sync_originTimestamp (sync (msgTmp c)));
                c = updateOffset c (timestamp_syncRecieve c) originTimestamp correctionField;
                c = updateClock c
            in issueDelayReqTimerExpired c)"

definition handleSync :: "TimeInternal \<Rightarrow> Boolean \<Rightarrow> clock \<Rightarrow> clock" where
  "handleSync time isFromSelf c =
    (if msgIbufLength c < SYNC_LENGTH then toState PTP_FAULTY c
     else case portState (portDS c) of
       PTP_UNCALIBRATED \<Rightarrow> handleSyncSlave time isFromSelf c
     | PTP_SLAVE \<Rightarrow> handleSyncSlave time isFromSelf c
     | PTP_PASSIVE \<Rightarrow> issueDelayReqTimerExpired c
     | _ \<Rightarrow> c)"

definition handleFollowUpSlave :: "clock \<Rightarrow> clock" where
  "handleFollowUpSlave c =
    (if \<not> waitingForFollowUp c then c
     else if \<not> fromParent c then c
     else if recvSyncSequenceId c \<noteq> sequenceId (msgTmpHeader c) then c
     else
       let c = c\<lparr>msgTmp := (msgTmp c)\<lparr>follow := msgUnpackFollowUp (msgIbuf c)\<rparr>,
                 waitingForFollowUp := False\<rparr>;
           preciseTime = toInternalTime (uninit_time c) (preciseOriginTimestamp (follow (msgTmp c)));
           correctionField = scaledNanosecondsToInternalTime (correctionfield (msgTmpHeader c));
           correctionField = addTime correctionField (correctionField_sync c);
           c = updateOffset c (timestamp_syncRecieve c) preciseTime correctionField;
           c = updateClock c
       in issueDelayReqTimerExpired c)"

definition handleFollowUp :: "Boolean \<Rightarrow> clock \<Rightarrow> clock" where
  "handleFollowUp isFromSelf c =
    (if msgIbufLength c < FOLLOW_UP_LENGTH then toState PTP_FAULTY c
     else if isFromSelf then c
     else case portState (portDS c) of
       PTP_UNCALIBRATED \<Rightarrow> handleFollowUpSlave c
     | PTP_SLAVE \<Rightarrow> handleFollowUpSlave c
     | PTP_PASSIVE \<Rightarrow> issueDelayReqTimerExpired c
     | _ \<Rightarrow> c)"

definition handleDelayReq :: "TimeInternal \<Rightarrow> Boolean \<Rightarrow> clock \<Rightarrow> clock" where
  "handleDelayReq time isFromSelf c =
    (case delayMechanism (portDS c) of
       E2E \<Rightarrow>
         (if msgIbufLength c < DELAY_REQ_LENGTH then toState PTP_FAULTY c
          else if portState (portDS c) = PTP_MASTER then issueDelayResp time (msgTmpHeader c) c
          else c)
     | _ \<Rightarrow> c)"

text \<open>
  The test \<^verbatim>\<open>(sentDelayReqSequenceId - 1) == sequenceId\<close>: both 16 bit operands are promoted to
  \<^verbatim>\<open>int\<close>, so the left side is -1 when the counter is 0.
\<close>

definition isPrevious :: "UInteger16 \<Rightarrow> UInteger16 \<Rightarrow> bool" where
  "isPrevious sent received \<longleftrightarrow> uint sent - 1 = uint received"

definition handleDelayResp :: "Boolean \<Rightarrow> clock \<Rightarrow> clock" where
  "handleDelayResp isFromSelf c =
    (case delayMechanism (portDS c) of
       E2E \<Rightarrow>
         (if msgIbufLength c < DELAY_RESP_LENGTH then toState PTP_FAULTY c
          else if portState (portDS c) \<in> {PTP_UNCALIBRATED, PTP_SLAVE} then
            (let c = c\<lparr>msgTmp := (msgTmp c)\<lparr>resp := msgUnpackDelayResp (msgIbuf c)\<rparr>\<rparr>;
                 isFromCurrentParent = fromParent c;
                 isCurrentRequest = isSamePortIdentity (portIdentity (portDS c))
                   (resp_requestingPortIdentity (resp (msgTmp c)))
             in if isPrevious (sentDelayReqSequenceId c) (sequenceId (msgTmpHeader c))
                   \<and> isCurrentRequest \<and> isFromCurrentParent
                then
                  let c = c\<lparr>timestamp_delayReqRecieve :=
                            toInternalTime (timestamp_delayReqRecieve c) (receiveTimestamp (resp (msgTmp c)))\<rparr>;
                      correctionField = scaledNanosecondsToInternalTime (correctionfield (msgTmpHeader c));
                      c = updateDelay c (timestamp_delayReqSend c) (timestamp_delayReqRecieve c) correctionField
                  in c\<lparr>portDS := (portDS c)\<lparr>logMinDelayReqInterval := logMessageInterval (msgTmpHeader c)\<rparr>\<rparr>
                else c)
          else c)
     | _ \<Rightarrow> c)"

definition handlePDelayReq :: "TimeInternal \<Rightarrow> Boolean \<Rightarrow> clock \<Rightarrow> clock" where
  "handlePDelayReq time isFromSelf c =
    (case delayMechanism (portDS c) of
       P2P \<Rightarrow>
         (if msgIbufLength c < PDELAY_REQ_LENGTH then toState PTP_FAULTY c
          else if portState (portDS c) \<in> {PTP_PASSIVE, PTP_SLAVE, PTP_MASTER} then
            (if isFromSelf then c
             else
               let (time, c) = issuePDelayResp time (msgTmpHeader c) c
               in if seconds time \<noteq> 0 \<and> getFlag (flagField (msgTmpHeader c) ! 0) FLAG0_TWO_STEP
                  then issuePDelayRespFollowUp time (msgTmpHeader c) c
                  else c)
          else c)
     | _ \<Rightarrow> c)"

definition handlePDelayResp :: "TimeInternal \<Rightarrow> Boolean \<Rightarrow> clock \<Rightarrow> clock" where
  "handlePDelayResp time isFromSelf c =
    (case delayMechanism (portDS c) of
       P2P \<Rightarrow>
         (if msgIbufLength c < PDELAY_RESP_LENGTH then toState PTP_FAULTY c
          else if portState (portDS c) \<in> {PTP_MASTER, PTP_SLAVE} then
            (if isFromSelf then c
             else
               let c = c\<lparr>msgTmp := (msgTmp c)\<lparr>presp := msgUnpackPDelayResp (msgIbuf c)\<rparr>\<rparr>;
                   isCurrentRequest = isSamePortIdentity (portIdentity (portDS c))
                     (presp_requestingPortIdentity (presp (msgTmp c)))
               in if isPrevious (sentPDelayReqSequenceId c) (sequenceId (msgTmpHeader c)) \<and> isCurrentRequest
                  then
                    (if getFlag (flagField (msgTmpHeader c) ! 0) FLAG0_TWO_STEP
                     then c\<lparr>waitingForPDelayRespFollowUp := True,
                            pdelay_t4 := time,
                            pdelay_t2 := toInternalTime (uninit_time c) (requestReceiptTimestamp (presp (msgTmp c))),
                            correctionField_pDelayResp :=
                              scaledNanosecondsToInternalTime (correctionfield (msgTmpHeader c))\<rparr>
                     else
                       let c = c\<lparr>waitingForPDelayRespFollowUp := False, pdelay_t4 := time\<rparr>
                       in updatePeerDelay c (scaledNanosecondsToInternalTime (correctionfield (msgTmpHeader c))) False)
                  else c)
          else c)
     | _ \<Rightarrow> c)"

definition handlePDelayRespFollowUp :: "Boolean \<Rightarrow> clock \<Rightarrow> clock" where
  "handlePDelayRespFollowUp isFromSelf c =
    (case delayMechanism (portDS c) of
       P2P \<Rightarrow>
         (if msgIbufLength c < PDELAY_RESP_FOLLOW_UP_LENGTH then toState PTP_FAULTY c
          else if portState (portDS c) \<in> {PTP_SLAVE, PTP_MASTER} then
            (if \<not> waitingForPDelayRespFollowUp c then c
             else if isPrevious (sentPDelayReqSequenceId c) (sequenceId (msgTmpHeader c)) then
               (let c = c\<lparr>msgTmp := (msgTmp c)\<lparr>prespfollow := msgUnpackPDelayRespFollowUp (msgIbuf c)\<rparr>\<rparr>;
                    c = c\<lparr>pdelay_t3 :=
                          toInternalTime (uninit_time c) (responseOriginTimestamp (prespfollow (msgTmp c)))\<rparr>;
                    correctionField = scaledNanosecondsToInternalTime (correctionfield (msgTmpHeader c));
                    correctionField = addTime correctionField (correctionField_pDelayResp c);
                    c = updatePeerDelay c correctionField True
                in c\<lparr>waitingForPDelayRespFollowUp := False\<rparr>)
             else c)
          else c)
     | _ \<Rightarrow> c)"

subsection \<open>The monitor table\<close>

text \<open>The two loops over the table: the first entry that satisfies the test.\<close>

definition monFind :: "(ptp_control \<Rightarrow> bool) \<Rightarrow> ptp_control list \<Rightarrow> nat option" where
  "monFind P tab = find (\<lambda>i. P (tab ! i)) [0..<ptpMonitorlConstant]"

text \<open>Writing behind the 16 entries sets \<open>overrun\<close>.\<close>

definition ptp_unpack_control :: "TimeInternal \<Rightarrow> UInteger32 \<Rightarrow> clock \<Rightarrow> clock" where
  "ptp_unpack_control p ip c =
    (let (now, c) = hw_read c; tab = ptpMonitorl c
     in case monFind (\<lambda>e. ipaddr e = ip) tab of
       Some i \<Rightarrow> c\<lparr>ptpMonitorl := tab[i := (tab ! i)\<lparr>Offset := p, Time := now\<rparr>]\<rparr>
     | None \<Rightarrow>
         (case monFind (\<lambda>e. ipaddr e = 0) tab of
            Some i \<Rightarrow> c\<lparr>ptpMonitorl := tab[i := \<lparr>ipaddr = ip, Offset = p, Time = now\<rparr>]\<rparr>
          | None \<Rightarrow>
              (let n = unat (mon_cnt c);
                   c = (if n < length tab
                        then c\<lparr>ptpMonitorl := tab[n := \<lparr>ipaddr = ip, Offset = p, Time = now\<rparr>]\<rparr>
                        else c\<lparr>overrun := True\<rparr>);
                   c = c\<lparr>mon_cnt := mon_cnt c + 1\<rparr>
               in if unat (mon_cnt c) > ptpMonitorlConstant then c\<lparr>mon_cnt := 0\<rparr> else c)))"

definition handleManagement :: "Boolean \<Rightarrow> clock \<Rightarrow> clock" where
  "handleManagement isFromSelf c =
    (if msgIbufLength c < MANAGEMENT_LENGTH then toState PTP_FAULTY c
     else case portState (portDS c) of
       PTP_MASTER \<Rightarrow>
         (if \<not> isFromSelf then
            (let c = c\<lparr>msgTmp := (msgTmp c)\<lparr>manage := msgUnpackManagement (msgIbuf c)\<rparr>\<rparr>;
                 t = toMasterOffset (manage (msgTmp c));
                 Offset_t = \<lparr>seconds = i32 (uint (lsb (secondsField t))),
                             nanoseconds = i32 (uint (nanosecondsField t))\<rparr>
             in ptp_unpack_control Offset_t (mng_ipaddr (manage (msgTmp c))) c)
          else c)
     | _ \<Rightarrow> c)"

subsection \<open>handle\<close>

definition dispatch :: "TimeInternal \<Rightarrow> Boolean \<Rightarrow> clock \<Rightarrow> clock" where
  "dispatch time isFromSelf c =
    (let t = messageType (msgTmpHeader c)
     in if t = ANNOUNCE then handleAnnounce isFromSelf c
        else if t = SYNC then handleSync time isFromSelf c
        else if t = FOLLOW_UP then handleFollowUp isFromSelf c
        else if t = DELAY_REQ then handleDelayReq time isFromSelf c
        else if t = PDELAY_REQ then handlePDelayReq time isFromSelf c
        else if t = DELAY_RESP then handleDelayResp isFromSelf c
        else if t = PDELAY_RESP then handlePDelayResp time isFromSelf c
        else if t = PDELAY_RESP_FOLLOW_UP then handlePDelayRespFollowUp isFromSelf c
        else if t = MANAGEMENT then handleManagement isFromSelf c
        else c)"

text \<open>The body of \<^verbatim>\<open>handle\<close> from the point where a packet is in the buffer.\<close>

definition processPacket :: "TimeInternal \<Rightarrow> clock \<Rightarrow> clock" where
  "processPacket time c =
    (let c = c\<lparr>messageActivity := True\<rparr>
     in if msgIbufLength c < HEADER_LENGTH then toState PTP_FAULTY c
        else
          let c = c\<lparr>msgTmpHeader := msgUnpackHeader (msgIbuf c)\<rparr>
          in if versionPTP (msgTmpHeader c) \<noteq> versionNumber (portDS c) then c
             else if hdr_domainNumber (msgTmpHeader c) \<noteq> domainNumber (defaultDS c) then c
             else
               let isFromSelf = isSamePortIdentity (portIdentity (portDS c))
                     (sourcePortIdentity (msgTmpHeader c));
                   time = (if \<not> isFromSelf \<and> seconds time > 0 then subTime time (inboundLatency c) else time)
               in dispatch time isFromSelf c)"

text \<open>
  The tests for a negative length of \<^verbatim>\<open>netSelect\<close>, \<^verbatim>\<open>netRecvEvent\<close> and \<^verbatim>\<open>netRecvGeneral\<close> are kept.
\<close>

definition handle :: "clock \<Rightarrow> clock" where
  "handle c =
    (let time = \<lparr>seconds = 0, nanoseconds = 0\<rparr>
     in if \<not> messageActivity c \<and> netSelect c < 0 then toState PTP_FAULTY c
        else if \<not> messageActivity c \<and> netSelect c = 0 then c
        else
          let (len, time, c) = netRecvEvent time c;
              c = c\<lparr>msgIbufLength := len\<rparr>
          in if len < 0 then toState PTP_FAULTY c
             else if len = 0 then
               (let (len, time, c) = netRecvGeneral time c;
                    c = c\<lparr>msgIbufLength := len\<rparr>
                in if len < 0 then toState PTP_FAULTY c
                   else if len = 0 then c
                   else processPacket time c)
             else processPacket time c)"

end
