(* ===== verification/Ptp_Protocol.thy ===== *)
theory Ptp_Protocol
  imports Ptp_Handle
begin

text \<open>
  The state engine \<^verbatim>\<open>doState\<close> of \<^verbatim>\<open>protocol.c\<close>, the periodic entry point and the
  initialisation of \<^verbatim>\<open>ptpd.c\<close>, and \<^verbatim>\<open>dep/startup.c\<close>.  The loop of
  \<^verbatim>\<open>ptpd_Periodic_Handle\<close> is a partial function: \<open>None\<close> is a loop that does not end.
\<close>

subsection \<open>doState\<close>

text \<open>The three switches of \<^verbatim>\<open>doState\<close>, in order.\<close>

definition decisionEvent :: "clock \<Rightarrow> clock" where
  "decisionEvent c =
    (if portState (portDS c) \<in> {PTP_LISTENING, PTP_UNCALIBRATED, PTP_SLAVE, PTP_PRE_MASTER,
                                PTP_MASTER, PTP_PASSIVE}
        \<and> getFlag (events c) STATE_DECISION_EVENT
     then
       let c = c\<lparr>events := clearFlag (events c) STATE_DECISION_EVENT\<rparr>;
           (st, c) = bmc c;
           c = c\<lparr>recommendedState := st\<rparr>
       in if recommendedState c \<in> {PTP_MASTER, PTP_PASSIVE}
             \<and> (slaveOnly (defaultDS c) \<or> clockClass (clockQuality (defaultDS c)) = 255)
          then c\<lparr>recommendedState := PTP_LISTENING\<rparr>
          else c
     else c)"

definition followRecommended :: "clock \<Rightarrow> clock" where
  "followRecommended c =
    (case recommendedState c of
       PTP_MASTER \<Rightarrow>
         (case portState (portDS c) of
            PTP_PRE_MASTER \<Rightarrow>
              (let (ex, c) = tExpired QUALIFICATION_TIMEOUT c
               in if ex then toState PTP_MASTER c else c)
          | PTP_MASTER \<Rightarrow> c
          | _ \<Rightarrow> toState PTP_PRE_MASTER c)
     | PTP_PASSIVE \<Rightarrow>
         (if portState (portDS c) \<noteq> recommendedState c then toState PTP_PASSIVE c else c)
     | PTP_SLAVE \<Rightarrow>
         (case portState (portDS c) of
            PTP_UNCALIBRATED \<Rightarrow>
              (let c = (if getFlag (events c) MASTER_CLOCK_SELECTED
                        then toState PTP_SLAVE (c\<lparr>events := clearFlag (events c) MASTER_CLOCK_SELECTED\<rparr>)
                        else c)
               in if getFlag (events c) MASTER_CLOCK_CHANGED
                  then c\<lparr>events := clearFlag (events c) MASTER_CLOCK_CHANGED\<rparr>
                  else c)
          | PTP_SLAVE \<Rightarrow>
              (let c = (if getFlag (events c) SYNCHRONIZATION_FAULT
                        then toState PTP_UNCALIBRATED
                               (c\<lparr>events := clearFlag (events c) SYNCHRONIZATION_FAULT\<rparr>)
                        else c)
               in if getFlag (events c) MASTER_CLOCK_CHANGED
                  then toState PTP_UNCALIBRATED
                         (c\<lparr>events := clearFlag (events c) MASTER_CLOCK_CHANGED\<rparr>)
                  else c)
          | _ \<Rightarrow> toState PTP_UNCALIBRATED c)
     | PTP_LISTENING \<Rightarrow>
         (if portState (portDS c) \<noteq> recommendedState c then toState PTP_LISTENING c else c)
     | _ \<Rightarrow> c)"

text \<open>The part of the third switch shared by the states that wait for announcements.\<close>

definition passivePart :: "clock \<Rightarrow> clock" where
  "passivePart c =
    (let (ex, c) = tExpired ANNOUNCE_RECEIPT_TIMER c
     in if ex then
          let c = c\<lparr>foreignMasterDS := (foreignMasterDS c)\<lparr>count := 0, fm_i := 0\<rparr>\<rparr>
          in if \<not> (slaveOnly (defaultDS c) \<or> clockClass (clockQuality (defaultDS c)) = 255)
             then toState PTP_MASTER ((m1 c)\<lparr>recommendedState := PTP_MASTER\<rparr>)
             else if portState (portDS c) \<noteq> PTP_LISTENING then toState PTP_LISTENING c
             else c
        else handle c)"

definition managementPart :: "clock \<Rightarrow> clock" where
  "managementPart c =
    (let (ex, c) = tExpired MANAGEMENT_INTERVAL_TIMER c
     in if ex then handle (issueManagement c) else c)"

definition masterPart :: "clock \<Rightarrow> clock" where
  "masterPart c =
    (let (ex, c) = tExpired SYNC_INTERVAL_TIMER c;
         c = (if ex then issueSync c else c);
         (ex, c) = tExpired ANNOUNCE_INTERVAL_TIMER c;
         c = (if ex then issueAnnounce c else c);
         c = handle c
     in issueDelayReqTimerExpired c)"

definition stateActions :: "clock \<Rightarrow> clock" where
  "stateActions c =
    (case portState (portDS c) of
       PTP_INITIALIZING \<Rightarrow>
         (let (ok, c) = doInit c
          in if ok then toState PTP_LISTENING c else toState PTP_FAULTY c)
     | PTP_FAULTY \<Rightarrow> toState PTP_INITIALIZING c
     | PTP_DISABLED \<Rightarrow> handle c
     | PTP_LISTENING \<Rightarrow> passivePart (managementPart c)
     | PTP_UNCALIBRATED \<Rightarrow> passivePart (managementPart c)
     | PTP_SLAVE \<Rightarrow> passivePart (managementPart c)
     | PTP_PASSIVE \<Rightarrow> passivePart c
     | PTP_MASTER \<Rightarrow> masterPart c
     | _ \<Rightarrow> c)"

definition doState :: "clock \<Rightarrow> clock" where
  "doState c =
    (let c = c\<lparr>messageActivity := False\<rparr>;
         c = decisionEvent c;
         c = followRecommended c
     in stateActions c)"

subsection \<open>The periodic entry point\<close>

partial_function (option) periodicLoop :: "clock \<Rightarrow> clock option" where
  "periodicLoop c =
    (let c' = doState c in if netSelect c' > 0 then periodicLoop c' else Some c')"

definition ptpd_Periodic_Handle :: "UInteger32 \<Rightarrow> clock \<Rightarrow> clock option" where
  "ptpd_Periodic_Handle localtime c =
    (let c = c\<lparr>elapsed_ms := catchAlarm (localtime - old_localtime c) (elapsed_ms c)\<rparr>;
         c = c\<lparr>old_localtime := localtime\<rparr>
     in periodicLoop c)"

subsection \<open>Start-up\<close>

definition ptpdShutdown :: "clock \<Rightarrow> clock" where
  "ptpdShutdown c = netShutdown c"

definition ptpdStartup :: "RunTimeOpts \<Rightarrow> ForeignMasterRecord list \<Rightarrow> clock \<Rightarrow> clock" where
  "ptpdStartup ro foreign c =
    (let ro = (if rt_slaveOnly ro
               then ro\<lparr>rt_clockQuality := (rt_clockQuality ro)\<lparr>clockClass := 255\<rparr>\<rparr> else ro);
         ro = (if ap (rt_servo ro) < 1 then ro\<lparr>rt_servo := (rt_servo ro)\<lparr>ap := 1\<rparr>\<rparr> else ro);
         ro = (if ai (rt_servo ro) < 1 then ro\<lparr>rt_servo := (rt_servo ro)\<lparr>ai := 1\<rparr>\<rparr> else ro);
         c = c\<lparr>rtOpts := ro\<rparr>;
         c = c\<lparr>foreignMasterDS := (foreignMasterDS c)\<lparr>records := foreign\<rparr>\<rparr>
     in toState PTP_INITIALIZING c)"

text \<open>
  The globals \<^verbatim>\<open>rtOpts\<close> and \<^verbatim>\<open>ptpForeignRecords\<close> are reached through the clock's
  pointers only; before the first call the array holds zeros and the pointer is null, which is the empty
  list here.
\<close>

definition ptpForeignRecords :: "clock \<Rightarrow> ForeignMasterRecord list" where
  "ptpForeignRecords c =
    (if records (foreignMasterDS c) = [] then replicate 5 ForeignMasterRecord_zero
     else records (foreignMasterDS c))"

definition default_rtOpts :: "RunTimeOpts \<Rightarrow> RunTimeOpts" where
  "default_rtOpts ro = ro
    \<lparr>announceInterval := 1, syncInterval := 0,
     rt_clockQuality := \<lparr>clockClass = 248, clockAccuracy = 0xFE, offsetScaledLogVariance = 5000\<rparr>,
     rt_priority1 := 248, rt_priority2 := 248, rt_domainNumber := 0, rt_slaveOnly := False,
     rt_currentUtcOffset := 34,
     rt_inboundLatency := (rt_inboundLatency ro)\<lparr>nanoseconds := 0\<rparr>,
     rt_outboundLatency := (rt_outboundLatency ro)\<lparr>nanoseconds := 0\<rparr>,
     maxForeignRecords := 5, rt_stats := 1, rt_delayMechanism := P2P,
     rt_servo := \<lparr>noResetClock = False, noAdjust = False, ap = 2, ai = 16, sDelay = 6, sOffset = 1\<rparr>\<rparr>"

definition PTPd_Init :: "clock \<Rightarrow> clock" where
  "PTPd_Init c = ptpdStartup (default_rtOpts (rtOpts c)) (ptpForeignRecords c) c"

text \<open>
  The mode of the device, at power-up (\<^verbatim>\<open>TargetTime_Init\<close> of \<^verbatim>\<open>Main/init.c\<close>) and by the
  serial commands \<^verbatim>\<open>E1 Master\<close> and \<^verbatim>\<open>E1 Slave\<close> of \<^verbatim>\<open>USER/CMD_HANDLE/cmd_handle.c\<close>, as far
  as they concern the stack: the options are set to their defaults, then adjusted, and the
  stack is started again.
\<close>

datatype PTP_MODE = emPTPSlave | emPTPMaster | emNTPSlave | emNTPMaster

definition masterOpts :: "RunTimeOpts \<Rightarrow> RunTimeOpts" where
  "masterOpts ro = ro\<lparr>rt_slaveOnly := False,
     rt_clockQuality := (rt_clockQuality ro)\<lparr>clockAccuracy := 200\<rparr>\<rparr>"

definition TargetTime_Init :: "PTP_MODE \<Rightarrow> clock \<Rightarrow> clock" where
  "TargetTime_Init mode c =
    (let c = PTPd_Init c
     in if mode = emPTPMaster then ptpdStartup (masterOpts (rtOpts c)) (ptpForeignRecords c) c
        else if mode = emPTPSlave
        then ptpdStartup ((rtOpts c)\<lparr>rt_slaveOnly := True\<rparr>) (ptpForeignRecords c) c
        else c)"

definition cmd_E1_Master :: "clock \<Rightarrow> clock" where
  "cmd_E1_Master c =
    (let c = c\<lparr>ptpMonitorl := map (\<lambda>_. ptp_control_zero) (ptpMonitorl c)\<rparr>;
         c = PTPd_Init c
     in ptpdStartup (masterOpts (rtOpts c)) (ptpForeignRecords c) c)"

definition cmd_E1_Slave :: "clock \<Rightarrow> clock" where
  "cmd_E1_Slave c =
    (let c = PTPd_Init c;
         c = c\<lparr>ptpMonitorl := map (\<lambda>_. ptp_control_zero) (ptpMonitorl c)\<rparr>;
         ro = (rtOpts c)\<lparr>rt_slaveOnly := True\<rparr>;
         ro = ro\<lparr>rt_clockQuality := (rt_clockQuality ro)\<lparr>clockAccuracy := 0xFE\<rparr>\<rparr>
     in ptpdStartup ro (ptpForeignRecords c) c)"

end
