(* ===== verification/Ptp_Frame.thy ===== *)
theory Ptp_Frame
  imports Ptp_Protocol
begin

text \<open>
  What the operations of the stack leave alone.  \<open>core\<close> collects the parts of the state that only
  a few operations write: identity, port state, data sets, options, the output buffer, what was
  sent, and the foreign masters.  \<open>mem_ok\<close> says that the timers, the packet queues, the input
  buffer and the monitor table have the shape their code relies on.  Each operation gets one
  lemma per function: its \<open>core\<close> is that of the state before, or its \<open>mem_ok\<close> follows from the
  \<open>mem_ok\<close> before; the proofs about handlers then only unfold the handler.
\<close>

named_theorems frame_simps \<open>operations that keep the core of the state\<close>
named_theorems mem_intros \<open>operations that keep the shape of the memory\<close>

definition port_core :: "PortDS \<Rightarrow> PortDS" where
  "port_core p = p\<lparr>logMinDelayReqInterval := 0, peerMeanPathDelay := TimeInternal_zero\<rparr>"

fun is_sent :: "Output \<Rightarrow> bool" where
  "is_sent (Sent g p b) = True"
| "is_sent _ = False"

definition core :: "clock \<Rightarrow> PortDS \<times> DefaultDS \<times> RunTimeOpts \<times> PtpState \<times> Octet list \<times> Octet list
    \<times> Octet list \<times> Output list \<times> ForeignMasterDS \<times> UInteger32 \<times> (nat \<Rightarrow> bool)
    \<times> UInteger32 option \<times> UInteger32 option" where
  "core c = (port_core (portDS c), defaultDS c, rtOpts c, recommendedState c, msgObuf c,
     portUuidField c, netif_hwaddr c, filter is_sent (outputs c), foreignMasterDS c,
     netif_ip c, udp_new_ok c, aton_default c, aton_peer c)"

definition pbuf_ok :: "pbuf \<Rightarrow> bool" where
  "pbuf_ok p \<longleftrightarrow> [] \<notin> set (payloads p)"

definition wf_input :: "BufQueue \<Rightarrow> bool" where
  "wf_input q \<longleftrightarrow> wf_queue q \<and> (\<forall>p\<in>set (queued q). pbuf_ok p)"

definition mem_ok :: "clock \<Rightarrow> bool" where
  "mem_ok c \<longleftrightarrow> wf_timers (itimer c) \<and> wf_input (eventQ (netPath c)) \<and> wf_input (generalQ (netPath c))
     \<and> length (msgIbuf c) = PACKET_SIZE
     \<and> length (ptpMonitorl c) = ptpMonitorlConstant \<and> unat (mon_cnt c) \<le> ptpMonitorlConstant"

text \<open>
  At most \<open>n\<close> packets are queued, and, unless \<open>b\<close>, no time is waiting to be counted and the announce
  receipt timer has not expired.
\<close>

definition backlog :: "clock \<Rightarrow> nat" where
  "backlog c = nat (q_count (eventQ (netPath c))) + nat (q_count (generalQ (netPath c)))"

definition settled :: "bool \<Rightarrow> nat \<Rightarrow> clock \<Rightarrow> bool" where
  "settled b n c \<longleftrightarrow> mem_ok c \<and> backlog c \<le> n
     \<and> (b \<or> elapsed_ms c = 0 \<and> \<not> expire (itimer c ! ANNOUNCE_RECEIPT_TIMER))"

subsection \<open>Assignments\<close>

lemma core_update [simp, frame_simps]:
  "core (c\<lparr>currentDS := x1\<rparr>) = core c" "core (c\<lparr>parentDS := x2\<rparr>) = core c"
  "core (c\<lparr>timePropertiesDS := x3\<rparr>) = core c"
  "core (c\<lparr>msgTmpHeader := x4\<rparr>) = core c"
  "core (c\<lparr>msgTmp := x5\<rparr>) = core c" "core (c\<lparr>msgIbuf := x6\<rparr>) = core c"
  "core (c\<lparr>msgIbufLength := x7\<rparr>) = core c" "core (c\<lparr>Tms := x8\<rparr>) = core c"
  "core (c\<lparr>Tsm := x9\<rparr>) = core c" "core (c\<lparr>pdelay_t1 := x10\<rparr>) = core c"
  "core (c\<lparr>pdelay_t2 := x11\<rparr>) = core c"
  "core (c\<lparr>pdelay_t3 := x12\<rparr>) = core c"
  "core (c\<lparr>pdelay_t4 := x13\<rparr>) = core c"
  "core (c\<lparr>timestamp_syncRecieve := x14\<rparr>) = core c"
  "core (c\<lparr>timestamp_delayReqSend := x15\<rparr>) = core c"
  "core (c\<lparr>timestamp_delayReqRecieve := x16\<rparr>) = core c"
  "core (c\<lparr>correctionField_sync := x17\<rparr>) = core c"
  "core (c\<lparr>correctionField_pDelayResp := x18\<rparr>) = core c"
  "core (c\<lparr>sentPDelayReqSequenceId := x19\<rparr>) = core c"
  "core (c\<lparr>sentDelayReqSequenceId := x20\<rparr>) = core c"
  "core (c\<lparr>sentSyncSequenceId := x21\<rparr>) = core c"
  "core (c\<lparr>sentAnnounceSequenceId := x22\<rparr>) = core c"
  "core (c\<lparr>recvPDelayReqSequenceId := x23\<rparr>) = core c"
  "core (c\<lparr>recvSyncSequenceId := x24\<rparr>) = core c"
  "core (c\<lparr>waitingForFollowUp := x25\<rparr>) = core c"
  "core (c\<lparr>waitingForPDelayRespFollowUp := x26\<rparr>) = core c"
  "core (c\<lparr>ofm_filt := x27\<rparr>) = core c" "core (c\<lparr>owd_filt := x28\<rparr>) = core c"
  "core (c\<lparr>slv_filt := x29\<rparr>) = core c"
  "core (c\<lparr>offsetHistory := x30\<rparr>) = core c"
  "core (c\<lparr>observedDrift := x31\<rparr>) = core c"
  "core (c\<lparr>messageActivity := x32\<rparr>) = core c"
  "core (c\<lparr>itimer := x33\<rparr>) = core c" "core (c\<lparr>netPath := x34\<rparr>) = core c"
  "core (c\<lparr>inboundLatency := x35\<rparr>) = core c"
  "core (c\<lparr>outboundLatency := x36\<rparr>) = core c"
  "core (c\<lparr>servo := x37\<rparr>) = core c" "core (c\<lparr>events := x38\<rparr>) = core c"
  "core (c\<lparr>stats := x39\<rparr>) = core c" "core (c\<lparr>elapsed_ms := x40\<rparr>) = core c"
  "core (c\<lparr>old_localtime := x41\<rparr>) = core c"
  "core (c\<lparr>ptpMonitorl := x42\<rparr>) = core c"
  "core (c\<lparr>mon_cnt := x43\<rparr>) = core c" "core (c\<lparr>overrun := x44\<rparr>) = core c"
  "core (c\<lparr>hw_reads := x45\<rparr>) = core c" "core (c\<lparr>hw_n := x46\<rparr>) = core c"
  "core (c\<lparr>rands := x47\<rparr>) = core c" "core (c\<lparr>rand_n := x48\<rparr>) = core c"
  "core (c\<lparr>tx_results := x49\<rparr>) = core c" "core (c\<lparr>tx_n := x50\<rparr>) = core c"
  "core (c\<lparr>udp_n := x52\<rparr>) = core c"
  "core (c\<lparr>udp_live := x53\<rparr>) = core c" "core (c\<lparr>udp_fault := x54\<rparr>) = core c"
  "core (c\<lparr>uninit_time := x58\<rparr>) = core c"
  "core (c\<lparr>uninit_ts := x59\<rparr>) = core c"
  by (simp_all add: core_def)

lemma core_portDS [simp, frame_simps]:
  "core (c\<lparr>portDS := (portDS c)\<lparr>peerMeanPathDelay := x\<rparr>\<rparr>) = core c"
  "core (c\<lparr>portDS := (portDS c)\<lparr>logMinDelayReqInterval := y\<rparr>\<rparr>) = core c"
  by (simp_all add: core_def port_core_def)

lemma mem_update [simp]:
  "mem_ok (c\<lparr>defaultDS := x60\<rparr>) = mem_ok c" "mem_ok (c\<lparr>currentDS := x61\<rparr>) = mem_ok c"
  "mem_ok (c\<lparr>parentDS := x62\<rparr>) = mem_ok c"
  "mem_ok (c\<lparr>timePropertiesDS := x63\<rparr>) = mem_ok c"
  "mem_ok (c\<lparr>portDS := x64\<rparr>) = mem_ok c" "mem_ok (c\<lparr>foreignMasterDS := x65\<rparr>) = mem_ok c"
  "mem_ok (c\<lparr>msgTmpHeader := x66\<rparr>) = mem_ok c" "mem_ok (c\<lparr>msgTmp := x67\<rparr>) = mem_ok c"
  "mem_ok (c\<lparr>msgObuf := x68\<rparr>) = mem_ok c" "mem_ok (c\<lparr>msgIbufLength := x69\<rparr>) = mem_ok c"
  "mem_ok (c\<lparr>Tms := x70\<rparr>) = mem_ok c" "mem_ok (c\<lparr>Tsm := x71\<rparr>) = mem_ok c"
  "mem_ok (c\<lparr>pdelay_t1 := x72\<rparr>) = mem_ok c" "mem_ok (c\<lparr>pdelay_t2 := x73\<rparr>) = mem_ok c"
  "mem_ok (c\<lparr>pdelay_t3 := x74\<rparr>) = mem_ok c" "mem_ok (c\<lparr>pdelay_t4 := x75\<rparr>) = mem_ok c"
  "mem_ok (c\<lparr>timestamp_syncRecieve := x76\<rparr>) = mem_ok c"
  "mem_ok (c\<lparr>timestamp_delayReqSend := x77\<rparr>) = mem_ok c"
  "mem_ok (c\<lparr>timestamp_delayReqRecieve := x78\<rparr>) = mem_ok c"
  "mem_ok (c\<lparr>correctionField_sync := x79\<rparr>) = mem_ok c"
  "mem_ok (c\<lparr>correctionField_pDelayResp := x80\<rparr>) = mem_ok c"
  "mem_ok (c\<lparr>sentPDelayReqSequenceId := x81\<rparr>) = mem_ok c"
  "mem_ok (c\<lparr>sentDelayReqSequenceId := x82\<rparr>) = mem_ok c"
  "mem_ok (c\<lparr>sentSyncSequenceId := x83\<rparr>) = mem_ok c"
  "mem_ok (c\<lparr>sentAnnounceSequenceId := x84\<rparr>) = mem_ok c"
  "mem_ok (c\<lparr>recvPDelayReqSequenceId := x85\<rparr>) = mem_ok c"
  "mem_ok (c\<lparr>recvSyncSequenceId := x86\<rparr>) = mem_ok c"
  "mem_ok (c\<lparr>waitingForFollowUp := x87\<rparr>) = mem_ok c"
  "mem_ok (c\<lparr>waitingForPDelayRespFollowUp := x88\<rparr>) = mem_ok c"
  "mem_ok (c\<lparr>ofm_filt := x89\<rparr>) = mem_ok c" "mem_ok (c\<lparr>owd_filt := x90\<rparr>) = mem_ok c"
  "mem_ok (c\<lparr>slv_filt := x91\<rparr>) = mem_ok c" "mem_ok (c\<lparr>offsetHistory := x92\<rparr>) = mem_ok c"
  "mem_ok (c\<lparr>observedDrift := x93\<rparr>) = mem_ok c"
  "mem_ok (c\<lparr>messageActivity := x94\<rparr>) = mem_ok c"
  "mem_ok (c\<lparr>recommendedState := x95\<rparr>) = mem_ok c"
  "mem_ok (c\<lparr>portUuidField := x96\<rparr>) = mem_ok c"
  "mem_ok (c\<lparr>inboundLatency := x97\<rparr>) = mem_ok c"
  "mem_ok (c\<lparr>outboundLatency := x98\<rparr>) = mem_ok c" "mem_ok (c\<lparr>servo := x99\<rparr>) = mem_ok c"
  "mem_ok (c\<lparr>events := x100\<rparr>) = mem_ok c" "mem_ok (c\<lparr>stats := x101\<rparr>) = mem_ok c"
  "mem_ok (c\<lparr>rtOpts := x102\<rparr>) = mem_ok c" "mem_ok (c\<lparr>elapsed_ms := x103\<rparr>) = mem_ok c"
  "mem_ok (c\<lparr>old_localtime := x104\<rparr>) = mem_ok c" "mem_ok (c\<lparr>overrun := x105\<rparr>) = mem_ok c"
  "mem_ok (c\<lparr>hw_reads := x106\<rparr>) = mem_ok c" "mem_ok (c\<lparr>hw_n := x107\<rparr>) = mem_ok c"
  "mem_ok (c\<lparr>rands := x108\<rparr>) = mem_ok c" "mem_ok (c\<lparr>rand_n := x109\<rparr>) = mem_ok c"
  "mem_ok (c\<lparr>tx_results := x110\<rparr>) = mem_ok c" "mem_ok (c\<lparr>tx_n := x111\<rparr>) = mem_ok c"
  "mem_ok (c\<lparr>udp_new_ok := x112\<rparr>) = mem_ok c" "mem_ok (c\<lparr>udp_n := x113\<rparr>) = mem_ok c"
  "mem_ok (c\<lparr>udp_live := x114\<rparr>) = mem_ok c" "mem_ok (c\<lparr>udp_fault := x115\<rparr>) = mem_ok c"
  "mem_ok (c\<lparr>aton_default := x116\<rparr>) = mem_ok c" "mem_ok (c\<lparr>aton_peer := x117\<rparr>) = mem_ok c"
  "mem_ok (c\<lparr>netif_ip := x118\<rparr>) = mem_ok c" "mem_ok (c\<lparr>netif_hwaddr := x119\<rparr>) = mem_ok c"
  "mem_ok (c\<lparr>uninit_time := x120\<rparr>) = mem_ok c" "mem_ok (c\<lparr>uninit_ts := x121\<rparr>) = mem_ok c"
  "mem_ok (c\<lparr>outputs := x122\<rparr>) = mem_ok c"
  by (simp_all add: mem_ok_def)

lemma settled_update [simp]:
  "settled b n (c\<lparr>defaultDS := x0\<rparr>) = settled b n c"
  "settled b n (c\<lparr>currentDS := x1\<rparr>) = settled b n c"
  "settled b n (c\<lparr>parentDS := x2\<rparr>) = settled b n c"
  "settled b n (c\<lparr>timePropertiesDS := x3\<rparr>) = settled b n c"
  "settled b n (c\<lparr>portDS := x4\<rparr>) = settled b n c"
  "settled b n (c\<lparr>foreignMasterDS := x5\<rparr>) = settled b n c"
  "settled b n (c\<lparr>msgTmpHeader := x6\<rparr>) = settled b n c"
  "settled b n (c\<lparr>msgTmp := x7\<rparr>) = settled b n c"
  "settled b n (c\<lparr>msgObuf := x8\<rparr>) = settled b n c"
  "settled b n (c\<lparr>msgIbufLength := x10\<rparr>) = settled b n c"
  "settled b n (c\<lparr>Tms := x11\<rparr>) = settled b n c"
  "settled b n (c\<lparr>Tsm := x12\<rparr>) = settled b n c"
  "settled b n (c\<lparr>pdelay_t1 := x13\<rparr>) = settled b n c"
  "settled b n (c\<lparr>pdelay_t2 := x14\<rparr>) = settled b n c"
  "settled b n (c\<lparr>pdelay_t3 := x15\<rparr>) = settled b n c"
  "settled b n (c\<lparr>pdelay_t4 := x16\<rparr>) = settled b n c"
  "settled b n (c\<lparr>timestamp_syncRecieve := x17\<rparr>) = settled b n c"
  "settled b n (c\<lparr>timestamp_delayReqSend := x18\<rparr>) = settled b n c"
  "settled b n (c\<lparr>timestamp_delayReqRecieve := x19\<rparr>) = settled b n c"
  "settled b n (c\<lparr>correctionField_sync := x20\<rparr>) = settled b n c"
  "settled b n (c\<lparr>correctionField_pDelayResp := x21\<rparr>) = settled b n c"
  "settled b n (c\<lparr>sentPDelayReqSequenceId := x22\<rparr>) = settled b n c"
  "settled b n (c\<lparr>sentDelayReqSequenceId := x23\<rparr>) = settled b n c"
  "settled b n (c\<lparr>sentSyncSequenceId := x24\<rparr>) = settled b n c"
  "settled b n (c\<lparr>sentAnnounceSequenceId := x25\<rparr>) = settled b n c"
  "settled b n (c\<lparr>recvPDelayReqSequenceId := x26\<rparr>) = settled b n c"
  "settled b n (c\<lparr>recvSyncSequenceId := x27\<rparr>) = settled b n c"
  "settled b n (c\<lparr>waitingForFollowUp := x28\<rparr>) = settled b n c"
  "settled b n (c\<lparr>waitingForPDelayRespFollowUp := x29\<rparr>) = settled b n c"
  "settled b n (c\<lparr>ofm_filt := x30\<rparr>) = settled b n c"
  "settled b n (c\<lparr>owd_filt := x31\<rparr>) = settled b n c"
  "settled b n (c\<lparr>slv_filt := x32\<rparr>) = settled b n c"
  "settled b n (c\<lparr>offsetHistory := x33\<rparr>) = settled b n c"
  "settled b n (c\<lparr>observedDrift := x34\<rparr>) = settled b n c"
  "settled b n (c\<lparr>messageActivity := x35\<rparr>) = settled b n c"
  "settled b n (c\<lparr>recommendedState := x38\<rparr>) = settled b n c"
  "settled b n (c\<lparr>portUuidField := x39\<rparr>) = settled b n c"
  "settled b n (c\<lparr>inboundLatency := x40\<rparr>) = settled b n c"
  "settled b n (c\<lparr>outboundLatency := x41\<rparr>) = settled b n c"
  "settled b n (c\<lparr>servo := x42\<rparr>) = settled b n c"
  "settled b n (c\<lparr>events := x43\<rparr>) = settled b n c"
  "settled b n (c\<lparr>stats := x44\<rparr>) = settled b n c"
  "settled b n (c\<lparr>rtOpts := x45\<rparr>) = settled b n c"
  "settled b n (c\<lparr>old_localtime := x47\<rparr>) = settled b n c"
  "settled b n (c\<lparr>overrun := x50\<rparr>) = settled b n c"
  "settled b n (c\<lparr>hw_reads := x51\<rparr>) = settled b n c"
  "settled b n (c\<lparr>hw_n := x52\<rparr>) = settled b n c"
  "settled b n (c\<lparr>rands := x53\<rparr>) = settled b n c"
  "settled b n (c\<lparr>rand_n := x54\<rparr>) = settled b n c"
  "settled b n (c\<lparr>tx_results := x55\<rparr>) = settled b n c"
  "settled b n (c\<lparr>tx_n := x56\<rparr>) = settled b n c"
  "settled b n (c\<lparr>udp_new_ok := x57\<rparr>) = settled b n c"
  "settled b n (c\<lparr>udp_n := x58\<rparr>) = settled b n c"
  "settled b n (c\<lparr>udp_live := x59\<rparr>) = settled b n c"
  "settled b n (c\<lparr>udp_fault := x60\<rparr>) = settled b n c"
  "settled b n (c\<lparr>aton_default := x61\<rparr>) = settled b n c"
  "settled b n (c\<lparr>aton_peer := x62\<rparr>) = settled b n c"
  "settled b n (c\<lparr>netif_ip := x63\<rparr>) = settled b n c"
  "settled b n (c\<lparr>netif_hwaddr := x64\<rparr>) = settled b n c"
  "settled b n (c\<lparr>uninit_time := x65\<rparr>) = settled b n c"
  "settled b n (c\<lparr>uninit_ts := x66\<rparr>) = settled b n c"
  "settled b n (c\<lparr>outputs := x67\<rparr>) = settled b n c"
  by (simp_all add: settled_def backlog_def)

lemma settled_emit [simp]: "settled b n (emit x c) = settled b n c"
  by (simp add: emit_def)

lemma core_emit [simp, frame_simps]: "\<not> is_sent x \<Longrightarrow> core (emit x c) = core c"
  by (simp add: core_def emit_def)

lemma mem_emit [simp]: "mem_ok (emit x c) = mem_ok c"
  by (simp add: emit_def)

text \<open>What equal cores agree on.\<close>

lemma core_eqD:
  assumes "core c' = core c"
  shows "portState (portDS c') = portState (portDS c)" "portIdentity (portDS c') = portIdentity (portDS c)"
    "versionNumber (portDS c') = versionNumber (portDS c)" "delayMechanism (portDS c') = delayMechanism (portDS c)"
    "defaultDS c' = defaultDS c" "rtOpts c' = rtOpts c" "recommendedState c' = recommendedState c"
    "msgObuf c' = msgObuf c" "portUuidField c' = portUuidField c" "netif_hwaddr c' = netif_hwaddr c"
    "filter is_sent (outputs c') = filter is_sent (outputs c)" "foreignMasterDS c' = foreignMasterDS c"
    "netif_ip c' = netif_ip c" "udp_new_ok c' = udp_new_ok c" "aton_default c' = aton_default c" "aton_peer c' = aton_peer c"
proof -
  have p: "port_core (portDS c') = port_core (portDS c)" using assms by (simp add: core_def)
  show "portState (portDS c') = portState (portDS c)" using arg_cong [OF p, of portState] by (simp add: port_core_def)
  show "portIdentity (portDS c') = portIdentity (portDS c)" using arg_cong [OF p, of portIdentity] by (simp add: port_core_def)
  show "versionNumber (portDS c') = versionNumber (portDS c)" using arg_cong [OF p, of versionNumber] by (simp add: port_core_def)
  show "delayMechanism (portDS c') = delayMechanism (portDS c)" using arg_cong [OF p, of delayMechanism] by (simp add: port_core_def)
qed (use assms in \<open>simp_all add: core_def\<close>)

subsection \<open>Hardware, timers and queues\<close>

lemma core_sys [simp, frame_simps]:
  "core (snd (hw_read c)) = core c" "core (snd (c_rand c)) = core c" "core (snd (getTime c)) = core c"
  "core (setTime t c) = core c" "core (updateTime t c) = core c" "core (adjFreq a c) = core c"
  "core (snd (getRand r c)) = core c"
  by (simp_all add: hw_read_def c_rand_def getTime_def ETH_PTPTime_GetTime_def setTime_def updateTime_def
      adjFreq_def getRand_def ETH_PTPTime_SetTime_def ETH_PTPTime_UpdateOffset_def ETH_PTPTime_AdjFreq_def
      Let_def split_beta)

lemma mem_sys [simp]:
  "mem_ok (snd (hw_read c)) = mem_ok c" "mem_ok (snd (c_rand c)) = mem_ok c" "mem_ok (snd (getTime c)) = mem_ok c"
  "mem_ok (setTime t c) = mem_ok c" "mem_ok (updateTime t c) = mem_ok c" "mem_ok (adjFreq a c) = mem_ok c"
  "mem_ok (snd (getRand r c)) = mem_ok c"
  by (simp_all add: hw_read_def c_rand_def getTime_def ETH_PTPTime_GetTime_def setTime_def updateTime_def
      adjFreq_def getRand_def ETH_PTPTime_SetTime_def ETH_PTPTime_UpdateOffset_def ETH_PTPTime_AdjFreq_def
      Let_def split_beta)

lemma settled_sys [simp]:
  "settled b n (snd (hw_read c)) = settled b n c" "settled b n (snd (c_rand c)) = settled b n c"
  "settled b n (snd (getTime c)) = settled b n c" "settled b n (setTime t c) = settled b n c"
  "settled b n (updateTime t c) = settled b n c" "settled b n (adjFreq a c) = settled b n c"
  "settled b n (snd (getRand r c)) = settled b n c"
  by (simp_all add: hw_read_def c_rand_def getTime_def ETH_PTPTime_GetTime_def setTime_def updateTime_def
      adjFreq_def getRand_def ETH_PTPTime_SetTime_def ETH_PTPTime_UpdateOffset_def ETH_PTPTime_AdjFreq_def
      Let_def split_beta)

lemma core_timers [simp, frame_simps]:
  "core (tStart i w c) = core c" "core (tStop i c) = core c" "core (snd (tExpired i c)) = core c"
  "core (startAnnounceReceipt c) = core c" "core (startRandom i k c) = core c"
  by (simp_all add: tStart_def tStop_def tExpired_def startAnnounceReceipt_def startRandom_def Let_def split_beta)

lemma portDS_timers [simp]:
  "portDS (tStart i w c) = portDS c" "portDS (tStop i c) = portDS c" "portDS (snd (tExpired i c)) = portDS c"
  "portDS (startAnnounceReceipt c) = portDS c" "portDS (startRandom i k c) = portDS c"
  by (simp_all add: tStart_def tStop_def tExpired_def startAnnounceReceipt_def startRandom_def getRand_def
      c_rand_def Let_def split_beta)

lemma mem_timers [simp]:
  "mem_ok (tStart i w c) = mem_ok c" "mem_ok (tStop i c) = mem_ok c" "mem_ok (snd (tExpired i c)) = mem_ok c"
  "mem_ok (startAnnounceReceipt c) = mem_ok c" "mem_ok (startRandom i k c) = mem_ok c"
proof -
  show t: "mem_ok (tStart i w c) = mem_ok c" for i w c
    by (simp add: tStart_def mem_ok_def)
  show "mem_ok (tStop i c) = mem_ok c" by (simp add: tStop_def mem_ok_def)
  show "mem_ok (snd (tExpired i c)) = mem_ok c"
    by (simp add: tExpired_def mem_ok_def Let_def split_beta)
  show "mem_ok (startAnnounceReceipt c) = mem_ok c" "mem_ok (startRandom i k c) = mem_ok c"
    by (simp_all add: startAnnounceReceipt_def startRandom_def t split_beta)
qed

lemma settled_timers [intro, mem_intros]:
  assumes "settled b n c"
  shows "settled b n (tStart i w c)" "settled b n (tStop i c)" "settled b n (snd (tExpired i c))"
    "settled b n (startAnnounceReceipt c)" "settled b n (startRandom i k c)"
proof -
  have l: "length (itimer c) = TIMER_ARRAY_SIZE" using assms by (simp add: settled_def mem_ok_def wf_timers_def)
  have st: "settled b n (tStart i w c)" if "settled b n c" for i w c
    using that mem_timers(1) [of i w c] timerStart_same [of "itimer c" i w]
    by (cases "i = ANNOUNCE_RECEIPT_TIMER")
      (auto simp: settled_def backlog_def tStart_def mem_ok_def wf_timers_def TIMER_ARRAY_SIZE_def)
  show "settled b n (tStart i w c)" using assms by (rule st)
  show "settled b n (tStop i c)"
    using assms mem_timers(2) [of i c] timerStop_same [of "itimer c" i]
    by (cases "i = ANNOUNCE_RECEIPT_TIMER")
      (auto simp: settled_def backlog_def tStop_def mem_ok_def wf_timers_def TIMER_ARRAY_SIZE_def)
  show "settled b n (snd (tExpired i c))"
    using assms mem_timers(3) [of i c] l
    by (cases "i = ANNOUNCE_RECEIPT_TIMER")
      (auto simp: settled_def backlog_def tExpired_def timerExpired_def timerUpdate_def Let_def)
  show "settled b n (startAnnounceReceipt c)" "settled b n (startRandom i k c)"
    using assms by (simp_all add: startAnnounceReceipt_def startRandom_def st split_beta)
qed

lemma wf_input_empty: "wf_queue q \<Longrightarrow> queued q = [] \<Longrightarrow> wf_input q"
  by (simp add: wf_input_def)

lemma wf_input_get: "wf_input q \<Longrightarrow> wf_input (snd (netQGet q))"
  using netQGet_empty [of q] netQGet_cons [of q] netQ.ok_get [of q]
  by (cases "queued q") (auto simp: wf_input_def)

lemma wf_input_put: "wf_input q \<Longrightarrow> pbuf_ok p \<Longrightarrow> wf_input (snd (netQPut q p))"
  using netQPut_room [of q p] netQPut_full [of q p] netQ.ok_put [of q p] netQ.bound [of q]
  by (cases "length (queued q) = 4") (auto simp: wf_input_def)

lemma core_netEmptyEventQ [simp, frame_simps]: "core (netEmptyEventQ c) = core c"
  by (auto simp: netEmptyEventQ_def core_def split_beta filter_empty_conv)

lemma mem_netEmptyEventQ [intro, mem_intros]: "mem_ok c \<Longrightarrow> mem_ok (netEmptyEventQ c)"
  using netQEmptyLoop_count [of "eventQ (netPath c)" "nat (q_count (eventQ (netPath c)))"]
  by (auto simp: mem_ok_def netEmptyEventQ_def netQEmpty_def split_beta wf_input_def)

lemma settled_netEmptyEventQ [intro, mem_intros]:
  assumes "settled b n c" shows "settled b n (netEmptyEventQ c)"
proof -
  have "wf_queue (eventQ (netPath c))" using assms by (simp add: settled_def mem_ok_def wf_input_def)
  then have "nat (q_count (eventQ (netPath (netEmptyEventQ c)))) = 0"
    using netEmptyEventQ_queue [of c] length_queued [of "eventQ (netPath (netEmptyEventQ c))"] by simp
  moreover have "generalQ (netPath (netEmptyEventQ c)) = generalQ (netPath c)"
    by (simp add: netEmptyEventQ_def split_beta)
  ultimately show ?thesis using assms mem_netEmptyEventQ [of c] by (simp add: settled_def backlog_def)
qed

subsection \<open>The servo\<close>

lemma core_initClock [simp, frame_simps]: "core (initClock c) = core c"
  by (simp add: initClock_def DEFAULT_PARENTS_STATS_def Let_def)

lemma mem_initClock [intro, mem_intros]: "mem_ok c \<Longrightarrow> mem_ok (initClock c)"
  unfolding initClock_def Let_def by (rule mem_netEmptyEventQ) (simp add: DEFAULT_PARENTS_STATS_def)

lemma settled_initClock [intro, mem_intros]: "settled b n c \<Longrightarrow> settled b n (initClock c)"
  unfolding initClock_def Let_def by (rule settled_netEmptyEventQ) (simp add: DEFAULT_PARENTS_STATS_def)

lemma settled_servo [simp]:
  "settled b n (updateOffset c t1 t2 t3) = settled b n c" "settled b n (updateDelay c t1 t2 t3) = settled b n c"
  "settled b n (updatePeerDelay c t1 b') = settled b n c" "settled b n (updateStats c) = settled b n c"
  by (simp_all add: updateOffset_def computeOffset_eq updateDelay_def updatePeerDelay_def updateStats_def
      Let_def split_beta)

lemma core_servo [simp, frame_simps]:
  "core (updateOffset c t1 t2 t3) = core c" "core (updateDelay c t1 t2 t3) = core c"
  "core (updatePeerDelay c t1 b) = core c" "core (updateStats c) = core c"
  by (simp_all add: updateOffset_def computeOffset_eq updateDelay_def updatePeerDelay_def updateStats_def
      Let_def split_beta)

lemma mem_servo [simp]:
  "mem_ok (updateOffset c t1 t2 t3) = mem_ok c" "mem_ok (updateDelay c t1 t2 t3) = mem_ok c"
  "mem_ok (updatePeerDelay c t1 b) = mem_ok c" "mem_ok (updateStats c) = mem_ok c"
  by (simp_all add: updateOffset_def computeOffset_eq updateDelay_def updatePeerDelay_def updateStats_def
      Let_def split_beta)

lemma core_updateClock [simp, frame_simps]: "core (updateClock c) = core c"
  by (simp add: updateClock_def Let_def split_beta)

lemma mem_updateClock [intro, mem_intros]: "mem_ok c \<Longrightarrow> mem_ok (updateClock c)"
  by (auto simp: updateClock_def Let_def split_beta)

lemma settled_updateClock [intro, mem_intros]: "settled b n c \<Longrightarrow> settled b n (updateClock c)"
  by (auto simp: updateClock_def Let_def split_beta)

subsection \<open>Data sets\<close>

lemma settled_data_sets [simp]:
  "settled b n (m1 c) = settled b n c" "settled b n (p1 c) = settled b n c" "settled b n (s1 c h a) = settled b n c"
  by (simp_all add: m1_def p1_def s1_def Let_def)

lemma settled_bmcStateDecision [simp]: "settled b n (snd (bmcStateDecision h a c)) = settled b n c"
  by (simp add: bmcStateDecision_def Let_def split_beta)

lemma core_data_sets [simp, frame_simps]:
  "core (m1 c) = core c" "core (p1 c) = core c" "core (s1 c h a) = core c"
  by (simp_all add: m1_def p1_def s1_def Let_def)

lemma mem_data_sets [simp]: "mem_ok (m1 c) = mem_ok c" "mem_ok (p1 c) = mem_ok c" "mem_ok (s1 c h a) = mem_ok c"
  by (simp_all add: m1_def p1_def s1_def Let_def)

lemma addForeign_eq:
  "addForeign c h a = c\<lparr>foreignMasterDS := foreignMasterDS (addForeign c h a)\<rparr>"
  by (simp add: addForeign_def Let_def split: option.split)

lemma core_bmcStateDecision [simp, frame_simps]: "core (snd (bmcStateDecision h a c)) = core c"
  by (simp add: bmcStateDecision_def Let_def split_beta)

lemma mem_bmcStateDecision [simp]: "mem_ok (snd (bmcStateDecision h a c)) = mem_ok c"
  by (simp add: bmcStateDecision_def Let_def split_beta)

lemma bmcStateDecision_range:
  "fst (bmcStateDecision h a c) \<in> {PTP_LISTENING, PTP_MASTER, PTP_PASSIVE, PTP_SLAVE}"
  by (simp add: bmcStateDecision_def Let_def split_beta)

subsection \<open>Receiving\<close>

lemma netRecv_ok:
  assumes "wf_input q" and "length buf = PACKET_SIZE"
    and "netRecv buf t q = (len, buf', t', q', freed, bad)"
  shows "wf_input q' \<and> length buf' = PACKET_SIZE \<and> \<not> bad \<and> 0 \<le> len
    \<and> length (queued q') = length (queued q) - 1"
proof -
  have q: "wf_queue q" "\<forall>p\<in>set (queued q). [] \<notin> set (payloads p)"
    using assms(1) by (auto simp: wf_input_def pbuf_ok_def)
  note spec = netRecv_spec_lemma [OF q(1) assms(2) q(2), of t]
  show ?thesis
  proof (cases "queued q")
    case Nil
    then show ?thesis using assms spec by (simp del: length_queued)
  next
    case (Cons p ps)
    with spec obtain r where r: "wf_queue r" "queued r = ps" and
      n: "netRecv buf t q = (if length (concat (payloads p)) \<le> PACKET_SIZE
         then (int (length (concat (payloads p))), put_bytes buf 0 (concat (payloads p)),
               \<lparr>seconds = time_sec p, nanoseconds = time_nsec p\<rparr>, r, Some (pb_id p), False)
         else (0, buf, t, r, None, False))" by auto
    have "wf_input r" using assms(1) r Cons by (simp add: wf_input_def)
    moreover have "q' = r" "\<not> bad" "0 \<le> len" "length buf' = length buf"
      using n assms(3) by (auto split: if_splits)
    ultimately show ?thesis using r(2) Cons assms(2) by (simp del: length_queued)
  qed
qed

lemma core_recv [simp, frame_simps]:
  "core (snd (snd (netRecvEvent t c))) = core c" "core (snd (snd (netRecvGeneral t c))) = core c"
  by (simp_all add: netRecvEvent_def netRecvGeneral_def Let_def split_beta split: option.split)

lemma core_callbacks [simp, frame_simps]:
  "core (netRecvEventCallback p c) = core c" "core (netRecvGeneralCallback p c) = core c"
  by (simp_all add: netRecvEventCallback_def netRecvGeneralCallback_def split_beta Let_def)

text \<open>A receive call takes the oldest packet of its queue, if there is one.\<close>

lemma recv_event:
  assumes "mem_ok c" and "d = snd (snd (netRecvEvent t c))"
  shows "mem_ok d" and "nat (q_count (eventQ (netPath d))) = nat (q_count (eventQ (netPath c))) - 1"
    and "generalQ (netPath d) = generalQ (netPath c)" and "overrun d = overrun c" and "0 \<le> fst (netRecvEvent t c)"
    and "itimer d = itimer c" and "elapsed_ms d = elapsed_ms c"
proof -
  obtain len buf t' q freed bad where r: "netRecv (msgIbuf c) t (eventQ (netPath c)) = (len, buf, t', q, freed, bad)"
    by (metis prod_cases6)
  note ok = netRecv_ok [OF _ _ r]
  show "mem_ok d" "nat (q_count (eventQ (netPath d))) = nat (q_count (eventQ (netPath c))) - 1"
    "generalQ (netPath d) = generalQ (netPath c)" "overrun d = overrun c" "0 \<le> fst (netRecvEvent t c)"
    "itimer d = itimer c" "elapsed_ms d = elapsed_ms c"
    using assms ok by (auto simp: netRecvEvent_def r mem_ok_def emit_def Let_def split: option.split)
qed

lemma recv_general:
  assumes "mem_ok c" and "d = snd (snd (netRecvGeneral t c))"
  shows "mem_ok d" and "nat (q_count (generalQ (netPath d))) = nat (q_count (generalQ (netPath c))) - 1"
    and "eventQ (netPath d) = eventQ (netPath c)" and "overrun d = overrun c" and "0 \<le> fst (netRecvGeneral t c)"
    and "itimer d = itimer c" and "elapsed_ms d = elapsed_ms c"
proof -
  obtain len buf t' q freed bad where r: "netRecv (msgIbuf c) t (generalQ (netPath c)) = (len, buf, t', q, freed, bad)"
    by (metis prod_cases6)
  note ok = netRecv_ok [OF _ _ r]
  show "mem_ok d" "nat (q_count (generalQ (netPath d))) = nat (q_count (generalQ (netPath c))) - 1"
    "eventQ (netPath d) = eventQ (netPath c)" "overrun d = overrun c" "0 \<le> fst (netRecvGeneral t c)"
    "itimer d = itimer c" "elapsed_ms d = elapsed_ms c"
    using assms ok by (auto simp: netRecvGeneral_def r mem_ok_def emit_def Let_def split: option.split)
qed

lemma mem_recv [intro, mem_intros]:
  "mem_ok c \<Longrightarrow> mem_ok (snd (snd (netRecvEvent t c)))" "mem_ok c \<Longrightarrow> mem_ok (snd (snd (netRecvGeneral t c)))"
  by (rule recv_event(1) [OF _ refl] recv_general(1) [OF _ refl], assumption)+

lemma settled_recv [intro, mem_intros]:
  "settled b n c \<Longrightarrow> settled b n (snd (snd (netRecvEvent t c)))"
  "settled b n c \<Longrightarrow> settled b n (snd (snd (netRecvGeneral t c)))"
proof -
  assume c: "settled b n c"
  then have m: "mem_ok c" by (simp add: settled_def)
  have a: "x - 1 + y \<le> n" "y + (x - 1) \<le> n" if "x + y \<le> n" for x y :: nat using that by simp_all
  show "settled b n (snd (snd (netRecvEvent t c)))"
    using c recv_event [OF m refl, of t] a(1) unfolding settled_def backlog_def by metis
  show "settled b n (snd (snd (netRecvGeneral t c)))"
    using c recv_general [OF m refl, of t] a(2) unfolding settled_def backlog_def by (metis add.commute)
qed

lemma mem_callbacks [intro, mem_intros]:
  "mem_ok c \<Longrightarrow> pbuf_ok p \<Longrightarrow> mem_ok (netRecvEventCallback p c)"
  "mem_ok c \<Longrightarrow> pbuf_ok p \<Longrightarrow> mem_ok (netRecvGeneralCallback p c)"
  using wf_input_put [of "eventQ (netPath c)" p] wf_input_put [of "generalQ (netPath c)" p]
  by (simp_all add: netRecvEventCallback_def netRecvGeneralCallback_def split_beta mem_ok_def emit_def Let_def)

subsection \<open>Sending\<close>

text \<open>Every send function returns the length, which is not 0, and either sends or records a failure.\<close>

lemma netSend_cases:
  obtains "snd (snd (netSend g p buf n tm c)) = emit (Sent g p (take (unat n) buf)) (c\<lparr>tx_n := tx_n c + 1\<rparr>)"
  | "snd (snd (netSend g p buf n tm c)) = emit (SendFailed g p (take (unat n) buf)) (c\<lparr>tx_n := tx_n c + 1\<rparr>)"
  by (cases "alloc_ok (tx_results c (tx_n c))"; cases "take_ok (tx_results c (tx_n c))";
      cases "sendto_ok (tx_results c (tx_n c))") (simp_all add: netSend_def Let_def)

lemma send_results [simp]:
  "fst (netSendEvent buf n t c) = uint n" "fst (netSendPeerEvent buf n t c) = uint n"
  "fst (netSendGeneral buf n c) = uint n" "fst (netSendPeerGeneral buf n c) = uint n"
  by (simp_all add: netSendEvent_def netSendPeerEvent_def netSendGeneral_def netSendPeerGeneral_def
      netSend_def Let_def)

subsection \<open>The port state\<close>

lemma core_leaveState [simp, frame_simps]: "core (leaveState s c) = core c"
  by (simp add: leaveState_def leaveSlave_def Let_def split: PtpState.split DelayMechanism.split)

lemma mem_leaveState [intro, mem_intros]: "mem_ok c \<Longrightarrow> mem_ok (leaveState s c)"
  by (auto simp: leaveState_def leaveSlave_def Let_def split: PtpState.split DelayMechanism.split)

lemma port_core_state: "port_core (p\<lparr>portState := s\<rparr>) = (port_core p)\<lparr>portState := s\<rparr>"
  by (simp add: port_core_def)

lemma core_setState: "core (setState s c) = (case core c of (p, r) \<Rightarrow> (p\<lparr>portState := s\<rparr>, r))"
  by (simp add: setState_def core_def port_core_state)

lemma core_recommend:
  "core (c\<lparr>recommendedState := s\<rparr>) = (case core c of (p, d, ro, st, r) \<Rightarrow> (p, d, ro, s, r))"
  by (simp add: core_def)

lemma settled_leaveState [intro, mem_intros]: "settled b n c \<Longrightarrow> settled b n (leaveState s c)"
  by (auto simp: leaveState_def leaveSlave_def Let_def split: PtpState.split DelayMechanism.split)

lemma settled_setState [simp]: "settled b n (setState s c) = settled b n c"
  by (simp add: setState_def)

lemma mem_setState [simp]: "mem_ok (setState s c) = mem_ok c"
  by (simp add: setState_def)

definition entered :: "PtpState \<Rightarrow> clock \<Rightarrow> clock" where
  "entered s c =
    (let c = setState s c
     in if s = PTP_INITIALIZING \<or> s = PTP_LISTENING then c\<lparr>recommendedState := s\<rparr> else c)"

lemma core_toState: "core (toState s c) = core (entered s c)"
proof -
  define d where "d = leaveState s (c\<lparr>messageActivity := True\<rparr>)"
  have d: "core d = core c" by (simp add: d_def)
  have "core (enterState s d) = core (entered s d)"
    by (cases s; cases "delayMechanism (portDS d)")
      (simp_all add: enterState_def entered_def core_setState core_recommend Let_def)
  also have "\<dots> = core (entered s c)"
    using d by (simp add: entered_def Let_def core_setState core_recommend)
  finally show ?thesis by (simp add: toState_def d_def)
qed

lemma mem_enterState [simp]: "mem_ok (enterState s c) = mem_ok c"
  by (cases s; cases "delayMechanism (portDS c)") (simp_all add: enterState_def Let_def)

lemma settled_enterState [intro, mem_intros]: "settled b n c \<Longrightarrow> settled b n (enterState s c)"
  by (cases s; cases "delayMechanism (portDS c)") (auto simp: enterState_def Let_def intro!: settled_timers)

lemma settled_toState [intro, mem_intros]: "settled b n c \<Longrightarrow> settled b n (toState s c)"
  unfolding toState_def Let_def by (intro settled_enterState settled_leaveState) simp

lemma mem_toState [intro, mem_intros]: "mem_ok c \<Longrightarrow> mem_ok (toState s c)"
  unfolding toState_def Let_def by (simp add: mem_leaveState)

subsection \<open>The monitor table\<close>

lemma monFind_range: "monFind P tab = Some i \<Longrightarrow> i < ptpMonitorlConstant"
  by (auto simp: monFind_def find_Some_iff)

lemma core_ptp_unpack_control [simp, frame_simps]: "core (ptp_unpack_control p ip c) = core c"
  by (simp add: ptp_unpack_control_def Let_def split_beta split: option.split)

lemma mem_ptp_unpack_control [intro, mem_intros]: "mem_ok c \<Longrightarrow> mem_ok (ptp_unpack_control p ip c)"
  by (auto simp: ptp_unpack_control_def Let_def split_beta mem_ok_def hw_read_def split: option.split)

lemma settled_ptp_unpack_control [intro, mem_intros]:
  "settled b n c \<Longrightarrow> settled b n (ptp_unpack_control p ip c)"
  using mem_ptp_unpack_control [of c p ip]
  by (auto simp: settled_def backlog_def ptp_unpack_control_def hw_read_def Let_def split: option.split)

end
