(* ===== verification/Ptp_Engine.thy ===== *)
theory Ptp_Engine
  imports Ptp_Frame
begin

text \<open>
  Invariants of the protocol engine.  The locale \<open>engine_invariant\<close> states what a predicate on the
  state has to survive: assignments outside the core, a fault, a packed or sent message, a change
  of the foreign masters, and the state changes in the circumstances in which \<^verbatim>\<open>doState\<close> makes them.
  Every handler and \<^verbatim>\<open>doState\<close> itself then keep it.  \<open>firmware_run\<close> is the run of the device:
  turns of the loop, passing time, arriving packets, and restarts by the operator.
\<close>

text \<open>The port has been initialised since the last restart.\<close>

definition ready :: "clock \<Rightarrow> bool" where
  "ready c \<longleftrightarrow> recommendedState c \<noteq> PTP_INITIALIZING"

definition phase_ok :: "clock \<Rightarrow> bool" where
  "phase_ok c \<longleftrightarrow> portState (portDS c) \<noteq> PTP_DISABLED
     \<and> recommendedState c \<in> {PTP_INITIALIZING, PTP_LISTENING, PTP_MASTER, PTP_PASSIVE, PTP_SLAVE}
     \<and> (if ready c then portState (portDS c) \<noteq> PTP_INITIALIZING
        else portState (portDS c) \<in> {PTP_INITIALIZING, PTP_FAULTY})"

definition may_lead :: "clock \<Rightarrow> bool" where
  "may_lead c \<longleftrightarrow> \<not> (slaveOnly (defaultDS c) \<or> clockClass (clockQuality (defaultDS c)) = 255)"

text \<open>\<open>live I c\<close>: the invariant holds and the port is running.\<close>

definition live :: "(clock \<Rightarrow> bool) \<Rightarrow> clock \<Rightarrow> bool" where
  "live I c \<longleftrightarrow> I c \<and> ready c \<and> phase_ok c"

lemma core_phase:
  assumes "core c' = core c"
  shows "ready c' = ready c" and "phase_ok c' = phase_ok c" and "may_lead c' = may_lead c"
  using core_eqD [OF assms] by (simp_all add: ready_def phase_ok_def may_lead_def)

lemma setState_simps [simp]:
  "portState (portDS (setState s c)) = s" "recommendedState (setState s c) = recommendedState c"
  "ready (setState s c) = ready c" "may_lead (setState s c) = may_lead c"
  "foreignMasterDS (setState s c) = foreignMasterDS c" "msgObuf (setState s c) = msgObuf c"
  "defaultDS (setState s c) = defaultDS c" "rtOpts (setState s c) = rtOpts c"
  "outputs (setState s c) = outputs c" "portUuidField (setState s c) = portUuidField c"
  "netif_hwaddr (setState s c) = netif_hwaddr c" "portIdentity (portDS (setState s c)) = portIdentity (portDS c)"
  "versionNumber (portDS (setState s c)) = versionNumber (portDS c)"
  by (simp_all add: setState_def ready_def may_lead_def)

lemma toState_state [simp]: "portState (portDS (toState s c)) = s"
  using core_eqD(1) [OF core_toState, of s c] by (simp add: entered_def Let_def split: if_splits)

lemma toState_recommended [simp]:
  "recommendedState (toState s c) = (if s = PTP_INITIALIZING \<or> s = PTP_LISTENING then s else recommendedState c)"
  using core_eqD(7) [OF core_toState, of s c] by (simp add: entered_def Let_def split: if_splits)

text \<open>A running port that is faulty leaves the fault in the second switch of \<^verbatim>\<open>doState\<close>.\<close>

lemma followRecommended_not_faulty:
  assumes "phase_ok c" and "ready c"
  shows "portState (portDS (followRecommended c)) \<noteq> PTP_FAULTY"
  using assms
  by (auto simp: followRecommended_def phase_ok_def ready_def Let_def split_beta split: PtpState.split)

text \<open>What \<^verbatim>\<open>doInit\<close> and \<^verbatim>\<open>bmc\<close> leave alone.\<close>

lemma net_frame [simp]:
  "recommendedState (netShutdown c) = recommendedState c" "portDS (netShutdown c) = portDS c"
  "recommendedState (snd (netInit c)) = recommendedState c" "portDS (snd (netInit c)) = portDS c"
  by (simp_all add: netShutdown_def netInit_def findIface_def udp_new_def udp_remove_def emit_def Let_def
      split: option.split)

lemma doInit_frame [simp]:
  "recommendedState (snd (doInit c)) = recommendedState c"
  "portState (portDS (snd (doInit c))) = portState (portDS c)"
proof -
  have i: "recommendedState (initClock d) = recommendedState d" "portDS (initClock d) = portDS d" for d
    by (simp_all add: initClock_def adjFreq_def ETH_PTPTime_AdjFreq_def emit_def Let_def DEFAULT_PARENTS_STATS_def)
  show "recommendedState (snd (doInit c)) = recommendedState c"
    "portState (portDS (snd (doInit c))) = portState (portDS c)"
    by (simp_all add: doInit_def Let_def split_beta i m1_def initData_def)
qed

text \<open>A turn before the port is initialised: it tries to, or recovers from a failed try.\<close>

lemma unready_doState:
  assumes "phase_ok c" and "\<not> ready c" and "d = c\<lparr>messageActivity := False\<rparr>"
  shows "doState c = (if portState (portDS c) = PTP_FAULTY then toState PTP_INITIALIZING d
      else if fst (doInit d) then toState PTP_LISTENING (snd (doInit d)) else toState PTP_FAULTY (snd (doInit d)))"
proof -
  have s: "portState (portDS d) \<in> {PTP_INITIALIZING, PTP_FAULTY}" "portState (portDS d) = portState (portDS c)"
    using assms by (simp_all add: phase_ok_def ready_def)
  have "decisionEvent d = d" "followRecommended d = d"
    using s(1) assms(2,3) by (auto simp: decisionEvent_def followRecommended_def ready_def)
  then have "doState c = stateActions d" by (simp add: doState_def assms(3) [symmetric])
  then show ?thesis using s by (auto simp: stateActions_def split_beta)
qed

definition best_slot :: "clock \<Rightarrow> nat" where
  "best_slot c = bmcScan (recordComparison c) (records (foreignMasterDS c)) [1..<count (foreignMasterDS c)] 0"

lemma bmcScan_index: "bmcScan cmp rs js b \<in> insert b (set js)"
  by (induction cmp rs js b rule: bmcScan.induct) (auto split: if_splits)

lemma best_slot_wf: "wf_foreign (foreignMasterDS c) \<Longrightarrow> wf_foreign ((foreignMasterDS c)\<lparr>best := best_slot c\<rparr>)"
  using bmcScan_index [of "recordComparison c" "records (foreignMasterDS c)" "[1..<count (foreignMasterDS c)]" 0]
  by (auto simp: wf_foreign_def best_slot_def)

lemma core_bmc: "core (snd (bmc c)) = core (c\<lparr>foreignMasterDS := (foreignMasterDS c)\<lparr>best := best_slot c\<rparr>\<rparr>)"
  by (simp add: bmc_def best_slot_def Let_def)

lemma mem_bmc [simp]: "mem_ok (snd (bmc c)) = mem_ok c" "settled b n (snd (bmc c)) = settled b n c"
  by (simp_all add: bmc_def Let_def)

lemma bmc_range: "fst (bmc c) \<in> {PTP_LISTENING, PTP_MASTER, PTP_PASSIVE, PTP_SLAVE}"
  unfolding bmc_def Let_def by (rule bmcStateDecision_range)

locale engine_invariant =
  fixes I :: "clock \<Rightarrow> bool"
  assumes keep: "I c \<Longrightarrow> core c' = core c \<Longrightarrow> (mem_ok c \<Longrightarrow> mem_ok c') \<Longrightarrow>
      (\<And>b n. settled b n c \<Longrightarrow> settled b n c') \<Longrightarrow> I c'"
    and fault: "I c \<Longrightarrow> I (setState PTP_FAULTY c)"
    and slots: "I c \<Longrightarrow> ready c \<Longrightarrow> length (records fm) = length (records (foreignMasterDS c)) \<Longrightarrow>
      (wf_foreign (foreignMasterDS c) \<Longrightarrow> wf_foreign fm) \<Longrightarrow> I (c\<lparr>foreignMasterDS := fm\<rparr>)"
    and pack: "I c \<Longrightarrow> ready c \<Longrightarrow> (template c (msgObuf c) \<Longrightarrow> template c buf) \<Longrightarrow> I (c\<lparr>msgObuf := buf\<rparr>)"
    and send: "I c \<Longrightarrow> ready c \<Longrightarrow> HEADER_LENGTH \<le> int n \<Longrightarrow> I (emit (Sent g p (take n (msgObuf c))) c)"
    and follow: "I c \<Longrightarrow> ready c \<Longrightarrow> s \<in> {PTP_LISTENING, PTP_UNCALIBRATED, PTP_SLAVE} \<Longrightarrow> I (setState s c)"
    and lead: "I c \<Longrightarrow> recommendedState c \<in> {PTP_MASTER, PTP_PASSIVE} \<Longrightarrow>
      s \<in> {PTP_PRE_MASTER, PTP_MASTER, PTP_PASSIVE} \<Longrightarrow> I (setState s c)"
    and recommend: "I c \<Longrightarrow> ready c \<Longrightarrow> s \<in> {PTP_LISTENING, PTP_SLAVE} \<or> s \<in> {PTP_MASTER, PTP_PASSIVE} \<and> may_lead c \<Longrightarrow>
      I (c\<lparr>recommendedState := s\<rparr>)"
    and init_ok_law: "I c \<Longrightarrow> \<not> ready c \<Longrightarrow> fst (doInit c) \<Longrightarrow>
      I ((setState PTP_LISTENING (snd (doInit c)))\<lparr>recommendedState := PTP_LISTENING\<rparr>)"
    and init_fails: "I c \<Longrightarrow> \<not> ready c \<Longrightarrow> \<not> fst (doInit c) \<Longrightarrow> I (snd (doInit c))"
    and again: "I c \<Longrightarrow> \<not> ready c \<Longrightarrow> I (setState PTP_INITIALIZING c)"
begin

lemma live_keep:
  "live I c \<Longrightarrow> core c' = core c \<Longrightarrow> (mem_ok c \<Longrightarrow> mem_ok c') \<Longrightarrow>
    (\<And>b n. settled b n c \<Longrightarrow> settled b n c') \<Longrightarrow> live I c'"
  using keep core_phase [of c' c] by (auto simp: live_def)

lemma live_toState:
  assumes "live I c" and "s \<in> {PTP_FAULTY, PTP_UNCALIBRATED, PTP_SLAVE}
    \<or> s \<in> {PTP_PRE_MASTER, PTP_MASTER, PTP_PASSIVE} \<and> recommendedState c \<in> {PTP_MASTER, PTP_PASSIVE}"
  shows "live I (toState s c)"
proof -
  have e: "core (toState s c) = core (setState s c)"
    using assms(2) by (auto simp: core_toState entered_def Let_def)
  have "I (setState s c)"
    using assms fault follow lead unfolding live_def by auto
  moreover have "phase_ok (setState s c)" using assms by (auto simp: live_def phase_ok_def)
  ultimately show ?thesis
    using e core_phase [OF e] assms(1) mem_toState [of c s] settled_toState [of _ _ c s] keep [of "setState s c" "toState s c"]
    by (simp add: live_def)
qed

lemma live_faulty: "live I c \<Longrightarrow> live I (toState PTP_FAULTY c)"
  by (rule live_toState) simp_all

lemma live_listening: "live I c \<Longrightarrow> live I (toState PTP_LISTENING c)"
proof -
  assume c: "live I c"
  let ?d = "(setState PTP_LISTENING c)\<lparr>recommendedState := PTP_LISTENING\<rparr>"
  have e: "core (toState PTP_LISTENING c) = core ?d"
    by (simp add: core_toState entered_def Let_def)
  have "I ?d" using c follow [of c PTP_LISTENING] recommend [of "setState PTP_LISTENING c" PTP_LISTENING]
    by (simp add: live_def)
  moreover have "ready ?d" "phase_ok ?d" by (simp_all add: ready_def phase_ok_def)
  ultimately show "live I (toState PTP_LISTENING c)"
    using e core_phase [OF e] mem_toState [of c PTP_LISTENING] settled_toState [of _ _ c PTP_LISTENING] keep [of ?d "toState PTP_LISTENING c"]
    by (simp add: live_def)
qed

subsection \<open>Messages\<close>

lemma live_pack: "live I c \<Longrightarrow> (template c (msgObuf c) \<Longrightarrow> template c buf) \<Longrightarrow> live I (c\<lparr>msgObuf := buf\<rparr>)"
  using pack [of c buf] by (auto simp: live_def ready_def phase_ok_def)

lemma live_netSend:
  assumes "live I c" and "HEADER_LENGTH \<le> uint n"
  shows "live I (snd (snd (netSend g p (msgObuf c) n tm c)))"
proof -
  let ?d = "c\<lparr>tx_n := tx_n c + 1\<rparr>"
  have d: "live I ?d" by (rule live_keep [OF assms(1)]) (simp_all add: mem_intros)
  have "live I (emit (Sent g p (take (unat n) (msgObuf c))) ?d)"
    using send [of ?d "unat n" g p] d assms(2)
    by (auto simp: live_def emit_def ready_def phase_ok_def split: if_splits)
  moreover have "live I (emit (SendFailed g p (take (unat n) (msgObuf c))) ?d)"
    by (rule live_keep [OF assms(1)]) (simp_all add: mem_intros)
  ultimately show ?thesis by - (rule netSend_cases [of g p "msgObuf c" n tm c], simp_all)
qed

lemma live_sends:
  assumes "live I c" and "HEADER_LENGTH \<le> uint n"
  shows "live I (snd (netSendGeneral (msgObuf c) n c))" and "live I (snd (netSendPeerGeneral (msgObuf c) n c))"
    and "live I (snd (snd (netSendEvent (msgObuf c) n t c)))"
    and "live I (snd (snd (netSendPeerEvent (msgObuf c) n t c)))"
  using live_netSend [OF assms]
  by (simp_all add: netSendGeneral_def netSendPeerGeneral_def netSendEvent_def netSendPeerEvent_def split_beta)

lemma live_getTime: "live I c \<Longrightarrow> live I (snd (getTime c))"
  by (erule live_keep) (simp_all add: mem_intros)

lemma live_issueAnnounce: "live I c \<Longrightarrow> live I (issueAnnounce c)"
proof -
  assume c: "live I c"
  let ?d = "c\<lparr>msgObuf := msgPackAnnounce c (msgObuf c)\<rparr>"
  have "live I ?d" using c by (rule live_pack) (rule pack_template)
  from live_sends(1) [OF this, of 64] show ?thesis
    by (simp add: issueAnnounce_def Let_def split_beta length_consts) (erule live_keep, simp_all add: mem_intros)
qed

lemma live_issueFollowup: "live I c \<Longrightarrow> live I (issueFollowup t c)"
proof -
  assume c: "live I c"
  let ?d = "c\<lparr>msgObuf := msgPackFollowUp c (msgObuf c) (fromInternalTime t (uninit_ts c))\<rparr>"
  have "live I ?d" using c by (rule live_pack) (rule pack_template)
  from live_sends(1) [OF this, of 44] show ?thesis
    by (simp add: issueFollowup_def Let_def split_beta length_consts)
qed

lemma live_issueSync: "live I c \<Longrightarrow> live I (issueSync c)"
proof -
  assume c: "live I c"
  define d where "d = snd (getTime c)"
  let ?e = "d\<lparr>msgObuf := msgPackSync d (msgObuf d) (fromInternalTime (fst (getTime c)) (uninit_ts d))\<rparr>"
  have "live I ?e" using live_getTime [OF c] unfolding d_def by (rule live_pack) (rule pack_template)
  from live_sends(3) [OF this, of 44 "fst (getTime c)"]
  have "live I (snd (snd (netSendEvent (msgObuf ?e) 44 (fst (getTime c)) ?e)))" by (simp add: length_consts)
  then show ?thesis
    by (auto simp: issueSync_def Let_def split_beta length_consts d_def intro!: live_issueFollowup elim: live_keep)
qed

lemma live_issueDelayReq: "live I c \<Longrightarrow> live I (issueDelayReq c)"
proof -
  assume c: "live I c"
  define d where "d = snd (getTime c)"
  let ?e = "d\<lparr>msgObuf := msgPackDelayReq d (msgObuf d) (fromInternalTime (fst (getTime c)) (uninit_ts d))\<rparr>"
  have "live I ?e" using live_getTime [OF c] unfolding d_def by (rule live_pack) (rule pack_template)
  from live_sends(3) [OF this, of 44 "fst (getTime c)"]
  have "live I (snd (snd (netSendEvent (msgObuf ?e) 44 (fst (getTime c)) ?e)))" by (simp add: length_consts)
  then show ?thesis
    by (auto simp: issueDelayReq_def Let_def split_beta length_consts d_def elim: live_keep)
qed

lemma live_issuePDelayReq: "live I c \<Longrightarrow> live I (issuePDelayReq c)"
proof -
  assume c: "live I c"
  define d where "d = snd (getTime c)"
  let ?e = "d\<lparr>msgObuf := msgPackPDelayReq d (msgObuf d) (fromInternalTime (fst (getTime c)) (uninit_ts d))\<rparr>"
  have "live I ?e" using live_getTime [OF c] unfolding d_def by (rule live_pack) (rule pack_template)
  from live_sends(4) [OF this, of 54 "fst (getTime c)"]
  have "live I (snd (snd (netSendPeerEvent (msgObuf ?e) 54 (fst (getTime c)) ?e)))" by (simp add: length_consts)
  then show ?thesis
    by (auto simp: issuePDelayReq_def Let_def split_beta length_consts d_def elim: live_keep)
qed

lemma live_responses:
  assumes "live I c"
  shows "live I (issueDelayResp t h c)" and "live I (issuePDelayRespFollowUp t h c)"
    and "live I (snd (issuePDelayResp t h c))" and "live I (issueManagement c)"
proof -
  have p: "live I (c\<lparr>msgObuf := buf\<rparr>)" if "template c (msgObuf c) \<Longrightarrow> template c buf" for buf
    using assms that by (rule live_pack)
  show "live I (issueDelayResp t h c)"
    using live_sends(1) [OF p [OF pack_template(5)], where n = 54] by (simp add: issueDelayResp_def Let_def split_beta length_consts)
  show "live I (issuePDelayRespFollowUp t h c)"
    using live_sends(2) [OF p [OF pack_template(8)], where n = 54]
    by (simp add: issuePDelayRespFollowUp_def Let_def split_beta length_consts)
  show "live I (snd (issuePDelayResp t h c))"
    using live_sends(4) [OF p [OF pack_template(7)], where n = 54]
    by (simp add: issuePDelayResp_def Let_def split_beta length_consts)
  show "live I (issueManagement c)"
    using live_sends(1) [OF p [OF pack_template(9)], where n = 48] by (simp add: issueManagement_def Let_def split_beta length_consts)
qed

subsection \<open>Handlers\<close>

lemma live_tExpired: "live I c \<Longrightarrow> live I (snd (tExpired i c))"
  by (erule live_keep) (simp_all add: mem_intros)

lemma live_startRandom: "live I c \<Longrightarrow> live I (startRandom i k c)"
  by (erule live_keep) (simp_all add: mem_intros)

lemma live_startAnnounceReceipt: "live I c \<Longrightarrow> live I (startAnnounceReceipt c)"
  by (erule live_keep) (simp_all add: mem_intros)

lemma live_issueDelayReqTimerExpired: "live I c \<Longrightarrow> live I (issueDelayReqTimerExpired c)"
  by (auto simp: issueDelayReqTimerExpired_def split_beta Let_def split: DelayMechanism.split
      intro!: live_issueDelayReq live_issuePDelayReq live_startRandom live_tExpired)

lemma live_updateClock: "live I c \<Longrightarrow> live I (updateClock c)"
  by (erule live_keep) (simp_all add: mem_intros)

lemma live_addForeign: "live I c \<Longrightarrow> live I (addForeign c h a)"
proof -
  assume c: "live I c"
  have "length (records (foreignMasterDS (addForeign c h a))) = length (records (foreignMasterDS c))"
    by (simp add: addForeign_def Let_def split: option.split)
  then have "I (addForeign c h a)"
    using c slots [of c "foreignMasterDS (addForeign c h a)"] addForeign_wf [of c h a]
    by (simp add: live_def addForeign_eq [symmetric])
  moreover have "ready (addForeign c h a)" "phase_ok (addForeign c h a)"
    using c by (subst addForeign_eq, simp add: live_def ready_def phase_ok_def)+
  ultimately show ?thesis by (simp add: live_def)
qed

lemma live_handleAnnounce: "live I c \<Longrightarrow> live I (handleAnnounce b c)"
proof -
  assume c: "live I c"
  have k: "live I (c\<lparr>events := e, msgTmp := t\<rparr>)" for e t by (rule live_keep [OF c]) (simp_all add: mem_intros)
  have s: "live I (startAnnounceReceipt (s1 (c\<lparr>events := e, msgTmp := t\<rparr>) h a))" for e t h a
    by (rule live_keep [OF c]) (simp_all add: mem_intros)
  have p: "live I ((startAnnounceReceipt c)\<lparr>msgTmp := t, events := e\<rparr>)" for e t
    by (rule live_keep [OF c]) (simp_all add: mem_intros)
  have q: "live I (c\<lparr>msgTmp := t, events := e\<rparr>)" for e t by (rule live_keep [OF c]) (simp_all add: mem_intros)
  show ?thesis
    using c k s live_faulty [OF c] live_addForeign [OF k] live_addForeign [OF p] live_addForeign [OF q]
    by (simp add: handleAnnounce_def Let_def)
qed

lemma live_handleSync: "live I c \<Longrightarrow> live I (handleSync t b c)"
proof -
  assume c: "live I c"
  have "live I (handleSyncSlave t b c)"
    using c by (auto simp: handleSyncSlave_def Let_def
        intro!: live_issueDelayReqTimerExpired live_updateClock intro: live_keep [OF c])
  then show ?thesis
    using c live_faulty [OF c] live_issueDelayReqTimerExpired [OF c]
    by (simp add: handleSync_def split: PtpState.split)
qed

lemma live_handleFollowUp: "live I c \<Longrightarrow> live I (handleFollowUp b c)"
proof -
  assume c: "live I c"
  have "live I (handleFollowUpSlave c)"
    using c by (auto simp: handleFollowUpSlave_def Let_def
        intro!: live_issueDelayReqTimerExpired live_updateClock intro: live_keep [OF c])
  then show ?thesis
    using c live_faulty [OF c] live_issueDelayReqTimerExpired [OF c]
    by (simp add: handleFollowUp_def split: PtpState.split)
qed

lemma live_delay_handlers:
  assumes c: "live I c"
  shows "live I (handleDelayReq t b c)" and "live I (handleDelayResp b c)" and "live I (handlePDelayReq t b c)"
    and "live I (handlePDelayResp t b c)" and "live I (handlePDelayRespFollowUp b c)"
proof -
  show "live I (handleDelayReq t b c)"
    using c live_faulty [OF c] live_responses(1) [OF c]
    by (simp add: handleDelayReq_def split: DelayMechanism.split)
  show "live I (handleDelayResp b c)"
    using c live_faulty [OF c]
    by (auto simp: handleDelayResp_def Let_def split: DelayMechanism.split intro!: live_keep [OF c])
  show "live I (handlePDelayReq t b c)"
    using c live_faulty [OF c] live_responses(3) [OF c] live_responses(2) [OF live_responses(3) [OF c]]
    by (simp add: handlePDelayReq_def split_beta split: DelayMechanism.split)
  show "live I (handlePDelayResp t b c)"
    using c live_faulty [OF c]
    by (auto simp: handlePDelayResp_def Let_def split: DelayMechanism.split intro!: live_keep [OF c])
  show "live I (handlePDelayRespFollowUp b c)"
    using c live_faulty [OF c]
    by (auto simp: handlePDelayRespFollowUp_def Let_def split: DelayMechanism.split intro!: live_keep [OF c])
qed

lemma live_handleManagement: "live I c \<Longrightarrow> live I (handleManagement b c)"
proof -
  assume c: "live I c"
  have "live I (ptp_unpack_control p ip (c\<lparr>msgTmp := t\<rparr>))" for p ip t
    by (rule live_keep [OF c]) (simp_all add: mem_intros)
  then show ?thesis
    using c live_faulty [OF c] by (simp add: handleManagement_def Let_def split: PtpState.split)
qed

lemma live_dispatch: "live I c \<Longrightarrow> live I (dispatch t b c)"
  by (simp add: dispatch_def Let_def live_handleAnnounce live_handleSync live_handleFollowUp
      live_delay_handlers live_handleManagement)

lemma live_processPacket: "live I c \<Longrightarrow> live I (processPacket t c)"
proof -
  assume c: "live I c"
  have a: "live I (c\<lparr>messageActivity := True\<rparr>)" by (rule live_keep [OF c]) (simp_all add: mem_intros)
  have h: "live I (c\<lparr>messageActivity := True, msgTmpHeader := x\<rparr>)" for x by (rule live_keep [OF c]) (simp_all add: mem_intros)
  show ?thesis
    using a h live_faulty [OF a] live_dispatch [OF h] by (simp add: processPacket_def Let_def)
qed

lemma live_handle: "live I c \<Longrightarrow> live I (handle c)"
proof -
  assume c: "live I c"
  have e: "live I ((snd (snd (netRecvEvent t c)))\<lparr>msgIbufLength := l\<rparr>)" for t l
    by (rule live_keep [OF c]) (simp_all add: mem_intros)
  have g: "live I ((snd (snd (netRecvGeneral t ((snd (snd (netRecvEvent u c)))\<lparr>msgIbufLength := l\<rparr>))))\<lparr>msgIbufLength := m\<rparr>)"
    for t u l m
    by (rule live_keep [OF c]) (simp_all add: mem_intros)
  show ?thesis
    using c e g live_faulty [OF c] live_faulty [OF e] live_faulty [OF g]
      live_processPacket [OF e] live_processPacket [OF g]
    by (simp add: handle_def Let_def split_beta)
qed

subsection \<open>The state engine\<close>

lemma live_recommend:
  "live I c \<Longrightarrow> s \<in> {PTP_LISTENING, PTP_SLAVE} \<or> s \<in> {PTP_MASTER, PTP_PASSIVE} \<and> may_lead c \<Longrightarrow>
    live I (c\<lparr>recommendedState := s\<rparr>)"
  using recommend [of c s] by (auto simp: live_def ready_def phase_ok_def split: if_splits)

lemma live_slots:
  "live I c \<Longrightarrow> length (records fm) = length (records (foreignMasterDS c)) \<Longrightarrow>
    (wf_foreign (foreignMasterDS c) \<Longrightarrow> wf_foreign fm) \<Longrightarrow> live I (c\<lparr>foreignMasterDS := fm\<rparr>)"
  using slots [of c fm] by (auto simp: live_def ready_def phase_ok_def)

lemma live_bmc: "live I c \<Longrightarrow> live I (snd (bmc c))"
  using live_keep [OF live_slots [of c "(foreignMasterDS c)\<lparr>best := best_slot c\<rparr>"], of "snd (bmc c)"]
    core_bmc [of c] best_slot_wf [of c] by simp

lemma live_decisionEvent: "live I c \<Longrightarrow> live I (decisionEvent c)"
proof -
  assume c: "live I c"
  define d where "d = c\<lparr>events := clearFlag (events c) STATE_DECISION_EVENT\<rparr>"
  have d: "live I (snd (bmc d))" unfolding d_def by (rule live_bmc, rule live_keep [OF c]) (simp_all add: mem_intros)
  have l: "slaveOnly (defaultDS (snd (bmc d))) \<or> clockClass (clockQuality (defaultDS (snd (bmc d)))) = 255
      \<longleftrightarrow> \<not> may_lead (snd (bmc d))" by (simp add: may_lead_def)
  show ?thesis
    using c d bmc_range [of d] live_recommend [OF d, of PTP_LISTENING] live_recommend [OF d, of "fst (bmc d)"]
    by (auto simp: decisionEvent_def Let_def split_beta d_def [symmetric] l)
qed

lemma live_followRecommended: "live I c \<Longrightarrow> live I (followRecommended c)"
proof -
  assume c: "live I c"
  have q: "live I (snd (tExpired i c))" "recommendedState (snd (tExpired i c)) = recommendedState c" for i
    using live_tExpired [OF c] core_eqD(7) [of "snd (tExpired i c)" c] by simp_all
  have e: "live I (c\<lparr>events := e\<rparr>)" for e by (rule live_keep [OF c]) (simp_all add: mem_intros)
  have t: "live I (toState s (c\<lparr>events := e\<rparr>))" if "s = PTP_SLAVE \<or> s = PTP_UNCALIBRATED" for s e
    using that by (intro live_toState [OF e]) auto
  have t2: "live I ((toState s (c\<lparr>events := e\<rparr>))\<lparr>events := f\<rparr>)" if "s = PTP_SLAVE \<or> s = PTP_UNCALIBRATED" for s e f
    by (rule live_keep [OF t [OF that]]) (simp_all add: mem_intros)
  have t3: "live I (toState PTP_UNCALIBRATED ((toState s (c\<lparr>events := e\<rparr>))\<lparr>events := f\<rparr>))"
    if "s = PTP_SLAVE \<or> s = PTP_UNCALIBRATED" for s e f
    by (rule live_toState [OF t2 [OF that]]) simp
  show ?thesis
    using c q e t t2 t3 live_toState [OF c] live_toState [OF q(1)] live_listening [OF c]
    by (auto simp: followRecommended_def Let_def split_beta split: PtpState.split)
qed

lemma live_passivePart: "live I c \<Longrightarrow> live I (passivePart c)"
proof -
  assume c: "live I c"
  let ?d = "snd (tExpired ANNOUNCE_RECEIPT_TIMER c)"
  let ?e = "?d\<lparr>foreignMasterDS := (foreignMasterDS ?d)\<lparr>count := 0, fm_i := 0\<rparr>\<rparr>"
  have e: "live I ?e"
    by (rule live_slots [OF live_tExpired [OF c]]) (auto simp: wf_foreign_def)
  have "live I (m1 ?e)" by (rule live_keep [OF e]) (simp_all add: mem_intros)
  moreover have "may_lead (m1 ?e) = may_lead ?e" by (rule core_phase) simp
  ultimately have "may_lead ?e \<Longrightarrow> live I (toState PTP_MASTER ((m1 ?e)\<lparr>recommendedState := PTP_MASTER\<rparr>))"
    by (intro live_toState live_recommend) simp_all
  then show ?thesis
    using e live_listening [OF e] live_handle [OF live_tExpired [OF c]]
    by (auto simp: passivePart_def Let_def split_beta may_lead_def)
qed

lemma live_managementPart: "live I c \<Longrightarrow> live I (managementPart c)"
  using live_tExpired [of c] live_handle [OF live_responses(4) [OF live_tExpired [of c]]]
  by (simp add: managementPart_def split_beta)

lemma live_masterPart: "live I c \<Longrightarrow> live I (masterPart c)"
  unfolding masterPart_def Let_def split_beta
  by (intro live_issueDelayReqTimerExpired live_handle)
    (simp add: live_tExpired live_issueSync live_issueAnnounce)

lemma live_doState:
  assumes "live I c" shows "live I (doState c)"
proof -
  define b where "b = decisionEvent (c\<lparr>messageActivity := False\<rparr>)"
  define d where "d = followRecommended b"
  have "live I (c\<lparr>messageActivity := False\<rparr>)" by (rule live_keep [OF assms]) (simp_all add: mem_intros)
  then have b: "live I b" unfolding b_def by (rule live_decisionEvent)
  then have d: "live I d" unfolding d_def by (rule live_followRecommended)
  have s: "portState (portDS d) \<noteq> PTP_INITIALIZING" "portState (portDS d) \<noteq> PTP_FAULTY"
    using d b followRecommended_not_faulty [of b] by (auto simp: live_def phase_ok_def d_def)
  show ?thesis
    using d s live_passivePart [OF d] live_passivePart [OF live_managementPart [OF d]] live_masterPart [OF d]
      live_handle [OF d]
    by (simp add: doState_def stateActions_def d_def [symmetric] b_def [symmetric] Let_def split: PtpState.split)
qed

text \<open>Before the port is initialised, a turn of \<^verbatim>\<open>doState\<close> only tries to initialise it.\<close>

lemma init_doState:
  assumes "I c" and "phase_ok c" and "\<not> ready c"
  shows "I (doState c) \<and> phase_ok (doState c)"
proof -
  define d where "d = c\<lparr>messageActivity := False\<rparr>"
  have d: "I d" "phase_ok d" "\<not> ready d"
    using assms keep [of c d] core_phase [of d c] by (simp_all add: d_def)
  have s: "portState (portDS d) \<in> {PTP_INITIALIZING, PTP_FAULTY}" using d by (simp add: phase_ok_def)
  have eq: "doState c = (if portState (portDS d) = PTP_FAULTY then toState PTP_INITIALIZING d
      else if fst (doInit d) then toState PTP_LISTENING (snd (doInit d)) else toState PTP_FAULTY (snd (doInit d)))"
    using unready_doState [OF assms(2,3) d_def] by (simp add: d_def)
  define x where "x = snd (doInit d)"
  have x: "\<not> ready x" using d(3) by (simp add: ready_def x_def)
  consider (init_ok) "portState (portDS d) = PTP_INITIALIZING" "fst (doInit d)"
    | (init_fail) "portState (portDS d) = PTP_INITIALIZING" "\<not> fst (doInit d)"
    | (fault) "portState (portDS d) = PTP_FAULTY" using s by auto
  then show ?thesis
  proof cases
    case init_ok
    have "core (toState PTP_LISTENING x) = core ((setState PTP_LISTENING x)\<lparr>recommendedState := PTP_LISTENING\<rparr>)"
      by (simp add: core_toState entered_def Let_def)
    from keep [OF init_ok_law [OF d(1,3) init_ok(2), folded x_def] this]
    have "I (toState PTP_LISTENING x)" by (simp add: mem_intros)
    then show ?thesis using init_ok
      by (simp add: eq x_def [symmetric]) (simp add: phase_ok_def ready_def)
  next
    case init_fail
    have "core (toState PTP_FAULTY x) = core (setState PTP_FAULTY x)"
      by (simp add: core_toState entered_def Let_def)
    from keep [OF fault [OF init_fails [OF d(1,3) init_fail(2), folded x_def]] this]
    have "I (toState PTP_FAULTY x)" by (simp add: mem_intros)
    then show ?thesis using init_fail x
      by (simp add: eq x_def [symmetric]) (simp add: phase_ok_def ready_def)
  next
    case fault
    have "setState PTP_INITIALIZING d = (setState PTP_INITIALIZING d)\<lparr>recommendedState := PTP_INITIALIZING\<rparr>"
      using d(3) by (simp add: ready_def setState_def)
    then have "core (toState PTP_INITIALIZING d) = core (setState PTP_INITIALIZING d)"
      by (simp add: core_toState entered_def Let_def)
    from keep [OF again [OF d(1,3)] this]
    have "I (toState PTP_INITIALIZING d)" by (simp add: mem_intros)
    then show ?thesis using fault
      by (simp add: eq phase_ok_def ready_def)
  qed
qed

lemma kept_doState: "I c \<Longrightarrow> phase_ok c \<Longrightarrow> I (doState c) \<and> phase_ok (doState c)"
  using live_doState [of c] init_doState [of c] by (cases "ready c") (auto simp: live_def)

end

subsection \<open>Initialisation\<close>

lemma net_frame_more [simp]:
  "rtOpts (netShutdown c) = rtOpts c" "rtOpts (snd (netInit c)) = rtOpts c"
  "netif_hwaddr (netShutdown c) = netif_hwaddr c" "netif_hwaddr (snd (netInit c)) = netif_hwaddr c"
  "msgObuf (netShutdown c) = msgObuf c" "msgObuf (snd (netInit c)) = msgObuf c"
  "defaultDS (netShutdown c) = defaultDS c" "defaultDS (snd (netInit c)) = defaultDS c"
  "foreignMasterDS (netShutdown c) = foreignMasterDS c" "foreignMasterDS (snd (netInit c)) = foreignMasterDS c"
  "portUuidField (netShutdown c) = portUuidField c"
  "portUuidField (snd (netInit c)) = put_bytes (portUuidField c) 0 (netif_hwaddr c)"
  "filter is_sent (outputs (netShutdown c)) = filter is_sent (outputs c)"
  "filter is_sent (outputs (snd (netInit c))) = filter is_sent (outputs c)"
  by (simp_all add: netShutdown_def netInit_def findIface_def udp_new_def udp_remove_def emit_def Let_def
      split: option.split)

lemma wf_input_init: "wf_input q \<Longrightarrow> wf_input (netQInit q)"
  using netQ.init_law [of q] by (auto simp: wf_input_def)

lemma mem_net: "mem_ok c \<Longrightarrow> mem_ok (netShutdown c)" "mem_ok c \<Longrightarrow> mem_ok (snd (netInit c))"
  by (auto simp: netShutdown_def netInit_def findIface_def udp_new_def udp_remove_def emit_def Let_def mem_ok_def
      wf_input_init split: option.split)

lemma initClock_portDS [simp]: "portDS (initClock c) = portDS c"
  by (simp add: initClock_def adjFreq_def ETH_PTPTime_AdjFreq_def emit_def Let_def DEFAULT_PARENTS_STATS_def)

lemmas initClock_frame [simp] = core_eqD(5-) [OF core_initClock]

lemma m1_frame [simp]:
  "portDS (m1 c) = portDS c" "defaultDS (m1 c) = defaultDS c" "msgObuf (m1 c) = msgObuf c" "rtOpts (m1 c) = rtOpts c"
  "foreignMasterDS (m1 c) = foreignMasterDS c" "portUuidField (m1 c) = portUuidField c"
  "netif_hwaddr (m1 c) = netif_hwaddr c" "outputs (m1 c) = outputs c"
  by (simp_all add: m1_def)

lemma initData_frame [simp]:
  "msgObuf (initData c) = msgObuf c" "rtOpts (initData c) = rtOpts c" "portUuidField (initData c) = portUuidField c"
  "netif_hwaddr (initData c) = netif_hwaddr c" "outputs (initData c) = outputs c"
  "mem_ok (initData c) = mem_ok c"
  by (simp_all add: initData_def Let_def)

lemma doInit_fails:
  assumes "\<not> fst (doInit c)"
  shows "snd (doInit c) = snd (netInit (netShutdown c))"
  using assms by (simp add: doInit_def Let_def split_beta split: if_splits)

lemma doInit_ok:
  assumes "fst (doInit c)" and "d = snd (doInit c)"
  shows "portIdentity (portDS d)
      = \<lparr>clockIdentity = EUI48toEUI64 (put_bytes (portUuidField c) 0 (netif_hwaddr c)), portNumber = 1\<rparr>"
    and "versionNumber (portDS d) = 2" and "domainNumber (defaultDS d) = rt_domainNumber (rtOpts c)"
    and "slaveOnly (defaultDS d) = rt_slaveOnly (rtOpts c)" and "twoStepFlag (defaultDS d)"
    and "msgObuf d = msgPackHeader d (msgObuf c)"
    and "foreignMasterDS d = (foreignMasterDS c)\<lparr>count := 0, capacity := nat (maxForeignRecords (rtOpts c))\<rparr>"
    and "rtOpts d = rtOpts c" and "netif_hwaddr d = netif_hwaddr c"
    and "portUuidField d = put_bytes (portUuidField c) 0 (netif_hwaddr c)"
    and "filter is_sent (outputs d) = filter is_sent (outputs c)" and "mem_ok c \<Longrightarrow> mem_ok d"
proof -
  have d: "\<exists>b. d = b\<lparr>msgObuf := msgPackHeader b (msgObuf b)\<rparr>
      \<and> b = m1 (initClock ((initData (snd (netInit (netShutdown c))))\<lparr>elapsed_ms := initTimer\<rparr>))"
    using assms by (simp add: doInit_def Let_def split_beta split: if_splits)
  then obtain b where b: "d = b\<lparr>msgObuf := msgPackHeader b (msgObuf b)\<rparr>"
    "b = m1 (initClock ((initData (snd (netInit (netShutdown c))))\<lparr>elapsed_ms := initTimer\<rparr>))" by blast
  show "portIdentity (portDS d)
      = \<lparr>clockIdentity = EUI48toEUI64 (put_bytes (portUuidField c) 0 (netif_hwaddr c)), portNumber = 1\<rparr>"
    "versionNumber (portDS d) = 2" "domainNumber (defaultDS d) = rt_domainNumber (rtOpts c)"
    "slaveOnly (defaultDS d) = rt_slaveOnly (rtOpts c)" "twoStepFlag (defaultDS d)"
    "foreignMasterDS d = (foreignMasterDS c)\<lparr>count := 0, capacity := nat (maxForeignRecords (rtOpts c))\<rparr>"
    by (simp_all add: b initData_def Let_def length_consts EUI48toEUI64_def)
  show "msgObuf d = msgPackHeader d (msgObuf c)" "rtOpts d = rtOpts c" "netif_hwaddr d = netif_hwaddr c"
    "portUuidField d = put_bytes (portUuidField c) 0 (netif_hwaddr c)"
    "filter is_sent (outputs d) = filter is_sent (outputs c)"
    by (simp_all add: b msgPackHeader_def)
  show "mem_ok d" if "mem_ok c"
    using that by (simp add: b mem_initClock mem_net)
qed

end
