(* ===== verification/Ptp_Invariants.thy ===== *)
theory Ptp_Invariants
  imports Ptp_Engine
begin

text \<open>
  The runs of the firmware and what holds in every state they reach: the memory the stack works on keeps
  its shape, every message sent carries the identity of the device, and a slave-only port never
  becomes a master.  Each is an interpretation of \<open>engine_invariant\<close>.
\<close>

subsection \<open>Runs\<close>

text \<open>
  \<open>R\<close> are the operations the operator may invoke.  A run interleaves turns of the loop of
  \<^verbatim>\<open>ptpd_Periodic_Handle\<close>, the advance of the millisecond count, the receive callbacks, and
  those operations, in any order.
\<close>

inductive firmware_run :: "(clock \<Rightarrow> clock) set \<Rightarrow> clock \<Rightarrow> clock \<Rightarrow> bool" for R c where
  run_start: "firmware_run R c c"
| run_poll: "firmware_run R c d \<Longrightarrow> firmware_run R c (doState d)"
| run_tick: "firmware_run R c d \<Longrightarrow>
    firmware_run R c (d\<lparr>elapsed_ms := catchAlarm w (elapsed_ms d), old_localtime := t\<rparr>)"
| run_event: "firmware_run R c d \<Longrightarrow> pbuf_ok p \<Longrightarrow> firmware_run R c (netRecvEventCallback p d)"
| run_general: "firmware_run R c d \<Longrightarrow> pbuf_ok p \<Longrightarrow> firmware_run R c (netRecvGeneralCallback p d)"
| run_operator: "firmware_run R c d \<Longrightarrow> f \<in> R \<Longrightarrow> firmware_run R c (f d)"

inductive_cases run_cases: "firmware_run R c d"

lemma run_trans: "firmware_run R d e \<Longrightarrow> firmware_run R c d \<Longrightarrow> firmware_run R c e"
  by (induction rule: firmware_run.induct) (auto intro: firmware_run.intros)

text \<open>A call of \<^verbatim>\<open>ptpd_Periodic_Handle\<close> that returns is a run.\<close>

lemma periodicLoop_run:
  assumes "periodicLoop c = Some d"
  shows "firmware_run R c d"
proof -
  have "firmware_run R c d" if "periodicLoop c = Some d" for c d
    using _ that
  proof (rule periodicLoop.raw_induct [where P = "firmware_run R"])
    fix f c d
    assume IH: "\<And>c d. f c = Some d \<Longrightarrow> firmware_run R c d"
      and r: "(let c' = doState c in if 0 < netSelect c' then f c' else Some c') = Some d"
    have s: "firmware_run R c (doState c)" by (rule run_poll) (rule run_start)
    show "firmware_run R c d"
      using r IH [of "doState c" d] run_trans [OF _ s] s by (auto simp: Let_def split: if_splits)
  qed
  then show ?thesis using assms .
qed

lemma ptpd_Periodic_Handle_run:
  assumes "ptpd_Periodic_Handle t c = Some d"
  shows "firmware_run R c d"
proof -
  let ?e = "c\<lparr>elapsed_ms := catchAlarm (t - old_localtime c) (elapsed_ms c), old_localtime := t\<rparr>"
  have "periodicLoop ?e = Some d" using assms by (simp add: ptpd_Periodic_Handle_def Let_def)
  then show ?thesis using run_trans [OF periodicLoop_run run_tick [OF run_start]] by blast
qed

text \<open>An invariant of runs also survives what happens outside the stack.\<close>

locale engine_safety = engine_invariant +
  assumes outside: "I c \<Longrightarrow> core c' = core c \<Longrightarrow> (mem_ok c \<Longrightarrow> mem_ok c') \<Longrightarrow> I c'"
begin

lemma kept_step:
  "I c \<Longrightarrow> phase_ok c \<Longrightarrow> core c' = core c \<Longrightarrow> (mem_ok c \<Longrightarrow> mem_ok c') \<Longrightarrow> I c' \<and> phase_ok c'"
  using outside [of c c'] core_phase [of c' c] by simp

lemma kept_run:
  assumes "firmware_run R c d" and "\<And>f e. f \<in> R \<Longrightarrow> I e \<Longrightarrow> phase_ok e \<Longrightarrow> I (f e) \<and> phase_ok (f e)"
    and "I c" and "phase_ok c"
  shows "I d \<and> phase_ok d"
  using assms(1)
proof (induction rule: firmware_run.induct)
  case (run_poll d) then show ?case using kept_doState by blast
next
  case (run_tick d w t)
  then show ?case by (intro kept_step [of d]) simp_all
next
  case (run_event d p)
  then show ?case by (intro kept_step [of d]) (simp_all add: mem_callbacks)
next
  case (run_general d p)
  then show ?case by (intro kept_step [of d]) (simp_all add: mem_callbacks)
qed (use assms in auto)

end

subsection \<open>Power-up and restart\<close>

text \<open>The state in which \<^verbatim>\<open>system_init\<close> finds the stack: the globals are zero.\<close>

definition powered :: "clock \<Rightarrow> bool" where
  "powered c \<longleftrightarrow> PtpClock.truncate c = PtpClock_zero \<and> ptpMonitorl c = replicate 16 ptp_control_zero
     \<and> mon_cnt c = 0 \<and> filter is_sent (outputs c) = [] \<and> length (netif_hwaddr c) = 6"

lemma powered_power_up: "powered (power_up hw rs tx)"
  by (simp add: powered_def power_up_def PtpClock.defs zero_defs)

lemma startup_frame [simp]:
  "rt_slaveOnly (rtOpts (ptpdStartup ro fo c)) = rt_slaveOnly ro"
  "rt_domainNumber (rtOpts (ptpdStartup ro fo c)) = rt_domainNumber ro"
  "maxForeignRecords (rtOpts (ptpdStartup ro fo c)) = maxForeignRecords ro"
  "foreignMasterDS (ptpdStartup ro fo c) = (foreignMasterDS c)\<lparr>records := fo\<rparr>"
  "recommendedState (ptpdStartup ro fo c) = PTP_INITIALIZING"
  "portState (portDS (ptpdStartup ro fo c)) = PTP_INITIALIZING"
  "portUuidField (ptpdStartup ro fo c) = portUuidField c" "netif_hwaddr (ptpdStartup ro fo c) = netif_hwaddr c"
  "msgObuf (ptpdStartup ro fo c) = msgObuf c"
  "filter is_sent (outputs (ptpdStartup ro fo c)) = filter is_sent (outputs c)"
  by (simp_all add: ptpdStartup_def Let_def core_eqD [OF core_toState] entered_def)

lemma startup_phase [simp]:
  "phase_ok (ptpdStartup ro fo c)" "\<not> ready (ptpdStartup ro fo c)"
  by (simp_all add: phase_ok_def ready_def)

lemma startup_mem: "mem_ok c \<Longrightarrow> mem_ok (ptpdStartup ro fo c)"
  by (simp add: ptpdStartup_def Let_def mem_toState)

subsection \<open>A slave-only port\<close>

fun leading :: "PtpState \<Rightarrow> bool" where
  "leading PTP_PRE_MASTER = True"
| "leading PTP_MASTER = True"
| "leading PTP_PASSIVE = True"
| "leading _ = False"

definition follower :: "clock \<Rightarrow> bool" where
  "follower c \<longleftrightarrow> rt_slaveOnly (rtOpts c) \<and> (ready c \<longrightarrow> slaveOnly (defaultDS c))
     \<and> \<not> leading (portState (portDS c)) \<and> \<not> leading (recommendedState c)"

lemma follower_outside: "follower c \<Longrightarrow> core c' = core c \<Longrightarrow> follower c'"
  by (simp add: follower_def core_eqD [of c' c] core_phase [of c' c])

interpretation follower: engine_safety follower
proof unfold_locales
  fix c c' assume "follower c" "core c' = core c"
  then show "follower c'" by (rule follower_outside)
next
  fix c c' assume "follower c" "core c' = core c"
  then show "follower c'" by (rule follower_outside)
next
  fix c assume c: "follower c" "\<not> ready c"
  show "follower ((setState PTP_LISTENING (snd (doInit c)))\<lparr>recommendedState := PTP_LISTENING\<rparr>)" if "fst (doInit c)"
    using c doInit_ok(4,8) [OF that refl] by (simp add: follower_def setState_def)
  show "follower (snd (doInit c))" if "\<not> fst (doInit c)"
    using c doInit_fails [OF that] by (simp add: follower_def ready_def)
next
  fix c s assume "follower c" "ready c" "s \<in> {PTP_LISTENING, PTP_SLAVE} \<or> s \<in> {PTP_MASTER, PTP_PASSIVE} \<and> may_lead c"
  then show "follower (c\<lparr>recommendedState := s\<rparr>)" by (auto simp: follower_def ready_def may_lead_def)
next
  fix c s assume "follower c" "recommendedState c \<in> {PTP_MASTER, PTP_PASSIVE}"
  then show "follower (setState s c)" by (auto simp: follower_def)
next
  fix c s assume "follower c" "s \<in> {PTP_LISTENING, PTP_UNCALIBRATED, PTP_SLAVE}"
  then show "follower (setState s c)" by (auto simp: follower_def)
qed (simp_all add: follower_def ready_def emit_def)

lemma follower_slave_start: "follower (TargetTime_Init emPTPSlave c)" "follower (cmd_E1_Slave c)"
  by (simp_all add: TargetTime_Init_def cmd_E1_Slave_def follower_def Let_def)

lemma start_phase: "phase_ok (TargetTime_Init m c)" "phase_ok (cmd_E1_Slave c)" "phase_ok (cmd_E1_Master c)"
  by (simp_all add: TargetTime_Init_def cmd_E1_Slave_def cmd_E1_Master_def PTPd_Init_def Let_def)

text \<open>C2: a device started in slave mode never acts as a master: whatever packets arrive, in
  whatever order, however time passes, and however often the operator selects slave mode again,
  the port is never in the states PRE_MASTER, MASTER or PASSIVE, and the state decision never
  recommends MASTER or PASSIVE.\<close>

theorem slave_mode_never_masters:
  assumes "firmware_run {cmd_E1_Slave} (TargetTime_Init emPTPSlave c) d"
  shows "portState (portDS d) \<in> {PTP_INITIALIZING, PTP_FAULTY, PTP_LISTENING, PTP_UNCALIBRATED, PTP_SLAVE}
    \<and> recommendedState d \<in> {PTP_INITIALIZING, PTP_LISTENING, PTP_SLAVE}"
proof -
  have "follower d \<and> phase_ok d"
    using assms by (rule follower.kept_run) (auto simp: follower_slave_start start_phase)
  then show ?thesis by (cases "portState (portDS d)") (auto simp: follower_def phase_ok_def)
qed

theorem slave_mode_never_masters_witness:
  "portState (portDS (doState (TargetTime_Init emPTPSlave (power_up (\<lambda>_. 0) (\<lambda>_. 0) (\<lambda>_. tx_good))))) \<noteq> PTP_MASTER"
  using slave_mode_never_masters [OF run_poll [OF run_start], of "power_up (\<lambda>_. 0) (\<lambda>_. 0) (\<lambda>_. tx_good)"]
  by auto

subsection \<open>The memory keeps its shape\<close>

definition tables_ok :: "clock \<Rightarrow> bool" where
  "tables_ok c \<longleftrightarrow> mem_ok c \<and> length (msgObuf c) = PACKET_SIZE \<and> maxForeignRecords (rtOpts c) = 5
     \<and> length (records (foreignMasterDS c)) = 5 \<and> fm_i (foreignMasterDS c) < 5 \<and> best (foreignMasterDS c) < 5
     \<and> (ready c \<longrightarrow> wf_foreign (foreignMasterDS c) \<and> template c (msgObuf c))"

lemma wf_foreign_bounds: "wf_foreign fm \<Longrightarrow> fm_i fm < length (records fm) \<and> best fm < length (records fm)"
  by (simp add: wf_foreign_def)

lemma template_cong:
  "portIdentity (portDS c') = portIdentity (portDS c) \<Longrightarrow> versionNumber (portDS c') = versionNumber (portDS c) \<Longrightarrow>
    defaultDS c' = defaultDS c \<Longrightarrow> template c' buf = template c buf"
  by (simp add: template_def)

lemma template_update [simp]:
  "template (setState s c) buf = template c buf" "template (c\<lparr>recommendedState := s\<rparr>) buf = template c buf"
  "template (c\<lparr>msgObuf := b\<rparr>) buf = template c buf" "template (c\<lparr>foreignMasterDS := fm\<rparr>) buf = template c buf"
  "template (c\<lparr>outputs := os\<rparr>) buf = template c buf"
  by (rule template_cong; simp add: setState_def emit_def)+

lemma template_init:
  "fst (doInit c) \<Longrightarrow> length (msgObuf c) = PACKET_SIZE \<Longrightarrow> template (snd (doInit c)) (msgObuf (snd (doInit c)))"
  using doInit_ok(1,6) [OF _ refl, of c] msgPackHeader_template [of "msgObuf c" "snd (doInit c)"]
  by (simp add: EUI48toEUI64_def)

lemma tables_outside: "tables_ok c \<Longrightarrow> core c' = core c \<Longrightarrow> (mem_ok c \<Longrightarrow> mem_ok c') \<Longrightarrow> tables_ok c'"
  using template_cong [of c' c] by (simp add: tables_ok_def core_eqD [of c' c] core_phase [of c' c])

interpretation tables: engine_safety tables_ok
proof unfold_locales
  fix c c' assume "tables_ok c" "core c' = core c" "mem_ok c \<Longrightarrow> mem_ok c'"
  then show "tables_ok c'" by (rule tables_outside)
next
  fix c c' assume "tables_ok c" "core c' = core c" "mem_ok c \<Longrightarrow> mem_ok c'"
  then show "tables_ok c'" by (rule tables_outside)
next
  fix c fm assume c: "tables_ok c" "ready c" "length (records fm) = length (records (foreignMasterDS c))"
    "wf_foreign (foreignMasterDS c) \<Longrightarrow> wf_foreign fm"
  then have fm: "wf_foreign fm" "length (records fm) = 5" by (simp_all add: tables_ok_def)
  then show "tables_ok (c\<lparr>foreignMasterDS := fm\<rparr>)"
    using c(1,2) wf_foreign_bounds [OF fm(1)] by (simp add: tables_ok_def)
next
  fix c buf assume c: "tables_ok c" "ready c" "template c (msgObuf c) \<Longrightarrow> template c buf"
  then have "template c buf" by (simp add: tables_ok_def)
  then show "tables_ok (c\<lparr>msgObuf := buf\<rparr>)"
    using c(1) template_length [of c buf] by (simp add: tables_ok_def ready_def)
next
  fix c assume c: "tables_ok c" "\<not> ready c"
  show "tables_ok ((setState PTP_LISTENING (snd (doInit c)))\<lparr>recommendedState := PTP_LISTENING\<rparr>)" if "fst (doInit c)"
  proof -
    have t: "template (snd (doInit c)) (msgObuf (snd (doInit c)))"
      using c(1) that template_init by (simp add: tables_ok_def)
    show ?thesis
      using c template_length [OF t] t doInit_ok(7,8,12) [OF that refl] by (simp add: tables_ok_def wf_foreign_def)
  qed
  show "tables_ok (snd (doInit c))" if "\<not> fst (doInit c)"
    using c doInit_fails [OF that] by (simp add: tables_ok_def mem_net ready_def)
next
  fix c s assume "tables_ok c" "ready c"
  then show "tables_ok (c\<lparr>recommendedState := s\<rparr>)" by (simp add: tables_ok_def)
qed (simp_all add: tables_ok_def ready_def emit_def)

lemma powered_zero:
  assumes "powered c"
  shows "itimer c = itimer PtpClock_zero" "netPath c = NetPath_zero" "msgIbuf c = replicate 300 0"
    "msgObuf c = replicate 300 0" "foreignMasterDS c = ForeignMasterDS_zero" "portUuidField c = replicate 6 0"
    "portDS c = PortDS_zero"
proof -
  have z: "PtpClock.truncate c = PtpClock_zero" using assms by (simp add: powered_def)
  note z = arg_cong [OF z]
  show "itimer c = itimer PtpClock_zero" using z [of itimer] by (simp add: PtpClock.defs)
  show "netPath c = NetPath_zero" using z [of netPath] by (simp add: PtpClock.defs PtpClock_zero_def)
  show "msgIbuf c = replicate 300 0" using z [of msgIbuf] by (simp add: PtpClock.defs PtpClock_zero_def)
  show "msgObuf c = replicate 300 0" using z [of msgObuf] by (simp add: PtpClock.defs PtpClock_zero_def)
  show "foreignMasterDS c = ForeignMasterDS_zero" using z [of foreignMasterDS] by (simp add: PtpClock.defs PtpClock_zero_def)
  show "portUuidField c = replicate 6 0" using z [of portUuidField] by (simp add: PtpClock.defs PtpClock_zero_def)
  show "portDS c = PortDS_zero" using z [of portDS] by (simp add: PtpClock.defs PtpClock_zero_def)
qed

lemma powered_mem: "powered c \<Longrightarrow> mem_ok c"
  using wf_queue_zero
  by (simp add: mem_ok_def powered_zero powered_def wf_timers_def TIMER_ARRAY_SIZE_def PtpClock_zero_def length_consts NetPath_zero_def
      wf_input_def BufQueue_zero_def queued_def)

lemma tables_start:
  "powered c \<Longrightarrow> tables_ok (TargetTime_Init m c)"
  "tables_ok c \<Longrightarrow> tables_ok (cmd_E1_Slave c)" "tables_ok c \<Longrightarrow> tables_ok (cmd_E1_Master c)"
proof -
  have m: "mem_ok (c\<lparr>ptpMonitorl := map (\<lambda>_. ptp_control_zero) (ptpMonitorl c)\<rparr>)" if "mem_ok c" for c
    using that by (simp add: mem_ok_def)
  show "tables_ok (TargetTime_Init m c)" if "powered c"
    using powered_mem [OF that] powered_zero [OF that]
    by (simp add: TargetTime_Init_def PTPd_Init_def Let_def tables_ok_def startup_mem default_rtOpts_def masterOpts_def
        ptpForeignRecords_def ForeignMasterDS_zero_def length_consts)
  assume c: "tables_ok c"
  then have r: "records (foreignMasterDS c) \<noteq> []" by (auto simp: tables_ok_def)
  show "tables_ok (cmd_E1_Slave c)" "tables_ok (cmd_E1_Master c)"
    using c r by (simp_all add: cmd_E1_Slave_def cmd_E1_Master_def PTPd_Init_def Let_def tables_ok_def startup_mem m
        default_rtOpts_def masterOpts_def ptpForeignRecords_def)
qed



subsection \<open>Messages carry the identity of the device\<close>

definition own_sent :: "Octet list \<Rightarrow> Output \<Rightarrow> bool" where
  "own_sent hw x \<longleftrightarrow>
    (case x of
       Sent g p b \<Rightarrow> versionPTP (msgUnpackHeader b) = 2 \<and> hdr_domainNumber (msgUnpackHeader b) = 0
         \<and> sourcePortIdentity (msgUnpackHeader b) = \<lparr>clockIdentity = EUI48toEUI64 hw, portNumber = 1\<rparr>
     | _ \<Rightarrow> True)"

definition identified :: "clock \<Rightarrow> bool" where
  "identified c \<longleftrightarrow> portIdentity (portDS c) = \<lparr>clockIdentity = EUI48toEUI64 (netif_hwaddr c), portNumber = 1\<rparr>
     \<and> versionNumber (portDS c) = 2 \<and> domainNumber (defaultDS c) = 0 \<and> template c (msgObuf c)"

definition signs :: "clock \<Rightarrow> bool" where
  "signs c \<longleftrightarrow> length (netif_hwaddr c) = 6 \<and> length (portUuidField c) = 6 \<and> length (msgObuf c) = PACKET_SIZE
     \<and> rt_domainNumber (rtOpts c) = 0 \<and> list_all (own_sent (netif_hwaddr c)) (filter is_sent (outputs c))
     \<and> (ready c \<longrightarrow> identified c)"

lemma put_bytes_whole: "length bs = length buf \<Longrightarrow> put_bytes buf 0 bs = bs"
  by (rule nth_equalityI) (simp_all add: nth_put_bytes)

lemma get_bytes_take: "i + m \<le> n \<Longrightarrow> get_bytes (take n buf) i m = get_bytes buf i m"
  by (simp add: get_bytes_def)

lemma header_take:
  assumes "HEADER_LENGTH \<le> int n"
  shows "versionPTP (msgUnpackHeader (take n buf)) = versionPTP (msgUnpackHeader buf)"
    and "hdr_domainNumber (msgUnpackHeader (take n buf)) = hdr_domainNumber (msgUnpackHeader buf)"
    and "sourcePortIdentity (msgUnpackHeader (take n buf)) = sourcePortIdentity (msgUnpackHeader buf)"
  using assms
  by (simp_all add: msgUnpackHeader_def Let_def get8_def get16_def get_bytes_take length_consts)

lemma identified_sends:
  assumes "identified c" and "HEADER_LENGTH \<le> int n"
  shows "own_sent (netif_hwaddr c) (Sent g p (take n (msgObuf c)))"
proof -
  have "own_header c (msgUnpackHeader (msgObuf c)) t l" if "get8 (msgObuf c) 0 AND 0x0F = t"
    "flip16 (get16 (msgObuf c) 2) = word_of_int l" for t l
    using assms(1) that by (intro own_headerI) (auto simp: identified_def)
  from this [OF refl, of "uint (flip16 (get16 (msgObuf c) 2))"] assms(1) show ?thesis
    by (simp add: own_sent_def header_take [OF assms(2)] own_header_def identified_def)
qed

lemma signs_outside: "signs c \<Longrightarrow> core c' = core c \<Longrightarrow> signs c'"
  using template_cong [of c' c]
  by (simp add: signs_def identified_def core_eqD [of c' c] core_phase [of c' c])

interpretation signs: engine_safety signs
proof unfold_locales
  fix c c' assume "signs c" "core c' = core c"
  then show "signs c'" by (rule signs_outside)
next
  fix c c' assume "signs c" "core c' = core c"
  then show "signs c'" by (rule signs_outside)
next
  fix c buf assume c: "signs c" "ready c" "template c (msgObuf c) \<Longrightarrow> template c buf"
  then have "template c buf" by (simp add: signs_def identified_def)
  then show "signs (c\<lparr>msgObuf := buf\<rparr>)"
    using c(1,2) template_length [of c buf] by (simp add: signs_def identified_def ready_def)
next
  fix c n g p assume c: "signs c" "ready c" "HEADER_LENGTH \<le> int n"
  then show "signs (emit (Sent g p (take n (msgObuf c))) c)"
    using identified_sends [of c n g p] by (simp add: signs_def identified_def ready_def emit_def)
next
  fix c assume c: "signs c" "\<not> ready c"
  show "signs ((setState PTP_LISTENING (snd (doInit c)))\<lparr>recommendedState := PTP_LISTENING\<rparr>)" if "fst (doInit c)"
  proof -
    have t: "template (snd (doInit c)) (msgObuf (snd (doInit c)))"
      using c(1) that template_init by (simp add: signs_def)
    show ?thesis
      using c template_length [OF t] t doInit_ok(1,2,3,8,9,10,11) [OF that refl]
      by (simp add: signs_def identified_def put_bytes_whole)
  qed
  show "signs (snd (doInit c))" if "\<not> fst (doInit c)"
    using c doInit_fails [OF that] by (simp add: signs_def ready_def)
next
  fix c s assume "signs c" "ready c"
  then show "signs (c\<lparr>recommendedState := s\<rparr>)" by (simp add: signs_def identified_def)
qed (simp_all add: signs_def identified_def)

lemma signs_start:
  "powered c \<Longrightarrow> signs (TargetTime_Init m c)"
  "signs c \<Longrightarrow> signs (cmd_E1_Slave c)" "signs c \<Longrightarrow> signs (cmd_E1_Master c)"
proof -
  show "signs (TargetTime_Init m c)" if "powered c"
    using powered_zero [OF that] that
    by (simp add: TargetTime_Init_def PTPd_Init_def Let_def signs_def default_rtOpts_def masterOpts_def
        length_consts powered_def)
  assume "signs c"
  then show "signs (cmd_E1_Slave c)" "signs (cmd_E1_Master c)"
    by (simp_all add: cmd_E1_Slave_def cmd_E1_Master_def PTPd_Init_def Let_def signs_def default_rtOpts_def masterOpts_def)
qed

text \<open>C7: every message the device ever puts on the network identifies it: version 2, domain 0, and as
  source port the EUI-64 form of the address of its interface with port number 1, through any
  interleaving of packets, time and mode changes.\<close>

theorem sent_messages_are_own:
  assumes "powered c" and "firmware_run {cmd_E1_Master, cmd_E1_Slave} (TargetTime_Init m c) d"
  shows "list_all (own_sent (netif_hwaddr d)) (outputs d)"
proof -
  have "signs d \<and> phase_ok d"
    using assms(2) by (rule signs.kept_run) (auto simp: signs_start assms(1) start_phase)
  then have "list_all (own_sent (netif_hwaddr d)) (filter is_sent (outputs d))" by (simp add: signs_def)
  moreover have "own_sent hw x" if "\<not> is_sent x" for hw x using that by (cases x) (simp_all add: own_sent_def)
  ultimately show ?thesis by (auto simp: list_all_iff)
qed

theorem sent_messages_are_own_witness:
  "list_all (own_sent (netif_hwaddr (doState (TargetTime_Init emPTPMaster (power_up (\<lambda>_. 0) (\<lambda>_. 0) (\<lambda>_. tx_good))))))
     (outputs (doState (TargetTime_Init emPTPMaster (power_up (\<lambda>_. 0) (\<lambda>_. 0) (\<lambda>_. tx_good)))))"
  by (rule sent_messages_are_own [OF powered_power_up run_poll [OF run_start]])

end
