(* ===== verification/Ptp_Loop.thy ===== *)
theory Ptp_Loop
  imports Ptp_Invariants
begin

text \<open>
  Whether \<^verbatim>\<open>ptpd_Periodic_Handle\<close> returns.  Its loop repeats while a packet is queued, with no
  time passing inside.  On a slave-only port every turn takes a packet or uses up the one expiry of the announce
  receipt timer, so the loop ends; a port that enters PRE_MASTER with a packet queued never
  leaves it, because that state neither receives nor, with the time used up, waits.
\<close>

subsection \<open>A slave-only port: every turn makes progress\<close>

lemma settled_netShutdown: "settled b n c \<Longrightarrow> settled b n (netShutdown c)"
proof -
  have "eventQ (netPath (netShutdown c)) = eventQ (netPath c)" "generalQ (netPath (netShutdown c)) = generalQ (netPath c)"
    "itimer (netShutdown c) = itimer c" "elapsed_ms (netShutdown c) = elapsed_ms c"
    by (simp_all add: netShutdown_def udp_remove_def emit_def Let_def split: option.split)
  then show "settled b n c \<Longrightarrow> settled b n (netShutdown c)" by (simp add: settled_def backlog_def mem_net)
qed

lemma settled_netInit: "settled b n c \<Longrightarrow> settled b n (snd (netInit c))"
proof -
  have "backlog (snd (netInit c)) \<le> backlog c" "itimer (snd (netInit c)) = itimer c"
    "elapsed_ms (snd (netInit c)) = elapsed_ms c"
    by (simp_all add: netInit_def findIface_def udp_new_def udp_remove_def emit_def Let_def backlog_def netQInit_def
        split: option.split)
  then show "settled b n c \<Longrightarrow> settled b n (snd (netInit c))" by (auto simp: settled_def mem_net)
qed

lemma settled_after_netInit:
  assumes n: "settled b n (snd (netInit (netShutdown c)))"
  shows "settled b n (snd (doInit c))"
proof -
  have "settled b n (d\<lparr>elapsed_ms := initTimer\<rparr>)" if "settled b n d" for d
    using that by (auto simp: settled_def backlog_def initTimer_def mem_ok_def)
  moreover have "settled b n (initData d) = settled b n d" for d by (simp add: initData_def Let_def)
  ultimately show ?thesis using n
    by (simp add: doInit_def Let_def split_beta settled_initClock)
qed

lemma settled_doInit: "settled b n c \<Longrightarrow> settled b n (snd (doInit c))"
  by (intro settled_after_netInit settled_netInit settled_netShutdown)

interpretation settled: engine_invariant "settled b n" for b n
  by unfold_locales (simp_all add: settled_doInit)

text \<open>A call of \<^verbatim>\<open>handle\<close> with a packet queued takes it.\<close>

lemma netSelect_backlog: "mem_ok c \<Longrightarrow> netSelect c \<le> 0 \<longleftrightarrow> backlog c = 0"
  by (auto simp: mem_ok_def wf_input_def wf_queue_def netSelect_def netQCheck_def backlog_def)

lemma recv_event_empty: "q_count (eventQ (netPath c)) = 0 \<Longrightarrow> fst (netRecvEvent t c) = 0"
  by (simp add: netRecvEvent_def netRecv_def netQGet_def)

lemma handle_eq:
  assumes "netRecvEvent \<lparr>seconds = 0, nanoseconds = 0\<rparr> c = (l, t, d)"
    and "netRecvGeneral t (d\<lparr>msgIbufLength := l\<rparr>) = (m, u, g)" and "0 \<le> l" and "0 \<le> m"
  shows "handle c = (if \<not> messageActivity c \<and> netSelect c = 0 then c
      else if l \<noteq> 0 then processPacket t (d\<lparr>msgIbufLength := l\<rparr>)
      else if m = 0 then g\<lparr>msgIbufLength := m\<rparr> else processPacket u (g\<lparr>msgIbufLength := m\<rparr>))"
  using assms by (cases "l = 0") (simp_all add: handle_def Let_def netSelect_def)

lemma handle_takes:
  assumes "settled b n c" and "ready c" and "phase_ok c"
  shows "settled b (n - 1) (handle c)"
proof -
  let ?t = "\<lparr>seconds = 0, nanoseconds = 0\<rparr> :: TimeInternal"
  define d where "d = snd (snd (netRecvEvent ?t c))"
  define l where "l = fst (netRecvEvent ?t c)"
  define t where "t = fst (snd (netRecvEvent ?t c))"
  let ?e = "d\<lparr>msgIbufLength := l\<rparr>"
  define g where "g = snd (snd (netRecvGeneral t ?e))"
  define m where "m = fst (netRecvGeneral t ?e)"
  let ?h = "g\<lparr>msgIbufLength := m\<rparr>"
  have c: "mem_ok c" "b \<or> elapsed_ms c = 0 \<and> \<not> expire (itimer c ! ANNOUNCE_RECEIPT_TIMER)" "backlog c \<le> n"
    using assms(1) by (simp_all add: settled_def)
  note E = recv_event [OF c(1) d_def]
  have me: "mem_ok ?e" using E(1) by simp
  note G = recv_general [OF me g_def]
  define x y where "x = nat (q_count (eventQ (netPath c)))" and "y = nat (q_count (generalQ (netPath c)))"
  have n: "x + y \<le> n" using c(3) by (simp add: backlog_def x_def y_def)
  have ce: "core ?e = core c" and ch: "core ?h = core c" by (simp_all add: d_def g_def)
  have P: "settled b (n - 1) k \<Longrightarrow> core k = core c \<Longrightarrow> settled b (n - 1) (processPacket u k)" for k u
    using settled.live_processPacket [of b "n - 1" k u] core_phase [of k c] assms(2,3) by (simp add: live_def)
  have sh: "settled b (n - 1) ?h"
  proof -
    have "backlog ?h = (x - 1) + (y - 1)"
      using E(2,3) G(2,3) by (simp add: backlog_def x_def y_def)
    moreover have "(x - 1) + (y - 1) \<le> n - 1" using n by arith
    ultimately show ?thesis using c(2) E G by (simp add: settled_def)
  qed
  have se: "settled b (n - 1) ?e" if "l \<noteq> 0"
  proof -
    have "x \<noteq> 0"
    proof
      assume "x = 0"
      then have "q_count (eventQ (netPath c)) = 0"
        using c(1) by (auto simp: x_def mem_ok_def wf_input_def wf_queue_def)
      then show False using that recv_event_empty [of c ?t] by (simp add: l_def)
    qed
    moreover have "backlog ?e = (x - 1) + y" using E(2,3) by (simp add: backlog_def x_def y_def)
    moreover have "(x - 1) + y \<le> n - 1" using n \<open>x \<noteq> 0\<close> by arith
    ultimately show ?thesis using c(2) E by (simp add: settled_def)
  qed
  have s0: "settled b (n - 1) c" if "netSelect c \<le> 0"
    using netSelect_backlog [OF c(1)] that c by (simp add: settled_def)
  have pos: "0 \<le> l" "0 \<le> m" using E(5) G(5) by (simp_all add: l_def m_def)
  have r: "netRecvEvent ?t c = (l, t, d)" "netRecvGeneral t ?e = (m, fst (snd (netRecvGeneral t ?e)), g)"
    by (simp_all add: l_def t_def d_def m_def g_def)
  show ?thesis
    unfolding handle_eq [OF r pos] using sh se s0 P [OF sh ch] P [OF se ce] by simp
qed

lemma tExpired_settles:
  assumes "settled b n c"
  shows "settled False n (snd (tExpired ANNOUNCE_RECEIPT_TIMER c))"
    and "\<not> b \<Longrightarrow> \<not> fst (tExpired ANNOUNCE_RECEIPT_TIMER c)"
proof -
  have l: "length (itimer c) = TIMER_ARRAY_SIZE" using assms by (simp add: settled_def mem_ok_def wf_timers_def)
  show "settled False n (snd (tExpired ANNOUNCE_RECEIPT_TIMER c))"
    using assms l mem_timers(3) [of ANNOUNCE_RECEIPT_TIMER c]
    by (simp add: settled_def backlog_def tExpired_def timerExpired_def timerUpdate_def Let_def TIMER_ARRAY_SIZE_def)
  show "\<not> fst (tExpired ANNOUNCE_RECEIPT_TIMER c)" if "\<not> b"
    using assms that l by (simp add: settled_def tExpired_def timerExpired_def timerUpdate_def Let_def TIMER_ARRAY_SIZE_def)
qed

lemma passivePart_settles:
  assumes "settled b n c" and "ready c" and "phase_ok c"
  shows "settled False n (passivePart c)" and "\<not> b \<Longrightarrow> settled False (n - 1) (passivePart c)"
proof -
  let ?d = "snd (tExpired ANNOUNCE_RECEIPT_TIMER c)"
  have d: "settled False n ?d" "ready ?d" "phase_ok ?d"
    using tExpired_settles(1) [OF assms(1)] assms(2,3) core_phase [of ?d c] by simp_all
  have h: "settled False (n - 1) (handle ?d)" using d by (rule handle_takes)
  then have "settled False n (handle ?d)" by (auto simp: settled_def)
  with d(1) show "settled False n (passivePart c)"
    by (auto simp: passivePart_def Let_def split_beta intro!: settled_toState)
  show "settled False (n - 1) (passivePart c)" if "\<not> b"
    using h tExpired_settles(2) [OF assms(1) that] by (simp add: passivePart_def split_beta)
qed

text \<open>A turn on a running slave-only port.\<close>

lemma live_both: "live I c \<Longrightarrow> live J c \<Longrightarrow> live (\<lambda>c. I c \<and> J c) c"
  by (simp add: live_def)

lemma follower_turn:
  assumes "live follower c" and "settled b n c"
  shows "settled False n (doState c)" and "\<not> b \<Longrightarrow> settled False (n - 1) (doState c)"
    and "live follower (doState c)"
proof -
  define x where "x = decisionEvent (c\<lparr>messageActivity := False\<rparr>)"
  define d where "d = followRecommended x"
  have i: "live follower (c\<lparr>messageActivity := False\<rparr>)"
    by (rule follower.live_keep [OF assms(1)]) simp_all
  have x: "live follower x" unfolding x_def using i by (rule follower.live_decisionEvent)
  have d: "live follower d" unfolding d_def using x by (rule follower.live_followRecommended)
  have "live (settled b n) (c\<lparr>messageActivity := False\<rparr>)"
    using i assms(2) by (simp add: live_def)
  then have sd: "live (settled b n) d"
    unfolding d_def x_def by (intro settled.live_followRecommended settled.live_decisionEvent)
  have st: "portState (portDS d) \<in> {PTP_LISTENING, PTP_UNCALIBRATED, PTP_SLAVE}"
    using d x followRecommended_not_faulty [of x]
    by (cases "portState (portDS d)") (auto simp: live_def phase_ok_def follower_def d_def)
  have e: "doState c = passivePart (managementPart d)"
    using st by (auto simp: doState_def stateActions_def d_def x_def Let_def)
  have m: "live (settled b n) (managementPart d)" using sd by (rule settled.live_managementPart)
  then show "settled False n (doState c)" "\<not> b \<Longrightarrow> settled False (n - 1) (doState c)"
    unfolding e using passivePart_settles [of b n "managementPart d"] by (simp_all add: live_def)
  show "live follower (doState c)" using assms(1) by (rule follower.live_doState)
qed

lemma follower_loop:
  "live follower c \<Longrightarrow> settled False n c \<Longrightarrow> \<exists>d. periodicLoop c = Some d \<and> netSelect d = 0"
proof (induction n arbitrary: c)
  case (0 c)
  have "settled False 0 (doState c)" using follower_turn(1) [OF 0] .
  then have "netSelect (doState c) = 0"
    using netSelect_backlog [of "doState c"] by (auto simp: settled_def netSelect_def split: if_splits)
  then show ?case by (subst periodicLoop.simps) simp
next
  case (Suc n c)
  have s: "settled False n (doState c)" "live follower (doState c)"
    using follower_turn(2,3) [OF Suc.prems] by simp_all
  from Suc.IH [OF s(2,1)] show ?case
    by (subst periodicLoop.simps) (auto simp: netSelect_def Let_def)
qed

subsection \<open>The device in slave mode returns\<close>

text \<open>The interface has an address, lwIP grants the sockets, and the group addresses parse.\<close>

definition online :: "clock \<Rightarrow> bool" where
  "online c \<longleftrightarrow> netif_ip c \<noteq> 0 \<and> (\<forall>n. udp_new_ok c n) \<and> aton_default c \<noteq> None \<and> aton_peer c \<noteq> None"

lemma net_frame_env [simp]:
  "netif_ip (netShutdown c) = netif_ip c" "netif_ip (snd (netInit c)) = netif_ip c"
  "udp_new_ok (netShutdown c) = udp_new_ok c" "udp_new_ok (snd (netInit c)) = udp_new_ok c"
  "aton_default (netShutdown c) = aton_default c" "aton_default (snd (netInit c)) = aton_default c"
  "aton_peer (netShutdown c) = aton_peer c" "aton_peer (snd (netInit c)) = aton_peer c"
  by (simp_all add: netShutdown_def netInit_def findIface_def udp_new_def udp_remove_def emit_def Let_def
      split: option.split)

lemma online_doInit:
  assumes "online c" and "mem_ok c"
  shows "fst (doInit c)" and "netSelect (snd (doInit c)) = 0"
proof -
  let ?n = "snd (netInit (netShutdown c))"
  have "netif_ip (netShutdown c) \<noteq> 0" "\<And>n. udp_new_ok (netShutdown c) n"
    "aton_default (netShutdown c) \<noteq> None" "aton_peer (netShutdown c) \<noteq> None"
    using assms(1) by (simp_all add: online_def)
  then have n: "fst (netInit (netShutdown c))" "backlog ?n = 0"
    by (auto simp: netInit_def findIface_def udp_new_def Let_def backlog_def netQInit_def emit_def split: option.splits)
  then show "fst (doInit c)" by (simp add: doInit_def Let_def split_beta)
  have "settled True 0 ?n" using n(2) mem_net(2) [OF mem_net(1) [OF assms(2)]] by (simp add: settled_def)
  then have "settled True 0 (snd (doInit c))" by (rule settled_after_netInit)
  then show "netSelect (snd (doInit c)) = 0"
    using netSelect_backlog [of "snd (doInit c)"] by (auto simp: settled_def netSelect_def split: if_splits)
qed

lemma online_outside: "online c \<Longrightarrow> core c' = core c \<Longrightarrow> online c'"
  by (simp add: online_def core_eqD [of c' c])

lemma online_frame:
  "online (setState s c) = online c" "online (c\<lparr>recommendedState := s\<rparr>) = online c"
  "online (c\<lparr>foreignMasterDS := fm\<rparr>) = online c" "online (c\<lparr>msgObuf := buf\<rparr>) = online c"
  "online (emit x c) = online c" "online (snd (doInit c)) = online c"
proof -
  show "online (snd (doInit c)) = online c"
    by (simp add: doInit_def Let_def split_beta online_def m1_def initData_def)
qed (simp_all add: online_def setState_def emit_def)

interpretation online: engine_safety online
proof unfold_locales
  fix c c' assume "online c" "core c' = core c"
  then show "online c'" by (rule online_outside)
next
  fix c c' assume "online c" "core c' = core c"
  then show "online c'" by (rule online_outside)
qed (simp_all add: online_frame)

lemma online_start: "online c \<Longrightarrow> online (TargetTime_Init emPTPSlave c)" "online c \<Longrightarrow> online (cmd_E1_Slave c)"
proof -
  have "online (ptpdStartup ro fo c) = online c" for ro fo c
    by (simp add: ptpdStartup_def Let_def online_def core_eqD [OF core_toState] entered_def setState_def)
  then show "online c \<Longrightarrow> online (TargetTime_Init emPTPSlave c)" "online c \<Longrightarrow> online (cmd_E1_Slave c)"
    by (simp_all add: TargetTime_Init_def cmd_E1_Slave_def PTPd_Init_def Let_def) (simp add: online_def)
qed

text \<open>An uninitialised port: initialisation succeeds and empties both queues.\<close>

lemma settled_idle: "settled b 0 c \<Longrightarrow> netSelect c = 0"
  using netSelect_backlog [of c] by (auto simp: settled_def netSelect_def split: if_splits)

lemma init_loop:
  assumes "online c" and "mem_ok c" and "phase_ok c" and "\<not> ready c" and "portState (portDS c) = PTP_INITIALIZING"
  shows "\<exists>d. periodicLoop c = Some d \<and> netSelect d = 0"
proof -
  let ?d = "c\<lparr>messageActivity := False\<rparr>"
  have d: "online ?d" "mem_ok ?d" using assms by (simp_all add: online_def)
  have "doState c = toState PTP_LISTENING (snd (doInit ?d))"
    using unready_doState [OF assms(3,4) refl] online_doInit(1) [OF d] assms(5) by simp
  moreover have "settled True 0 (snd (doInit ?d))"
    using online_doInit [OF d] netSelect_backlog [of "snd (doInit ?d)"] doInit_ok(12) [OF _ refl d(2)]
    by (simp add: settled_def)
  ultimately have "netSelect (doState c) = 0" using settled_idle settled_toState by metis
  then show ?thesis by (subst periodicLoop.simps) simp
qed

lemma idle_loop:
  assumes "online c" and "mem_ok c" and "phase_ok c" and "\<not> ready c"
  shows "\<exists>d. periodicLoop c = Some d \<and> netSelect d = 0"
proof (cases "portState (portDS c) = PTP_INITIALIZING")
  case True
  with assms show ?thesis by (rule init_loop)
next
  case False
  let ?d = "toState PTP_INITIALIZING (c\<lparr>messageActivity := False\<rparr>)"
  have e: "doState c = ?d"
    using unready_doState [OF assms(3,4) refl] False assms(3,4) by (simp add: phase_ok_def)
  have "phase_ok ?d" "\<not> ready ?d" by (simp_all add: phase_ok_def ready_def)
  moreover have "online ?d"
    using assms(1) by (simp add: online_def core_eqD [OF core_toState] entered_def setState_def)
  ultimately have "\<exists>d. periodicLoop ?d = Some d \<and> netSelect d = 0"
    using assms(2) by (intro init_loop) (simp_all add: mem_toState)
  then show ?thesis by (subst periodicLoop.simps) (auto simp: e netSelect_def Let_def)
qed

text \<open>
  What holds of the stack of a device in slave mode that is online.  It survives everything that leaves the core
  of the state alone, a restart in slave mode, and a call of \<^verbatim>\<open>ptpd_Periodic_Handle\<close>, which returns.
\<close>

definition slave_stack :: "clock \<Rightarrow> bool" where
  "slave_stack c \<longleftrightarrow> follower c \<and> phase_ok c \<and> online c \<and> tables_ok c"

lemma slave_stack_mem: "slave_stack c \<Longrightarrow> mem_ok c"
  by (simp add: slave_stack_def tables_ok_def)

lemma slave_stack_step:
  "slave_stack c \<Longrightarrow> core c' = core c \<Longrightarrow> (mem_ok c \<Longrightarrow> mem_ok c') \<Longrightarrow> slave_stack c'"
  using follower.kept_step [of c c'] online.kept_step [of c c'] tables.kept_step [of c c'] by (simp add: slave_stack_def)

lemma slave_stack_address:
  assumes "slave_stack c" and "a \<noteq> 0"
  shows "slave_stack (c\<lparr>netif_ip := a\<rparr>)"
proof -
  have "template (c\<lparr>netif_ip := a\<rparr>) buf = template c buf" for buf by (rule template_cong) simp_all
  moreover have "ready (c\<lparr>netif_ip := a\<rparr>) = ready c" by (simp add: ready_def)
  ultimately show ?thesis
    using assms by (auto simp: slave_stack_def follower_def phase_ok_def online_def tables_ok_def split: if_splits)
qed

lemma slave_stack_restart: "slave_stack c \<Longrightarrow> slave_stack (cmd_E1_Slave c)"
  by (simp add: slave_stack_def follower_slave_start online_start tables_start start_phase)

lemma slave_stack_start: "powered c \<Longrightarrow> online c \<Longrightarrow> slave_stack (TargetTime_Init emPTPSlave c)"
  by (simp add: slave_stack_def follower_slave_start online_start tables_start start_phase)

lemma slave_stack_run:
  assumes "firmware_run {cmd_E1_Slave} c d" and "slave_stack c"
  shows "slave_stack d"
  using follower.kept_run [OF assms(1)] online.kept_run [OF assms(1)] tables.kept_run [OF assms(1)] assms(2)
  by (auto simp: slave_stack_def follower_slave_start online_start tables_start start_phase)

lemma slave_stack_poll:
  assumes "slave_stack d"
  shows "\<exists>e. ptpd_Periodic_Handle t d = Some e \<and> netSelect e = 0 \<and> slave_stack e"
proof -
  let ?d = "d\<lparr>elapsed_ms := catchAlarm (t - old_localtime d) (elapsed_ms d), old_localtime := t\<rparr>"
  have s: "slave_stack ?d" using assms by (rule slave_stack_step) simp_all
  have d: "follower ?d \<and> phase_ok ?d" "online ?d" "mem_ok ?d"
    using s slave_stack_mem [OF s] unfolding slave_stack_def by blast+
  have "\<exists>e. periodicLoop ?d = Some e \<and> netSelect e = 0"
  proof (cases "ready ?d")
    case True
    then have l: "live follower ?d" using d by (simp add: live_def)
    have "settled True (backlog ?d) ?d" using d by (simp add: settled_def)
    then have t: "settled False (backlog ?d) (doState ?d)" "live follower (doState ?d)"
      using follower_turn(1,3) [OF l] by blast+
    from follower_loop [OF t(2,1)] show ?thesis
      by (subst periodicLoop.simps) (auto simp: netSelect_def Let_def)
  next
    case False
    then show ?thesis using idle_loop [of ?d] d by simp
  qed
  then obtain e where e: "ptpd_Periodic_Handle t d = Some e" "netSelect e = 0"
    by (auto simp: ptpd_Periodic_Handle_def Let_def)
  then show ?thesis using slave_stack_run [OF ptpd_Periodic_Handle_run [OF e(1)] assms] by blast
qed

text \<open>C3: in slave mode \<^verbatim>\<open>ptpd_Periodic_Handle\<close> always returns, and with every queued packet dealt
  with: on a device that is online, whatever packets have arrived in whatever order and however
  time has passed, one call ends and leaves both queues empty.\<close>

theorem slave_poll_returns:
  assumes "powered c" and "online c"
    and "firmware_run {cmd_E1_Slave} (TargetTime_Init emPTPSlave c) d"
  shows "\<exists>e. ptpd_Periodic_Handle t d = Some e \<and> netSelect e = 0"
  using slave_stack_poll [OF slave_stack_run [OF assms(3) slave_stack_start [OF assms(1,2)]]] by blast

lemma online_power_up: "online (power_up hw rs tx)"
  by (simp add: online_def power_up_def PtpClock.defs)

theorem slave_poll_returns_witness:
  "\<exists>e. ptpd_Periodic_Handle 7 (TargetTime_Init emPTPSlave (power_up (\<lambda>_. 0) (\<lambda>_. 0) (\<lambda>_. tx_good))) = Some e
    \<and> netSelect e = 0"
  by (rule slave_poll_returns [OF powered_power_up online_power_up run_start])

end
