(* ===== verification/Ptp_Hang.thy ===== *)
theory Ptp_Hang
  imports Ptp_Loop
begin

text \<open>
  The state PRE_MASTER in the loop of \<^verbatim>\<open>ptpd_Periodic_Handle\<close>: the third switch of \<^verbatim>\<open>doState\<close> has no
  case for it, so the port does not receive, and the qualification timer cannot expire because no
  time is counted inside the loop.
\<close>

definition waiting_to_lead :: "clock \<Rightarrow> bool" where
  "waiting_to_lead c \<longleftrightarrow> portState (portDS c) = PTP_PRE_MASTER \<and> recommendedState c = PTP_MASTER
     \<and> elapsed_ms c = 0 \<and> wf_timers (itimer c) \<and> \<not> expire (itimer c ! QUALIFICATION_TIMEOUT)
     \<and> \<not> getFlag (events c) STATE_DECISION_EVENT \<and> netSelect c > 0"

lemma waiting_turn:
  assumes "waiting_to_lead c"
  shows "waiting_to_lead (doState c)" and "netSelect (doState c) > 0"
proof -
  have e: "tExpired QUALIFICATION_TIMEOUT (c\<lparr>messageActivity := False\<rparr>) = (False, c\<lparr>messageActivity := False\<rparr>)"
    using assms by (simp add: waiting_to_lead_def tExpired_def timerExpired_def timerUpdate_def Let_def)
  have "doState c = c\<lparr>messageActivity := False\<rparr>"
    using assms e
    by (simp add: doState_def decisionEvent_def followRecommended_def stateActions_def waiting_to_lead_def)
  then show "waiting_to_lead (doState c)" "netSelect (doState c) > 0"
    using assms by (simp_all add: waiting_to_lead_def netSelect_def)
qed

lemma waiting_hangs: "waiting_to_lead c \<Longrightarrow> periodicLoop c = None"
proof -
  have "\<not> waiting_to_lead c" if "periodicLoop c = Some d" for c d
    using _ that
  proof (rule periodicLoop.raw_induct [where P = "\<lambda>c d. \<not> waiting_to_lead c"])
    fix f c d
    assume "\<And>c d. f c = Some d \<Longrightarrow> \<not> waiting_to_lead c"
      and "(let c' = doState c in if 0 < netSelect c' then f c' else Some c') = Some d"
    then show "\<not> waiting_to_lead c" using waiting_turn [of c] by (auto simp: Let_def)
  qed
  then show "waiting_to_lead c \<Longrightarrow> periodicLoop c = None" by (cases "periodicLoop c") auto
qed

lemma leaving_frame:
  "elapsed_ms (initClock c) = elapsed_ms c" "events (initClock c) = events c"
  "generalQ (netPath (initClock c)) = generalQ (netPath c)" "itimer (initClock c) = itimer c"
  by (simp_all add: initClock_def DEFAULT_PARENTS_STATS_def adjFreq_def ETH_PTPTime_AdjFreq_def emit_def Let_def
      netEmptyEventQ_def split_beta)

lemma enter_pre_master:
  assumes "mem_ok c" and "portState (portDS c) \<in> {PTP_LISTENING, PTP_UNCALIBRATED, PTP_SLAVE, PTP_PASSIVE}"
  shows "elapsed_ms (toState PTP_PRE_MASTER c) = elapsed_ms c" and "events (toState PTP_PRE_MASTER c) = events c"
    and "generalQ (netPath (toState PTP_PRE_MASTER c)) = generalQ (netPath c)"
    and "\<not> expire (itimer (toState PTP_PRE_MASTER c) ! QUALIFICATION_TIMEOUT)"
    and "stateActions (toState PTP_PRE_MASTER c) = toState PTP_PRE_MASTER c"
proof -
  let ?l = "leaveState PTP_PRE_MASTER (c\<lparr>messageActivity := True\<rparr>)"
  have l: "elapsed_ms ?l = elapsed_ms c" "events ?l = events c" "generalQ (netPath ?l) = generalQ (netPath c)"
    using assms(2)
    by (auto simp: leaveState_def leaveSlave_def tStop_def Let_def leaving_frame split: DelayMechanism.split)
  have "mem_ok ?l" using assms(1) by (simp add: mem_leaveState)
  then have t: "wf_timers (itimer ?l)" by (simp add: mem_ok_def)
  show "elapsed_ms (toState PTP_PRE_MASTER c) = elapsed_ms c" "events (toState PTP_PRE_MASTER c) = events c"
    "generalQ (netPath (toState PTP_PRE_MASTER c)) = generalQ (netPath c)"
    using l by (simp_all add: toState_def enterState_def setState_def tStart_def Let_def)
  show "\<not> expire (itimer (toState PTP_PRE_MASTER c) ! QUALIFICATION_TIMEOUT)"
    using timerStart_same [OF t, of QUALIFICATION_TIMEOUT]
    by (simp add: toState_def enterState_def setState_def tStart_def TIMER_ARRAY_SIZE_def Let_def)
  show "stateActions (toState PTP_PRE_MASTER c) = toState PTP_PRE_MASTER c"
    by (simp add: stateActions_def)
qed

lemma decision_frame:
  "portState (portDS (decisionEvent c)) = portState (portDS c)" "elapsed_ms (decisionEvent c) = elapsed_ms c"
  "netPath (decisionEvent c) = netPath c" "mem_ok (decisionEvent c) = mem_ok c"
proof -
  have "portState (portDS (snd (bmc d))) = portState (portDS d)" for d :: clock using core_eqD(1) [OF core_bmc, of d] by simp
  moreover have "elapsed_ms (snd (bmc d)) = elapsed_ms d" "netPath (snd (bmc d)) = netPath d" for d :: clock
    by (simp_all add: bmc_def bmcStateDecision_def m1_def p1_def s1_def Let_def split_beta)
  ultimately show "portState (portDS (decisionEvent c)) = portState (portDS c)" "elapsed_ms (decisionEvent c) = elapsed_ms c"
    "netPath (decisionEvent c) = netPath c" "mem_ok (decisionEvent c) = mem_ok c"
    by (simp_all add: decisionEvent_def Let_def split_beta)
qed

lemma decision_taken:
  assumes "portState (portDS c) \<in> {PTP_LISTENING, PTP_UNCALIBRATED, PTP_SLAVE, PTP_PASSIVE}"
  shows "\<not> getFlag (events (decisionEvent c)) STATE_DECISION_EVENT"
proof -
  have "getFlag (events (snd (bmc d))) STATE_DECISION_EVENT = getFlag (events d) STATE_DECISION_EVENT" for d :: clock
    by (simp add: bmc_def bmcStateDecision_def m1_def p1_def s1_def Let_def split_beta getFlag_setFlag_other)
  then have "\<not> getFlag (events (snd (bmc (c\<lparr>events := clearFlag (events c) STATE_DECISION_EVENT\<rparr>)))) STATE_DECISION_EVENT"
    by (simp add: getFlag_clearFlag)
  then show ?thesis using assms by (simp add: decisionEvent_def Let_def split_beta) blast
qed

text \<open>C8: becoming a master can hang the device.  If, inside one call of \<^verbatim>\<open>ptpd_Periodic_Handle\<close>, after
  the elapsed milliseconds have been counted, the state decision recommends MASTER to a port that
  is listening, slave or passive while one general message is still queued, the port enters
  PRE_MASTER, does not receive there, and waits for a timer that cannot advance: the loop never
  ends.\<close>

theorem becoming_master_hangs:
  assumes "mem_ok c" and "portState (portDS c) \<in> {PTP_LISTENING, PTP_UNCALIBRATED, PTP_SLAVE, PTP_PASSIVE}"
    and "recommendedState (decisionEvent (c\<lparr>messageActivity := False\<rparr>)) = PTP_MASTER"
    and "elapsed_ms c = 0" and "q_count (generalQ (netPath c)) \<noteq> 0"
  shows "periodicLoop c = None"
proof -
  define d where "d = decisionEvent (c\<lparr>messageActivity := False\<rparr>)"
  have d: "mem_ok d" "portState (portDS d) = portState (portDS c)" "elapsed_ms d = 0"
    "q_count (generalQ (netPath d)) \<noteq> 0" "recommendedState d = PTP_MASTER"
    using assms by (simp_all add: d_def decision_frame)
  have ev: "\<not> getFlag (events d) STATE_DECISION_EVENT"
    unfolding d_def using assms(2) by (intro decision_taken) simp
  have st: "portState (portDS d) \<in> {PTP_LISTENING, PTP_UNCALIBRATED, PTP_SLAVE, PTP_PASSIVE}"
    using assms(2) d(2) by simp
  note e = enter_pre_master [OF d(1) st]
  have "followRecommended d = toState PTP_PRE_MASTER d"
    using st d(5) by (auto simp: followRecommended_def)
  then have t: "doState c = toState PTP_PRE_MASTER d"
    using e(5) by (simp add: doState_def d_def [symmetric] Let_def)
  have "wf_timers (itimer (toState PTP_PRE_MASTER d))"
    using mem_toState [OF d(1), of PTP_PRE_MASTER] by (simp add: mem_ok_def)
  then have w: "waiting_to_lead (doState c)"
    unfolding t waiting_to_lead_def using e d ev by (simp add: netSelect_def netQCheck_def)
  then have "0 < netSelect (doState c)" by (simp add: waiting_to_lead_def)
  then show ?thesis using waiting_hangs [OF w] by (subst periodicLoop.simps) (simp add: Let_def)
qed

definition told_to_lead :: clock where
  "told_to_lead = (power_up (\<lambda>_. 0) (\<lambda>_. 0) (\<lambda>_. tx_good))
    \<lparr>portDS := PortDS_zero\<lparr>portState := PTP_LISTENING\<rparr>, recommendedState := PTP_MASTER,
     netPath := NetPath_zero\<lparr>generalQ := one_packet\<rparr>\<rparr>"

theorem becoming_master_hangs_witness: "periodicLoop told_to_lead = None"
proof (rule becoming_master_hangs)
  have q: "wf_input one_packet" "wf_input BufQueue_zero"
    using one_packet_simps wf_queue_zero by (simp_all add: wf_input_def pbuf_ok_def sample_pbuf_def queued_def BufQueue_zero_def)
  have m: "mem_ok (power_up (\<lambda>_. 0) (\<lambda>_. 0) (\<lambda>_. tx_good))" by (rule powered_mem) (rule powered_power_up)
  show "mem_ok told_to_lead"
    using m q by (simp add: told_to_lead_def mem_ok_def NetPath_zero_def)
  show "recommendedState (decisionEvent (told_to_lead\<lparr>messageActivity := False\<rparr>)) = PTP_MASTER"
    by (simp add: decisionEvent_def told_to_lead_def power_up_def PtpClock.defs PtpClock_zero_def getFlag_def)
qed (simp_all add: told_to_lead_def one_packet_def power_up_def PtpClock.defs)

text \<open>a faulty port that had been running is not initialised again: whatever fault it met, its
  next turn takes it straight to the state of the old recommendation (PRE_MASTER, PASSIVE, UNCALIBRATED
  or LISTENING), so the fault is forgotten and the sockets are the old ones.\<close>

theorem fault_skips_initialisation:
  assumes "phase_ok c" and "ready c" and "portState (portDS c) = PTP_FAULTY"
  shows "doState c = stateActions (toState
      (if recommendedState c = PTP_MASTER then PTP_PRE_MASTER
       else if recommendedState c = PTP_SLAVE then PTP_UNCALIBRATED else recommendedState c)
      (c\<lparr>messageActivity := False\<rparr>))
    \<and> portState (portDS (followRecommended (c\<lparr>messageActivity := False\<rparr>))) \<notin> {PTP_FAULTY, PTP_INITIALIZING}"
  using assms
  by (auto simp: doState_def decisionEvent_def followRecommended_def phase_ok_def ready_def)

end
