(* ===== verification/Ptp_Exchange.thy ===== *)
theory Ptp_Exchange
  imports Ptp_Invariants
begin

text \<open>
  The exchanges of messages: what the issue functions put on the network, what the handlers make of it
  on the other side, and the gates a message has to pass.
\<close>

subsection \<open>Reading a message that was sent\<close>

lemma get_bytes_front: "i + m \<le> n \<Longrightarrow> n \<le> length b \<Longrightarrow> n \<le> length buf \<Longrightarrow>
    get_bytes (put_bytes buf 0 (take n b)) i m = get_bytes b i m"
  by (simp add: get_bytes_def nth_put_bytes)

lemma get8_front: "i < n \<Longrightarrow> n \<le> length b \<Longrightarrow> n \<le> length buf \<Longrightarrow> get8 (put_bytes buf 0 (take n b)) i = get8 b i"
  by (simp add: get8_def nth_put_bytes)

lemma get8_take: "i < n \<Longrightarrow> get8 (take n b) i = get8 b i"
  by (simp add: get8_def)

lemma msgUnpackHeader_take: "34 \<le> n \<Longrightarrow> msgUnpackHeader (take n buf) = msgUnpackHeader buf"
  by (simp add: msgUnpackHeader_def get8_take get16_def get32_def get_bytes_take length_consts)

lemma msgUnpackHeader_front:
  "34 \<le> n \<Longrightarrow> n \<le> length b \<Longrightarrow> n \<le> length buf \<Longrightarrow> msgUnpackHeader (put_bytes buf 0 (take n b)) = msgUnpackHeader b"
  by (simp add: msgUnpackHeader_def get8_front get16_def get32_def get_bytes_front length_consts)

lemma getTimestamp_take: "44 \<le> n \<Longrightarrow> getTimestamp (take n b) = getTimestamp b"
  by (simp add: getTimestamp_def get16_def get32_def get_bytes_take)

lemma getTimestamp_front:
  "44 \<le> n \<Longrightarrow> n \<le> length b \<Longrightarrow> n \<le> length buf \<Longrightarrow> getTimestamp (put_bytes buf 0 (take n b)) = getTimestamp b"
  by (simp add: getTimestamp_def get16_def get32_def get_bytes_front)

subsection \<open>What a packed message says\<close>

text \<open>
  The buffer \<open>b\<close> holds a message of the clock \<open>c\<close>: its type and length, its sequence id, no
  correction and its timestamp.
\<close>

definition packet :: "'a PtpClock_scheme \<Rightarrow> Octet list \<Rightarrow> Enumeration4 \<Rightarrow> int \<Rightarrow> UInteger16 \<Rightarrow> Timestamp \<Rightarrow> bool" where
  "packet c b ty len sq ts \<longleftrightarrow> length b = PACKET_SIZE \<and> own_header c (msgUnpackHeader b) ty len
     \<and> sequenceId (msgUnpackHeader b) = sq \<and> correctionfield (msgUnpackHeader b) = 0 \<and> getTimestamp b = ts"

named_theorems packed

lemmas packet_simps = packet_def roundtrip_simps wire_range64_def

lemma sync_packed [packed]: "template c buf \<Longrightarrow> packet c (msgPackSync c buf ts) SYNC SYNC_LENGTH (sentSyncSequenceId c) ts"
  using template_length [of c buf] pack_own_header(2) [of c buf ts]
  by (simp add: packet_def) (simp add: roundtrip_simps msgPackSync_def)

lemma follow_packed [packed]:
  "template c buf \<Longrightarrow> correctionfield (msgUnpackHeader buf) = 0 \<Longrightarrow>
    packet c (msgPackFollowUp c buf ts) FOLLOW_UP FOLLOW_UP_LENGTH (sentSyncSequenceId c - 1) ts"
  using template_length [of c buf] pack_own_header(4) [of c buf ts]
  by (simp add: packet_def) (simp add: roundtrip_simps msgPackFollowUp_def)

lemma preq_packed [packed]:
  "template c buf \<Longrightarrow> packet c (msgPackPDelayReq c buf ts) PDELAY_REQ PDELAY_REQ_LENGTH (sentPDelayReqSequenceId c) ts"
  using template_length [of c buf] pack_own_header(6) [of c buf ts]
  by (simp add: packet_def) (simp add: roundtrip_simps msgPackPDelayReq_def)

lemma presp_packed [packed]:
  assumes "template c buf" and "length (clockIdentity (sourcePortIdentity h)) = 8"
  shows "packet c (msgPackPDelayResp buf h ts) PDELAY_RESP PDELAY_RESP_LENGTH (sequenceId h) ts"
    and "getPortIdentity44 (msgPackPDelayResp buf h ts) = sourcePortIdentity h"
  using template_length [OF assms(1)] pack_own_header(7) [OF assms(1), of h ts] assms(2)
  by (simp_all add: packet_def) (simp_all add: roundtrip_simps msgPackPDelayResp_def)

lemma pfollow_packed [packed]:
  assumes "template c buf" and "correctionfield h = 0" and "length (clockIdentity (sourcePortIdentity h)) = 8"
  shows "packet c (msgPackPDelayRespFollowUp buf h ts) PDELAY_RESP_FOLLOW_UP PDELAY_RESP_FOLLOW_UP_LENGTH (sequenceId h) ts"
  using template_length [OF assms(1)] pack_own_header(8) [OF assms(1), of h ts] assms(2,3) correction_wire [of 0]
  by (simp add: packet_def wire_range64_def) (simp add: roundtrip_simps msgPackPDelayRespFollowUp_def)

lemma packetD:
  "packet c b ty len sq ts \<Longrightarrow> length b = PACKET_SIZE"
  "packet c b ty len sq ts \<Longrightarrow> own_header c (msgUnpackHeader b) ty len"
  "packet c b ty len sq ts \<Longrightarrow> sequenceId (msgUnpackHeader b) = sq"
  "packet c b ty len sq ts \<Longrightarrow> correctionfield (msgUnpackHeader b) = 0"
  "packet c b ty len sq ts \<Longrightarrow> getTimestamp b = ts"
  by (simp_all add: packet_def)

subsection \<open>Sending without a failure\<close>

definition sends_ok :: "TxResult \<Rightarrow> bool" where
  "sends_ok r \<longleftrightarrow> alloc_ok r \<and> take_ok r \<and> sendto_ok r"

lemma netSend_good:
  assumes "sends_ok (tx_results c (tx_n c))"
  shows "netSendEvent buf n t c = (uint n, tx_time (tx_results c (tx_n c)),
      emit (Sent DefaultGroup PTP_EVENT_PORT (take (unat n) buf)) (c\<lparr>tx_n := tx_n c + 1\<rparr>))"
    and "netSendGeneral buf n c = (uint n,
      emit (Sent DefaultGroup PTP_GENERAL_PORT (take (unat n) buf)) (c\<lparr>tx_n := tx_n c + 1\<rparr>))"
    and "netSendPeerEvent buf n t c = (uint n, tx_time (tx_results c (tx_n c)),
      emit (Sent PeerGroup PTP_EVENT_PORT (take (unat n) buf)) (c\<lparr>tx_n := tx_n c + 1\<rparr>))"
    and "netSendPeerGeneral buf n c = (uint n,
      emit (Sent PeerGroup PTP_GENERAL_PORT (take (unat n) buf)) (c\<lparr>tx_n := tx_n c + 1\<rparr>))"
  using assms
  by (simp_all add: netSendEvent_def netSendGeneral_def netSendPeerEvent_def netSendPeerGeneral_def
      netSend_def sends_ok_def Let_def)

text \<open>The time at which the next message of \<open>c\<close> leaves, as the stack counts it.\<close>

definition egress :: "clock \<Rightarrow> nat \<Rightarrow> TimeInternal" where
  "egress c k = addTime (tx_time (tx_results c (tx_n c + k))) (outboundLatency c)"

lemma getTime_frame: "snd (getTime c) = c\<lparr>hw_n := hw_n c + 2\<rparr>"
  by (simp add: getTime_def ETH_PTPTime_GetTime_def hw_read_def Let_def)

subsection \<open>Sync and Follow_Up\<close>

lemma issueSync_packets:
  assumes "template c (msgObuf c)" and "twoStepFlag (defaultDS c)"
    and "sends_ok (tx_results c (tx_n c))" and "sends_ok (tx_results c (tx_n c + 1))"
    and "seconds (tx_time (tx_results c (tx_n c))) \<noteq> 0"
  obtains b1 ts b2 where
    "outputs (issueSync c) = Sent DefaultGroup PTP_GENERAL_PORT (take 44 b2) # Sent DefaultGroup PTP_EVENT_PORT (take 44 b1) # outputs c"
    "packet c b1 SYNC SYNC_LENGTH (sentSyncSequenceId c) ts"
    "packet c b2 FOLLOW_UP FOLLOW_UP_LENGTH (sentSyncSequenceId c) (fromInternalTime (egress c 0) (uninit_ts c))"
    "sentSyncSequenceId (issueSync c) = sentSyncSequenceId c + 1"
proof -
  define d where "d = snd (getTime c)"
  have d: "d = c\<lparr>hw_n := hw_n c + 2\<rparr>" by (simp add: d_def getTime_frame)
  define ts where "ts = fromInternalTime (fst (getTime c)) (uninit_ts d)"
  define b1 where "b1 = msgPackSync d (msgObuf d) ts"
  define e where "e = (emit (Sent DefaultGroup PTP_EVENT_PORT (take 44 b1)) (d\<lparr>msgObuf := b1, tx_n := tx_n c + 1\<rparr>))
    \<lparr>sentSyncSequenceId := sentSyncSequenceId c + 1\<rparr>"
  have "template d (msgObuf d)" using assms(1) by (simp add: d template_def)
  note p1 = sync_packed [OF this, of ts, folded b1_def] pack_template(2) [OF this, of ts, folded b1_def]
  have te: "template e b1" using p1(2) by (simp add: template_def e_def emit_def d)
  define b2 where "b2 = msgPackFollowUp e b1 (fromInternalTime (egress c 0) (uninit_ts c))"
  note p2 = follow_packed [OF te packetD(4) [OF p1(1)], of "fromInternalTime (egress c 0) (uninit_ts c)", folded b2_def]
  have fr: "msgObuf e = b1" "tx_results e = tx_results c" "tx_n e = tx_n c + 1" "uninit_ts e = uninit_ts c"
    "sentSyncSequenceId e = sentSyncSequenceId c + 1" "outputs e = Sent DefaultGroup PTP_EVENT_PORT (take 44 b1) # outputs c"
    by (simp_all add: e_def emit_def d)
  have sy: "issueSync c = issueFollowup (egress c 0) e"
    using assms(2,3,5) netSend_good(1) [of "d\<lparr>msgObuf := b1\<rparr>"]
    by (simp add: issueSync_def Let_def split_beta d_def [symmetric] ts_def [symmetric] b1_def [symmetric]
        length_consts e_def egress_def)
      (simp add: d emit_def)
  have "issueFollowup (egress c 0) e
      = emit (Sent DefaultGroup PTP_GENERAL_PORT (take 44 b2)) (e\<lparr>msgObuf := b2, tx_n := tx_n c + 2\<rparr>)"
    using netSend_good(2) [of "e\<lparr>msgObuf := b2\<rparr>" b2 44] assms(4)
    by (simp add: issueFollowup_def Let_def split_beta fr b2_def [symmetric] length_consts)
  then have "outputs (issueSync c) = Sent DefaultGroup PTP_GENERAL_PORT (take 44 b2) #
      Sent DefaultGroup PTP_EVENT_PORT (take 44 b1) # outputs c" "sentSyncSequenceId (issueSync c) = sentSyncSequenceId c + 1"
    by (simp_all add: sy emit_def fr)
  moreover have "packet c b1 SYNC SYNC_LENGTH (sentSyncSequenceId c) ts"
    "packet c b2 FOLLOW_UP FOLLOW_UP_LENGTH (sentSyncSequenceId c) (fromInternalTime (egress c 0) (uninit_ts c))"
    using p1(1) p2 by (simp_all add: packet_def own_header_def d fr(5)) (simp_all add: e_def d emit_def)
  ultimately show ?thesis using that by blast
qed

text \<open>a two-step master announces each Sync twice: \<^verbatim>\<open>issueSync\<close> sends one Sync on the event port and,
  once the hardware reports when it left, one Follow_Up on the general port with the same sequence
  id, whose precise origin timestamp is that time plus the outbound latency; the sequence counter
  advances by one.\<close>

theorem issueSync_two_step:
  assumes "template c (msgObuf c)" and "twoStepFlag (defaultDS c)"
    and "sends_ok (tx_results c (tx_n c))" and "sends_ok (tx_results c (tx_n c + 1))"
    and "seconds (tx_time (tx_results c (tx_n c))) \<noteq> 0"
  shows "\<exists>sy fu. outputs (issueSync c) = Sent DefaultGroup PTP_GENERAL_PORT fu # Sent DefaultGroup PTP_EVENT_PORT sy # outputs c
    \<and> messageType (msgUnpackHeader sy) = SYNC \<and> messageType (msgUnpackHeader fu) = FOLLOW_UP
    \<and> sequenceId (msgUnpackHeader sy) = sentSyncSequenceId c \<and> sequenceId (msgUnpackHeader fu) = sentSyncSequenceId c
    \<and> preciseOriginTimestamp (msgUnpackFollowUp fu)
        = fromInternalTime (addTime (tx_time (tx_results c (tx_n c))) (outboundLatency c)) (uninit_ts c)
    \<and> sentSyncSequenceId (issueSync c) = sentSyncSequenceId c + 1"
proof -
  obtain b1 ts b2 where o: "outputs (issueSync c) = Sent DefaultGroup PTP_GENERAL_PORT (take 44 b2) # Sent DefaultGroup PTP_EVENT_PORT (take 44 b1) # outputs c"
    and p: "packet c b1 SYNC SYNC_LENGTH (sentSyncSequenceId c) ts"
      "packet c b2 FOLLOW_UP FOLLOW_UP_LENGTH (sentSyncSequenceId c) (fromInternalTime (egress c 0) (uninit_ts c))"
    and s: "sentSyncSequenceId (issueSync c) = sentSyncSequenceId c + 1"
    using issueSync_packets [OF assms] .
  show ?thesis
    using o s p by (auto simp: packet_def own_header_def msgUnpackHeader_take msgUnpackFollowUp_def getTimestamp_take egress_def)
qed

subsection \<open>A master in the middle of its work\<close>

definition sample_master :: clock where
  "sample_master = (power_up (\<lambda>_. 0) (\<lambda>_. 0) (\<lambda>_. tx_good))
    \<lparr>portDS := (portDS sample_clock)\<lparr>portState := PTP_MASTER, delayMechanism := E2E\<rparr>,
     defaultDS := defaultDS sample_clock, msgObuf := sample_buf\<rparr>"

lemma sample_master_simps:
  "template sample_master (msgObuf sample_master)" "twoStepFlag (defaultDS sample_master)"
  "tx_results sample_master = (\<lambda>_. tx_good)" "sends_ok tx_good" "seconds (tx_time tx_good) = 100"
  "portState (portDS sample_master) = PTP_MASTER" "delayMechanism (portDS sample_master) = E2E"
  "sentSyncSequenceId sample_master = 0"
  using sample_template
  by (simp_all add: sample_master_def template_def sends_ok_def tx_good_def sample_clock_def power_up_def
      PtpClock.defs PtpClock_zero_def)

end
