(* ===== verification/Ptp_Measure.thy ===== *)
theory Ptp_Measure
  imports Ptp_Exchange
begin

text \<open>
  The measurements end to end: the messages one port packs and sends, carried by the network into the
  queues of another port, taken by \<^verbatim>\<open>handle\<close>, and the offset and the peer delay the two ports find.
\<close>

subsection \<open>Receiving one packet\<close>

definition carries :: "pbuf \<Rightarrow> Octet list \<Rightarrow> TimeInternal \<Rightarrow> bool" where
  "carries p msg t \<longleftrightarrow> concat (payloads p) = msg \<and> [] \<notin> set (payloads p)
     \<and> t = \<lparr>seconds = time_sec p, nanoseconds = time_nsec p\<rparr>"

definition empty_path :: "NetPath \<Rightarrow> bool" where
  "empty_path np \<longleftrightarrow> wf_queue (eventQ np) \<and> queued (eventQ np) = [] \<and> wf_queue (generalQ np) \<and> queued (generalQ np) = []"

definition no_mail :: "clock \<Rightarrow> bool" where
  "no_mail c \<longleftrightarrow> empty_path (netPath c) \<and> length (msgIbuf c) = PACKET_SIZE"

lemma netRecv_single:
  assumes "wf_queue q" and "queued q = []" and "length buf = PACKET_SIZE" and "carries p msg t" and "length msg \<le> PACKET_SIZE"
  obtains q' where "wf_queue q'" "queued q' = []" "fst (netQPut q p)" "netQCheck (snd (netQPut q p))"
    "netRecv buf u (snd (netQPut q p)) = (int (length msg), put_bytes buf 0 msg, t, q', Some (pb_id p), False)"
proof -
  let ?q = "snd (netQPut q p)"
  have q: "fst (netQPut q p)" "wf_queue ?q" "queued ?q = [p]" using netQPut_room [OF assms(1), of p] assms(2) by simp_all
  have "\<forall>p\<in>set (queued ?q). [] \<notin> set (payloads p)" using q assms(4) by (simp add: carries_def)
  from netRecv_spec_lemma [OF q(2) assms(3) this, of u] show ?thesis
    using q assms(4,5) queued_Nil_iff [OF q(2)] that by (auto simp: carries_def netQCheck_def wf_queue_def)
qed

lemma receive_event:
  assumes "no_mail c" and "carries p msg t" and "msg \<noteq> []" and "length msg \<le> PACKET_SIZE"
  obtains np os where "empty_path np"
    "handle (netRecvEventCallback p c) = processPacket t
      (c\<lparr>msgIbuf := put_bytes (msgIbuf c) 0 msg, netPath := np, outputs := os, msgIbufLength := int (length msg)\<rparr>)"
proof -
  have c: "wf_queue (eventQ (netPath c))" "queued (eventQ (netPath c)) = []" "length (msgIbuf c) = PACKET_SIZE"
    using assms(1) by (simp_all add: no_mail_def empty_path_def)
  obtain q' where q: "wf_queue q'" "queued q' = []" "fst (netQPut (eventQ (netPath c)) p)" "netQCheck (snd (netQPut (eventQ (netPath c)) p))"
    and r: "netRecv (msgIbuf c) \<lparr>seconds = 0, nanoseconds = 0\<rparr> (snd (netQPut (eventQ (netPath c)) p))
      = (int (length msg), put_bytes (msgIbuf c) 0 msg, t, q', Some (pb_id p), False)"
    using netRecv_single [OF c assms(2,4)] .
  have "handle (netRecvEventCallback p c) = processPacket t (c\<lparr>msgIbuf := put_bytes (msgIbuf c) 0 msg,
      netPath := (netPath c)\<lparr>eventQ := q'\<rparr>, outputs := PbufFree (pb_id p) # outputs c, msgIbufLength := int (length msg)\<rparr>)"
    using assms(3) q(3,4)
    by (simp add: handle_def netRecvEventCallback_def netRecvEvent_def netSelect_def split_beta Let_def r emit_def)
  moreover have "empty_path ((netPath c)\<lparr>eventQ := q'\<rparr>)" using assms(1) q by (simp add: no_mail_def empty_path_def)
  ultimately show ?thesis using that by blast
qed

lemma receive_general:
  assumes "no_mail c" and "carries p msg t" and "msg \<noteq> []" and "length msg \<le> PACKET_SIZE"
  obtains np os where "empty_path np"
    "handle (netRecvGeneralCallback p c) = processPacket t
      (c\<lparr>msgIbuf := put_bytes (msgIbuf c) 0 msg, netPath := np, outputs := os, msgIbufLength := int (length msg)\<rparr>)"
proof -
  have c: "wf_queue (generalQ (netPath c))" "queued (generalQ (netPath c)) = []" "length (msgIbuf c) = PACKET_SIZE"
    and e: "wf_queue (eventQ (netPath c))" "queued (eventQ (netPath c)) = []"
    using assms(1) by (simp_all add: no_mail_def empty_path_def)
  obtain q' where q: "wf_queue q'" "queued q' = []" "fst (netQPut (generalQ (netPath c)) p)" "netQCheck (snd (netQPut (generalQ (netPath c)) p))"
    and r: "netRecv (msgIbuf c) \<lparr>seconds = 0, nanoseconds = 0\<rparr> (snd (netQPut (generalQ (netPath c)) p))
      = (int (length msg), put_bytes (msgIbuf c) 0 msg, t, q', Some (pb_id p), False)"
    using netRecv_single [OF c assms(2,4)] .
  have "handle (netRecvGeneralCallback p c) = processPacket t (c\<lparr>msgIbuf := put_bytes (msgIbuf c) 0 msg,
      netPath := (netPath c)\<lparr>generalQ := q'\<rparr>, outputs := PbufFree (pb_id p) # outputs c, msgIbufLength := int (length msg)\<rparr>)"
    using assms(3) q(3,4)
    by (simp add: handle_def netRecvGeneralCallback_def netRecvEvent_def netRecvGeneral_def netSelect_def split_beta Let_def r emit_def
        netRecv_def [of _ _ "eventQ (netPath c)"] netQGet_empty [OF e])
  moreover have "empty_path ((netPath c)\<lparr>generalQ := q'\<rparr>)" using assms(1) q by (simp add: no_mail_def empty_path_def)
  ultimately show ?thesis using that by blast
qed

subsection \<open>The gates of processPacket\<close>

definition hears :: "clock \<Rightarrow> clock \<Rightarrow> bool" where
  "hears c m \<longleftrightarrow> versionNumber (portDS m) = 2 \<and> versionNumber (portDS c) = 2
     \<and> domainNumber (defaultDS m) = domainNumber (defaultDS c)
     \<and> \<not> isSamePortIdentity (portIdentity (portDS c)) (portIdentity (portDS m))"

definition ingress :: "clock \<Rightarrow> TimeInternal \<Rightarrow> TimeInternal" where
  "ingress c t = (if seconds t > 0 then subTime t (inboundLatency c) else t)"

lemma process_message:
  assumes "packet m b ty len sq ts" and "hears c m" and "length (msgIbuf c) = PACKET_SIZE" and "44 \<le> n" and "n \<le> PACKET_SIZE"
  shows "processPacket t (c\<lparr>msgIbuf := put_bytes (msgIbuf c) 0 (take n b), netPath := np, outputs := os, msgIbufLength := int n\<rparr>)
    = dispatch (ingress c t) False (c\<lparr>msgIbuf := put_bytes (msgIbuf c) 0 (take n b), netPath := np, outputs := os,
        msgIbufLength := int n, messageActivity := True, msgTmpHeader := msgUnpackHeader b\<rparr>)"
  using assms packetD(1,2) [OF assms(1)]
  by (simp add: processPacket_def Let_def msgUnpackHeader_front length_consts own_header_def hears_def ingress_def)

text \<open>The state in which the handler of a message runs.\<close>

definition taken :: "clock \<Rightarrow> Octet list \<Rightarrow> nat \<Rightarrow> NetPath \<Rightarrow> Output list \<Rightarrow> clock" where
  "taken c b n np os = c\<lparr>msgIbuf := put_bytes (msgIbuf c) 0 (take n b), netPath := np, outputs := os,
        msgIbufLength := int n, messageActivity := True, msgTmpHeader := msgUnpackHeader b\<rparr>"

lemma message_taken:
  assumes "packet m b ty len sq ts" and "hears c m" and "no_mail c" and "carries p (take n b) t" and "44 \<le> n" and "n \<le> PACKET_SIZE"
  obtains (event) np os where "empty_path np" "handle (netRecvEventCallback p c) = dispatch (ingress c t) False (taken c b n np os)"
proof -
  have b: "take n b \<noteq> []" "length (take n b) = n" using packetD(1) [OF assms(1)] assms(5,6) by (auto simp: PACKET_SIZE_def)
  have c: "length (msgIbuf c) = PACKET_SIZE" using assms(3) by (simp add: no_mail_def)
  obtain np os where "empty_path np" "handle (netRecvEventCallback p c) = processPacket t
      (c\<lparr>msgIbuf := put_bytes (msgIbuf c) 0 (take n b), netPath := np, outputs := os, msgIbufLength := int (length (take n b))\<rparr>)"
    using receive_event [OF assms(3,4) b(1)] b(2) assms(6) by metis
  then show ?thesis using that unfolding b(2) taken_def process_message [OF assms(1,2) c assms(5,6)] by blast
qed

lemma general_taken:
  assumes "packet m b ty len sq ts" and "hears c m" and "no_mail c" and "carries p (take n b) t" and "44 \<le> n" and "n \<le> PACKET_SIZE"
  obtains (general) np os where "empty_path np" "handle (netRecvGeneralCallback p c) = dispatch (ingress c t) False (taken c b n np os)"
proof -
  have b: "take n b \<noteq> []" "length (take n b) = n" using packetD(1) [OF assms(1)] assms(5,6) by (auto simp: PACKET_SIZE_def)
  have c: "length (msgIbuf c) = PACKET_SIZE" using assms(3) by (simp add: no_mail_def)
  obtain np os where "empty_path np" "handle (netRecvGeneralCallback p c) = processPacket t
      (c\<lparr>msgIbuf := put_bytes (msgIbuf c) 0 (take n b), netPath := np, outputs := os, msgIbufLength := int (length (take n b))\<rparr>)"
    using receive_general [OF assms(3,4) b(1)] b(2) assms(6) by metis
  then show ?thesis using that unfolding b(2) taken_def process_message [OF assms(1,2) c assms(5,6)] by blast
qed

lemma taken_timestamp:
  "packet m b ty len sq ts \<Longrightarrow> no_mail c \<Longrightarrow> 44 \<le> n \<Longrightarrow> n \<le> PACKET_SIZE \<Longrightarrow> getTimestamp (put_bytes (msgIbuf c) 0 (take n b)) = ts"
  using getTimestamp_front [of n b "msgIbuf c"] by (simp add: packet_def no_mail_def)

lemmas measure_frames = getTime_frame setTime_def ETH_PTPTime_SetTime_def emit_def adjFreq_def ETH_PTPTime_AdjFreq_def

lemma currentDS_frame [simp]:
  "currentDS (initClock c) = currentDS c" "currentDS (updateClock c) = currentDS c"
  "currentDS (tStop i c) = currentDS c" "currentDS (tStart i w c) = currentDS c"
  "currentDS (snd (tExpired i c)) = currentDS c" "currentDS (startRandom i k c) = currentDS c"
  by (simp_all add: initClock_def updateClock_def measure_frames DEFAULT_PARENTS_STATS_def Let_def split_beta
      tStop_def tStart_def tExpired_def startRandom_def getRand_def c_rand_def netEmptyEventQ_def)

lemma currentDS_send [simp]:
  "currentDS (snd (snd (netSendEvent b n t c))) = currentDS c" "currentDS (snd (snd (netSendPeerEvent b n t c))) = currentDS c"
  by (simp_all add: netSendEvent_def netSendPeerEvent_def netSend_def emit_def Let_def split_beta)

lemma currentDS_toState [simp]: "currentDS (toState s c) = currentDS c"
  by (cases s; cases "portState (portDS c)"; cases "delayMechanism (portDS c)")
    (simp_all add: toState_def leaveState_def leaveSlave_def enterState_def setState_def startAnnounceReceipt_def Let_def)

lemma currentDS_requests [simp]:
  "currentDS (issueDelayReq c) = currentDS c" "currentDS (issuePDelayReq c) = currentDS c"
  "currentDS (issueDelayReqTimerExpired c) = currentDS c"
  by (simp_all add: issueDelayReq_def issuePDelayReq_def issueDelayReqTimerExpired_def getTime_frame Let_def split_beta
      split: DelayMechanism.split)

subsection \<open>The offset from the master\<close>

text \<open>A master that can announce its time, and a port that follows it.\<close>

definition announcing :: "clock \<Rightarrow> bool" where
  "announcing m \<longleftrightarrow> template m (msgObuf m) \<and> twoStepFlag (defaultDS m)
     \<and> sends_ok (tx_results m (tx_n m)) \<and> sends_ok (tx_results m (tx_n m + 1))
     \<and> seconds (tx_time (tx_results m (tx_n m))) \<noteq> 0 \<and> add_in_range (tx_time (tx_results m (tx_n m))) (outboundLatency m)
     \<and> 0 \<le> seconds (egress m 0) \<and> seconds (egress m 0) < INT_MAX \<and> 0 \<le> nanoseconds (egress m 0)"

definition following :: "clock \<Rightarrow> clock \<Rightarrow> bool" where
  "following c m \<longleftrightarrow> no_mail c \<and> hears c m \<and> portState (portDS c) \<in> {PTP_UNCALIBRATED, PTP_SLAVE}
     \<and> isSamePortIdentity (parentPortIdentity (parentDS c)) (portIdentity (portDS m))"

text \<open>The measured value after the filter.\<close>

definition smoothed :: "Filter \<Rightarrow> TimeInternal \<Rightarrow> TimeInternal" where
  "smoothed f R = (if seconds R \<noteq> 0 then R else R\<lparr>nanoseconds := fst (filter_ptp (nanoseconds R) f)\<rparr>)"

lemma zero_correction: "scaledNanosecondsToInternalTime 0 = TimeInternal_zero" "addTime TimeInternal_zero TimeInternal_zero = TimeInternal_zero"
  by (simp_all add: scaledNanosecondsToInternalTime_def addTime_def normalizeTime_def TimeInternal_zero_def)

lemma time_eta: "t\<lparr>seconds := a, nanoseconds := b\<rparr> = \<lparr>seconds = a, nanoseconds = b\<rparr>" for t :: TimeInternal
  by (cases t) simp

lemma sent_time:
  "0 \<le> seconds t \<Longrightarrow> seconds t < INT_MAX \<Longrightarrow> 0 \<le> nanoseconds t \<Longrightarrow> nanoseconds t \<le> INT_MAX \<Longrightarrow>
    toInternalTime u (fromInternalTime t e) = t" for t :: TimeInternal
  by (simp add: toInternalTime_def fromInternalTime_def INT_MAX_def uint_word_of_int time_eta)

lemma two_step_flag: "own_header m h t len \<Longrightarrow> twoStepFlag (defaultDS m) \<Longrightarrow> getFlag (flagField h ! 0) FLAG0_TWO_STEP"
  by (simp add: own_header_def getFlag_def)

lemma offset_measured:
  "offsetFromMaster (currentDS (updateOffset c t og corr)) = smoothed (ofm_filt c) (raw_offset c t og corr)"
proof (cases "seconds (raw_offset c t og corr) = 0")
  case True
  then show ?thesis
    using updateOffset_small [OF True prod.collapse [symmetric]] by (simp add: smoothed_def)
next
  case False
  then show ?thesis using updateOffset_large [OF False] by (simp add: smoothed_def computeOffset_eq)
qed

lemma sync_taken:
  assumes "packet m b SYNC SYNC_LENGTH sq ts" and "twoStepFlag (defaultDS m)" and "following c m" and "carries p (take 44 b) t"
  obtains np os where "empty_path np"
    "handle (netRecvEventCallback p c) = (taken c b 44 np os)\<lparr>timestamp_syncRecieve := ingress c t,
      waitingForFollowUp := True, recvSyncSequenceId := sq, correctionField_sync := TimeInternal_zero\<rparr>"
proof -
  have c: "no_mail c" "hears c m" and n: "44 \<le> PACKET_SIZE" using assms(3) by (simp_all add: following_def PACKET_SIZE_def)
  obtain np os where np: "empty_path np" and h: "handle (netRecvEventCallback p c) = dispatch (ingress c t) False (taken c b 44 np os)"
    using message_taken [OF assms(1) c(2,1) assms(4) order_refl n] .
  have "handle (netRecvEventCallback p c) = (taken c b 44 np os)\<lparr>timestamp_syncRecieve := ingress c t,
      waitingForFollowUp := True, recvSyncSequenceId := sq, correctionField_sync := TimeInternal_zero\<rparr>"
    using assms(2,3) packetD(2-4) [OF assms(1)] two_step_flag [OF packetD(2) [OF assms(1)]]
    unfolding h by (auto simp: taken_def dispatch_def handleSync_def handleSyncSlave_def fromParent_def following_def own_header_def
        length_consts zero_correction Let_def)
  with np show ?thesis by (rule that)
qed

lemma follow_up_taken:
  assumes "packet m b FOLLOW_UP FOLLOW_UP_LENGTH sq ts" and "hears c m" and "no_mail c"
    and "portState (portDS c) \<in> {PTP_UNCALIBRATED, PTP_SLAVE}"
    and "isSamePortIdentity (parentPortIdentity (parentDS c)) (portIdentity (portDS m))"
    and "waitingForFollowUp c" and "recvSyncSequenceId c = sq" and "carries p (take 44 b) t"
  shows "offsetFromMaster (currentDS (handle (netRecvGeneralCallback p c))) = smoothed (ofm_filt c)
    (raw_offset c (timestamp_syncRecieve c) (toInternalTime (uninit_time c) ts) (addTime TimeInternal_zero (correctionField_sync c)))"
proof -
  have n: "44 \<le> PACKET_SIZE" by (simp add: PACKET_SIZE_def)
  obtain np os where h: "handle (netRecvGeneralCallback p c) = dispatch (ingress c t) False (taken c b 44 np os)"
    using general_taken [OF assms(1-3,8) order_refl n] .
  show ?thesis
    using assms(4-7) packetD(2-4) [OF assms(1)] taken_timestamp [OF assms(1,3) order_refl n]
    unfolding h
    by (auto simp: taken_def dispatch_def handleFollowUp_def handleFollowUpSlave_def fromParent_def own_header_def
        length_consts zero_correction offset_measured Let_def raw_offset_def path_delay_def msgUnpackFollowUp_def split: DelayMechanism.split)
qed

text \<open>C4: the offset is measured end to end: when a two-step master issues a Sync and its two messages
  arrive, the Sync with the receive time stamp \<open>t2\<close>, at a port that follows this master,
  \<^verbatim>\<open>handle\<close> leaves in \<^verbatim>\<open>offsetFromMaster\<close> exactly \<open>t2\<close> less the inbound latency, less the
  time the hardware of the master sent the Sync plus its outbound latency, less the path delay,
  passed through the filter when it is below a second.\<close>

theorem sync_measures_offset:
  assumes "announcing m" and "following c m"
    and "outputs (issueSync m) = Sent DefaultGroup PTP_GENERAL_PORT fu # Sent DefaultGroup PTP_EVENT_PORT sy # outputs m"
    and "carries pk1 sy t2" and "carries pk2 fu t"
    and "0 < seconds t2" and "sub_in_range t2 (inboundLatency c)"
    and "offset_exact c (subTime t2 (inboundLatency c)) (egress m 0) TimeInternal_zero"
  shows "\<exists>R. tval R = (tval t2 - tval (inboundLatency c)) - (tval (tx_time (tx_results m (tx_n m))) + tval (outboundLatency m))
        - tval (path_delay c) \<and> normal_time R
    \<and> offsetFromMaster (currentDS (handle (netRecvGeneralCallback pk2 (handle (netRecvEventCallback pk1 c))))) = smoothed (ofm_filt c) R"
proof -
  have m: "twoStepFlag (defaultDS m)" and eg: "toInternalTime (uninit_time c) (fromInternalTime (egress m 0) (uninit_ts m)) = egress m 0"
    and T1: "tval (egress m 0) = tval (tx_time (tx_results m (tx_n m))) + tval (outboundLatency m)"
    using assms(1) addTime_exact_lemma [of "tx_time (tx_results m (tx_n m))" "outboundLatency m"]
      normal_time_ns [of "egress m 0"]
    by (auto simp: announcing_def egress_def INT_MAX_def intro!: sent_time)
  obtain b1 ts b2 where o: "outputs (issueSync m) = Sent DefaultGroup PTP_GENERAL_PORT (take 44 b2) # Sent DefaultGroup PTP_EVENT_PORT (take 44 b1) # outputs m"
    and b: "packet m b1 SYNC SYNC_LENGTH (sentSyncSequenceId m) ts"
      "packet m b2 FOLLOW_UP FOLLOW_UP_LENGTH (sentSyncSequenceId m) (fromInternalTime (egress m 0) (uninit_ts m))"
    using assms(1) issueSync_packets [of m] unfolding announcing_def by metis
  have p: "carries pk1 (take 44 b1) t2" "carries pk2 (take 44 b2) t" using o assms(3-5) by auto
  obtain np os where e: "empty_path np" and d: "handle (netRecvEventCallback pk1 c) = (taken c b1 44 np os)\<lparr>timestamp_syncRecieve := ingress c t2,
      waitingForFollowUp := True, recvSyncSequenceId := sentSyncSequenceId m, correctionField_sync := TimeInternal_zero\<rparr>"
    using sync_taken [OF b(1) m assms(2) p(1)] .
  let ?R = "raw_offset c (subTime t2 (inboundLatency c)) (egress m 0) TimeInternal_zero"
  have "offsetFromMaster (currentDS (handle (netRecvGeneralCallback pk2 (handle (netRecvEventCallback pk1 c))))) = smoothed (ofm_filt c) ?R"
    unfolding d using assms(2,6) e eg
    by (subst follow_up_taken [OF b(2) _ _ _ _ _ _ p(2)])
      (auto simp: taken_def following_def hears_def no_mail_def zero_correction raw_offset_def path_delay_def ingress_def Let_def
        split: DelayMechanism.split)
  moreover have "tval (TimeInternal_zero) = 0" by (simp add: TimeInternal_zero_def)
  ultimately show ?thesis
    using raw_offset_exact [OF assms(8)] subTime_exact_lemma [OF assms(7)] T1 by (intro exI [of _ ?R]) simp
qed

definition sample_slave :: clock where
  "sample_slave = (power_up (\<lambda>_. 0) (\<lambda>_. 0) (\<lambda>_. tx_good))
    \<lparr>portDS := PortDS_zero\<lparr>versionNumber := 2, portState := PTP_SLAVE, delayMechanism := P2P,
       portIdentity := \<lparr>clockIdentity = [0, 4, 163, 0xff, 0xfe, 9, 9, 9], portNumber = 1\<rparr>\<rparr>,
     parentDS := ParentDS_zero\<lparr>parentPortIdentity := portIdentity (portDS sample_clock)\<rparr>,
     defaultDS := defaultDS sample_clock\<rparr>"

lemma sample_pair:
  "announcing sample_master" "following sample_slave sample_master" "outputs sample_master = []"
proof -
  show "outputs sample_master = []" by (simp add: sample_master_def power_up_def PtpClock.defs)
  have "inboundLatency sample_master = TimeInternal_zero" "outboundLatency sample_master = TimeInternal_zero"
    by (simp_all add: sample_master_def power_up_def PtpClock.defs PtpClock_zero_def)
  then show "announcing sample_master"
    by (simp add: announcing_def sample_master_simps egress_def)
      (simp add: add_in_range_def normal_time_def tx_good_def addTime_def normalizeTime_def TimeInternal_zero_def
        INT_MAX_def sdiv_pos Let_def)
  show "following sample_slave sample_master"
    by (simp add: following_def no_mail_def empty_path_def hears_def sample_slave_def sample_master_def sample_clock_def
        power_up_def PtpClock.defs PtpClock_zero_def NetPath_zero_def PortDS_zero_def ParentDS_zero_def DefaultDS_zero_def
        PortIdentity_zero_def wf_queue_zero isSamePortIdentity_def memcmp_def CLOCK_IDENTITY_LENGTH_def PACKET_SIZE_def)
      (simp add: queued_def BufQueue_zero_def)
qed

theorem sync_measures_offset_witness:
  "\<exists>pk1 pk2 R. tval R = 250 \<and>
    offsetFromMaster (currentDS (handle (netRecvGeneralCallback pk2 (handle (netRecvEventCallback pk1 sample_slave)))))
      = smoothed (ofm_filt sample_slave) R"
proof -
  obtain b1 ts b2 where o: "outputs (issueSync sample_master) = Sent DefaultGroup PTP_GENERAL_PORT (take 44 b2) #
      Sent DefaultGroup PTP_EVENT_PORT (take 44 b1) # outputs sample_master"
    and b: "packet sample_master b1 SYNC SYNC_LENGTH (sentSyncSequenceId sample_master) ts"
      "packet sample_master b2 FOLLOW_UP FOLLOW_UP_LENGTH (sentSyncSequenceId sample_master)
        (fromInternalTime (egress sample_master 0) (uninit_ts sample_master))"
    using sample_pair(1) issueSync_packets [of sample_master] unfolding announcing_def by metis
  have b0: "b1 \<noteq> []" "b2 \<noteq> []" using packetD(1) [OF b(1)] packetD(1) [OF b(2)] by (auto simp: PACKET_SIZE_def)
  let ?t2 = "\<lparr>seconds = 100, nanoseconds = 750\<rparr> :: TimeInternal"
  let ?p = "\<lambda>msg. \<lparr>pb_id = 0, payloads = [msg], time_sec = 100, time_nsec = 750\<rparr> :: pbuf"
  have lat: "inboundLatency sample_slave = TimeInternal_zero" "outboundLatency sample_master = TimeInternal_zero"
    "path_delay sample_slave = TimeInternal_zero" "tx_time (tx_results sample_master (tx_n sample_master)) = \<lparr>seconds = 100, nanoseconds = 500\<rparr>"
    by (simp_all add: sample_slave_def sample_master_def power_up_def PtpClock.defs zero_defs path_delay_def)
  have z: "sub_in_range ?t2 TimeInternal_zero" "subTime ?t2 TimeInternal_zero = ?t2"
    by (simp_all add: sub_in_range_def normal_time_def TimeInternal_zero_def subTime_def normalizeTime_def sdiv_pos Let_def)
  have eg: "egress sample_master 0 = \<lparr>seconds = 100, nanoseconds = 500\<rparr>"
    using lat by (simp add: egress_def addTime_def normalizeTime_def TimeInternal_zero_def sdiv_pos Let_def)
  have ex: "offset_exact sample_slave ?t2 (egress sample_master 0) TimeInternal_zero"
    unfolding eg offset_exact_def lat
    by (simp add: sub_in_range_def normal_time_def TimeInternal_zero_def subTime_def normalizeTime_def sdiv_pos Let_def)
  show ?thesis
    using sync_measures_offset [OF sample_pair(1,2) o, of "?p (take 44 b1)" ?t2 "?p (take 44 b2)" ?t2] z ex
    unfolding lat using b0 by (auto simp: carries_def TimeInternal_zero_def)
qed

end
