(* ===== verification/Ptp_Peer.thy ===== *)
theory Ptp_Peer
  imports Ptp_Measure
begin

text \<open>
  The peer delay, the mechanism the firmware starts with, end to end: a request leaves one port, the
  other answers with a response and a follow-up, and the first works out the delay from the four times.
\<close>

subsection \<open>The request\<close>

definition requesting :: "clock \<Rightarrow> bool" where
  "requesting c \<longleftrightarrow> template c (msgObuf c) \<and> no_mail c \<and> delayMechanism (portDS c) = P2P
     \<and> portState (portDS c) \<in> {PTP_MASTER, PTP_SLAVE} \<and> twoStepFlag (defaultDS c)
     \<and> sends_ok (tx_results c (tx_n c)) \<and> seconds (tx_time (tx_results c (tx_n c))) \<noteq> 0"

lemma issuePDelayReq_packet:
  assumes "requesting c"
  obtains b ts h where
    "issuePDelayReq c = c\<lparr>hw_n := h, msgObuf := b, tx_n := tx_n c + 1,
      outputs := Sent PeerGroup PTP_EVENT_PORT (take 54 b) # outputs c,
      sentPDelayReqSequenceId := sentPDelayReqSequenceId c + 1, pdelay_t1 := egress c 0\<rparr>"
    "packet c b PDELAY_REQ PDELAY_REQ_LENGTH (sentPDelayReqSequenceId c) ts"
proof -
  define d where "d = snd (getTime c)"
  have d: "d = c\<lparr>hw_n := hw_n c + 2\<rparr>" by (simp add: d_def getTime_frame)
  define ts where "ts = fromInternalTime (fst (getTime c)) (uninit_ts d)"
  define b where "b = msgPackPDelayReq d (msgObuf d) ts"
  have "template d (msgObuf d)" using assms by (simp add: d template_def requesting_def)
  note pk = preq_packed [OF this, of ts, folded b_def]
  have "issuePDelayReq c = c\<lparr>hw_n := hw_n c + 2, msgObuf := b, tx_n := tx_n c + 1,
      outputs := Sent PeerGroup PTP_EVENT_PORT (take 54 b) # outputs c,
      sentPDelayReqSequenceId := sentPDelayReqSequenceId c + 1, pdelay_t1 := egress c 0\<rparr>"
    using assms netSend_good(3) [of "d\<lparr>msgObuf := b\<rparr>"]
    by (simp add: issuePDelayReq_def Let_def split_beta d_def [symmetric] ts_def [symmetric] b_def [symmetric]
        length_consts egress_def requesting_def)
      (simp add: d emit_def)
  moreover have "packet c b PDELAY_REQ PDELAY_REQ_LENGTH (sentPDelayReqSequenceId c) ts"
    using pk by (simp add: packet_def own_header_def d)
  ultimately show ?thesis by (rule that)
qed

subsection \<open>The answer\<close>

definition responding :: "clock \<Rightarrow> clock \<Rightarrow> bool" where
  "responding r c \<longleftrightarrow> template r (msgObuf r) \<and> no_mail r \<and> hears r c \<and> hears c r \<and> delayMechanism (portDS r) = P2P
     \<and> portState (portDS r) \<in> {PTP_PASSIVE, PTP_SLAVE, PTP_MASTER} \<and> twoStepFlag (defaultDS r)
     \<and> sends_ok (tx_results r (tx_n r)) \<and> sends_ok (tx_results r (tx_n r + 1))
     \<and> seconds (tx_time (tx_results r (tx_n r))) \<noteq> 0 \<and> seconds (egress r 0) \<noteq> 0"

lemma template_identity: "template c buf \<Longrightarrow> length (clockIdentity (portIdentity (portDS c))) = 8"
  by (metis template_def length_get_bytes)

lemma responses_packets:
  assumes "responding r c" and "template (taken r b n np os) (msgObuf r)"
    and "packet c b PDELAY_REQ PDELAY_REQ_LENGTH sq ts" and "length (clockIdentity (portIdentity (portDS c))) = 8"
    and "twoStepFlag (defaultDS c)" and "n = 54"
  obtains b2 b3 os' where
    "outputs (handlePDelayReq u False (taken r b n np os)) =
      Sent PeerGroup PTP_GENERAL_PORT (take 54 b3) # Sent PeerGroup PTP_EVENT_PORT (take 54 b2) # os"
    "packet r b2 PDELAY_RESP PDELAY_RESP_LENGTH sq (fromInternalTime u (uninit_ts r))"
    "getPortIdentity44 b2 = portIdentity (portDS c)"
    "packet r b3 PDELAY_RESP_FOLLOW_UP PDELAY_RESP_FOLLOW_UP_LENGTH sq (fromInternalTime (egress r 0) (uninit_ts r))"
proof -
  let ?d = "taken r b n np os" and ?h = "msgUnpackHeader b"
  have h: "sourcePortIdentity ?h = portIdentity (portDS c)" "correctionfield ?h = 0" "sequenceId ?h = sq"
    "getFlag (flagField ?h ! 0) FLAG0_TWO_STEP"
    using packetD(2-4) [OF assms(3)] two_step_flag [OF packetD(2) [OF assms(3)] assms(5)] by (simp_all add: own_header_def)
  have l: "length (clockIdentity (sourcePortIdentity ?h)) = 8" using assms(4) h by simp
  define b2 where "b2 = msgPackPDelayResp (msgObuf r) ?h (fromInternalTime u (uninit_ts r))"
  define e where "e = emit (Sent PeerGroup PTP_EVENT_PORT (take 54 b2)) (?d\<lparr>msgObuf := b2, tx_n := tx_n r + 1\<rparr>)"
  note pk2 = presp_packed [OF assms(2) l, of "fromInternalTime u (uninit_ts r)", folded b2_def]
  have "template ?d b2" unfolding b2_def by (rule pack_template(7) [OF assms(2)])
  then have te: "template e b2" by (simp add: template_def e_def emit_def)
  define b3 where "b3 = msgPackPDelayRespFollowUp b2 ?h (fromInternalTime (egress r 0) (uninit_ts r))"
  note pk3 = pfollow_packed [OF te h(2) l, of "fromInternalTime (egress r 0) (uninit_ts r)", folded b3_def]
  have resp: "issuePDelayResp u ?h ?d = (egress r 0, e)"
    using assms(1) netSend_good(3) [of "?d\<lparr>msgObuf := b2\<rparr>" b2 54 u]
    by (simp add: issuePDelayResp_def Let_def split_beta length_consts responding_def)
      (simp add: taken_def b2_def [symmetric] e_def egress_def emit_def)
  have fr: "msgTmpHeader e = ?h" "msgObuf e = b2" "tx_n e = tx_n r + 1" "tx_results e = tx_results r" "uninit_ts e = uninit_ts r"
    "outputs e = Sent PeerGroup PTP_EVENT_PORT (take 54 b2) # os"
    by (simp_all add: e_def emit_def taken_def)
  have "issuePDelayRespFollowUp (egress r 0) ?h e = emit (Sent PeerGroup PTP_GENERAL_PORT (take 54 b3)) (e\<lparr>msgObuf := b3, tx_n := tx_n r + 2\<rparr>)"
    using assms(1) netSend_good(4) [of "e\<lparr>msgObuf := b3\<rparr>" b3 54]
    by (simp add: issuePDelayRespFollowUp_def Let_def split_beta fr b3_def [symmetric] length_consts responding_def)
  then have "outputs (handlePDelayReq u False ?d) =
      Sent PeerGroup PTP_GENERAL_PORT (take 54 b3) # Sent PeerGroup PTP_EVENT_PORT (take 54 b2) # os"
    using assms(1,6) h(4) resp fr
    by (auto simp: handlePDelayReq_def responding_def taken_def length_consts emit_def Let_def)
  moreover have "packet r b2 PDELAY_RESP PDELAY_RESP_LENGTH sq (fromInternalTime u (uninit_ts r))"
    "packet r b3 PDELAY_RESP_FOLLOW_UP PDELAY_RESP_FOLLOW_UP_LENGTH sq (fromInternalTime (egress r 0) (uninit_ts r))"
    using pk2(1) pk3 h(3) by (simp_all add: packet_def own_header_def e_def taken_def emit_def)
  ultimately show ?thesis using that pk2(2) h(1) by metis
qed

lemma request_answered:
  assumes "responding r c" and "packet c b PDELAY_REQ PDELAY_REQ_LENGTH sq ts" and "template c buf"
    and "twoStepFlag (defaultDS c)" and "carries p (take 54 b) t" and "0 < seconds t"
  obtains b2 b3 os where
    "outputs (handle (netRecvEventCallback p r)) =
      Sent PeerGroup PTP_GENERAL_PORT (take 54 b3) # Sent PeerGroup PTP_EVENT_PORT (take 54 b2) # os"
    "packet r b2 PDELAY_RESP PDELAY_RESP_LENGTH sq (fromInternalTime (subTime t (inboundLatency r)) (uninit_ts r))"
    "getPortIdentity44 b2 = portIdentity (portDS c)"
    "packet r b3 PDELAY_RESP_FOLLOW_UP PDELAY_RESP_FOLLOW_UP_LENGTH sq (fromInternalTime (egress r 0) (uninit_ts r))"
proof -
  have r: "no_mail r" "hears r c" "44 \<le> (54 :: nat)" "54 \<le> PACKET_SIZE" using assms(1) by (simp_all add: responding_def PACKET_SIZE_def)
  obtain np os where h: "handle (netRecvEventCallback p r) = dispatch (ingress r t) False (taken r b 54 np os)"
    using message_taken [OF assms(2) r(2,1) assms(5) r(3,4)] .
  have tmp: "template (taken r b 54 np os) (msgObuf r)" using assms(1) by (simp add: responding_def template_def taken_def)
  have d: "dispatch (ingress r t) False (taken r b 54 np os) = handlePDelayReq (subTime t (inboundLatency r)) False (taken r b 54 np os)"
    using packetD(2) [OF assms(2)] assms(6) by (simp add: dispatch_def taken_def own_header_def ingress_def)
  show ?thesis
    using responses_packets [OF assms(1) tmp assms(2) template_identity [OF assms(3)] assms(4) refl] that unfolding h d by metis
qed

subsection \<open>The measurement\<close>

text \<open>A response is matched against the counter minus one, computed in \<^verbatim>\<open>int\<close>: never after a counter wraps to 0.\<close>

lemma isPrevious_next: "isPrevious (sq + 1) sq \<longleftrightarrow> sq \<noteq> 0xFFFF"
proof (cases "sq = 0xFFFF")
  case True then show ?thesis by (simp add: isPrevious_def)
next
  case False
  then have "uint sq \<noteq> 65535" by (auto simp: word_uint_eq_iff)
  moreover have "uint sq < 65536" using uint_bounded [of sq] by simp
  ultimately have "uint (sq + 1) = uint sq + 1" by (simp add: uint_plus_if' )
  then show ?thesis using False by (simp add: isPrevious_def)
qed

lemma taken_identity:
  "packet m b ty len sq ts \<Longrightarrow> no_mail c \<Longrightarrow> n = 54 \<Longrightarrow>
    getPortIdentity44 (put_bytes (msgIbuf c) 0 (take n b)) = getPortIdentity44 b"
  by (simp add: getPortIdentity44_def get16_def get_bytes_front packet_def no_mail_def PACKET_SIZE_def CLOCK_IDENTITY_LENGTH_def)

lemma response_taken:
  assumes "packet r b PDELAY_RESP PDELAY_RESP_LENGTH sq (fromInternalTime u e)" and "getPortIdentity44 b = portIdentity (portDS c)"
    and "hears c r" and "twoStepFlag (defaultDS r)" and "no_mail c" and "delayMechanism (portDS c) = P2P"
    and "portState (portDS c) \<in> {PTP_MASTER, PTP_SLAVE}" and "sentPDelayReqSequenceId c = sq + 1"
    and "carries p (take 54 b) t" and "toInternalTime (uninit_time c) (fromInternalTime u e) = u"
  obtains np os tmp where "empty_path np"
    "handle (netRecvEventCallback p c) =
      (if sq = 0xFFFF then (taken c b 54 np os)\<lparr>msgTmp := tmp\<rparr>
       else (taken c b 54 np os)\<lparr>msgTmp := tmp, waitingForPDelayRespFollowUp := True, pdelay_t4 := ingress c t, pdelay_t2 := u,
              correctionField_pDelayResp := TimeInternal_zero\<rparr>)"
proof -
  have n: "44 \<le> (54 :: nat)" "54 \<le> PACKET_SIZE" by (simp_all add: PACKET_SIZE_def)
  obtain np os where np: "empty_path np" and h: "handle (netRecvEventCallback p c) = dispatch (ingress c t) False (taken c b 54 np os)"
    using message_taken [OF assms(1,3,5,9) n] .
  define tmp where "tmp = (msgTmp c)\<lparr>presp := \<lparr>requestReceiptTimestamp = fromInternalTime u e, presp_requestingPortIdentity = portIdentity (portDS c)\<rparr>\<rparr>"
  have pr: "msgUnpackPDelayResp (put_bytes (msgIbuf c) 0 (take 54 b))
      = \<lparr>requestReceiptTimestamp = fromInternalTime u e, presp_requestingPortIdentity = portIdentity (portDS c)\<rparr>"
    using taken_timestamp [OF assms(1,5) n] taken_identity [OF assms(1,5) refl] assms(2) by (simp add: msgUnpackPDelayResp_def)
  have self: "isSamePortIdentity (portIdentity (portDS c)) (portIdentity (portDS c))"
    by (simp add: isSamePortIdentity_def memcmp_def)
  have "handle (netRecvEventCallback p c) =
      (if sq = 0xFFFF then (taken c b 54 np os)\<lparr>msgTmp := tmp\<rparr>
       else (taken c b 54 np os)\<lparr>msgTmp := tmp, waitingForPDelayRespFollowUp := True, pdelay_t4 := ingress c t, pdelay_t2 := u,
              correctionField_pDelayResp := TimeInternal_zero\<rparr>)"
    using assms(6-8,10) packetD(2-4) [OF assms(1)] two_step_flag [OF packetD(2) [OF assms(1)] assms(4)] self isPrevious_next [of sq]
    unfolding h by (auto simp: dispatch_def handlePDelayResp_def taken_def own_header_def pr tmp_def length_consts
        zero_correction Let_def)
  with np show ?thesis by (rule that)
qed

lemma peer_measured:
  "peerMeanPathDelay (portDS (updatePeerDelay c corr True)) = smoothed (owd_filt c) (raw_peer_delay c corr True)"
  by (simp add: updatePeerDelay_def raw_peer_delay_def smoothed_def Let_def split_beta)

lemma peer_follow_up_taken:
  assumes "packet r b PDELAY_RESP_FOLLOW_UP PDELAY_RESP_FOLLOW_UP_LENGTH sq (fromInternalTime u e)"
    and "hears c r" and "no_mail c" and "delayMechanism (portDS c) = P2P"
    and "portState (portDS c) \<in> {PTP_MASTER, PTP_SLAVE}" and "sentPDelayReqSequenceId c = sq + 1"
    and "carries p (take 54 b) t" and "toInternalTime (uninit_time c) (fromInternalTime u e) = u"
  shows "peerMeanPathDelay (portDS (handle (netRecvGeneralCallback p c))) =
    (if sq \<noteq> 0xFFFF \<and> waitingForPDelayRespFollowUp c
     then smoothed (owd_filt c) (raw_peer_delay (c\<lparr>pdelay_t3 := u\<rparr>) (addTime TimeInternal_zero (correctionField_pDelayResp c)) True)
     else peerMeanPathDelay (portDS c))"
proof -
  have n: "44 \<le> (54 :: nat)" "54 \<le> PACKET_SIZE" by (simp_all add: PACKET_SIZE_def)
  obtain np os where h: "handle (netRecvGeneralCallback p c) = dispatch (ingress c t) False (taken c b 54 np os)"
    using general_taken [OF assms(1-3,7) n] .
  have pr: "responseOriginTimestamp (msgUnpackPDelayRespFollowUp (put_bytes (msgIbuf c) 0 (take 54 b))) = fromInternalTime u e"
    using taken_timestamp [OF assms(1,3) n] by (simp add: msgUnpackPDelayRespFollowUp_def)
  show ?thesis
    using assms(4-6,8) packetD(2-4) [OF assms(1)] isPrevious_next [of sq]
    unfolding h by (auto simp: dispatch_def handlePDelayRespFollowUp_def taken_def own_header_def pr length_consts
        zero_correction Let_def peer_measured raw_peer_delay_def)
qed

text \<open>Four times that fit: the two that travel in messages are not negative, and nothing overflows.\<close>

definition sendable :: "TimeInternal \<Rightarrow> bool" where
  "sendable t \<longleftrightarrow> 0 \<le> seconds t \<and> seconds t < INT_MAX \<and> 0 \<le> nanoseconds t \<and> nanoseconds t \<le> INT_MAX"

definition four_times :: "TimeInternal \<Rightarrow> TimeInternal \<Rightarrow> TimeInternal \<Rightarrow> TimeInternal \<Rightarrow> bool" where
  "four_times t1 t2 t3 t4 \<longleftrightarrow> sendable t2 \<and> sendable t3 \<and> sub_in_range t2 t1 \<and> sub_in_range t4 t3
     \<and> add_in_range (subTime t2 t1) (subTime t4 t3) \<and> \<bar>seconds (addTime (subTime t2 t1) (subTime t4 t3))\<bar> < 2147483640"

lemma sub_zero: "normal_time x \<Longrightarrow> \<bar>seconds x\<bar> < 2147483640 \<Longrightarrow> sub_in_range x TimeInternal_zero \<and> subTime x TimeInternal_zero = x"
proof -
  assume x: "normal_time x" "\<bar>seconds x\<bar> < 2147483640"
  have r: "sub_in_range x TimeInternal_zero" using x by (simp add: sub_in_range_def normal_time_def TimeInternal_zero_def)
  have "tval (subTime x TimeInternal_zero) = tval x" "normal_time (subTime x TimeInternal_zero)"
    using subTime_exact_lemma [OF r] by (simp_all add: TimeInternal_zero_def)
  then have "seconds (subTime x TimeInternal_zero) = seconds x \<and> nanoseconds (subTime x TimeInternal_zero) = nanoseconds x"
    using normal_time_unique [OF _ x(1)] by simp
  then show ?thesis using r by (simp add: TimeInternal.equality)
qed

lemma peer_value:
  assumes "four_times (pdelay_t1 c) (pdelay_t2 c) (pdelay_t3 c) (pdelay_t4 c)"
  obtains D where "tval D = ((tval (pdelay_t2 c) - tval (pdelay_t1 c)) + (tval (pdelay_t4 c) - tval (pdelay_t3 c))) sdiv 2"
    and "D = raw_peer_delay c TimeInternal_zero True"
proof -
  let ?s = "addTime (subTime (pdelay_t2 c) (pdelay_t1 c)) (subTime (pdelay_t4 c) (pdelay_t3 c))"
  have "normal_time ?s" "\<bar>seconds ?s\<bar> < 2147483640" using assms addTime_exact_lemma by (auto simp: four_times_def)
  from sub_zero [OF this] have "peer_exact c TimeInternal_zero True"
    using assms by (simp add: peer_exact_def four_times_def Let_def)
  from updatePeerDelay_spec [OF this] show ?thesis
    using that by (simp add: TimeInternal_zero_def)
qed

text \<open>What the requester makes of an answer to the request it has just sent.\<close>

lemma answer_measured:
  assumes "requesting c" and "hears c r" and "twoStepFlag (defaultDS r)"
    and c1: "c1 = c\<lparr>hw_n := h, msgObuf := b, tx_n := k, outputs := os, sentPDelayReqSequenceId := sq + 1, pdelay_t1 := t1\<rparr>"
    and pr: "packet r b2 PDELAY_RESP PDELAY_RESP_LENGTH sq (fromInternalTime t2 e2)" "getPortIdentity44 b2 = portIdentity (portDS c)"
    and pf: "packet r b3 PDELAY_RESP_FOLLOW_UP PDELAY_RESP_FOLLOW_UP_LENGTH sq (fromInternalTime t3 e3)"
    and pk: "carries pk1 (take 54 b2) t4" "carries pk2 (take 54 b3) t5" and "0 < seconds t4"
    and ft: "four_times t1 t2 t3 (subTime t4 (inboundLatency c))"
  shows "\<exists>D. tval D = ((tval t2 - tval t1) + (tval (subTime t4 (inboundLatency c)) - tval t3)) sdiv 2
    \<and> peerMeanPathDelay (portDS (handle (netRecvGeneralCallback pk2 (handle (netRecvEventCallback pk1 c1)))))
      = (if sq = 0xFFFF then peerMeanPathDelay (portDS c) else smoothed (owd_filt c) D)"
proof -
  let ?t4 = "subTime t4 (inboundLatency c)"
  have hr: "hears c1 r" using assms(2) by (simp add: c1 hears_def)
  have st: "no_mail c1" "delayMechanism (portDS c1) = P2P" "portState (portDS c1) \<in> {PTP_MASTER, PTP_SLAVE}"
    "sentPDelayReqSequenceId c1 = sq + 1" "getPortIdentity44 b2 = portIdentity (portDS c1)"
    using assms(1) pr(2) by (simp_all add: c1 requesting_def no_mail_def)
  have rt: "toInternalTime x (fromInternalTime t2 y) = t2" "toInternalTime x (fromInternalTime t3 y) = t3" for x y
    using ft by (auto simp: four_times_def sendable_def intro!: sent_time)
  define e1 where "e1 = handle (netRecvEventCallback pk1 c1)"
  obtain np os tmp where np: "empty_path np" and d: "e1 =
      (if sq = 0xFFFF then (taken c1 b2 54 np os)\<lparr>msgTmp := tmp\<rparr>
       else (taken c1 b2 54 np os)\<lparr>msgTmp := tmp, waitingForPDelayRespFollowUp := True, pdelay_t4 := ingress c1 t4, pdelay_t2 := t2,
              correctionField_pDelayResp := TimeInternal_zero\<rparr>)"
    unfolding e1_def using response_taken [OF pr(1) st(5) hr assms(3) st(1-4) pk(1) rt(1)] .
  have e: "hears e1 r" "no_mail e1" "delayMechanism (portDS e1) = P2P" "portState (portDS e1) \<in> {PTP_MASTER, PTP_SLAVE}"
    "sentPDelayReqSequenceId e1 = sq + 1" "portDS e1 = portDS c" "owd_filt e1 = owd_filt c"
    using hr st np by (simp_all add: d taken_def hears_def no_mail_def c1)
  have f: "pdelay_t1 e1 = t1" "pdelay_t2 e1 = t2" "pdelay_t4 e1 = ?t4"
      "waitingForPDelayRespFollowUp e1" "correctionField_pDelayResp e1 = TimeInternal_zero" if "sq \<noteq> 0xFFFF"
    using that assms(10) by (simp_all add: d taken_def c1 ingress_def)
  note m = peer_follow_up_taken [OF pf e(1-5) pk(2) rt(2)]
  let ?c = "c\<lparr>pdelay_t1 := t1, pdelay_t2 := t2, pdelay_t3 := t3, pdelay_t4 := ?t4\<rparr>"
  define D where "D = raw_peer_delay ?c TimeInternal_zero True"
  have "tval D = ((tval t2 - tval t1) + (tval ?t4 - tval t3)) sdiv 2"
    using peer_value [of ?c] ft unfolding D_def by simp metis
  moreover have "sq \<noteq> 0xFFFF \<Longrightarrow> raw_peer_delay (e1\<lparr>pdelay_t3 := t3\<rparr>) TimeInternal_zero True = D"
    using f by (simp add: D_def raw_peer_delay_def)
  ultimately show ?thesis
    unfolding e1_def [symmetric] m using e(6,7) f(4,5) by (intro exI [of _ D]) (auto simp: zero_correction)
qed

text \<open>C5: the peer delay is measured end to end: the request a port sends, the response and the follow-up
  the other port answers with, and the receive time stamps \<open>t2\<close> and \<open>t4\<close> of the hardware leave in
  \<^verbatim>\<open>peerMeanPathDelay\<close> the filtered half of \<open>(t2 - t1) + (t4 - t3)\<close>, where \<open>t1\<close> and \<open>t3\<close> are the
  hardware times at which request and response left, all corrected by the latencies of the two ports.
  After the request with sequence id \<open>0xFFFF\<close> the answer is not recognised and the delay keeps its value.\<close>

theorem peer_delay_measured:
  assumes "requesting c" and "responding r c"
    and "outputs (issuePDelayReq c) = Sent PeerGroup PTP_EVENT_PORT rq # outputs c"
    and "carries pk rq t2" and "0 < seconds t2"
    and "outputs (handle (netRecvEventCallback pk r)) = Sent PeerGroup PTP_GENERAL_PORT fu # Sent PeerGroup PTP_EVENT_PORT rp # os"
    and "carries pk1 rp t4" and "0 < seconds t4" and "carries pk2 fu t5"
    and "four_times (egress c 0) (subTime t2 (inboundLatency r)) (egress r 0) (subTime t4 (inboundLatency c))"
  shows "\<exists>D. tval D = ((tval (subTime t2 (inboundLatency r)) - tval (egress c 0))
        + (tval (subTime t4 (inboundLatency c)) - tval (egress r 0))) sdiv 2
    \<and> peerMeanPathDelay (portDS (handle (netRecvGeneralCallback pk2 (handle (netRecvEventCallback pk1 (issuePDelayReq c))))))
      = (if sentPDelayReqSequenceId c = 0xFFFF then peerMeanPathDelay (portDS c) else smoothed (owd_filt c) D)"
proof -
  let ?sq = "sentPDelayReqSequenceId c" and ?t2 = "subTime t2 (inboundLatency r)" and ?t4 = "subTime t4 (inboundLatency c)"
  obtain b ts h where c': "issuePDelayReq c = c\<lparr>hw_n := h, msgObuf := b, tx_n := tx_n c + 1,
      outputs := Sent PeerGroup PTP_EVENT_PORT (take 54 b) # outputs c,
      sentPDelayReqSequenceId := ?sq + 1, pdelay_t1 := egress c 0\<rparr>" and q: "packet c b PDELAY_REQ PDELAY_REQ_LENGTH ?sq ts"
    using issuePDelayReq_packet [OF assms(1)] .
  have rq: "carries pk (take 54 b) t2" using assms(3,4) c' by simp
  have c: "template c (msgObuf c)" "twoStepFlag (defaultDS c)" using assms(1) by (simp_all add: requesting_def)
  obtain b2 b3 os' where o: "outputs (handle (netRecvEventCallback pk r)) =
      Sent PeerGroup PTP_GENERAL_PORT (take 54 b3) # Sent PeerGroup PTP_EVENT_PORT (take 54 b2) # os'"
    and pr: "packet r b2 PDELAY_RESP PDELAY_RESP_LENGTH ?sq (fromInternalTime ?t2 (uninit_ts r))"
      "getPortIdentity44 b2 = portIdentity (portDS c)"
    and pf: "packet r b3 PDELAY_RESP_FOLLOW_UP PDELAY_RESP_FOLLOW_UP_LENGTH ?sq (fromInternalTime (egress r 0) (uninit_ts r))"
    using request_answered [OF assms(2) q c rq assms(5)] .
  have pk: "carries pk1 (take 54 b2) t4" "carries pk2 (take 54 b3) t5" using o assms(6,7,9) by auto
  define c1 where "c1 = issuePDelayReq c"
  note c1 = c' [folded c1_def]
  have r: "hears c r" "twoStepFlag (defaultDS r)" using assms(2) by (simp_all add: responding_def)
  show ?thesis by (rule answer_measured [OF assms(1) r c' pr pf pk assms(8,10)])
qed

text \<open>Two ports, 250 nanoseconds apart in each direction.\<close>

definition sample_peer :: "Octet \<Rightarrow> clock" where
  "sample_peer k = (let p = (portDS sample_clock)\<lparr>portState := PTP_SLAVE, delayMechanism := P2P,
        portIdentity := \<lparr>clockIdentity = [0, 4, 163, 0xff, 0xfe, k, 9, 9], portNumber = 1\<rparr>\<rparr>
     in (power_up (\<lambda>_. 0) (\<lambda>_. 0) (\<lambda>_. tx_good))\<lparr>portDS := p, defaultDS := defaultDS sample_clock,
       msgObuf := msgPackHeader (sample_clock\<lparr>portDS := p\<rparr>) (replicate 300 0)\<rparr>)"

lemma sample_peer_simps:
  "template (sample_peer k) (msgObuf (sample_peer k))" "no_mail (sample_peer k)" "delayMechanism (portDS (sample_peer k)) = P2P"
  "portState (portDS (sample_peer k)) = PTP_SLAVE" "twoStepFlag (defaultDS (sample_peer k))" "tx_results (sample_peer k) = (\<lambda>_. tx_good)"
  "inboundLatency (sample_peer k) = TimeInternal_zero" "outboundLatency (sample_peer k) = TimeInternal_zero"
  "sentPDelayReqSequenceId (sample_peer k) = 0" "peerMeanPathDelay (portDS (sample_peer k)) = TimeInternal_zero"
  "uninit_ts (sample_peer k) = Timestamp_zero"
proof -
  define p where "p = (portDS sample_clock)\<lparr>portState := PTP_SLAVE, delayMechanism := P2P,
        portIdentity := \<lparr>clockIdentity = [0, 4, 163, 0xff, 0xfe, k, 9, 9], portNumber = 1\<rparr>\<rparr>"
  have "template (sample_clock\<lparr>portDS := p\<rparr>) (msgPackHeader (sample_clock\<lparr>portDS := p\<rparr>) (replicate 300 0))"
    by (rule msgPackHeader_template) (simp_all add: p_def PACKET_SIZE_def)
  then show "template (sample_peer k) (msgObuf (sample_peer k))"
    unfolding sample_peer_def p_def [symmetric] Let_def by (simp add: template_def)
  show "no_mail (sample_peer k)"
    by (simp add: sample_peer_def no_mail_def empty_path_def power_up_def PtpClock.defs PtpClock_zero_def NetPath_zero_def
        wf_queue_zero PACKET_SIZE_def Let_def) (simp add: queued_def BufQueue_zero_def)
qed (simp_all add: sample_peer_def sample_clock_def power_up_def PtpClock.defs PtpClock_zero_def DefaultDS_zero_def
    PortDS_zero_def TimeInternal_zero_def Let_def)

lemma sample_peers_hear: "j \<noteq> k \<Longrightarrow> hears (sample_peer j) (sample_peer k)"
  by (simp add: hears_def sample_peer_def sample_clock_def isSamePortIdentity_def memcmp_def CLOCK_IDENTITY_LENGTH_def Let_def)
    (simp add: word_uint_eq_iff)

lemma sample_times:
  "egress (sample_peer k) 0 = \<lparr>seconds = 100, nanoseconds = 500\<rparr>"
  "subTime \<lparr>seconds = 100, nanoseconds = 750\<rparr> TimeInternal_zero = \<lparr>seconds = 100, nanoseconds = 750\<rparr>"
  "four_times \<lparr>seconds = 100, nanoseconds = 500\<rparr> \<lparr>seconds = 100, nanoseconds = 750\<rparr>
    \<lparr>seconds = 100, nanoseconds = 500\<rparr> \<lparr>seconds = 100, nanoseconds = 750\<rparr>"
  by (simp_all add: egress_def sample_peer_simps tx_good_def addTime_def subTime_def normalizeTime_def TimeInternal_zero_def
      four_times_def sendable_def sub_in_range_def add_in_range_def normal_time_def INT_MAX_def sdiv_pos Let_def)

lemma sample_roles: "requesting (sample_peer 1)" "responding (sample_peer 2) (sample_peer 1)"
  using sample_peers_hear [of 1 2] sample_peers_hear [of 2 1]
  by (simp_all add: requesting_def responding_def sample_peer_simps sample_times sends_ok_def tx_good_def)

theorem peer_delay_measured_witness:
  "\<exists>pk1 pk2 D. tval D = 250 \<and> peerMeanPathDelay (portDS (handle (netRecvGeneralCallback pk2 (handle (netRecvEventCallback pk1
      (issuePDelayReq (sample_peer 1))))))) = smoothed (owd_filt (sample_peer 1)) D"
proof -
  let ?t = "\<lparr>seconds = 100, nanoseconds = 750\<rparr> :: TimeInternal"
  let ?p = "\<lambda>msg. \<lparr>pb_id = 0, payloads = [msg], time_sec = 100, time_nsec = 750\<rparr> :: pbuf"
  obtain b ts h where i: "issuePDelayReq (sample_peer 1) = (sample_peer 1)\<lparr>hw_n := h, msgObuf := b, tx_n := tx_n (sample_peer 1) + 1,
      outputs := Sent PeerGroup PTP_EVENT_PORT (take 54 b) # outputs (sample_peer 1),
      sentPDelayReqSequenceId := sentPDelayReqSequenceId (sample_peer 1) + 1, pdelay_t1 := egress (sample_peer 1) 0\<rparr>"
    and q2: "packet (sample_peer 1) b PDELAY_REQ PDELAY_REQ_LENGTH (sentPDelayReqSequenceId (sample_peer 1)) ts"
    using issuePDelayReq_packet [OF sample_roles(1)] .
  have q: "outputs (issuePDelayReq (sample_peer 1)) = Sent PeerGroup PTP_EVENT_PORT (take 54 b) # outputs (sample_peer 1)"
    unfolding i by simp
  have cp: "carries (?p (take 54 b)) (take 54 b) ?t" using packetD(1) [OF q2] by (auto simp: carries_def PACKET_SIZE_def)
  obtain b2 b3 os where o: "outputs (handle (netRecvEventCallback (?p (take 54 b)) (sample_peer 2))) =
      Sent PeerGroup PTP_GENERAL_PORT (take 54 b3) # Sent PeerGroup PTP_EVENT_PORT (take 54 b2) # os"
    and l: "packet (sample_peer 2) b2 PDELAY_RESP PDELAY_RESP_LENGTH (sentPDelayReqSequenceId (sample_peer 1))
        (fromInternalTime (subTime ?t (inboundLatency (sample_peer 2))) (uninit_ts (sample_peer 2)))"
      "packet (sample_peer 2) b3 PDELAY_RESP_FOLLOW_UP PDELAY_RESP_FOLLOW_UP_LENGTH (sentPDelayReqSequenceId (sample_peer 1))
        (fromInternalTime (egress (sample_peer 2) 0) (uninit_ts (sample_peer 2)))"
    by (rule request_answered [OF sample_roles(2) q2 sample_peer_simps(1) sample_peer_simps(5) cp]) simp_all
  have "carries (?p (take 54 b2)) (take 54 b2) ?t" "carries (?p (take 54 b3)) (take 54 b3) ?t"
    using packetD(1) [OF l(1)] packetD(1) [OF l(2)] by (auto simp: carries_def PACKET_SIZE_def)
  from peer_delay_measured [OF sample_roles q cp _ o this(1) _ this(2)] show ?thesis
    using sample_times by (auto simp: sample_peer_simps sdiv_pos)
qed

end
