(* ===== verification/Dev_Calendar.thy ===== *)
theory Dev_Calendar
  imports Ptp_Prelude
begin

text \<open>
  The calendar of the device: \<^verbatim>\<open>USER/LWIP_APP/mktime.c\<close> (\<^verbatim>\<open>calc_date_time\<close>, \<^verbatim>\<open>SecToTime\<close>,
  \<^verbatim>\<open>TimeToSec\<close>) and \<^verbatim>\<open>mktime\<close> of \<^verbatim>\<open>USER/LWIP_APP/timer.c\<close>, against a reference calendar that
  counts days.  The loop over the years is a partial function: its counter is unsigned and may
  wrap, and \<open>None\<close> is a loop that does not end.
\<close>

record DateTime =
  year :: UInteger16
  month :: UInteger8
  day :: UInteger8
  hour :: UInteger8
  minute :: UInteger8
  second :: UInteger8

definition SECS_PERDAY :: int where "SECS_PERDAY = 86400"
definition EPOCH :: int where "EPOCH = 1970"

subsection \<open>From seconds to a date\<close>

definition isLeap :: "int \<Rightarrow> bool" where
  "isLeap y \<longleftrightarrow> y mod 400 = 0 \<or> (y mod 100 \<noteq> 0 \<and> y mod 4 = 0)"

text \<open>One turn of the loop over the years, on \<open>(n, d, r, y)\<close>.\<close>

definition yearStep :: "64 word \<times> 64 word \<times> 16 word \<times> 16 word \<Rightarrow> 64 word \<times> 64 word \<times> 16 word \<times> 16 word" where
  "yearStep = (\<lambda>(n, d, r, y).
    if isLeap (EPOCH + uint r)
    then (n - word_of_int (SECS_PERDAY * 366), d + 366, r + 1, y + 1)
    else (n - word_of_int (SECS_PERDAY * 365), d + 365, r + 1, y + 1))"

definition yearGoesOn :: "64 word \<times> 64 word \<times> 16 word \<times> 16 word \<Rightarrow> bool" where
  "yearGoesOn = (\<lambda>(n, d, r, y). n \<ge> word_of_int (SECS_PERDAY * 365))"

partial_function (option) yearLoop ::
  "64 word \<times> 64 word \<times> 16 word \<times> 16 word \<Rightarrow> (64 word \<times> 64 word \<times> 16 word \<times> 16 word) option" where
  "yearLoop s = (if yearGoesOn s then yearLoop (yearStep s) else Some s)"

text \<open>
  The loop over the months, on the month, the days left (signed 64 bit) and the days passed; a
  \<^verbatim>\<open>break\<close> returns.  The month is an 8 bit counter that would wrap.
\<close>

definition monthLength :: "16 word \<Rightarrow> 8 word \<Rightarrow> int option" where
  "monthLength y yf =
    (if uint yf \<in> {1, 3, 5, 7, 8, 10, 12} then Some 31
     else if uint yf = 2 then Some (if isLeap (uint y) then 29 else 28)
     else if uint yf \<in> {4, 6, 9, 11} then Some 30
     else None)"

text \<open>The months 13 to 255 and 0 take nothing off, so the counter comes back to 1.\<close>

definition monthDistance :: "8 word \<Rightarrow> int" where
  "monthDistance yf = (if uint yf = 0 then 1 else if uint yf \<le> 12 then 0 else 257 - uint yf)"

lemma byte_range: "0 \<le> uint (w :: 8 word)" "uint w < 256"
  using uint_lt2p [of w] by simp_all

lemma uint_Suc8: "uint (yf + 1 :: 8 word) = (if uint yf = 255 then 0 else uint yf + 1)"
  using byte_range [of yf] by (simp add: uint_word_ariths mod_pos_pos_trivial)

lemma monthLength_None: "monthLength y yf = None \<longleftrightarrow> uint yf = 0 \<or> uint yf > 12"
proof -
  have "k = 0 \<or> k > 12 \<or> k \<in> {1, 3, 5, 7, 8, 10, 12} \<or> k = 2 \<or> k \<in> {4, 6, 9, 11}" if "0 \<le> k" for k :: int
    using that unfolding insert_iff empty_iff by presburger
  from this [OF byte_range(1)] show ?thesis by (auto simp: monthLength_def)
qed

lemma monthLength_Some: "monthLength y yf = Some m \<Longrightarrow> 28 \<le> m \<and> m \<le> 31"
  by (auto simp: monthLength_def split: if_splits)

lemma monthDistance_range: "0 \<le> monthDistance yf" "monthDistance yf \<le> 244"
  using byte_range [of yf] by (simp_all add: monthDistance_def)

function monthLoop :: "16 word \<Rightarrow> 8 word \<Rightarrow> int \<Rightarrow> 64 word \<Rightarrow> 8 word \<times> int \<times> 64 word" where
  "monthLoop y yf yd rz =
    (if yd < 28 then (yf, yd, rz)
     else case monthLength y yf of
       None \<Rightarrow> monthLoop y (yf + 1) yd rz
     | Some m \<Rightarrow>
         if yd - m < 0 then (yf, yd - m, rz)
         else monthLoop y (yf + 1) (yd - m) (rz + word_of_int m))"
  by auto

termination
proof (relation "measure (\<lambda>(y, yf, yd, rz). nat (yd * 10 + monthDistance yf))")
  fix y yf yd and rz :: "64 word"
  assume a: "\<not> yd < (28 :: int)" "monthLength y yf = None"
  have "monthDistance (yf + 1) < monthDistance yf"
    using a(2) byte_range [of yf] unfolding monthDistance_def monthLength_None uint_Suc8 by auto
  then show "((y, yf + 1, yd, rz), y, yf, yd, rz) \<in> measure (\<lambda>(y, yf, yd, rz). nat (yd * 10 + monthDistance yf))"
    using a(1) monthDistance_range [of yf] by simp
next
  fix y yf yd m and rz :: "64 word"
  assume a: "\<not> yd < (28 :: int)" "monthLength y yf = Some m" "\<not> yd - m < 0"
  then show "((y, yf + 1, yd - m, rz + word_of_int m), y, yf, yd, rz)
      \<in> measure (\<lambda>(y, yf, yd, rz). nat (yd * 10 + monthDistance yf))"
    using monthLength_Some [OF a(2)] monthDistance_range [of "yf + 1"] monthDistance_range [of yf] by simp
qed simp

text \<open>The date of a count of seconds since 1970.\<close>

definition calc_date_time :: "UInteger32 \<Rightarrow> DateTime option" where
  "calc_date_time seconds =
    (let n = word_of_int (uint seconds);
         total_d = word_of_int (uint seconds div SECS_PERDAY)
     in case yearLoop (n, 0, 0, 0) of
       None \<Rightarrow> None
     | Some (n, d, r, y) \<Rightarrow>
         let y = y + word_of_int EPOCH;
             yd = sint (total_d - d);
             (yf, yd, rz) = monthLoop y 1 yd 0;
             yr = (ucast (total_d - d - rz) :: 16 word) + 1;
             seconds = uint seconds mod SECS_PERDAY
         in Some \<lparr>year = y, month = yf, day = ucast yr, hour = word_of_int (seconds div 3600),
                  minute = word_of_int (seconds mod 3600 div 60),
                  second = word_of_int (seconds mod 3600 mod 60)\<rparr>)"

definition UTC :: "8 word" where "UTC = 21"
definition CST :: "8 word" where "CST = 39"

text \<open>The offset of a time zone, the switch of \<^verbatim>\<open>SecToTime\<close>: hours and minutes per case.\<close>

definition zoneOffsets :: "(int \<times> int) list" where
  "zoneOffsets =
    [(-12, 0), (-11, 0), (-10, 0), (-9, -30), (-9, 0), (-8, 0), (-8, 0), (-7, 0), (-7, 0), (-6, 0),
     (-6, 0), (-5, 0), (-5, 0), (-5, 0), (-4, -30), (-4, 0), (-4, 0), (-3, -30), (-3, 0), (-2, 0),
     (-1, 0), (0, 0), (0, 0), (1, 0), (1, 0), (1, 0), (2, 0), (2, 0), (3, 0), (3, 0),
     (3, 30), (4, 0), (4, 30), (5, 0), (5, 30), (5, 45), (6, 0), (6, 30), (7, 0), (8, 0),
     (9, 0), (9, 30), (10, 0), (10, 30), (11, 0), (11, 30), (12, 0), (12, 45), (13, 0), (14, 0)]"

definition zoneSeconds :: "8 word \<Rightarrow> int" where
  "zoneSeconds tz =
    (if unat tz < length zoneOffsets
     then let (h, m) = zoneOffsets ! unat tz in h * 3600 + m * 60 else 0)"

definition SecToTime :: "UInteger32 \<Rightarrow> 8 word \<Rightarrow> DateTime option" where
  "SecToTime seconds time_zone = calc_date_time (seconds + word_of_int (zoneSeconds time_zone))"

lemma SecToTime_UTC: "SecToTime seconds UTC = calc_date_time seconds"
  by (simp add: SecToTime_def zoneSeconds_def zoneOffsets_def UTC_def)

subsection \<open>From a date to seconds\<close>

text \<open>
  \<^verbatim>\<open>TimeToSec\<close>: the test \<^verbatim>\<open>0 >= (int) (tmp->month -= 2)\<close> converts an unsigned 8 bit month.
\<close>

definition TimeToSec :: "DateTime \<Rightarrow> UInteger32" where
  "TimeToSec p =
    (let p = p\<lparr>month := month p - 2\<rparr>;
         p = (if 0 \<ge> uint (month p) then p\<lparr>month := month p + 12, year := year p - 1\<rparr> else p);
         y = uint (year p)
     in (((word_of_int (y div 4 - y div 100 + y div 400 + 367 * uint (month p) div 12 + uint (day p))
           + word_of_int (y * 365) - 719499
          ) * 24 + word_of_int (uint (hour p))
         ) * 60 + word_of_int (uint (minute p))
        ) * 60 + word_of_int (uint (second p)))"

text \<open>\<^verbatim>\<open>mktime\<close> of \<^verbatim>\<open>timer.c\<close>: the month is a signed int, everything else unsigned.\<close>

definition mktime :: "UInteger32 \<Rightarrow> Integer32 \<Rightarrow> UInteger32 \<Rightarrow> UInteger32 \<Rightarrow> UInteger32 \<Rightarrow> UInteger32 \<Rightarrow> UInteger32" where
  "mktime y mon d h mi s =
    (let mon = i32 (mon - 2);
         (mon, y) = (if 0 \<ge> mon then (i32 (mon + 12), y - 1) else (mon, y))
     in (((y div 4 - y div 100 + y div 400 + word_of_int (i32 (367 * mon) sdiv 12) + d + y * 365 - 719499
          ) * 24 + h
         ) * 60 + mi
        ) * 60 + s)"

subsection \<open>The reference calendar\<close>

text \<open>Days from 1970-01-01 to the first of January of the year \<open>1970 + k\<close>, and to the month \<open>m\<close> in a year.\<close>

fun yearDays :: "nat \<Rightarrow> int" where
  "yearDays 0 = 0"
| "yearDays (Suc k) = yearDays k + (if isLeap (1970 + int k) then 366 else 365)"

fun monthDays :: "int \<Rightarrow> nat \<Rightarrow> int" where
  "monthDays y 0 = 0"
| "monthDays y (Suc m) = monthDays y m +
    (if m + 1 = 2 then (if isLeap y then 29 else 28) else if m + 1 \<in> {4, 6, 9, 11} then 30 else 31)"

definition validDate :: "DateTime \<Rightarrow> bool" where
  "validDate t \<longleftrightarrow> 1970 \<le> uint (year t) \<and> 1 \<le> uint (month t) \<and> uint (month t) \<le> 12 \<and> 1 \<le> uint (day t)
    \<and> uint (day t) \<le> monthDays (uint (year t)) (unat (month t)) - monthDays (uint (year t)) (unat (month t) - 1)
    \<and> uint (hour t) < 24 \<and> uint (minute t) < 60 \<and> uint (second t) < 60"

definition secondsOf :: "DateTime \<Rightarrow> int" where
  "secondsOf t = (yearDays (unat (year t) - 1970) + monthDays (uint (year t)) (unat (month t) - 1) + uint (day t) - 1) * 86400
    + uint (hour t) * 3600 + uint (minute t) * 60 + uint (second t)"

definition leaps :: "int \<Rightarrow> int" where
  "leaps y = y div 4 - y div 100 + y div 400"

lemma div_next:
  fixes n :: int
  assumes "1 < n"
  shows "(y + 1) div n = y div n + (if (y + 1) mod n = 0 then 1 else 0)"
proof -
  define q r where "q = y div n" and "r = y mod n"
  have y: "y = n * q + r" and r: "0 \<le> r" "r < n" using assms by (simp_all add: q_def r_def)
  show ?thesis
  proof (cases "r + 1 = n")
    case True
    then have e: "y + 1 = n * (q + 1) + 0" using y by (simp add: algebra_simps)
    have "(y + 1) div n = q + 1" "(y + 1) mod n = 0"
      using int_div_pos_eq [OF e] int_mod_pos_eq [OF e] assms by simp_all
    then show ?thesis by (simp add: q_def)
  next
    case False
    have e: "y + 1 = n * q + (r + 1)" using y by simp
    have "(y + 1) div n = q" "(y + 1) mod n = r + 1"
      using int_div_pos_eq [OF e] int_mod_pos_eq [OF e] r False by simp_all
    then show ?thesis using r by (simp add: q_def)
  qed
qed

lemma sum_steps: "a' = a + x \<Longrightarrow> b' = b + y \<Longrightarrow> c' = c + z \<Longrightarrow> a' - b' + c' = a - b + c + x - y + z" for a :: int
  by simp

lemma leaps_step: "leaps (y + 1) = leaps y + (if isLeap (y + 1) then 1 else 0)"
proof -
  define a b c where "a \<longleftrightarrow> (y + 1) mod 4 = 0" and "b \<longleftrightarrow> (y + 1) mod 100 = 0" and "c \<longleftrightarrow> (y + 1) mod 400 = 0"
  have "c \<Longrightarrow> b" unfolding b_def c_def mod_eq_0_iff_dvd by (rule dvd_trans [of 100 400]) simp_all
  moreover have "b \<Longrightarrow> a" unfolding a_def b_def mod_eq_0_iff_dvd by (rule dvd_trans [of 4 100]) simp_all
  moreover have "leaps (y + 1) = leaps y + (if a then 1 else 0) - (if b then 1 else 0) + (if c then 1 else 0)"
    unfolding leaps_def a_def b_def c_def by (rule sum_steps; rule div_next; simp)
  moreover have "isLeap (y + 1) \<longleftrightarrow> c \<or> (\<not> b \<and> a)" unfolding isLeap_def a_def b_def c_def ..
  ultimately show ?thesis by (cases a; cases b; cases c) simp_all
qed

lemma yearDays_leaps: "yearDays k = 365 * int k + leaps (1969 + int k) - 477"
proof (induction k)
  case 0 show ?case by (simp add: leaps_def)
next
  case (Suc k)
  then show ?case using leaps_step [of "1969 + int k"] by (simp add: algebra_simps)
qed

lemma month_cases: "1 \<le> m \<Longrightarrow> m \<le> 12 \<Longrightarrow> m \<in> {1, 2, 3, 4, 5, 6, 7, 8, 9, 10, 11, 12 :: nat}"
  unfolding insert_iff empty_iff by presburger

lemma monthDays_simps:
  "monthDays y 1 = 31" "monthDays y 2 = 59 + (if isLeap y then 1 else 0)" "monthDays y 3 = 90 + (if isLeap y then 1 else 0)"
  "monthDays y 4 = 120 + (if isLeap y then 1 else 0)" "monthDays y 5 = 151 + (if isLeap y then 1 else 0)"
  "monthDays y 6 = 181 + (if isLeap y then 1 else 0)" "monthDays y 7 = 212 + (if isLeap y then 1 else 0)"
  "monthDays y 8 = 243 + (if isLeap y then 1 else 0)" "monthDays y 9 = 273 + (if isLeap y then 1 else 0)"
  "monthDays y 10 = 304 + (if isLeap y then 1 else 0)" "monthDays y 11 = 334 + (if isLeap y then 1 else 0)"
  "monthDays y 12 = 365 + (if isLeap y then 1 else 0)"
  by (simp_all add: eval_nat_numeral)

text \<open>The formula of \<^verbatim>\<open>mktime\<close> counts the days of the reference calendar.\<close>

lemma civil_days:
  assumes "1970 \<le> y" and "1 \<le> m" and "m \<le> 12"
  shows "(if m \<le> 2 then leaps (y - 1) + 367 * (int m + 10) div 12 + 365 * (y - 1)
      else leaps y + 367 * (int m - 2) div 12 + 365 * y) - 719499
    = yearDays (nat (y - 1970)) + monthDays y (m - 1) - 1"
proof -
  have y: "yearDays (nat (y - 1970)) = 365 * y + leaps (y - 1) - 719527"
    using assms(1) by (simp add: yearDays_leaps algebra_simps)
  have l: "leaps y = leaps (y - 1) + (if isLeap y then 1 else 0)" using leaps_step [of "y - 1"] by simp
  show ?thesis
    using month_cases [OF assms(2,3)] unfolding y by (auto simp: l monthDays_simps)
qed

lemma mktime_days:
  assumes "1970 \<le> uint y" and "uint y < 65536" and "1 \<le> m" and "m \<le> 12"
  shows "mktime y (int m) d h mi s =
    word_of_int ((yearDays (nat (uint y - 1970)) + monthDays (uint y) (m - 1) + uint d - 1) * 86400 + uint h * 3600 + uint mi * 60 + uint s)"
proof -
  have w: "(y :: 32 word) div 4 = word_of_int (uint y div 4)" "y div 100 = word_of_int (uint y div 100)"
    "y div 400 = word_of_int (uint y div 400)" for y by (simp_all add: word_div_def)
  have yl: "y - 1 = word_of_int (uint y - 1)" "uint (y - 1) = uint y - 1"
    using assms(1) by (simp_all add: uint_sub_if' word_le_def)
  define Y where "Y = uint y"
  have y: "y = word_of_int Y" "uint (word_of_int Y :: 32 word) = Y" "uint (word_of_int Y - 1 :: 32 word) = Y - 1"
    using yl(2) by (simp_all add: Y_def)
  have d: "z = word_of_int (uint z)" for z :: "32 word" by simp
  define e where "e = (if m \<le> 2 then leaps (Y - 1) + 367 * (int m + 10) div 12 + 365 * (Y - 1)
      else leaps Y + 367 * (int m - 2) div 12 + 365 * Y) - 719499"
  have e: "e = yearDays (nat (uint y - 1970)) + monthDays (uint y) (m - 1) - 1"
    unfolding e_def Y_def by (rule civil_days [OF assms(1,3,4)])
  have "mktime y (int m) d h mi s = word_of_int (((e + uint d) * 24 + uint h) * 3600 + uint mi * 60 + uint s)"
    using assms(3,4) by (cases "m \<le> 2") (simp_all add: mktime_def Let_def w y leaps_def sdiv_pos e_def algebra_simps)
  then show ?thesis unfolding e by (simp add: algebra_simps)
qed

lemma unat_byte: "unat (w :: 8 word) = nat (uint w)" by simp

lemma valid_range:
  assumes "validDate t"
  shows "1970 \<le> uint (year t)" "1 \<le> uint (month t)" "uint (month t) \<le> 12" "1 \<le> unat (month t)" "unat (month t) \<le> 12"
    "int (unat (month t)) = uint (month t)" "uint (year t) < 65536"
proof -
  show m: "1970 \<le> uint (year t)" "1 \<le> uint (month t)" "uint (month t) \<le> 12" using assms unfolding validDate_def by blast+
  have "int 1 \<le> int (unat (month t))" "int (unat (month t)) \<le> int 12" using m by simp_all
  then show "1 \<le> unat (month t)" "unat (month t) \<le> 12" unfolding zle_int by blast+
  show "int (unat (month t)) = uint (month t)" by simp
  show "uint (year t) < 65536" using uint_lt2p [of "year t"] by simp
qed

lemma uint_widen: "uint (ucast b :: 32 word) = uint b" for b :: "8 word"
  by (simp add: uint_up_ucast is_up)

lemma uint_widen_year: "uint (ucast y :: 32 word) = uint y" for y :: "16 word"
  by (simp add: uint_up_ucast is_up)

lemma mktime_secondsOf:
  assumes "validDate t"
  shows "mktime (ucast (year t)) (uint (month t)) (ucast (day t)) (ucast (hour t)) (ucast (minute t)) (ucast (second t))
    = word_of_int (secondsOf t)"
proof -
  note r = valid_range [OF assms]
  have u: "nat (uint (year t) - 1970) = unat (year t) - 1970" using r(1) by (simp add: nat_diff_distrib)
  note e = mktime_days [of "ucast (year t)" "unat (month t)", unfolded uint_widen_year, OF r(1,7,4,5), unfolded r(6) u]
  show ?thesis by (simp only: e uint_widen secondsOf_def)
qed

lemma TimeToSec_formula:
  assumes "validDate t"
  shows "TimeToSec t = word_of_int ((((if uint (month t) = 2 then leaps (uint (year t) - 1) + 367 * 12 div 12 + 365 * (uint (year t) - 1)
      else leaps (uint (year t)) + 367 * uint (month t - 2) div 12 + 365 * uint (year t)) - 719499 + uint (day t)) * 24 + uint (hour t)) * 3600
      + uint (minute t) * 60 + uint (second t))"
proof -
  note r = valid_range [OF assms]
  have m: "uint (month t - 2) = (if uint (month t) = 1 then 255 else uint (month t) - 2)"
    using r(2,3) by (simp add: uint_word_ariths)
  have z: "month t - 2 + 12 = 12" if "uint (month t - 2) = 0" using that by (simp add: uint_0_iff)
  have y: "uint (year t - 1) = uint (year t) - 1"
    using r(1,7) by (simp add: uint_word_ariths mod_pos_pos_trivial)
  then have "word_of_int (uint (year t - 1)) = (word_of_int (uint (year t)) - 1 :: 32 word)" by simp
  then have y32: "ucast (year t - 1) = (ucast (year t) - 1 :: 32 word)" by simp
  have y8: "uint (12 :: 8 word) = 12" by simp
  show ?thesis
  proof (cases "uint (month t) = 2")
    case True
    then have "uint (month t - 2) = 0" using m by simp
    with z [OF this] True y8 show ?thesis by (simp add: TimeToSec_def Let_def y y32 leaps_def algebra_simps)
  next
    case False
    then have "\<not> 0 \<ge> uint (month t - 2)" using m r(2,3) by (auto split: if_splits)
    with False show ?thesis by (simp add: TimeToSec_def Let_def leaps_def algebra_simps)
  qed
qed

lemma TimeToSec_secondsOf:
  assumes "validDate t"
  shows "TimeToSec t = word_of_int (secondsOf t
    + (if uint (month t) = 1 then (if isLeap (uint (year t)) then 7828 else 7827) * 86400 else 0))"
proof -
  note r = valid_range [OF assms]
  have u: "nat (uint (year t) - 1970) = unat (year t) - 1970" using r(1) by (simp add: nat_diff_distrib)
  have m: "uint (month t - 2) = (if uint (month t) = 1 then 255 else uint (month t) - 2)"
    using r(2,3) by (simp add: uint_word_ariths)
  define y where "y = uint (year t)"
  note c = civil_days [OF r(1,4,5), unfolded r(6) u, folded y_def]
  have l: "leaps y = leaps (y - 1) + (if isLeap y then 1 else 0)" using leaps_step [of "y - 1"] by simp
  have nat: "unat (month t) \<le> 2 \<longleftrightarrow> uint (month t) \<le> 2" using r(6) by linarith
  define f where "f = (if uint (month t) = 2 then leaps (y - 1) + 367 * 12 div 12 + 365 * (y - 1)
      else leaps y + 367 * uint (month t - 2) div 12 + 365 * y) - 719499"
  have "f = yearDays (unat (year t) - 1970) + monthDays y (unat (month t) - 1) - 1
      + (if uint (month t) = 1 then (if isLeap y then 7828 else 7827) else 0)"
  proof -
    consider "uint (month t) = 1" | "uint (month t) = 2" | "uint (month t) > 2" using r(2) by linarith
    then show ?thesis
    proof cases
      case 1 then show ?thesis using c unfolding f_def m nat by (simp add: l)
    next
      case 2 then show ?thesis using c unfolding f_def m nat by simp
    next
      case 3 then show ?thesis using c unfolding f_def m nat by simp
    qed
  qed
  with TimeToSec_formula [OF assms, folded y_def, folded f_def]
  show ?thesis unfolding secondsOf_def y_def [symmetric] by (simp add: algebra_simps)
qed

subsection \<open>The loop over the years\<close>

lemma yearDays_mono: "k \<le> l \<Longrightarrow> yearDays k \<le> yearDays l"
  by (rule lift_Suc_mono_le [of yearDays]) simp_all

lemma yearDays_nonneg: "0 \<le> yearDays k"
  using yearDays_mono [of 0 k] by simp

definition yearState :: "int \<Rightarrow> nat \<Rightarrow> 64 word \<times> 64 word \<times> 16 word \<times> 16 word" where
  "yearState s k = (word_of_int (s - yearDays k * 86400), word_of_int (yearDays k), of_nat k, of_nat k)"

lemma yearStep_state: "k < 65536 \<Longrightarrow> yearStep (yearState s k) = yearState s (Suc k)"
proof -
  assume "k < 65536"
  then have r: "uint (of_nat k :: 16 word) = int k" by (simp add: uint_nat unat_of_nat)
  show ?thesis by (simp add: yearStep_def yearState_def r EPOCH_def SECS_PERDAY_def algebra_simps)
qed

lemma yearGoesOn_state:
  assumes "0 \<le> s - yearDays k * 86400" and "s < 4294967296"
  shows "yearGoesOn (yearState s k) \<longleftrightarrow> 365 * 86400 \<le> s - yearDays k * 86400"
proof -
  have "s - yearDays k * 86400 < 18446744073709551616" using assms(2) yearDays_nonneg [of k] by linarith
  then have "uint (word_of_int (s - yearDays k * 86400) :: 64 word) = s - yearDays k * 86400"
    using assms(1) by (subst uint_word_of_int) (simp add: mod_pos_pos_trivial)
  then show ?thesis by (simp add: yearGoesOn_def yearState_def word_le_def SECS_PERDAY_def)
qed

lemma yearLoop_state:
  assumes "yearDays K * 86400 \<le> s" and "s - yearDays K * 86400 < 365 * 86400" and "s < 4294967296" and "K < 65536" and "k \<le> K"
  shows "yearLoop (yearState s k) = Some (yearState s K)"
  using assms(5)
proof (induction "K - k" arbitrary: k)
  case 0
  then have "k = K" by simp
  then show ?case using yearGoesOn_state [of s K] assms by (subst yearLoop.simps) simp
next
  case (Suc n)
  then have k: "Suc k \<le> K" "n = K - Suc k" by simp_all
  have "yearDays (Suc k) \<le> yearDays K" by (rule yearDays_mono) (rule k)
  then have "365 * 86400 \<le> s - yearDays k * 86400" using assms(1) by (simp split: if_splits)
  then have "yearGoesOn (yearState s k)" using yearGoesOn_state [of s k] assms(3) by simp
  then show ?case
    using Suc.hyps(1) [OF k(2,1)] yearStep_state [of k s] k(1) assms(4) by (subst yearLoop.simps) simp
qed

lemma year_of:
  assumes "0 \<le> s" and "s < yearDays n * 86400"
  shows "\<exists>K<n. yearDays K * 86400 \<le> s \<and> s < yearDays (Suc K) * 86400"
  using assms(2)
proof (induction n)
  case (Suc n)
  show ?case
  proof (cases "s < yearDays n * 86400")
    case True
    with Suc.IH show ?thesis using less_SucI by blast
  next
    case False
    with Suc.prems show ?thesis by (intro exI [of _ n]) simp
  qed
qed (use assms(1) in simp)

subsection \<open>The loop over the months\<close>

lemma monthLength_state:
  assumes "1 \<le> m" and "m \<le> 12"
  shows "monthLength y (of_nat m) = Some (monthDays (uint y) m - monthDays (uint y) (m - 1))"
proof -
  have m: "uint (of_nat m :: 8 word) = int m" using assms by (simp add: uint_nat unat_of_nat)
  show ?thesis using month_cases [OF assms] unfolding monthLength_def m
    by (elim insertE emptyE) (simp_all add: monthDays_simps)
qed

lemma monthDays_lengths:
  assumes "1 \<le> m" and "m \<le> 12"
  shows "28 \<le> monthDays y m - monthDays y (m - 1)" "monthDays y m - monthDays y (m - 1) \<le> 31"
  using month_cases [OF assms] by (elim insertE emptyE, simp_all add: monthDays_simps)+

lemma monthLoop_state:
  assumes "D < monthDays (uint y) 12" and "1 \<le> m" and "m \<le> 12" and "monthDays (uint y) (m - 1) \<le> D"
  shows "\<exists>M yd. monthLoop y (of_nat m) (D - monthDays (uint y) (m - 1)) (word_of_int (monthDays (uint y) (m - 1)))
      = (of_nat M, yd, word_of_int (monthDays (uint y) (M - 1)))
    \<and> 1 \<le> M \<and> M \<le> 12 \<and> monthDays (uint y) (M - 1) \<le> D \<and> D < monthDays (uint y) M"
  using assms(2-4)
proof (induction "12 - m" arbitrary: m)
  case 0
  then have m: "m = 12" by simp
  note l = monthLength_state [OF 0(2,3)] and d = monthDays_lengths [OF 0(2,3), of "uint y"]
  show ?case
    using assms(1) 0 l d unfolding m by (subst monthLoop.simps) (auto simp: intro!: exI [of _ 12])
next
  case (Suc n)
  then have m: "1 \<le> Suc m" "Suc m \<le> 12" "n = 12 - Suc m" by simp_all
  note l = monthLength_state [OF Suc(3,4)] and d = monthDays_lengths [OF Suc(3,4), of "uint y"]
  let ?b = "monthDays (uint y) (m - 1)" and ?e = "monthDays (uint y) m"
  show ?case
  proof (cases "D < ?e")
    case True
    then show ?thesis using Suc(3,4,5) l d by (subst monthLoop.simps) (auto intro!: exI [of _ m])
  next
    case False
    then have e: "?e \<le> D" by simp
    have "monthLoop y (of_nat m) (D - ?b) (word_of_int ?b) = monthLoop y (of_nat (Suc m)) (D - ?e) (word_of_int ?e)"
      using l d e by (subst monthLoop.simps) (simp add: add.commute)
    then show ?thesis using Suc(1) [OF m(3,1,2)] e by simp
  qed
qed

subsection \<open>The conversion\<close>

text \<open>The last day of a leap year: 31 December 1972, 1976, and so on.\<close>

definition lastLeapDay :: "int \<Rightarrow> bool" where
  "lastLeapDay s \<longleftrightarrow> (\<exists>k<137. isLeap (1970 + int k) \<and> (yearDays k + 365) * 86400 \<le> s \<and> s < yearDays (Suc k) * 86400)"

lemma yearState_start: "(word_of_int s, 0, 0, 0) = yearState s 0"
  by (simp add: yearState_def)

lemma years_enough: "s < 4294967296 \<Longrightarrow> s < yearDays 137 * 86400"
  by (simp add: yearDays_leaps leaps_def)

lemma time_of_day:
  assumes "0 \<le> r" and "r < (86400 :: int)"
  shows "uint (word_of_int (r div 3600) :: 8 word) = r div 3600" and "uint (word_of_int (r mod 3600 div 60) :: 8 word) = r mod 3600 div 60"
    and "uint (word_of_int (r mod 3600 mod 60) :: 8 word) = r mod 3600 mod 60"
    and "r div 3600 < 24" and "r mod 3600 div 60 < 60" and "r div 3600 * 3600 + r mod 3600 div 60 * 60 + r mod 3600 mod 60 = r"
proof -
  have h: "0 \<le> r div 3600" "r div 3600 < 24" using assms by auto
  have m: "0 \<le> r mod 3600 div 60" "r mod 3600 div 60 < 60" by auto
  have s: "0 \<le> r mod 3600 mod 60" "r mod 3600 mod 60 < 60" by auto
  show "uint (word_of_int (r div 3600) :: 8 word) = r div 3600" using h by (simp add: uint_word_of_int)
  show "uint (word_of_int (r mod 3600 div 60) :: 8 word) = r mod 3600 div 60" using m by (simp add: uint_word_of_int)
  show "uint (word_of_int (r mod 3600 mod 60) :: 8 word) = r mod 3600 mod 60" using s by (subst uint_word_of_int) simp
  show "r div 3600 < 24" "r mod 3600 div 60 < 60" using h m by simp_all
  show "r div 3600 * 3600 + r mod 3600 div 60 * 60 + r mod 3600 mod 60 = r" by presburger
qed

lemma day_of_month:
  assumes "0 \<le> x" and "x < 31"
  shows "uint (ucast ((ucast (word_of_int x :: 64 word) :: 16 word) + 1) :: 8 word) = x + 1"
proof -
  have "(ucast (word_of_int x :: 64 word) :: 16 word) + 1 = word_of_int (x + 1)"
    by (simp add: ucast_down_wi is_down)
  moreover have "ucast (word_of_int (x + 1) :: 16 word) = (word_of_int (x + 1) :: 8 word)"
    by (rule ucast_down_wi) (simp add: is_down)
  ultimately have "ucast ((ucast (word_of_int x :: 64 word) :: 16 word) + 1) = (word_of_int (x + 1) :: 8 word)"
    by (simp only:)
  then show ?thesis using assms by (simp only: uint_word_of_int) (simp add: mod_pos_pos_trivial)
qed

lemma calc_steps:
  assumes "yearLoop (word_of_int (uint seconds), 0, 0, 0) = Some (yearState (uint seconds) K)"
    and "y = of_nat K + word_of_int EPOCH" and "D = uint seconds div 86400 - yearDays K" and "0 \<le> D" and "D < 365"
    and "monthLoop y 1 D 0 = (yf, yd, word_of_int b)" and "r = uint seconds mod 86400"
  shows "calc_date_time seconds = Some \<lparr>year = y, month = yf,
    day = ucast ((ucast (word_of_int (D - b) :: 64 word) :: 16 word) + 1),
    hour = word_of_int (r div 3600), minute = word_of_int (r mod 3600 div 60), second = word_of_int (r mod 3600 mod 60)\<rparr>"
proof -
  have sd: "sint (word_of_int D :: 64 word) = D" using assms(4,5) by (simp flip: i64_sint)
  have d: "word_of_int (uint seconds div 86400) - word_of_int (yearDays K) = (word_of_int D :: 64 word)" by (simp add: assms(3))
  show ?thesis
    unfolding calc_date_time_def assms(1) Let_def SECS_PERDAY_def option.case yearState_def prod.case assms(2) [symmetric] d sd assms(6)
      assms(7) [symmetric] by (simp only: prod.case wi_hom_sub)
qed

lemma year_word: "K < 137 \<Longrightarrow> uint (of_nat K + word_of_int EPOCH :: 16 word) = 1970 + int K"
proof -
  assume K: "K < 137"
  have "(of_nat K + word_of_int EPOCH :: 16 word) = word_of_int (1970 + int K)" by (simp add: EPOCH_def)
  then show ?thesis using K by (simp only: uint_word_of_int) (simp add: mod_pos_pos_trivial)
qed

lemma month_word:
  assumes "M \<le> 12"
  shows "uint (of_nat M :: 8 word) = int M" "unat (of_nat M :: 8 word) = M"
  using assms by (simp_all add: uint_nat unat_of_nat)

text \<open>The date assembled from its parts.\<close>

lemma assembled_date:
  assumes "y = of_nat K + word_of_int EPOCH" and "K < 137" and "1 \<le> M" and "M \<le> 12"
    and "monthDays (1970 + int K) (M - 1) \<le> D" and "D < monthDays (1970 + int K) M" and "0 \<le> r" and "r < 86400"
    and t: "t = \<lparr>year = y, month = of_nat M,
      day = ucast ((ucast (word_of_int (D - monthDays (1970 + int K) (M - 1)) :: 64 word) :: 16 word) + 1),
      hour = word_of_int (r div 3600), minute = word_of_int (r mod 3600 div 60), second = word_of_int (r mod 3600 mod 60)\<rparr>"
  shows "validDate t" and "secondsOf t = (yearDays K + D) * 86400 + r"
proof -
  let ?b = "monthDays (1970 + int K) (M - 1)" and ?e = "monthDays (1970 + int K) M"
  have y: "uint (year t) = 1970 + int K"
    unfolding t DateTime.simps assms(1) by (rule year_word) (rule assms(2))
  have m: "uint (month t) = int M" "unat (month t) = M" unfolding t DateTime.simps by (rule month_word [OF assms(4)])+
  have d: "uint (day t) = D - ?b + 1"
    unfolding t DateTime.simps using monthDays_lengths [OF assms(3,4), of "1970 + int K"] assms(5,6) by (intro day_of_month) simp_all
  note h = time_of_day [OF assms(7,8)]
  have h': "uint (hour t) = r div 3600" "uint (minute t) = r mod 3600 div 60" "uint (second t) = r mod 3600 mod 60"
    by (simp_all only: t DateTime.simps h)
  have k: "unat (year t) - 1970 = K" using y unat_eq_nat_uint [of "year t"] by simp
  have "r mod 3600 mod 60 < 60" by simp
  then show "validDate t"
    unfolding validDate_def y m d h' using assms(3-6) h(4,5) by (intro conjI) simp_all
  show "secondsOf t = (yearDays K + D) * 86400 + r"
    unfolding secondsOf_def y m d h' k using h(6) by (simp add: algebra_simps)
qed

lemma calc_date_time_date:
  assumes "\<not> lastLeapDay (uint seconds)"
  shows "\<exists>t. calc_date_time seconds = Some t \<and> validDate t \<and> secondsOf t = uint seconds"
proof -
  define s where "s = uint seconds"
  have s: "0 \<le> s" "s < 4294967296" using uint_lt2p [of seconds] by (simp_all add: s_def)
  obtain K where K: "K < 137" "yearDays K * 86400 \<le> s" "s < yearDays (Suc K) * 86400"
    using year_of [OF s(1) years_enough [OF s(2)]] by blast
  have short: "s - yearDays K * 86400 < 365 * 86400"
  proof (cases "isLeap (1970 + int K)")
    case True
    then have "\<not> (yearDays K + 365) * 86400 \<le> s" using assms K unfolding lastLeapDay_def s_def by blast
    then show ?thesis by simp
  qed (use K(3) in simp)
  define D where "D = s div 86400 - yearDays K"
  have D: "0 \<le> D" "D < 365" using K(2) short by (simp_all add: D_def)
  have K16: "K < 65536" using K(1) by simp
  have loop: "yearLoop (word_of_int s, 0, 0, 0) = Some (yearState s K)"
    unfolding yearState_start by (rule yearLoop_state [OF K(2) short s(2) K16]) simp
  define y where "y = (of_nat K + word_of_int EPOCH :: 16 word)"
  have y: "uint y = 1970 + int K" unfolding y_def by (rule year_word) (rule K)
  have "D < monthDays (uint y) 12" using D unfolding monthDays_simps by simp
  from monthLoop_state [OF this, of 1] D(1) obtain M yd where M:
    "monthLoop y 1 D 0 = (of_nat M, yd, word_of_int (monthDays (1970 + int K) (M - 1)))"
    "1 \<le> M" "M \<le> 12" "monthDays (1970 + int K) (M - 1) \<le> D" "D < monthDays (1970 + int K) M"
    unfolding y by auto
  note c = calc_steps [OF loop [unfolded s_def] y_def D_def [unfolded s_def] D M(1) refl]
  have "0 \<le> s mod 86400" "s mod 86400 < 86400" by simp_all
  note a = assembled_date [OF y_def K(1) M(2-5) this refl]
  have "(yearDays K + D) * 86400 + s mod 86400 = s" by (simp add: D_def)
  with c a show ?thesis unfolding s_def by metis
qed

text \<open>C26: the calendar is right except on one day in four years: unless the second falls on 31 December of a
  leap year, \<^verbatim>\<open>calc_date_time\<close> returns, and its result is a date of the reference calendar whose
  count of seconds is the argument.\<close>

theorem calc_date_time_correct:
  assumes "\<not> lastLeapDay (uint seconds)"
  shows "\<exists>t. calc_date_time seconds = Some t \<and> validDate t \<and> secondsOf t = uint seconds"
  using assms by (rule calc_date_time_date)

lemma not_last_zero: "\<not> lastLeapDay 0"
  using yearDays_nonneg by (auto simp: lastLeapDay_def not_le intro: add_nonneg_pos)

theorem calc_date_time_correct_witness: "\<exists>t. calc_date_time 0 = Some t \<and> secondsOf t = 0"
  using calc_date_time_correct [of 0] not_last_zero by auto

text \<open>from seconds to a date and back: \<^verbatim>\<open>mktime\<close> of \<^verbatim>\<open>timer.c\<close> inverts the calendar in every month;
  \<^verbatim>\<open>TimeToSec\<close> of \<^verbatim>\<open>mktime.c\<close>, the same computation on an unsigned 8 bit month, inverts it from February to
  December, and in January it is 7827 days late, 7828 in a leap year.\<close>

theorem seconds_roundtrip:
  assumes "calc_date_time seconds = Some t" and "validDate t" and "secondsOf t = uint seconds"
  shows "mktime (ucast (year t)) (uint (month t)) (ucast (day t)) (ucast (hour t)) (ucast (minute t)) (ucast (second t)) = seconds
    \<and> TimeToSec t = seconds + (if uint (month t) = 1 then (if isLeap (uint (year t)) then 7828 else 7827) * 86400 else 0)
    \<and> (TimeToSec t = seconds \<longleftrightarrow> uint (month t) \<noteq> 1)"
proof -
  have "mktime (ucast (year t)) (uint (month t)) (ucast (day t)) (ucast (hour t)) (ucast (minute t)) (ucast (second t)) = seconds"
    unfolding mktime_secondsOf [OF assms(2)] assms(3) by simp
  moreover have "TimeToSec t = seconds + (if uint (month t) = 1 then (if isLeap (uint (year t)) then 7828 else 7827) * 86400 else 0)"
    unfolding TimeToSec_secondsOf [OF assms(2)] assms(3) by simp
  ultimately show ?thesis by simp
qed

definition epoch_date :: DateTime where
  "epoch_date = \<lparr>year = 1970, month = 1, day = 1, hour = 0, minute = 0, second = 0\<rparr>"

lemma epoch_calc: "calc_date_time 0 = Some epoch_date"
proof -
  have y: "yearLoop (0, 0, 0, 0) = Some (0, 0, 0, 0)"
    by (subst yearLoop.simps) (simp add: yearGoesOn_def SECS_PERDAY_def word_le_nat_alt)
  show ?thesis
    by (simp add: calc_date_time_def y epoch_date_def EPOCH_def SECS_PERDAY_def monthLoop.simps)
qed

lemma yearStep_slow:
  assumes "31622400 \<le> uint (fst x)"
  shows "uint (fst x) - 31622400 \<le> uint (fst (yearStep x))"
proof -
  obtain n d r y where x: "x = (n, d, r, y)" by (cases x)
  have "uint (n - word_of_int k) = uint n - k" if "0 \<le> k" "k \<le> 31622400" for k
    using that assms uint_lt2p [of n] by (simp add: x uint_word_ariths uint_word_of_int mod_simps mod_pos_pos_trivial)
  from this [of 31622400] this [of 31536000] show ?thesis by (simp add: x yearStep_def SECS_PERDAY_def)
qed

lemma yearSteps_slow:
  assumes "int i * 31622400 \<le> uint (fst x)"
  shows "uint (fst x) - int i * 31622400 \<le> uint (fst ((yearStep ^^ i) x))"
  using assms
proof (induction i)
  case (Suc i)
  have s: "int (Suc i) * 31622400 = int i * 31622400 + 31622400" by (simp add: algebra_simps)
  have IH: "uint (fst x) - int i * 31622400 \<le> uint (fst ((yearStep ^^ i) x))" using Suc unfolding s by simp
  have "31622400 \<le> uint (fst ((yearStep ^^ i) x))" using IH Suc.prems unfolding s by linarith
  from yearStep_slow [OF this] IH show ?case unfolding s by simp
qed simp

lemma yearSteps_state: "j < 65536 \<Longrightarrow> (yearStep ^^ j) (yearState s 0) = yearState s j"
  by (induction j) (simp_all add: yearStep_state)

text \<open>C27: on the last day of a leap year the conversion does not return in practice: the unsigned count of
  seconds is less than the leap year taken off it, wraps below zero, and the loop has more than
  \<open>5 * 10\<^sup>1\<^sup>1\<close> further turns to make; \<^verbatim>\<open>ptp_tod_msg_pack\<close> calls it every second.\<close>

theorem last_leap_day_hangs:
  fixes seconds :: UInteger32
  assumes "lastLeapDay (uint seconds)" and "j \<le> 500000000000"
  shows "yearGoesOn ((yearStep ^^ j) (word_of_int (uint seconds), 0, 0, 0))"
proof -
  define s where "s = uint seconds"
  have s: "0 \<le> s" "s < 4294967296" using uint_lt2p [of seconds] by (simp_all add: s_def)
  obtain k where k: "k < 137" "isLeap (1970 + int k)" "(yearDays k + 365) * 86400 \<le> s" "s < yearDays (Suc k) * 86400"
    using assms(1) unfolding lastLeapDay_def s_def by blast
  show ?thesis
  proof (cases "j \<le> k")
    case True
    have "yearDays j \<le> yearDays k" by (rule yearDays_mono) (rule True)
    then have "365 * 86400 \<le> s - yearDays j * 86400" using k(3) by simp
    then have "yearGoesOn (yearState s j)" using yearGoesOn_state [of s j] s(2) by simp
    then show ?thesis using True k(1) yearSteps_state [of j s] by (simp add: yearState_start flip: s_def)
  next
    case False
    define i where "i = j - Suc k"
    have j: "j = i + Suc k" "i \<le> 500000000000" using False assms(2) by (simp_all add: i_def)
    define x where "x = yearState s (Suc k)"
    have x: "(yearStep ^^ j) (yearState s 0) = (yearStep ^^ i) x"
      unfolding j(1) funpow_add comp_apply x_def using k(1) by (subst yearSteps_state) simp_all
    let ?r = "s - yearDays (Suc k) * 86400"
    have r: "-86400 \<le> ?r" "?r < 0" using k(2-4) by simp_all
    have f: "uint (fst x) = ?r + 18446744073709551616"
    proof -
      have "?r mod 18446744073709551616 = (?r + 18446744073709551616) mod 18446744073709551616" by (rule mod_add_self2 [symmetric])
      also have "\<dots> = ?r + 18446744073709551616" using r by (intro mod_pos_pos_trivial) simp_all
      finally show ?thesis by (simp only: x_def yearState_def fst_conv uint_word_of_int) simp
    qed
    have i: "int i * 31622400 \<le> 15811200000000000000" using j(2) by simp
    have "31536000 \<le> uint (fst ((yearStep ^^ i) x))"
      using yearSteps_slow [of i x] i r f by linarith
    then have "yearGoesOn ((yearStep ^^ i) x)"
      by (simp add: yearGoesOn_def word_le_def SECS_PERDAY_def case_prod_beta)
    then show ?thesis unfolding s_def [symmetric] yearState_start x .
  qed
qed

theorem last_leap_day_hangs_witness:
  "yearGoesOn ((yearStep ^^ 500000000000) (word_of_int (uint (94608000 :: 32 word)), 0, 0, 0))"
proof (rule last_leap_day_hangs)
  have "yearDays 2 = 730" "yearDays (Suc 2) = 1096" by (simp_all add: eval_nat_numeral isLeap_def)
  then have "isLeap (1970 + int 2) \<and> (yearDays 2 + 365) * 86400 \<le> 94608000 \<and> 94608000 < yearDays (Suc 2) * 86400"
    by (simp add: isLeap_def del: yearDays.simps)
  moreover have "(2 :: nat) < 137" by simp
  ultimately show "lastLeapDay (uint (94608000 :: 32 word))"
    unfolding lastLeapDay_def by (intro exI [of _ 2]) (simp del: yearDays.simps)
qed simp

end
