(* ===== verification/Dev_Ntp.thy ===== *)
theory Dev_Ntp
  imports Ptp_Protocol
begin

text \<open>
  The NTP server and client of the device: the 64 bit fixed-point arithmetic of
  \<^verbatim>\<open>USER/LWIP_APP/sntp.h\<close>, the server of \<^verbatim>\<open>udp_echoserver.c\<close>, the client of
  \<^verbatim>\<open>sntp_client.c\<close> and the time stamp of \<^verbatim>\<open>timer.c\<close>.  The conversions of a fixed-point time to a
  \<^verbatim>\<open>double\<close> and back to an integer are parameters (\<open>toNano\<close>, \<open>toDisp\<close>).
\<close>

subsection \<open>Fixed-point time\<close>

text \<open>The unions of signed and unsigned views are one word each.\<close>

record time_fp =
  fp_ui :: UInteger32
  fp_uf :: UInteger32

text \<open>The addition in 16 bit halves that \<^verbatim>\<open>FP_ADD\<close> and \<^verbatim>\<open>FP_SUB\<close> write out: the sum and the carry.\<close>

definition addHalves :: "UInteger32 \<Rightarrow> UInteger32 \<Rightarrow> UInteger32 \<times> bool" where
  "addHalves r a =
    (let lo_half = (r AND 0xffff) + (a AND 0xffff);
         hi_half = (drop_bit 16 r AND 0xffff) + (drop_bit 16 a AND 0xffff);
         hi_half = (if lo_half AND 0x10000 \<noteq> 0 then hi_half + 1 else hi_half)
     in (push_bit 16 (hi_half AND 0xffff) OR (lo_half AND 0xffff), hi_half AND 0x10000 \<noteq> 0))"

definition TS_ADD :: "time_fp \<Rightarrow> time_fp \<Rightarrow> time_fp" where
  "TS_ADD r a =
    (let (f, carry) = addHalves (fp_uf r) (fp_uf a);
         i = fp_ui r + fp_ui a
     in \<lparr>fp_ui = if carry then i + 1 else i, fp_uf = f\<rparr>)"

definition TS_SUB :: "time_fp \<Rightarrow> time_fp \<Rightarrow> time_fp" where
  "TS_SUB r a =
    (if fp_uf a = 0 then r\<lparr>fp_ui := fp_ui r - fp_ui a\<rparr>
     else
       let (f, carry) = addHalves (fp_uf r) (- fp_uf a);
           i = fp_ui r + NOT (fp_ui a)
       in \<lparr>fp_ui = if carry then i + 1 else i, fp_uf = f\<rparr>)"

definition TS_RSHIFT :: "time_fp \<Rightarrow> time_fp" where
  "TS_RSHIFT v =
    (let f = drop_bit 1 (fp_uf v);
         f = (if fp_ui v AND 1 \<noteq> 0 then f OR 0x80000000 else f);
         i = (if fp_ui v AND 0x80000000 \<noteq> 0 then drop_bit 1 (fp_ui v) OR 0x80000000 else drop_bit 1 (fp_ui v))
     in \<lparr>fp_ui = i, fp_uf = f\<rparr>)"

text \<open>The 64 bit value of a time, in units of \<open>2\<^sup>-\<^sup>3\<^sup>2\<close> seconds.\<close>

definition fp_value :: "time_fp \<Rightarrow> int" where
  "fp_value t = uint (fp_ui t) * 4294967296 + uint (fp_uf t)"

definition fp_word :: "time_fp \<Rightarrow> 64 word" where
  "fp_word t = word_of_int (fp_value t)"

lemma uint32: "0 \<le> uint (w :: 32 word)" "uint w < 4294967296"
  using uint_lt2p [of w] by simp_all

lemma fp_value_range: "0 \<le> fp_value t" "fp_value t < 18446744073709551616"
  using uint32 [of "fp_ui t"] uint32 [of "fp_uf t"] by (simp_all add: fp_value_def)

lemma uint_fp_word: "uint (fp_word t) = fp_value t"
  using fp_value_range [of t] by (simp add: fp_word_def uint_word_of_int mod_pos_pos_trivial)

lemma uint_and_16: "uint (w AND 0xffff :: 32 word) = uint w mod 65536"
proof -
  have "uint w AND 65535 = take_bit 16 (uint w)" by (simp add: take_bit_eq_mask mask_eq_exp_minus_1)
  then show ?thesis by (simp add: unsigned_and_eq take_bit_eq_mod)
qed

lemma uint_drop_16: "uint (drop_bit 16 w :: 32 word) = uint w div 65536"
  by (simp add: drop_bit_eq_div uint_div_distrib)

lemma carry_bit:
  assumes "uint w < 131072"
  shows "w AND 0x10000 \<noteq> (0 :: 32 word) \<longleftrightarrow> 65536 \<le> uint w"
proof -
  have "w AND 0x10000 \<noteq> 0 \<longleftrightarrow> bit w 16"
    using and_exp_eq_0_iff_not_bit [of w 16] by simp
  also have "\<dots> \<longleftrightarrow> bit (uint w) 16" by (simp add: bit_uint_iff)
  also have "\<dots> \<longleftrightarrow> odd (uint w div 65536)" unfolding bit_iff_odd by simp
  also have "\<dots> \<longleftrightarrow> 65536 \<le> uint w"
  proof -
    have "uint w div 65536 = (if 65536 \<le> uint w then 1 else 0)" using assms uint32 [of w] by auto
    then show ?thesis by simp
  qed
  finally show ?thesis .
qed

lemma join_halves: "push_bit 16 (h AND 0xffff) OR (l AND 0xffff) = word_of_int (uint h mod 65536 * 65536 + uint l mod 65536)"
  for h l :: "32 word"
proof -
  have "uint (push_bit 16 (h AND 0xffff)) = uint h mod 65536 * 65536"
  proof -
    have "uint h mod 65536 * 65536 < 4294967296" "0 \<le> uint h mod 65536 * 65536"
      using pos_mod_bound [of 65536 "uint h"] by simp_all
    then show ?thesis by (simp add: push_bit_eq_mult uint_word_ariths uint_and_16)
  qed
  then have "uint (push_bit 16 (h AND 0xffff) OR (l AND 0xffff)) = (uint h mod 65536 * 65536) OR (uint l mod 65536)"
    by (simp add: unsigned_or_eq uint_and_16)
  also have "\<dots> = concat_bit 16 (uint l) (uint h mod 65536)"
    by (simp add: concat_bit_def take_bit_eq_mod push_bit_eq_mult or.commute)
  also have "\<dots> = uint h mod 65536 * 65536 + uint l mod 65536"
    by (simp add: concat_bit_eq take_bit_eq_mod push_bit_eq_mult)
  finally have "word_of_int (uint (push_bit 16 (h AND 0xffff) OR (l AND 0xffff))) = (word_of_int (uint h mod 65536 * 65536 + uint l mod 65536) :: 32 word)"
    by (simp only:)
  then show ?thesis by simp
qed

text \<open>The halves add up to the word sum and its carry.\<close>

lemma halves_int:
  fixes xh :: int
  assumes "0 \<le> xl" "xl < 65536" "0 \<le> xh" "xh < 65536" "0 \<le> yl" "yl < 65536" "0 \<le> yh" "yh < 65536"
    and lo: "lo = xl + yl" and hi: "hi = xh + yh + (if 65536 \<le> lo then 1 else 0)"
  shows "lo mod 65536 = (if 65536 \<le> lo then lo - 65536 else lo)" and "lo < 131072" and "hi < 131072"
    and "hi mod 65536 = (if 65536 \<le> hi then hi - 65536 else hi)"
    and "(xh * 65536 + xl) + (yh * 65536 + yl) = hi * 65536 + (if 65536 \<le> lo then lo - 65536 else lo)"
    and "65536 \<le> hi \<longleftrightarrow> 4294967296 \<le> (xh * 65536 + xl) + (yh * 65536 + yl)"
proof -
  define c where "c = (if 65536 \<le> lo then 1 else 0 :: int)"
  have c: "0 \<le> c" "c \<le> 1" by (simp_all add: c_def)
  have hi': "hi = xh + yh + c" using hi by (simp add: c_def)
  have l: "0 \<le> lo" "lo < 131072" and h: "0 \<le> hi" "hi < 131072" using assms(1-8) lo hi' c by linarith+
  show "lo < 131072" "hi < 131072" by (rule l h)+
  have m: "z mod 65536 = (if 65536 \<le> z then z - 65536 else z)" if "0 \<le> z" "z < 131072" for z :: int
  proof (cases "65536 \<le> z")
    case True
    then have "z mod 65536 = (z - 65536) mod 65536" by (intro mod_pos_geq) simp_all
    also have "\<dots> = z - 65536" using True that by (intro mod_pos_pos_trivial) simp_all
    finally show ?thesis using True by simp
  next
    case False then show ?thesis using that by (simp add: mod_pos_pos_trivial)
  qed
  show "lo mod 65536 = (if 65536 \<le> lo then lo - 65536 else lo)" by (rule m [OF l])
  show "hi mod 65536 = (if 65536 \<le> hi then hi - 65536 else hi)" by (rule m [OF h])
  have r: "(if 65536 \<le> lo then lo - 65536 else lo) = lo - c * 65536" by (simp add: c_def)
  show s: "(xh * 65536 + xl) + (yh * 65536 + yl) = hi * 65536 + (if 65536 \<le> lo then lo - 65536 else lo)"
    unfolding r unfolding hi' lo by (simp add: algebra_simps)
  have "0 \<le> lo - c * 65536" "lo - c * 65536 < 65536" using l by (simp_all add: c_def)
  then show "65536 \<le> hi \<longleftrightarrow> 4294967296 \<le> (xh * 65536 + xl) + (yh * 65536 + yl)"
    unfolding s r by linarith
qed

lemma z32: "(4294967296 :: 32 word) = 0"
proof -
  have "(word_of_int 4294967296 :: 32 word) = word_of_int 0"
    by (subst word_of_int_eq_iff) (simp add: take_bit_eq_mod)
  then show ?thesis by simp
qed

lemma split_half:
  fixes x :: int
  assumes "0 \<le> x" and "x < 4294967296"
  shows "0 \<le> x mod 65536 \<and> x mod 65536 < 65536 \<and> 0 \<le> x div 65536 \<and> x div 65536 < 65536"
proof -
  have e: "4294967295 div 65536 = (65535 :: int)" by simp
  have "x div 65536 \<le> 4294967295 div 65536" by (rule zdiv_mono1, use assms in linarith, simp)
  then have "x div 65536 < 65536" unfolding e by (rule le_less_trans) simp
  moreover have "0 \<le> x div 65536" by (rule pos_imp_zdiv_nonneg_iff [THEN iffD2], simp, rule assms(1))
  moreover have "0 \<le> x mod 65536" by (rule pos_mod_sign) simp
  moreover have "x mod 65536 < 65536" by (rule pos_mod_bound) simp
  ultimately show ?thesis by blast
qed

lemma addHalves_eq: "addHalves r a = (r + a, 4294967296 \<le> uint r + uint a)"
proof -
  define xl xh yl yh where d: "xl = uint r mod 65536" "xh = uint r div 65536" "yl = uint a mod 65536" "yh = uint a div 65536"
  have b: "0 \<le> xl" "xl < 65536" "0 \<le> xh" "xh < 65536" "0 \<le> yl" "yl < 65536" "0 \<le> yh" "yh < 65536"
    using split_half [OF uint32, of r] split_half [OF uint32, of a] unfolding d by blast+
  have xy: "uint r = xh * 65536 + xl" "uint a = yh * 65536 + yl" by (simp_all add: d)
  define lo where "lo = (r AND 0xffff) + (a AND 0xffff)"
  have lo: "uint lo = xl + yl"
    unfolding lo_def uint_word_ariths uint_and_16 d [symmetric] using b by (simp add: mod_pos_pos_trivial)
  define hi0 where "hi0 = (drop_bit 16 r AND 0xffff) + (drop_bit 16 a AND 0xffff)"
  have hi0: "uint hi0 = xh + yh"
    unfolding hi0_def uint_word_ariths uint_and_16 uint_drop_16 d [symmetric] using b by (simp add: mod_pos_pos_trivial)
  define hi where "hi = (if lo AND 0x10000 \<noteq> 0 then hi0 + 1 else hi0)"
  have c: "lo AND 0x10000 \<noteq> 0 \<longleftrightarrow> 65536 \<le> uint lo" by (rule carry_bit) (use b lo in simp)
  have hi: "uint hi = xh + yh + (if 65536 \<le> uint lo then 1 else 0)"
    unfolding hi_def c uint_word_ariths using b by (simp add: uint_word_ariths hi0 mod_pos_pos_trivial)
  note H = halves_int [OF b lo hi]
  have ch: "hi AND 0x10000 \<noteq> 0 \<longleftrightarrow> 65536 \<le> uint hi" by (rule carry_bit) (rule H(3))
  have "addHalves r a = (word_of_int (uint hi mod 65536 * 65536 + uint lo mod 65536), hi AND 0x10000 \<noteq> 0)"
    unfolding addHalves_def Let_def lo_def [symmetric] hi0_def [symmetric] hi_def [symmetric] join_halves ..
  moreover have "word_of_int (uint hi mod 65536 * 65536 + uint lo mod 65536) = (word_of_int (uint r + uint a) :: 32 word)"
  proof -
    have z: "word_of_int (v - 65536) * 65536 = (word_of_int v * 65536 :: 32 word)" for v
      by (simp add: algebra_simps z32)
    show ?thesis unfolding xy H(5) H(1,4) wi_hom_add [symmetric] wi_hom_mult [symmetric]
      by (cases "65536 \<le> uint hi") (simp_all only: if_True if_False wi_hom_sub [symmetric] word_of_int_numeral z [unfolded wi_hom_sub [symmetric] word_of_int_numeral])
  qed
  moreover have "word_of_int (uint r + uint a) = r + a" by simp
  ultimately show ?thesis by (simp only: ch H(6) xy)
qed

subsection \<open>The macros compute in 64 bits\<close>

lemma high_half: "word_of_int (uint (word_of_int z :: 32 word) * 4294967296) = (word_of_int (z * 4294967296) :: 64 word)"
proof -
  have "z mod 4294967296 * 4294967296 mod 18446744073709551616 = z * 4294967296 mod 18446744073709551616"
    using mod_mult_mult2 [of z 4294967296 4294967296] by simp
  then show ?thesis by (simp only: word_of_int_eq_iff uint_word_of_int) (simp add: take_bit_eq_mod)
qed

lemma fp_word_parts:
  "fp_ui t = word_of_int x \<Longrightarrow> uint (fp_uf t) = y \<Longrightarrow> fp_word t = word_of_int (x * 4294967296 + y)"
  by (simp only: fp_word_def fp_value_def wi_hom_add [symmetric] high_half)

lemma fp_word_SUM: "fp_word (TS_ADD r a) = fp_word r + fp_word a"
proof -
  define c where "c = (if 4294967296 \<le> uint (fp_uf r) + uint (fp_uf a) then 1 else 0 :: int)"
  have "fp_ui (TS_ADD r a) = word_of_int (uint (fp_ui r) + uint (fp_ui a) + c)"
    by (simp add: TS_ADD_def addHalves_eq c_def)
  moreover have "uint (fp_uf (TS_ADD r a)) = uint (fp_uf r) + uint (fp_uf a) - c * 4294967296"
    using uint32 [of "fp_uf r"] uint32 [of "fp_uf a"] by (simp add: TS_ADD_def addHalves_eq c_def uint_plus_if')
  ultimately have "fp_word (TS_ADD r a) = word_of_int ((uint (fp_ui r) + uint (fp_ui a) + c) * 4294967296
      + (uint (fp_uf r) + uint (fp_uf a) - c * 4294967296))" by (rule fp_word_parts)
  also have "\<dots> = word_of_int (fp_value r + fp_value a)" by (simp add: fp_value_def algebra_simps)
  finally show ?thesis by (simp only: fp_word_def wi_hom_add)
qed

lemma fp_word_DIFF: "fp_word (TS_SUB r a) = fp_word r - fp_word a"
proof (cases "fp_uf a = 0")
  case True
  have "fp_ui (TS_SUB r a) = word_of_int (uint (fp_ui r) - uint (fp_ui a))" by (simp add: TS_SUB_def True)
  moreover have "uint (fp_uf (TS_SUB r a)) = uint (fp_uf r)" by (simp add: TS_SUB_def True)
  ultimately have "fp_word (TS_SUB r a) = word_of_int ((uint (fp_ui r) - uint (fp_ui a)) * 4294967296 + uint (fp_uf r))"
    by (rule fp_word_parts)
  also have "\<dots> = word_of_int (fp_value r - fp_value a)" by (simp add: fp_value_def True algebra_simps)
  finally show ?thesis by (simp only: fp_word_def wi_hom_sub)
next
  case False
  then have n: "uint (- fp_uf a) = 4294967296 - uint (fp_uf a)"
    using uint32 [of "fp_uf a"] by (simp add: uint_word_ariths zmod_zminus1_eq_if uint_0_iff mod_pos_pos_trivial)
  define c where "c = (if uint (fp_uf a) \<le> uint (fp_uf r) then 1 else 0 :: int)"
  have "fp_ui (TS_SUB r a) = word_of_int (uint (fp_ui r) - uint (fp_ui a) - 1 + c)"
    using False by (simp add: TS_SUB_def addHalves_eq n c_def not_eq_complement)
  moreover have "uint (fp_uf (TS_SUB r a)) = uint (fp_uf r) - uint (fp_uf a) + (1 - c) * 4294967296"
    using False uint32 [of "fp_uf r"] uint32 [of "fp_uf a"] by (simp add: TS_SUB_def addHalves_eq c_def Let_def uint_sub_if')
  ultimately have "fp_word (TS_SUB r a) = word_of_int ((uint (fp_ui r) - uint (fp_ui a) - 1 + c) * 4294967296
      + (uint (fp_uf r) - uint (fp_uf a) + (1 - c) * 4294967296))" by (rule fp_word_parts)
  also have "\<dots> = word_of_int (fp_value r - fp_value a)" by (simp add: fp_value_def algebra_simps)
  finally show ?thesis by (simp only: fp_word_def wi_hom_sub)
qed

lemma fp_word_cat: "fp_word t = word_cat (fp_ui t) (fp_uf t)"
  by (simp add: word_cat_eq' concat_bit_eq fp_word_def fp_value_def push_bit_eq_mult take_bit_eq_mod
      uint32 mod_pos_pos_trivial add.commute)

lemma bit_fp_word: "n < 64 \<Longrightarrow> bit (fp_word t) n \<longleftrightarrow> (if n < 32 then bit (fp_uf t) n else bit (fp_ui t) (n - 32))"
  by (simp add: fp_word_cat bit_word_cat_iff)

lemma bit_top: "bit (0x80000000 :: 32 word) n \<longleftrightarrow> n = 31"
proof -
  have "(0x80000000 :: 32 word) = 2 ^ 31" by simp
  then show ?thesis by (simp only: bit_exp_iff) auto
qed

lemma fp_word_HALF: "fp_word (TS_RSHIFT v) = signed_drop_bit 1 (fp_word v)"
proof (rule bit_word_eqI)
  fix n assume "n < LENGTH(64)"
  then have n: "n < 64" by simp
  have s: "fp_ui v AND 0x80000000 \<noteq> 0 \<longleftrightarrow> bit (fp_ui v) 31"
    using and_exp_eq_0_iff_not_bit [of "fp_ui v" 31] by simp
  have o: "fp_ui v AND 1 \<noteq> 0 \<longleftrightarrow> bit (fp_ui v) 0" by (simp add: and_one_eq bit_0 odd_iff_mod_2_eq_one)
  have t: "fp_ui (TS_RSHIFT v) = (if bit (fp_ui v) 31 then drop_bit 1 (fp_ui v) OR 0x80000000 else drop_bit 1 (fp_ui v))"
    "fp_uf (TS_RSHIFT v) = (if bit (fp_ui v) 0 then drop_bit 1 (fp_uf v) OR 0x80000000 else drop_bit 1 (fp_uf v))"
    by (simp_all only: TS_RSHIFT_def Let_def s o time_fp.simps)
  have b: "bit (drop_bit 1 w OR 0x80000000) k \<longleftrightarrow> bit w (Suc k) \<or> k = 31" "bit (drop_bit 1 w) k \<longleftrightarrow> bit w (Suc k)"
    for w :: "32 word" and k by (simp_all only: bit_or_iff bit_drop_bit_eq comp_apply bit_top plus_1_eq_Suc)
  have z: "\<not> bit w (Suc k)" if "\<not> k < 31" for w :: "32 word" and k
    using that by (auto dest: bit_imp_le_length)
  have u: "bit (fp_ui (TS_RSHIFT v)) k \<longleftrightarrow> (if k = 31 then bit (fp_ui v) 31 else bit (fp_ui v) (Suc k))" if "k < 32" for k
    using that z [of k "fp_ui v"] by (auto simp: t b [unfolded One_nat_def])
  have f: "bit (fp_uf (TS_RSHIFT v)) k \<longleftrightarrow> (if k = 31 then bit (fp_ui v) 0 else bit (fp_uf v) (Suc k))" if "k < 32" for k
    using that z [of k "fp_uf v"] by (auto simp: t b [unfolded One_nat_def])
  show "bit (fp_word (TS_RSHIFT v)) n = bit (signed_drop_bit 1 (fp_word v)) n"
  proof (cases "n < 31 \<or> 32 \<le> n \<and> n < 63")
    case True
    have e: "\<not> n < 32 \<Longrightarrow> Suc (n - 32) = n - 31" by simp
    show ?thesis using True n by (auto simp: bit_fp_word u f bit_signed_drop_bit_iff e)
  next
    case False
    then have "n = 31 \<or> n = 63" using n by auto
    then show ?thesis by (auto simp: bit_fp_word u f bit_signed_drop_bit_iff)
  qed
qed

text \<open>A difference of two times read as a signed number.\<close>

definition fp_signed :: "time_fp \<Rightarrow> int" where
  "fp_signed t = sint (fp_word t)"

lemma fp_signed_half: "fp_signed (TS_RSHIFT v) = fp_signed v div 2"
  by (simp add: fp_signed_def fp_word_HALF sint_signed_drop_bit_eq drop_bit_eq_div)

lemma fp_signed_eq: "fp_word t = word_of_int x \<Longrightarrow> -9223372036854775808 \<le> x \<Longrightarrow> x < 9223372036854775808 \<Longrightarrow> fp_signed t = x"
  by (simp add: fp_signed_def flip: i64_sint)

lemma fp_word_value: "fp_word t = word_of_int (fp_value t)"
  by (simp add: fp_word_def)

lemma fp_word_signed: "fp_word t = word_of_int (fp_signed t)"
  by (simp add: fp_signed_def)

text \<open>the fixed-point macros, which add and subtract in 16 bit halves with explicit carries and
  shift two words, are 64 bit arithmetic: addition and subtraction modulo \<open>2\<^sup>6\<^sup>4\<close>, and the halving of a
  signed number, rounding down.\<close>

theorem fixed_point_arithmetic:
  "fp_word (TS_ADD r a) = fp_word r + fp_word a \<and> fp_word (TS_SUB r a) = fp_word r - fp_word a
    \<and> fp_signed (TS_RSHIFT v) = fp_signed v div 2"
  by (simp add: fp_word_SUM fp_word_DIFF fp_signed_half)

subsection \<open>Messages\<close>

record sntp_s =
  li_vn_md :: Octet
  stratum :: Octet
  poll :: Octet
  percision :: Octet
  root_delay :: UInteger32
  root_disp :: UInteger32
  ref_id :: UInteger32
  ref_time :: time_fp
  orig :: time_fp
  recv :: time_fp
  xmt :: time_fp

definition sntp_zero :: sntp_s where
  "sntp_zero = \<lparr>li_vn_md = 0, stratum = 0, poll = 0, percision = 0, root_delay = 0, root_disp = 0, ref_id = 0,
     ref_time = \<lparr>fp_ui = 0, fp_uf = 0\<rparr>, orig = \<lparr>fp_ui = 0, fp_uf = 0\<rparr>, recv = \<lparr>fp_ui = 0, fp_uf = 0\<rparr>,
     xmt = \<lparr>fp_ui = 0, fp_uf = 0\<rparr>\<rparr>"

abbreviation (input) MODE_CLIENT :: Octet where "MODE_CLIENT \<equiv> 3"
abbreviation (input) MODE_SERVER :: Octet where "MODE_SERVER \<equiv> 4"
abbreviation (input) MODE_CONTROL :: Octet where "MODE_CONTROL \<equiv> 6"
abbreviation (input) SNTP_VERSION :: Octet where "SNTP_VERSION \<equiv> 3"
abbreviation (input) SNTP_STRATUM :: Octet where "SNTP_STRATUM \<equiv> 2"

definition MSG_MODE :: "Octet \<Rightarrow> Octet" where
  "MSG_MODE b = b AND 0x7"

definition MSG_LI_VN_MODE :: "Octet \<Rightarrow> Octet \<Rightarrow> Octet \<Rightarrow> Octet" where
  "MSG_LI_VN_MODE li vn md = ((push_bit 6 li AND 0xc0) OR (push_bit 3 vn AND 0x38)) OR (md AND 0x7)"

definition HTONL_FP :: "time_fp \<Rightarrow> time_fp" where
  "HTONL_FP h = \<lparr>fp_ui = htonl (fp_ui h), fp_uf = htonl (fp_uf h)\<rparr>"

definition NTOHL_FP :: "time_fp \<Rightarrow> time_fp" where
  "NTOHL_FP n = \<lparr>fp_ui = htonl (fp_ui n), fp_uf = htonl (fp_uf n)\<rparr>"

text \<open>The 48 bytes of the structure in memory and back: the processor is little-endian.\<close>

definition le_fp :: "time_fp \<Rightarrow> Octet list" where
  "le_fp t = le32 (fp_ui t) @ le32 (fp_uf t)"

definition sntp_bytes :: "sntp_s \<Rightarrow> Octet list" where
  "sntp_bytes m = [li_vn_md m, stratum m, poll m, percision m] @ le32 (root_delay m) @ le32 (root_disp m) @ le32 (ref_id m)
    @ le_fp (ref_time m) @ le_fp (orig m) @ le_fp (recv m) @ le_fp (xmt m)"

definition get_fp :: "Octet list \<Rightarrow> nat \<Rightarrow> time_fp" where
  "get_fp b i = \<lparr>fp_ui = get32 b i, fp_uf = get32 b (i + 4)\<rparr>"

definition sntp_of_bytes :: "Octet list \<Rightarrow> sntp_s" where
  "sntp_of_bytes b = \<lparr>li_vn_md = get8 b 0, stratum = get8 b 1, poll = get8 b 2, percision = get8 b 3,
     root_delay = get32 b 4, root_disp = get32 b 8, ref_id = get32 b 12, ref_time = get_fp b 16,
     orig = get_fp b 24, recv = get_fp b 32, xmt = get_fp b 40\<rparr>"

definition sizeof_sntp :: nat where "sizeof_sntp = 48"

subsection \<open>State\<close>

text \<open>
  The registers of the PTP clock, the results of \<^verbatim>\<open>pbuf_alloc\<close> and the traffic of the connected socket;
  \<open>UdpSend None\<close> is a send while the socket is not connected.
\<close>

datatype NtpOutput =
    UdpConnect UInteger32 UInteger16
  | UdpDisconnect
  | UdpSend "(UInteger32 \<times> UInteger16) option" "Octet list"
  | NtpPbufFree

record sntp_c =
  mon_ipaddr :: UInteger32
  mon_time :: UInteger32
  mon_disp :: time_fp

record Ntp =
  ntp_regs :: "nat \<Rightarrow> UInteger32"
  ntp_regs_n :: nat
  ntp_alloc_ok :: "nat \<Rightarrow> bool"
  ntp_alloc_n :: nat
  ntp_local_ip :: UInteger32
  ntp_peer :: "(UInteger32 \<times> UInteger16) option"
  sync_state :: UInteger8
  recvbuf :: "Octet list"
  clientbuf :: "Octet list"
  SntpMonitorl :: "sntp_c list"
  mon_index :: UInteger8
  mon_overrun :: bool
  delay_t :: time_fp
  offset_t :: time_fp
  ntp_outputs :: "NtpOutput list"

definition ntp_emit :: "NtpOutput \<Rightarrow> Ntp \<Rightarrow> Ntp" where
  "ntp_emit x n = n\<lparr>ntp_outputs := x # ntp_outputs n\<rparr>"

definition ntp_reg :: "Ntp \<Rightarrow> UInteger32 \<times> Ntp" where
  "ntp_reg n = (ntp_regs n (ntp_regs_n n), n\<lparr>ntp_regs_n := ntp_regs_n n + 1\<rparr>)"

definition ntp_alloc :: "Ntp \<Rightarrow> bool \<times> Ntp" where
  "ntp_alloc n = (ntp_alloc_ok n (ntp_alloc_n n), n\<lparr>ntp_alloc_n := ntp_alloc_n n + 1\<rparr>)"

definition JAN_1900 :: UInteger32 where "JAN_1900 = 2208988800"

definition get_sys_timer :: "Ntp \<Rightarrow> time_fp \<times> Ntp" where
  "get_sys_timer n =
    (let (hi, n) = ntp_reg n; (lo, n) = ntp_reg n
     in (\<lparr>fp_ui = hi + JAN_1900, fp_uf = lo * 2\<rparr>, n))"

definition udp_connect :: "UInteger32 \<Rightarrow> UInteger16 \<Rightarrow> Ntp \<Rightarrow> Ntp" where
  "udp_connect a p n = ntp_emit (UdpConnect a p) (n\<lparr>ntp_peer := Some (a, p)\<rparr>)"

definition udp_disconnect :: "Ntp \<Rightarrow> Ntp" where
  "udp_disconnect n = ntp_emit UdpDisconnect (n\<lparr>ntp_peer := None\<rparr>)"

subsection \<open>The server\<close>

definition UDP_BUFSIZE :: nat where "UDP_BUFSIZE = 2048"

text \<open>The loop that copies the chain of a datagram into the receive buffer.\<close>

fun copyDatagram :: "Octet list list \<Rightarrow> Octet list \<Rightarrow> nat \<Rightarrow> Octet list \<times> nat" where
  "copyDatagram [] buf data_len = (buf, data_len)"
| "copyDatagram (q # qs) buf data_len =
    (let buf = (if length q > UDP_BUFSIZE - data_len
                then put_bytes buf data_len (take (UDP_BUFSIZE - data_len) q)
                else put_bytes buf data_len q);
         data_len = data_len + length q
     in if data_len > UDP_BUFSIZE then (buf, data_len) else copyDatagram qs buf data_len)"

definition sntp_packet_senddata :: "time_fp \<Rightarrow> time_fp \<Rightarrow> Ntp \<Rightarrow> Ntp" where
  "sntp_packet_senddata request_xmt receive n =
    (let (ok, n) = ntp_alloc n
     in if \<not> ok then n
        else
          let m = sntp_zero\<lparr>orig := request_xmt, recv := HTONL_FP receive\<rparr>;
              m = m\<lparr>ref_time := (ref_time m)\<lparr>fp_ui := fp_ui receive\<rparr>\<rparr>;
              m = m\<lparr>ref_time := HTONL_FP (ref_time m)\<rparr>;
              m = m\<lparr>li_vn_md := MSG_LI_VN_MODE (sync_state n) SNTP_VERSION MODE_SERVER,
                    stratum := SNTP_STRATUM, ref_id := ntp_local_ip n\<rparr>;
              (t, n) = get_sys_timer n;
              m = m\<lparr>xmt := HTONL_FP t\<rparr>;
              n = ntp_emit (UdpSend (ntp_peer n) (sntp_bytes m)) n
          in ntp_emit NtpPbufFree n)"

definition MonitorlConstant :: nat where "MonitorlConstant = 16"

definition ntpFind :: "(sntp_c \<Rightarrow> bool) \<Rightarrow> sntp_c list \<Rightarrow> nat option" where
  "ntpFind P tab = find (\<lambda>i. P (tab ! i)) [0..<MonitorlConstant]"

definition sntp_unpack_control :: "(time_fp \<Rightarrow> 64 word) \<Rightarrow> UInteger32 \<Rightarrow> sntp_s \<Rightarrow> Ntp \<Rightarrow> Ntp" where
  "sntp_unpack_control toDisp remote msg n =
    (let disp = toDisp (NTOHL_FP (recv msg));
         d = \<lparr>fp_ui = ucast (disp div 100000000), fp_uf = ucast (disp mod 100000000)\<rparr>;
         (now, n) = ntp_reg n;
         tab = SntpMonitorl n
     in case ntpFind (\<lambda>e. mon_ipaddr e = remote) tab of
       Some i \<Rightarrow> n\<lparr>SntpMonitorl := tab[i := (tab ! i)\<lparr>mon_disp := d, mon_time := now\<rparr>]\<rparr>
     | None \<Rightarrow>
         (case ntpFind (\<lambda>e. mon_ipaddr e = 0) tab of
            Some i \<Rightarrow> n\<lparr>SntpMonitorl := tab[i := \<lparr>mon_ipaddr = remote, mon_time = now, mon_disp = d\<rparr>]\<rparr>
          | None \<Rightarrow>
              (let k = unat (mon_index n);
                   n = (if k < length tab
                        then n\<lparr>SntpMonitorl := tab[k := \<lparr>mon_ipaddr = remote, mon_time = now, mon_disp = d\<rparr>]\<rparr>
                        else n\<lparr>mon_overrun := True\<rparr>);
                   n = n\<lparr>mon_index := mon_index n + 1\<rparr>
               in if unat (mon_index n) > MonitorlConstant then n\<lparr>mon_index := 0\<rparr> else n)))"

text \<open>The callback of port 123: the chain of the datagram, if any, and its sender.\<close>

definition sntp_server_receive_callback ::
  "(time_fp \<Rightarrow> 64 word) \<Rightarrow> Octet list list option \<Rightarrow> UInteger32 \<Rightarrow> UInteger16 \<Rightarrow> Ntp \<Rightarrow> Ntp" where
  "sntp_server_receive_callback toDisp p addr port n =
    (case p of
       None \<Rightarrow> ntp_emit NtpPbufFree n
     | Some chain \<Rightarrow>
         let (recv_t, n) = get_sys_timer n;
             (buf, data_len) = copyDatagram chain (replicate UDP_BUFSIZE 0) 0;
             n = n\<lparr>recvbuf := buf\<rparr>;
             n = udp_connect addr port n;
             msg = sntp_of_bytes (take sizeof_sntp (recvbuf n));
             n = (if data_len < sizeof_sntp \<or> MSG_MODE (li_vn_md msg) \<noteq> MODE_CLIENT then udp_disconnect n
                  else if MSG_MODE (li_vn_md msg) = MODE_CLIENT
                  then udp_disconnect (sntp_packet_senddata (xmt msg) recv_t n)
                  else if MSG_MODE (li_vn_md msg) = MODE_CONTROL
                  then udp_disconnect (sntp_unpack_control toDisp addr msg n)
                  else n)
         in ntp_emit NtpPbufFree n)"

subsection \<open>The client\<close>

definition udp_sntp_client_connect :: "Ntp \<Rightarrow> Ntp" where
  "udp_sntp_client_connect n =
    (let (ok, n) = ntp_alloc n
     in if \<not> ok then n
        else
          let m = sntp_zero\<lparr>li_vn_md := MSG_LI_VN_MODE 0 SNTP_VERSION MODE_CLIENT, stratum := SNTP_STRATUM\<rparr>;
              (t, n) = get_sys_timer n;
              m = m\<lparr>xmt := HTONL_FP t\<rparr>;
              n = ntp_emit (UdpSend (ntp_peer n) (sntp_bytes m)) n
          in ntp_emit NtpPbufFree n)"

text \<open>The offset and the delay of an exchange; a reply without an originate time sets neither.\<close>

definition sntp_client_time_handle :: "time_fp \<Rightarrow> sntp_s \<Rightarrow> time_fp \<times> time_fp \<Rightarrow> time_fp \<times> time_fp" where
  "sntp_client_time_handle rev_time msg = (\<lambda>(delay, offset).
    let orig_t = NTOHL_FP (orig msg);
        recv_t = NTOHL_FP (recv msg);
        xmt_t = NTOHL_FP (xmt msg)
    in if fp_ui orig_t = 0 \<and> fp_uf orig_t = 0 then (delay, offset)
       else
         let t3_4 = TS_SUB xmt_t rev_time;
             t2_1 = TS_SUB recv_t orig_t;
             offset = TS_ADD (TS_RSHIFT t3_4) (TS_RSHIFT t2_1);
             t4_1 = TS_SUB rev_time orig_t;
             t3_2 = TS_SUB xmt_t recv_t
         in (TS_SUB t4_1 t3_2, offset))"

definition udp_sntp_client_control_send :: "time_fp \<Rightarrow> time_fp \<Rightarrow> Ntp \<Rightarrow> Ntp" where
  "udp_sntp_client_control_send delay offset n =
    (let (ok, n) = ntp_alloc n
     in if \<not> ok then n
        else
          let m = sntp_zero\<lparr>li_vn_md := MSG_LI_VN_MODE 0 SNTP_VERSION MODE_CONTROL, stratum := SNTP_STRATUM,
                xmt := HTONL_FP delay, recv := HTONL_FP offset\<rparr>;
              n = ntp_emit (UdpSend (ntp_peer n) (sntp_bytes m)) n
          in ntp_emit NtpPbufFree n)"

text \<open>\<^verbatim>\<open>NTPupdateclock\<close>, from the count of nanoseconds \<^verbatim>\<open>TmpNano\<close> on.\<close>

definition NTPupdateclock :: "Integer64 \<Rightarrow> clock \<Rightarrow> clock" where
  "NTPupdateclock TmpNano c =
    (let nTime_t = \<lparr>seconds = i32 (TmpNano sdiv 1000000000), nanoseconds = i32 (TmpNano smod 1000000000)\<rparr>;
         c = c\<lparr>currentDS := (currentDS c)\<lparr>offsetFromMaster := nTime_t\<rparr>\<rparr>
     in updateClock c)"

definition sntp_receive_callback ::
  "(time_fp \<Rightarrow> Integer64) \<Rightarrow> PTP_MODE \<Rightarrow> Octet list list option \<Rightarrow> Ntp \<times> clock \<Rightarrow> Ntp \<times> clock" where
  "sntp_receive_callback toNano mode p = (\<lambda>(n, c).
    case p of
      None \<Rightarrow> (ntp_emit NtpPbufFree n, c)
    | Some chain \<Rightarrow>
        let (buf, data_len) = copyDatagram chain (clientbuf n) 0;
            n = n\<lparr>clientbuf := buf\<rparr>;
            msg = sntp_of_bytes (take sizeof_sntp (clientbuf n))
        in if data_len < sizeof_sntp \<or> MSG_MODE (li_vn_md msg) \<noteq> MODE_SERVER then (ntp_emit NtpPbufFree n, c)
           else
             let (rev_time, n) = get_sys_timer n;
                 (delay, offset) = sntp_client_time_handle rev_time msg (delay_t n, offset_t n);
                 n = n\<lparr>delay_t := delay, offset_t := offset\<rparr>;
                 n = udp_sntp_client_control_send delay offset n;
                 c = (if mode = emNTPSlave then NTPupdateclock (toNano offset) c else c)
             in (ntp_emit NtpPbufFree n, c))"

subsection \<open>What the messages carry\<close>

lemma put_bytes_append: "put_bytes buf i (as @ bs) = put_bytes (put_bytes buf i as) (i + length as) bs"
  by (induction as arbitrary: buf i) (simp_all add: put_bytes.simps)

lemma copyDatagram_spec:
  "n \<le> UDP_BUFSIZE \<Longrightarrow>
    fst (copyDatagram qs buf n) = put_bytes buf n (take (UDP_BUFSIZE - n) (concat qs))
    \<and> (snd (copyDatagram qs buf n) = n + length (concat qs)
       \<or> UDP_BUFSIZE < snd (copyDatagram qs buf n) \<and> UDP_BUFSIZE < n + length (concat qs))"
proof (induction qs arbitrary: buf n)
  case Nil show ?case by (simp add: put_bytes.simps)
next
  case (Cons q qs)
  show ?case
  proof (cases "n + length q > UDP_BUFSIZE")
    case True
    then have "length q > UDP_BUFSIZE - n" using Cons.prems by simp
    then show ?thesis using True Cons.prems by (simp add: Let_def)
  next
    case False
    then have "\<not> length q > UDP_BUFSIZE - n" by simp
    then show ?thesis
      using Cons.IH [of "n + length q" "put_bytes buf n q"] False
      by (auto simp: Let_def put_bytes_append add.assoc)
  qed
qed

lemma received_message:
  assumes "copyDatagram chain buf 0 = (buf', len)" and "length buf = UDP_BUFSIZE"
  shows "len < sizeof_sntp \<longleftrightarrow> length (concat chain) < sizeof_sntp"
    and "sizeof_sntp \<le> length (concat chain) \<Longrightarrow> take sizeof_sntp buf' = take sizeof_sntp (concat chain)"
proof -
  note c = copyDatagram_spec [of 0 chain buf]
  show "len < sizeof_sntp \<longleftrightarrow> length (concat chain) < sizeof_sntp"
    using c assms(1) by (auto simp: UDP_BUFSIZE_def sizeof_sntp_def)
  show "take sizeof_sntp buf' = take sizeof_sntp (concat chain)" if "sizeof_sntp \<le> length (concat chain)"
    using c assms that take_put_bytes [of sizeof_sntp "take UDP_BUFSIZE (concat chain)" buf]
    by (simp add: UDP_BUFSIZE_def sizeof_sntp_def min_def)
qed

lemma un_le32_bytes: "un_le32 [ucast v, ucast (drop_bit 8 v), ucast (drop_bit 16 v), ucast (drop_bit 24 v)] = v"
  using un_le32_le32 [of v] by (simp add: le32_def)

lemma get32_nth: "get32 b i = un_le32 [b ! i, b ! (i + 1), b ! (i + 2), b ! (i + 3)]"
  by (simp add: get32_def get_bytes_def eval_nat_numeral)

lemma sntp_roundtrip: "sntp_of_bytes (sntp_bytes m) = m"
  by (cases m, cases "ref_time m", cases "orig m", cases "recv m", cases "xmt m")
    (simp add: sntp_of_bytes_def sntp_bytes_def get_fp_def le_fp_def get32_nth get8_def le32_def un_le32_bytes)

lemma length_sntp_bytes: "length (sntp_bytes m) = 48"
  by (simp add: sntp_bytes_def le_fp_def)

lemma mode_masks: "(0x7 :: 8 word) = mask 3" "(0x38 :: 8 word) = push_bit 3 (mask 3)" "(0xc0 :: 8 word) = push_bit 6 (mask 2)"
  by (simp_all add: mask_eq_exp_minus_1)

lemma MODE_of: "MSG_MODE (MSG_LI_VN_MODE li vn md) = md AND 7"
  unfolding MSG_MODE_def MSG_LI_VN_MODE_def mode_masks
  by (rule bit_word_eqI) (auto simp: bit_simps)

lemma HTONL_FP_inverse [simp]: "NTOHL_FP (HTONL_FP t) = t"
  by (simp add: NTOHL_FP_def HTONL_FP_def)

text \<open>A request of this client, and the answer of this server to it.\<close>

definition client_request :: "time_fp \<Rightarrow> sntp_s" where
  "client_request t = sntp_zero\<lparr>li_vn_md := MSG_LI_VN_MODE 0 SNTP_VERSION MODE_CLIENT, stratum := SNTP_STRATUM,
     xmt := HTONL_FP t\<rparr>"

text \<open>The time stamp a device takes from the clock registers, and the following reads.\<close>

definition stamp :: "Ntp \<Rightarrow> nat \<Rightarrow> time_fp" where
  "stamp n k = \<lparr>fp_ui = ntp_regs n (ntp_regs_n n + k) + JAN_1900, fp_uf = ntp_regs n (ntp_regs_n n + k + 1) * 2\<rparr>"

lemma server_reply:
  assumes "sizeof_sntp \<le> length (concat chain)" and "MSG_MODE (li_vn_md (sntp_of_bytes (take sizeof_sntp (concat chain)))) = MODE_CLIENT"
    and "ntp_alloc_ok n (ntp_alloc_n n)"
  shows "\<exists>m. ntp_outputs (sntp_server_receive_callback toDisp (Some chain) addr port n)
      = [NtpPbufFree, UdpDisconnect, NtpPbufFree, UdpSend (Some (addr, port)) (sntp_bytes m), UdpConnect addr port] @ ntp_outputs n
    \<and> MSG_MODE (li_vn_md m) = MODE_SERVER
    \<and> orig m = xmt (sntp_of_bytes (take sizeof_sntp (concat chain)))
    \<and> NTOHL_FP (recv m) = stamp n 0
    \<and> NTOHL_FP (xmt m) = stamp n 2"
proof -
  obtain buf len where c: "copyDatagram chain (replicate UDP_BUFSIZE 0) 0 = (buf, len)" by (rule prod.exhaust)
  note r = received_message [OF c, simplified]
  have l: "\<not> len < sizeof_sntp" "take sizeof_sntp buf = take sizeof_sntp (concat chain)" using r assms(1) by simp_all
  show ?thesis
    using assms(2,3)
    by (simp add: sntp_server_receive_callback_def c l get_sys_timer_def ntp_reg_def udp_connect_def udp_disconnect_def
        sntp_packet_senddata_def ntp_alloc_def ntp_emit_def Let_def)
      (intro exI conjI, rule refl, simp_all add: MODE_of stamp_def numeral_3_eq_3 numeral_2_eq_2)
qed

text \<open>C28: the server answers a client's request, of any length from 48 bytes on and however the datagram is
  cut into buffers, with one 48 byte message to the sender in server mode, whose originate time is the
  transmit time of the request bit by bit, whose receive time is the clock at the arrival and
  whose transmit time is the clock at the answer, both in network order; the connection is
  dissolved and the packet freed.\<close>

theorem sntp_server_answers:
  assumes "sizeof_sntp \<le> length (concat chain)" and "MSG_MODE (li_vn_md (sntp_of_bytes (take sizeof_sntp (concat chain)))) = MODE_CLIENT"
    and "ntp_alloc_ok n (ntp_alloc_n n)"
  shows "\<exists>m. ntp_outputs (sntp_server_receive_callback toDisp (Some chain) addr port n)
      = [NtpPbufFree, UdpDisconnect, NtpPbufFree, UdpSend (Some (addr, port)) (sntp_bytes m), UdpConnect addr port] @ ntp_outputs n
    \<and> MSG_MODE (li_vn_md m) = MODE_SERVER
    \<and> orig m = xmt (sntp_of_bytes (take sizeof_sntp (concat chain)))
    \<and> NTOHL_FP (recv m) = stamp n 0
    \<and> NTOHL_FP (xmt m) = stamp n 2"
  by (rule server_reply [OF assms])

definition sample_ntp :: Ntp where
  "sample_ntp = \<lparr>ntp_regs = (\<lambda>i. of_nat (100 + i)), ntp_regs_n = 0, ntp_alloc_ok = (\<lambda>_. True), ntp_alloc_n = 0,
     ntp_local_ip = 0x0A01A8C0, ntp_peer = None, sync_state = 0, recvbuf = replicate 2048 0, clientbuf = replicate 2048 0,
     SntpMonitorl = replicate 16 \<lparr>mon_ipaddr = 0, mon_time = 0, mon_disp = \<lparr>fp_ui = 0, fp_uf = 0\<rparr>\<rparr>, mon_index = 0,
     mon_overrun = False, delay_t = \<lparr>fp_ui = 0, fp_uf = 0\<rparr>, offset_t = \<lparr>fp_ui = 0, fp_uf = 0\<rparr>, ntp_outputs = []\<rparr>"

theorem sntp_server_answers_witness:
  "length (ntp_outputs (sntp_server_receive_callback (\<lambda>_. 0) (Some [sntp_bytes (client_request \<lparr>fp_ui = 7, fp_uf = 9\<rparr>)]) 5 123 sample_ntp)) = 5"
proof -
  let ?b = "sntp_bytes (client_request \<lparr>fp_ui = 7, fp_uf = 9\<rparr>)"
  have "take sizeof_sntp (concat [?b]) = ?b" by (simp add: sizeof_sntp_def length_sntp_bytes)
  then have "MSG_MODE (li_vn_md (sntp_of_bytes (take sizeof_sntp (concat [?b])))) = MODE_CLIENT"
    by (simp add: sntp_roundtrip client_request_def MODE_of)
  moreover have "sizeof_sntp \<le> length (concat [?b])" by (simp add: sizeof_sntp_def length_sntp_bytes)
  ultimately show ?thesis
    using sntp_server_answers [of "[?b]" sample_ntp "\<lambda>_. 0" 5 123] by (auto simp: sample_ntp_def)
qed

text \<open>the server's monitor never learns anything: the branch for control messages stands behind a test that has
  already rejected every mode but the client's, so whatever is received, the monitor table and its
  index stay as they are, although the client sends its offset and delay in exactly such a message.\<close>

theorem control_messages_ignored:
  "SntpMonitorl (sntp_server_receive_callback toDisp p addr port n) = SntpMonitorl n
    \<and> mon_index (sntp_server_receive_callback toDisp p addr port n) = mon_index n
    \<and> (\<forall>chain. p = Some chain \<and> MSG_MODE (li_vn_md (sntp_of_bytes (take sizeof_sntp (concat chain)))) = MODE_CONTROL
        \<and> sizeof_sntp \<le> length (concat chain)
        \<longrightarrow> ntp_outputs (sntp_server_receive_callback toDisp p addr port n)
          = [NtpPbufFree, UdpDisconnect, UdpConnect addr port] @ ntp_outputs n)"
proof -
  have m: "MSG_MODE b \<noteq> MODE_CLIENT \<or> MSG_MODE b = MODE_CLIENT" for b by simp
  have "ntp_outputs (sntp_server_receive_callback toDisp (Some chain) addr port n)
      = [NtpPbufFree, UdpDisconnect, UdpConnect addr port] @ ntp_outputs n"
    if a: "MSG_MODE (li_vn_md (sntp_of_bytes (take sizeof_sntp (concat chain)))) = MODE_CONTROL" "sizeof_sntp \<le> length (concat chain)" for chain
  proof -
    obtain buf len where c: "copyDatagram chain (replicate UDP_BUFSIZE 0) 0 = (buf, len)" by (rule prod.exhaust)
    note r = received_message [OF c, simplified]
    have l: "\<not> len < sizeof_sntp" "take sizeof_sntp buf = take sizeof_sntp (concat chain)" using r a(2) by simp_all
    show ?thesis
      using a(1) by (simp add: sntp_server_receive_callback_def c l get_sys_timer_def ntp_reg_def udp_connect_def
          udp_disconnect_def ntp_emit_def Let_def)
  qed
  then show ?thesis
    by (auto simp: sntp_server_receive_callback_def get_sys_timer_def ntp_reg_def udp_connect_def udp_disconnect_def
        sntp_packet_senddata_def ntp_alloc_def ntp_emit_def Let_def split: option.split prod.split)
qed

subsection \<open>The exchange\<close>

lemma time_handle_values:
  assumes "NTOHL_FP (orig msg) = t1" and "NTOHL_FP (recv msg) = t2" and "NTOHL_FP (xmt msg) = t3"
    and "fp_value t1 \<noteq> 0"
    and x: "x = fp_value t2 - fp_value t1" "-4611686018427387904 \<le> x" "x < 4611686018427387904"
    and y: "y = fp_value t3 - fp_value t4" "-4611686018427387904 \<le> y" "y < 4611686018427387904"
  shows "fp_signed (fst (sntp_client_time_handle t4 msg d)) = x - y"
    and "fp_signed (snd (sntp_client_time_handle t4 msg d)) = x div 2 + y div 2"
proof -
  have z: "\<not> (fp_ui t1 = 0 \<and> fp_uf t1 = 0)" using assms(4) by (auto simp: fp_value_def)
  obtain d1 d2 where d: "d = (d1, d2)" by (cases d)
  have h: "sntp_client_time_handle t4 msg d =
      (TS_SUB (TS_SUB t4 t1) (TS_SUB t3 t2), TS_ADD (TS_RSHIFT (TS_SUB t3 t4)) (TS_RSHIFT (TS_SUB t2 t1)))"
    using z by (auto simp: d sntp_client_time_handle_def assms(1-3) Let_def)
  have "fp_word (TS_SUB (TS_SUB t4 t1) (TS_SUB t3 t2)) = word_of_int (x - y)"
    unfolding fp_word_DIFF fp_word_value [of t1] fp_word_value [of t2] fp_word_value [of t3] fp_word_value [of t4] x(1) y(1)
    by (simp add: algebra_simps)
  then show "fp_signed (fst (sntp_client_time_handle t4 msg d)) = x - y"
    unfolding h fst_conv by (rule fp_signed_eq) (use x y in simp_all)
  have w: "fp_word (TS_SUB t3 t4) = word_of_int y" "fp_word (TS_SUB t2 t1) = word_of_int x"
    unfolding fp_word_DIFF fp_word_value [of t1] fp_word_value [of t2] fp_word_value [of t3] fp_word_value [of t4] x(1) y(1)
    by simp_all
  have s: "fp_signed (TS_SUB t3 t4) = y" "fp_signed (TS_SUB t2 t1) = x"
    using fp_signed_eq [OF w(1)] fp_signed_eq [OF w(2)] x y by simp_all
  have "fp_word (TS_ADD (TS_RSHIFT (TS_SUB t3 t4)) (TS_RSHIFT (TS_SUB t2 t1))) = word_of_int (y div 2 + x div 2)"
    unfolding fp_word_SUM fp_word_signed [of "TS_RSHIFT _"] fp_signed_half s by simp
  then have "fp_signed (TS_ADD (TS_RSHIFT (TS_SUB t3 t4)) (TS_RSHIFT (TS_SUB t2 t1))) = y div 2 + x div 2"
    by (rule fp_signed_eq) (use x y in linarith)+
  then show "fp_signed (snd (sntp_client_time_handle t4 msg d)) = x div 2 + y div 2" by (simp add: h)
qed

lemma client_measures:
  assumes "length (clientbuf n) = UDP_BUFSIZE" and "MSG_MODE (li_vn_md m) = MODE_SERVER"
  shows "(delay_t (fst (sntp_receive_callback toNano mode (Some [sntp_bytes m]) (n, c))),
      offset_t (fst (sntp_receive_callback toNano mode (Some [sntp_bytes m]) (n, c))))
    = sntp_client_time_handle (stamp n 0) m (delay_t n, offset_t n)"
proof -
  define chain where "chain = [sntp_bytes m]"
  obtain buf len where cp: "copyDatagram chain (clientbuf n) 0 = (buf, len)" by (rule prod.exhaust)
  note r = received_message [OF cp assms(1)]
  have l: "\<not> len < sizeof_sntp" "take sizeof_sntp buf = sntp_bytes m"
    using r by (simp_all add: length_sntp_bytes sizeof_sntp_def chain_def)
  obtain d o' where h: "sntp_client_time_handle (stamp n 0) m (delay_t n, offset_t n) = (d, o')" by (rule prod.exhaust)
  show ?thesis
    using h unfolding chain_def [symmetric] by (simp add: sntp_receive_callback_def cp l sntp_roundtrip assms(2) get_sys_timer_def ntp_reg_def
        udp_sntp_client_control_send_def ntp_alloc_def ntp_emit_def Let_def stamp_def)
qed

text \<open>C29: the exchange measures the clocks: when the server's clock is \<open>\<theta>\<close> units of \<open>2\<^sup>-\<^sup>3\<^sup>2\<close> seconds ahead of
  the client's and each way takes \<open>p\<close> units, the client that receives the server's answer to its
  request of \<open>t1\<close> holds the round trip \<open>2 * p\<close> as its delay and \<open>\<theta>\<close>, at most one unit less, as its
  offset.\<close>

theorem ntp_exchange:
  assumes "ntp_alloc_ok s (ntp_alloc_n s)" and "length (clientbuf n) = UDP_BUFSIZE" and "fp_value t1 \<noteq> 0"
    and "fp_value (stamp s 0) = fp_value t1 + \<theta> + p" and "fp_value (stamp n 0) = fp_value (stamp s 2) - \<theta> + p"
    and "0 \<le> p" "p < 2305843009213693952" "\<bar>\<theta>\<bar> < 2305843009213693952"
  shows "\<exists>b. UdpSend (Some (addr, port)) b
        \<in> set (ntp_outputs (sntp_server_receive_callback toDisp (Some [sntp_bytes (client_request t1)]) addr port s))
      \<and> fp_signed (delay_t (fst (sntp_receive_callback toNano mode (Some [b]) (n, c)))) = 2 * p
      \<and> fp_signed (offset_t (fst (sntp_receive_callback toNano mode (Some [b]) (n, c)))) = (if even (\<theta> + p) then \<theta> else \<theta> - 1)"
proof -
  let ?q = "sntp_bytes (client_request t1)"
  have t: "take sizeof_sntp (concat [?q]) = ?q" "sizeof_sntp \<le> length (concat [?q])"
    by (simp_all add: sizeof_sntp_def length_sntp_bytes)
  have k: "MSG_MODE (li_vn_md (sntp_of_bytes (take sizeof_sntp (concat [?q])))) = MODE_CLIENT"
    unfolding t(1) by (simp add: sntp_roundtrip client_request_def MODE_of)
  obtain m where m: "UdpSend (Some (addr, port)) (sntp_bytes m)
        \<in> set (ntp_outputs (sntp_server_receive_callback toDisp (Some [?q]) addr port s))"
      "MSG_MODE (li_vn_md m) = MODE_SERVER" "orig m = HTONL_FP t1" "NTOHL_FP (recv m) = stamp s 0" "NTOHL_FP (xmt m) = stamp s 2"
  proof -
    from server_reply [OF t(2) k assms(1), of toDisp addr port, unfolded t(1)] obtain m where
      e: "ntp_outputs (sntp_server_receive_callback toDisp (Some [?q]) addr port s)
        = [NtpPbufFree, UdpDisconnect, NtpPbufFree, UdpSend (Some (addr, port)) (sntp_bytes m), UdpConnect addr port] @ ntp_outputs s"
      and m: "MSG_MODE (li_vn_md m) = MODE_SERVER" "orig m = xmt (sntp_of_bytes ?q)" "NTOHL_FP (recv m) = stamp s 0" "NTOHL_FP (xmt m) = stamp s 2"
      by blast
    have "UdpSend (Some (addr, port)) (sntp_bytes m) \<in> set (ntp_outputs (sntp_server_receive_callback toDisp (Some [?q]) addr port s))"
      unfolding e by simp
    moreover have "orig m = HTONL_FP t1" unfolding m(2) by (simp add: sntp_roundtrip client_request_def)
    ultimately show thesis using that m by blast
  qed
  define x y where "x = fp_value (stamp s 0) - fp_value t1" and "y = fp_value (stamp s 2) - fp_value (stamp n 0)"
  have xy: "x = \<theta> + p" "y = \<theta> - p" using assms(4,5) by (simp_all add: x_def y_def)
  have o: "NTOHL_FP (orig m) = t1" using m(3) by simp
  have r: "-4611686018427387904 \<le> x" "x < 4611686018427387904" "-4611686018427387904 \<le> y" "y < 4611686018427387904"
    unfolding xy using assms(6-8) by linarith+
  note v = time_handle_values [OF o m(4,5) assms(3) x_def r(1,2) y_def r(3,4), of "(delay_t n, offset_t n)"]
  have "x - y = 2 * p" "x div 2 + y div 2 = (if even (\<theta> + p) then \<theta> else \<theta> - 1)"
    unfolding xy by (simp, presburger)
  with v client_measures [OF assms(2) m(2), of toNano mode c] m(1) show ?thesis by (metis fst_conv snd_conv)
qed

definition sample_client :: Ntp where
  "sample_client = sample_ntp\<lparr>ntp_regs := (\<lambda>i. if i = 0 then 102 else 104)\<rparr>"

theorem ntp_exchange_witness:
  "\<exists>b. fp_signed (delay_t (fst (sntp_receive_callback (\<lambda>_. 0) emNTPMaster (Some [b])
      (sample_client, power_up (\<lambda>_. 0) (\<lambda>_. 0) (\<lambda>_. tx_good))))) = 4"
  using ntp_exchange [of sample_ntp sample_client "\<lparr>fp_ui = 100 + JAN_1900, fp_uf = 200\<rparr>" 0 2 5 123 "\<lambda>_. 0" "\<lambda>_. 0"
      emNTPMaster "power_up (\<lambda>_. 0) (\<lambda>_. 0) (\<lambda>_. tx_good)"]
  by (auto simp: sample_client_def sample_ntp_def stamp_def fp_value_def JAN_1900_def UDP_BUFSIZE_def)

end
