(* ===== verification/Dev_Eth.thy ===== *)
theory Dev_Eth
  imports Ptp_Bytes Ptp_Fifo Ptp_Sys
begin

text \<open>
  The packet driver: the descriptor rings of \<^verbatim>\<open>lwip-1.3.1/port/ethernetif.c\<close> and their set-up in
  \<^verbatim>\<open>stm32_eth.c\<close>.  A descriptor is shared with the DMA engine of the Ethernet controller, which
  owns it while its \<^verbatim>\<open>OWN\<close> bit is set and leaves the time stamp of the frame in its two address
  words; a shadow table keeps the addresses so that the driver can put them back.  Addresses are
  32 bit words and are followed as the code follows them; the tables lie at addresses that the ring carries.
\<close>

subsection \<open>Descriptors and rings\<close>

record ETH_DMADESC =
  Status :: UInteger32
  ControlBufferSize :: UInteger32
  Buffer1Addr :: UInteger32
  Buffer2NextDescAddr :: UInteger32

definition ETH_RXBUFNB :: nat where "ETH_RXBUFNB = 5"
definition ETH_TXBUFNB :: nat where "ETH_TXBUFNB = 5"
definition ETH_MAX_PACKET_SIZE :: nat where "ETH_MAX_PACKET_SIZE = 1520"
definition PHY_READ_TO :: nat where "PHY_READ_TO = 0xFF"

abbreviation (input) DESC_OWN :: UInteger32 where "DESC_OWN \<equiv> 0x80000000"
abbreviation (input) Rx_ES :: UInteger32 where "Rx_ES \<equiv> 0x00008000"
abbreviation (input) Rx_FS :: UInteger32 where "Rx_FS \<equiv> 0x00000200"
abbreviation (input) Rx_LS :: UInteger32 where "Rx_LS \<equiv> 0x00000100"
abbreviation (input) Rx_FL :: UInteger32 where "Rx_FL \<equiv> 0x3FFF0000"
abbreviation (input) Rx_RCH :: UInteger32 where "Rx_RCH \<equiv> 0x00004000"
abbreviation (input) Tx_LS :: UInteger32 where "Tx_LS \<equiv> 0x20000000"
abbreviation (input) Tx_FS :: UInteger32 where "Tx_FS \<equiv> 0x10000000"
abbreviation (input) Tx_TTSE :: UInteger32 where "Tx_TTSE \<equiv> 0x02000000"
abbreviation (input) Tx_TCH :: UInteger32 where "Tx_TCH \<equiv> 0x00100000"
abbreviation (input) Tx_TTSS :: UInteger32 where "Tx_TTSS \<equiv> 0x00020000"

text \<open>
  One direction: the descriptor table, its shadow and the buffers with their addresses, the two
  pointers of the driver (\<^verbatim>\<open>DMARxDescToGet\<close> and \<^verbatim>\<open>DMAPTPRxDescToGet\<close>, or \<^verbatim>\<open>DMATxDescToSet\<close> and
  \<^verbatim>\<open>DMAPTPTxDescToSet\<close>), the current descriptor of the DMA engine, its flag for an
  unavailable buffer, and the frames it has sent.
\<close>

record Ring =
  tab_at :: UInteger32
  ptp_at :: UInteger32
  buff_at :: UInteger32
  descs :: "ETH_DMADESC list"
  shadow :: "ETH_DMADESC list"
  buffs :: "Octet list list"
  cur :: UInteger32
  ptp_cur :: UInteger32
  dma_cur :: UInteger32
  unavailable :: bool
  wire :: "Octet list list"

definition slot :: "UInteger32 \<Rightarrow> UInteger32 \<Rightarrow> nat" where
  "slot base a = unat (a - base) div 16"

definition desc :: "Ring \<Rightarrow> UInteger32 \<Rightarrow> ETH_DMADESC" where
  "desc r a = descs r ! slot (tab_at r) a"

definition ptp_desc :: "Ring \<Rightarrow> UInteger32 \<Rightarrow> ETH_DMADESC" where
  "ptp_desc r a = shadow r ! slot (ptp_at r) a"

definition set_desc :: "UInteger32 \<Rightarrow> ETH_DMADESC \<Rightarrow> Ring \<Rightarrow> Ring" where
  "set_desc a d r = r\<lparr>descs := (descs r)[slot (tab_at r) a := d]\<rparr>"

definition row :: "Ring \<Rightarrow> UInteger32 \<Rightarrow> nat" where
  "row r a = unat (a - buff_at r) div ETH_MAX_PACKET_SIZE"

subsection \<open>Set-up\<close>

definition descAddr :: "Ring \<Rightarrow> nat \<Rightarrow> UInteger32" where
  "descAddr r i = tab_at r + of_nat (16 * i)"

definition buffAddr :: "Ring \<Rightarrow> nat \<Rightarrow> UInteger32" where
  "buffAddr r i = buff_at r + of_nat (i * ETH_MAX_PACKET_SIZE)"

text \<open>The loop of both functions, on the descriptors the caller prepares.\<close>

definition chainInit :: "(ETH_DMADESC \<Rightarrow> ETH_DMADESC) \<Rightarrow> nat \<Rightarrow> Ring \<Rightarrow> Ring" where
  "chainInit prepare n r =
    (let addrs = (\<lambda>i d. d\<lparr>Buffer1Addr := buffAddr r i, Buffer2NextDescAddr := descAddr r (if i < n - 1 then i + 1 else 0)\<rparr>);
         sh = map (\<lambda>i. addrs i (shadow r ! i)) [0..<n]
     in r\<lparr>cur := tab_at r, ptp_cur := ptp_at r, dma_cur := tab_at r,
          descs := map (\<lambda>i. addrs i (prepare (descs r ! i))) [0..<n],
          shadow := sh[n - 1 := (sh ! (n - 1))\<lparr>Status := ptp_at r\<rparr>]\<rparr>)"

definition ETH_DMAPTPTxDescChainInit :: "nat \<Rightarrow> Ring \<Rightarrow> Ring" where
  "ETH_DMAPTPTxDescChainInit = chainInit (\<lambda>d. d\<lparr>Status := Tx_TCH OR Tx_TTSE\<rparr>)"

definition ETH_DMAPTPRxDescChainInit :: "nat \<Rightarrow> Ring \<Rightarrow> Ring" where
  "ETH_DMAPTPRxDescChainInit = chainInit
    (\<lambda>d. d\<lparr>Status := DESC_OWN, ControlBufferSize := Rx_RCH OR of_nat ETH_MAX_PACKET_SIZE\<rparr>)"

text \<open>The tables and buffers before the set-up: static memory at some address.\<close>

definition ring_memory :: "UInteger32 \<Rightarrow> UInteger32 \<Rightarrow> UInteger32 \<Rightarrow> nat \<Rightarrow> Ring" where
  "ring_memory tab ptp buf n =
    (let z = \<lparr>Status = 0, ControlBufferSize = 0, Buffer1Addr = 0, Buffer2NextDescAddr = 0\<rparr>
     in \<lparr>tab_at = tab, ptp_at = ptp, buff_at = buf, descs = replicate n z, shadow = replicate n z,
         buffs = replicate n (replicate ETH_MAX_PACKET_SIZE 0), cur = 0, ptp_cur = 0, dma_cur = 0, unavailable = False, wire = []\<rparr>)"

text \<open>The next entry of the shadow table: the address the last entry holds, or the next one in memory.\<close>

definition nextShadow :: "Ring \<Rightarrow> UInteger32" where
  "nextShadow r = (if Status (ptp_desc r (ptp_cur r)) \<noteq> 0 then Status (ptp_desc r (ptp_cur r)) else ptp_cur r + 16)"

subsection \<open>Receiving\<close>

definition ETH_GetRxPktSize :: "Ring \<Rightarrow> UInteger32" where
  "ETH_GetRxPktSize r =
    (let st = Status (desc r (cur r))
     in if st AND DESC_OWN = 0 \<and> st AND Rx_ES = 0 \<and> st AND Rx_LS \<noteq> 0 \<and> st AND Rx_FS \<noteq> 0
        then drop_bit 16 (st AND Rx_FL) else 0)"

text \<open>The frame the code passes around; a null descriptor pointer is \<open>None\<close>.\<close>

record FrameType =
  frame_length :: UInteger32
  frame_buffer :: UInteger32
  frame_desc :: "(UInteger32 \<times> UInteger32) option"

definition ETH_PTPRxPkt_ChainMode :: "Ring \<Rightarrow> FrameType \<times> Ring" where
  "ETH_PTPRxPkt_ChainMode r =
    (let st = Status (desc r (cur r))
     in if st AND DESC_OWN \<noteq> 0
        then (\<lparr>frame_length = 0, frame_buffer = 0, frame_desc = None\<rparr>, r\<lparr>unavailable := False\<rparr>)
        else
          let good = (st AND Rx_ES = 0 \<and> st AND Rx_LS \<noteq> 0 \<and> st AND Rx_FS \<noteq> 0);
              frame = \<lparr>frame_length = (if good then drop_bit 16 (st AND Rx_FL) - 4 else 0),
                 frame_buffer = (if good then Buffer1Addr (ptp_desc r (ptp_cur r)) else 0),
                 frame_desc = Some (cur r, ptp_cur r)\<rparr>
          in (frame, r\<lparr>cur := Buffer2NextDescAddr (ptp_desc r (ptp_cur r)), ptp_cur := nextShadow r\<rparr>))"

text \<open>\<^verbatim>\<open>ETH_PTPRxPkt_ChainMode_CleanUp\<close> reads the time stamp and restores the addresses.\<close>

definition ETH_PTPRxPkt_ChainMode_CleanUp :: "UInteger32 \<Rightarrow> UInteger32 \<Rightarrow> Ring \<Rightarrow> TimeInternal \<times> Ring" where
  "ETH_PTPRxPkt_ChainMode_CleanUp a p r =
    (let d = desc r a; q = ptp_desc r p
     in (\<lparr>seconds = i32 (uint (Buffer2NextDescAddr d)), nanoseconds = i32 (uint (ETH_PTPSubSecond2NanoSecond (Buffer1Addr d)))\<rparr>,
         set_desc a (d\<lparr>Buffer1Addr := Buffer1Addr q, Buffer2NextDescAddr := Buffer2NextDescAddr q\<rparr>) r))"

definition ETH_RxPkt_ChainMode_CleanUp :: "UInteger32 \<Rightarrow> Ring \<Rightarrow> Ring" where
  "ETH_RxPkt_ChainMode_CleanUp a r = (set_desc a ((desc r a)\<lparr>Status := DESC_OWN\<rparr>) r)\<lparr>unavailable := False\<rparr>"

text \<open>
  A received packet: the contents of its chain of pool buffers and its time stamp.  \<open>poolLens\<close> are the
  lengths that \<^verbatim>\<open>pbuf_alloc\<close> gives the buffers of a chain; \<open>avail\<close> tells whether the pool holds that many.
\<close>

definition PBUF_POOL_BUFSIZE :: nat where "PBUF_POOL_BUFSIZE = 1500"

function poolTail :: "nat \<Rightarrow> nat list" where
  "poolTail rem_len =
    (if rem_len = 0 then [] else min rem_len PBUF_POOL_BUFSIZE # poolTail (rem_len - min rem_len PBUF_POOL_BUFSIZE))"
  by pat_completeness auto
termination by (relation "measure id") (auto simp: PBUF_POOL_BUFSIZE_def)

declare poolTail.simps [simp del]

definition poolLens :: "nat \<Rightarrow> nat list" where
  "poolLens len = min len PBUF_POOL_BUFSIZE # poolTail (len - min len PBUF_POOL_BUFSIZE)"

record Received =
  rx_chain :: "Octet list list"
  rx_time :: TimeInternal

fun copyOut :: "Octet list \<Rightarrow> nat \<Rightarrow> nat list \<Rightarrow> Octet list list" where
  "copyOut buffer l [] = []"
| "copyOut buffer l (n # ns) = get_bytes buffer l n # copyOut buffer (l + n) ns"

text \<open>The outer \<open>None\<close> is the use of the null descriptor.\<close>

definition low_level_input :: "bool \<Rightarrow> Ring \<Rightarrow> (Received option \<times> Ring) option" where
  "low_level_input avail r =
    (let (frame, r) = ETH_PTPRxPkt_ChainMode r;
         len = ucast (frame_length frame) :: UInteger16;
         p = (if avail then Some (copyOut (buffs r ! row r (frame_buffer frame)) 0 (poolLens (unat len))) else None)
     in case frame_desc frame of
          None \<Rightarrow> None
        | Some (a, q) \<Rightarrow>
            let (ts, r) = ETH_PTPRxPkt_ChainMode_CleanUp a q r;
                r = ETH_RxPkt_ChainMode_CleanUp a r
            in Some (map_option (\<lambda>c. \<lparr>rx_chain = c, rx_time = ts\<rparr>) p, r))"

text \<open>
  One pass of the loop of \<^verbatim>\<open>ETH_IRQHandler\<close>, and the whole loop when nothing arrives meanwhile;
  \<open>avail k\<close> answers its \<open>k\<close>-th allocation.
\<close>

definition rxPass :: "bool \<Rightarrow> Ring \<Rightarrow> Received option \<times> Ring" where
  "rxPass avail r =
    (if ETH_GetRxPktSize r \<noteq> 0
     then case low_level_input avail r of Some pr \<Rightarrow> pr | None \<Rightarrow> (None, r)
     else (None, r))"

partial_function (option) rxLoop :: "(nat \<Rightarrow> bool) \<Rightarrow> nat \<Rightarrow> Received list \<Rightarrow> Ring \<Rightarrow> (Received list \<times> Ring) option" where
  "rxLoop avail k ps r =
    (if ETH_GetRxPktSize r \<noteq> 0
     then
       case low_level_input (avail k) r of
         None \<Rightarrow> None
       | Some (p, r') \<Rightarrow> rxLoop avail (Suc k) (case p of None \<Rightarrow> ps | Some p \<Rightarrow> ps @ [p]) r'
     else Some (ps, r))"

text \<open>
  What the DMA engine does with a segment of a frame (reference manual of the controller): if it owns its current descriptor it stores the
  segment in the descriptor's buffer, reports it in the status, gives the descriptor to the
  driver, with the time stamp when the segment is the last of its frame, and goes on to the next
  descriptor; otherwise the segment is lost.
\<close>

record Segment =
  seg_data :: "Octet list"
  seg_len :: nat
  seg_first :: bool
  seg_last :: bool
  seg_error :: bool
  seg_low :: UInteger32
  seg_high :: UInteger32

definition rxStatus :: "Segment \<Rightarrow> UInteger32" where
  "rxStatus s = push_bit 16 (of_nat (seg_len s)) OR (if seg_error s then Rx_ES else 0)
    OR (if seg_first s then Rx_FS else 0) OR (if seg_last s then Rx_LS else 0)"

definition rxClose :: "Segment \<Rightarrow> ETH_DMADESC \<Rightarrow> ETH_DMADESC" where
  "rxClose s d =
    (let d = d\<lparr>Status := rxStatus s\<rparr>
     in if seg_last s then d\<lparr>Buffer1Addr := seg_low s, Buffer2NextDescAddr := seg_high s\<rparr> else d)"

definition dma_receive :: "Segment \<Rightarrow> Ring \<Rightarrow> Ring" where
  "dma_receive s r =
    (let d = desc r (dma_cur r); i = row r (Buffer1Addr d)
     in if Status d AND DESC_OWN = 0 then r\<lparr>unavailable := True\<rparr>
        else
          let r = set_desc (dma_cur r) (rxClose s d) r
          in r\<lparr>buffs := (buffs r)[i := put_bytes (buffs r ! i) 0 (seg_data s)], dma_cur := Buffer2NextDescAddr d\<rparr>)"

subsection \<open>Addresses\<close>

definition ptpAddr :: "Ring \<Rightarrow> nat \<Rightarrow> UInteger32" where
  "ptpAddr r i = ptp_at r + of_nat (16 * i)"

lemma unat_small: "k < 1000000 \<Longrightarrow> unat (of_nat k :: 32 word) = k"
  unfolding unat_of_nat by (rule mod_less) simp

lemma slot_of [simp]: "i < 100 \<Longrightarrow> slot base (base + of_nat (16 * i)) = i"
  unfolding slot_def add_diff_cancel_left' by (simp add: unat_small del: of_nat_mult)

lemma row_of [simp]: "i < 100 \<Longrightarrow> row r (buffAddr r i) = i"
  unfolding row_def buffAddr_def add_diff_cancel_left' by (simp add: unat_small ETH_MAX_PACKET_SIZE_def del: of_nat_mult)

lemma slot_desc [simp]: "i < 100 \<Longrightarrow> slot (tab_at r) (descAddr r i) = i" "i < 100 \<Longrightarrow> slot (ptp_at r) (ptpAddr r i) = i"
  by (simp_all add: descAddr_def ptpAddr_def del: of_nat_mult)

text \<open>The shadow table of a ring of \<open>n\<close> descriptors, and the sizes of the tables.\<close>

definition shadowed :: "nat \<Rightarrow> Ring \<Rightarrow> bool" where
  "shadowed n r \<longleftrightarrow> 0 < n \<and> n < 100 \<and> length (descs r) = n \<and> length (shadow r) = n \<and> length (buffs r) = n
    \<and> (\<forall>i < n. length (buffs r ! i) = ETH_MAX_PACKET_SIZE) \<and> ptp_at r \<noteq> 0
    \<and> (\<forall>i < n. Buffer1Addr (shadow r ! i) = buffAddr r i \<and> Buffer2NextDescAddr (shadow r ! i) = descAddr r (Suc i mod n)
        \<and> Status (shadow r ! i) = (if Suc i = n then ptp_at r else 0))"

lemma addr_simps [simp]:
  "descAddr (r\<lparr>descs := d\<rparr>) = descAddr r" "buffAddr (r\<lparr>descs := d\<rparr>) = buffAddr r" "ptpAddr (r\<lparr>descs := d\<rparr>) = ptpAddr r"
  "descAddr (r\<lparr>buffs := b\<rparr>) = descAddr r" "buffAddr (r\<lparr>buffs := b\<rparr>) = buffAddr r" "ptpAddr (r\<lparr>buffs := b\<rparr>) = ptpAddr r"
  "descAddr (r\<lparr>cur := a\<rparr>) = descAddr r" "buffAddr (r\<lparr>cur := a\<rparr>) = buffAddr r" "ptpAddr (r\<lparr>cur := a\<rparr>) = ptpAddr r"
  "descAddr (r\<lparr>ptp_cur := a\<rparr>) = descAddr r" "buffAddr (r\<lparr>ptp_cur := a\<rparr>) = buffAddr r" "ptpAddr (r\<lparr>ptp_cur := a\<rparr>) = ptpAddr r"
  "descAddr (r\<lparr>dma_cur := a\<rparr>) = descAddr r" "buffAddr (r\<lparr>dma_cur := a\<rparr>) = buffAddr r" "ptpAddr (r\<lparr>dma_cur := a\<rparr>) = ptpAddr r"
  "descAddr (r\<lparr>unavailable := u\<rparr>) = descAddr r" "buffAddr (r\<lparr>unavailable := u\<rparr>) = buffAddr r" "ptpAddr (r\<lparr>unavailable := u\<rparr>) = ptpAddr r"
  "row (r\<lparr>cur := a\<rparr>) = row r" "row (r\<lparr>ptp_cur := a\<rparr>) = row r" "row (r\<lparr>descs := d\<rparr>) = row r"
  "row (r\<lparr>buffs := b\<rparr>) = row r" "row (r\<lparr>unavailable := u\<rparr>) = row r"
  "descAddr (r\<lparr>wire := w\<rparr>) = descAddr r" "buffAddr (r\<lparr>wire := w\<rparr>) = buffAddr r" "ptpAddr (r\<lparr>wire := w\<rparr>) = ptpAddr r"
  by (simp_all add: descAddr_def buffAddr_def ptpAddr_def row_def fun_eq_iff)

lemma shadowed_simps [simp]:
  "shadowed n (r\<lparr>cur := a\<rparr>) = shadowed n r" "shadowed n (r\<lparr>ptp_cur := a\<rparr>) = shadowed n r"
  "shadowed n (r\<lparr>wire := w\<rparr>) = shadowed n r" "shadowed n (r\<lparr>dma_cur := a\<rparr>) = shadowed n r" "shadowed n (r\<lparr>unavailable := u\<rparr>) = shadowed n r"
  "length ds = length (descs r) \<Longrightarrow> shadowed n (r\<lparr>descs := ds\<rparr>) = shadowed n r"
  "shadowed n (set_desc a d r) = shadowed n r"
  by (simp_all add: shadowed_def set_desc_def)

lemma shadowed_buffs: "shadowed n r \<Longrightarrow> shadowed n (r\<lparr>buffs := (buffs r)[i := put_bytes (buffs r ! i) k bs]\<rparr>)"
  by (cases "i < length (buffs r)") (auto simp: shadowed_def nth_list_update)

lemma nextShadow_ring:
  assumes "shadowed n r" and "h < n" and "ptp_cur r = ptpAddr r h"
  shows "nextShadow r = ptpAddr r (Suc h mod n)"
proof (cases "Suc h = n")
  case True
  then show ?thesis using assms by (simp add: nextShadow_def ptp_desc_def shadowed_def ptpAddr_def [of r 0])
next
  case False
  then show ?thesis using assms by (simp add: nextShadow_def ptp_desc_def shadowed_def) (simp add: ptpAddr_def)
qed

lemma shadow_entry:
  assumes "shadowed n r" and "h < n"
  shows "Buffer1Addr (ptp_desc r (ptpAddr r h)) = buffAddr r h"
    and "Buffer2NextDescAddr (ptp_desc r (ptpAddr r h)) = descAddr r (Suc h mod n)"
  using assms by (simp_all add: ptp_desc_def shadowed_def)

lemma shadowed_init:
  assumes "0 < n" and "n < 100" and "ptp \<noteq> 0"
  shows "shadowed n (chainInit prepare n (ring_memory tab ptp buf n))"
  using assms
  by (auto simp: shadowed_def chainInit_def ring_memory_def Let_def nth_list_update buffAddr_def descAddr_def
    mod_Suc less_diff_conv split: if_splits)

subsection \<open>The receive ring is a bounded queue\<close>

text \<open>A frame in one segment without error, as the driver accepts it; and what a segment always satisfies.\<close>

definition whole :: "Segment \<Rightarrow> bool" where
  "whole s \<longleftrightarrow> seg_first s \<and> seg_last s \<and> \<not> seg_error s"

definition seg_ok :: "Segment \<Rightarrow> bool" where
  "seg_ok s \<longleftrightarrow> length (seg_data s) \<le> ETH_MAX_PACKET_SIZE \<and> seg_len s < 2 ^ 14
    \<and> (whole s \<longrightarrow> 64 \<le> seg_len s \<and> seg_len s = length (seg_data s))"

text \<open>What the driver makes of a frame: its contents without the checksum, and its time.\<close>

definition frameOf :: "bool \<Rightarrow> Segment \<Rightarrow> (Octet list \<times> TimeInternal) option" where
  "frameOf avail s =
    (if avail
     then Some (take (length (seg_data s) - 4) (seg_data s),
       \<lparr>seconds = i32 (uint (seg_high s)), nanoseconds = i32 (uint (ETH_PTPSubSecond2NanoSecond (seg_low s)))\<rparr>)
     else None)"

definition contents :: "Received \<Rightarrow> Octet list \<times> TimeInternal" where
  "contents p = (concat (rx_chain p), rx_time p)"

definition deliver :: "bool \<Rightarrow> Ring \<Rightarrow> (Octet list \<times> TimeInternal) option \<times> Ring" where
  "deliver avail r = (let (p, r) = rxPass avail r in (map_option contents p, r))"

text \<open>The descriptor at distance \<open>k\<close> from the driver's, when the segments \<open>q\<close> wait.\<close>

definition rxSlot :: "Ring \<Rightarrow> Segment list \<Rightarrow> nat \<Rightarrow> nat \<Rightarrow> bool" where
  "rxSlot r q k i \<longleftrightarrow>
    (if k < length q
     then Status (descs r ! i) = rxStatus (q ! k)
       \<and> (seg_last (q ! k) \<longrightarrow> Buffer1Addr (descs r ! i) = seg_low (q ! k) \<and> Buffer2NextDescAddr (descs r ! i) = seg_high (q ! k))
       \<and> take (length (seg_data (q ! k))) (buffs r ! i) = seg_data (q ! k) \<and> seg_ok (q ! k)
     else Status (descs r ! i) = DESC_OWN \<and> Buffer1Addr (descs r ! i) = buffAddr r i
       \<and> Buffer2NextDescAddr (descs r ! i) = descAddr r (Suc i mod ETH_RXBUFNB))"

definition rx_at :: "nat \<Rightarrow> Segment list \<Rightarrow> Ring \<Rightarrow> bool" where
  "rx_at h q r \<longleftrightarrow> shadowed ETH_RXBUFNB r \<and> length q \<le> ETH_RXBUFNB \<and> h < ETH_RXBUFNB
    \<and> cur r = descAddr r h \<and> ptp_cur r = ptpAddr r h \<and> dma_cur r = descAddr r ((h + length q) mod ETH_RXBUFNB)
    \<and> (\<forall>k < ETH_RXBUFNB. rxSlot r q k ((h + k) mod ETH_RXBUFNB))"

definition rx_ring :: "Segment list \<Rightarrow> Ring \<Rightarrow> bool" where
  "rx_ring q r \<longleftrightarrow> (\<exists>h. rx_at h q r)"

lemma mod_apart:
  assumes "k < n" and "k' < n"
  shows "(h + k) mod n = (h + k') mod n \<longleftrightarrow> k = (k' :: nat)"
proof
  assume e: "(h + k) mod n = (h + k') mod n"
  have "a = b" if "(h + a) mod n = (h + b) mod n" "a \<le> b" "b < n" for a b
  proof -
    have "n dvd b - a" using that by (metis add_diff_cancel_left add_le_cancel_left mod_eq_dvd_iff_nat)
    then show ?thesis using that nat_dvd_not_less [of "b - a" n] by fastforce
  qed
  then show "k = k'" using e assms by (metis linorder_le_cases)
qed simp

lemma desc_bits:
  "(0x80000000 :: 32 word) = 2 ^ 31" "(0x8000 :: 32 word) = 2 ^ 15" "(0x200 :: 32 word) = 2 ^ 9" "(0x100 :: 32 word) = 2 ^ 8"
  "(0x20000 :: 32 word) = 2 ^ 17" "(0x3FFF0000 :: 32 word) = push_bit 16 (mask 14)"
  by (simp_all add: mask_eq_exp_minus_1)

lemma bit_pow: "bit (2 ^ k :: 32 word) n \<longleftrightarrow> n = k \<and> k < 32"
  by (auto simp: bit_exp_iff)

lemma bit_consts:
  "bit (0x80000000 :: 32 word) n \<longleftrightarrow> n = 31" "bit (0x8000 :: 32 word) n \<longleftrightarrow> n = 15" "bit (0x200 :: 32 word) n \<longleftrightarrow> n = 9"
  "bit (0x100 :: 32 word) n \<longleftrightarrow> n = 8" "bit (0x20000 :: 32 word) n \<longleftrightarrow> n = 17"
  unfolding desc_bits bit_pow by simp_all

lemma bit_small: "m < 2 ^ 14 \<Longrightarrow> bit (m :: nat) n \<Longrightarrow> n < 14"
  by (metis bit_take_bit_iff take_bit_nat_eq_self)

lemma bit_rxStatus:
  assumes "seg_len s < 2 ^ 14"
  shows "bit (rxStatus s) n \<longleftrightarrow> (16 \<le> n \<and> n < 30 \<and> bit (seg_len s) (n - 16)) \<or> (n = 15 \<and> seg_error s)
    \<or> (n = 9 \<and> seg_first s) \<or> (n = 8 \<and> seg_last s)"
proof -
  have "bit (seg_len s) (n - 16) \<Longrightarrow> n < 30" using bit_small [OF assms] by fastforce
  then show ?thesis unfolding rxStatus_def bit_or_iff if_distrib [of "\<lambda>w. bit w n"] bit_consts bit_0_eq bit_push_bit_iff bit_of_nat_iff
    by auto
qed

lemma rxStatus_bits:
  assumes "seg_len s < 2 ^ 14"
  shows "rxStatus s AND DESC_OWN = 0" and "rxStatus s AND Rx_ES = 0 \<longleftrightarrow> \<not> seg_error s"
    and "rxStatus s AND Rx_LS = 0 \<longleftrightarrow> \<not> seg_last s" and "rxStatus s AND Rx_FS = 0 \<longleftrightarrow> \<not> seg_first s"
    and "drop_bit 16 (rxStatus s AND Rx_FL) = of_nat (seg_len s)"
proof -
  show "rxStatus s AND DESC_OWN = 0" "rxStatus s AND Rx_ES = 0 \<longleftrightarrow> \<not> seg_error s"
    "rxStatus s AND Rx_LS = 0 \<longleftrightarrow> \<not> seg_last s" "rxStatus s AND Rx_FS = 0 \<longleftrightarrow> \<not> seg_first s"
    unfolding desc_bits and_exp_eq_0_iff_not_bit bit_rxStatus [OF assms] by simp_all
  show "drop_bit 16 (rxStatus s AND Rx_FL) = of_nat (seg_len s)"
    unfolding desc_bits
    by (rule bit_word_eqI) (auto simp: bit_simps bit_rxStatus [OF assms] dest: bit_small [OF assms])
qed

text \<open>Storing a segment.\<close>

lemma rx_consts [simp]: "0 < ETH_RXBUFNB" "ETH_RXBUFNB < 100"
  by (simp_all add: ETH_RXBUFNB_def)

lemma mod_rx [simp]: "k mod ETH_RXBUFNB < ETH_RXBUFNB" "k mod ETH_RXBUFNB < 100"
  using mod_less_divisor [of ETH_RXBUFNB k] rx_consts by linarith+

lemma rx_lengths:
  assumes "rx_at h q r"
  shows "length (descs r) = ETH_RXBUFNB" "length (buffs r) = ETH_RXBUFNB" "h < ETH_RXBUFNB" "length q \<le> ETH_RXBUFNB"
    "cur r = descAddr r h" "ptp_cur r = ptpAddr r h"
  using assms by (auto simp: rx_at_def shadowed_def)

lemma rx_slot: "rx_at h q r \<Longrightarrow> k < ETH_RXBUFNB \<Longrightarrow> rxSlot r q k ((h + k) mod ETH_RXBUFNB)"
  by (simp add: rx_at_def)

lemma rx_put_room:
  assumes r: "rx_at h q r" and s: "seg_ok s" and n: "length q < ETH_RXBUFNB"
  shows "rx_at h (q @ [s]) (dma_receive s r)"
proof -
  let ?j = "(h + length q) mod ETH_RXBUFNB"
  note [simp] = rx_lengths [OF r]
  have d: "dma_cur r = descAddr r ?j" using r by (simp add: rx_at_def)
  have f: "Status (descs r ! ?j) = DESC_OWN" "Buffer1Addr (descs r ! ?j) = buffAddr r ?j"
    "Buffer2NextDescAddr (descs r ! ?j) = descAddr r (Suc ?j mod ETH_RXBUFNB)"
    using rx_slot [OF r n] by (simp_all add: rxSlot_def)
  let ?r = "dma_receive s r"
  have e: "?r = r\<lparr>descs := (descs r)[?j := rxClose s (descs r ! ?j)],
      buffs := (buffs r)[?j := put_bytes (buffs r ! ?j) 0 (seg_data s)], dma_cur := descAddr r (Suc ?j mod ETH_RXBUFNB)\<rparr>"
    using f by (simp add: dma_receive_def set_desc_def desc_def d Let_def)
  have sh: "shadowed ETH_RXBUFNB r" using r by (simp add: rx_at_def)
  have b: "length (buffs r ! ?j) = ETH_MAX_PACKET_SIZE" using sh by (simp add: shadowed_def)
  have new: "rxSlot ?r (q @ [s]) (length q) ?j"
    using s b unfolding e
    by (auto simp: rxSlot_def rxClose_def Let_def seg_ok_def take_put_bytes)
  have "rxSlot ?r (q @ [s]) k ((h + k) mod ETH_RXBUFNB)" if k: "k < ETH_RXBUFNB" for k
  proof (cases "k = length q")
    case True
    then show ?thesis using new by simp
  next
    case False
    then have "(h + k) mod ETH_RXBUFNB \<noteq> ?j" using mod_apart [OF k n, of h] by simp
    then show ?thesis using rx_slot [OF r k] False unfolding e by (auto simp: rxSlot_def nth_append)
  qed
  moreover have "shadowed ETH_RXBUFNB (r\<lparr>descs := (descs r)[?j := rxClose s (descs r ! ?j)]\<rparr>)" using sh by simp
  then have "shadowed ETH_RXBUFNB ?r" using shadowed_buffs [of _ _ ?j 0 "seg_data s"] unfolding e by fastforce
  moreover have "dma_cur ?r = descAddr r ((h + length (q @ [s])) mod ETH_RXBUFNB)"
    unfolding e by (simp add: mod_Suc_eq)
  ultimately show ?thesis using n by (simp add: rx_at_def) (simp add: e)
qed

lemma rx_put_full:
  assumes r: "rx_at h q r" and n: "length q = ETH_RXBUFNB"
  shows "rx_at h q (dma_receive s r)"
proof -
  have "rxSlot r q 0 h" using rx_slot [OF r, of 0] rx_lengths(3) [OF r] by simp
  then have "Status (descs r ! h) AND DESC_OWN = 0"
    using n rxStatus_bits(1) by (auto simp: rxSlot_def seg_ok_def)
  moreover have "dma_cur r = descAddr r h" using r n by (simp add: rx_at_def)
  moreover have "h < 100" using rx_lengths(3) [OF r] rx_consts(2) by (rule less_trans)
  ultimately have "dma_receive s r = r\<lparr>unavailable := True\<rparr>" by (simp add: dma_receive_def desc_def Let_def)
  then show ?thesis using r by (simp add: rx_at_def rxSlot_def)
qed

text \<open>What the driver sees at its descriptor.\<close>

lemma rx_head:
  assumes "rx_at h q r"
  shows "h < 100" and "desc r (cur r) = descs r ! h" and "rxSlot r q 0 h"
proof -
  show h: "h < 100" using rx_lengths(3) [OF assms] rx_consts(2) by (rule less_trans)
  then show "desc r (cur r) = descs r ! h" using rx_lengths(5) [OF assms] by (simp add: desc_def)
  show "rxSlot r q 0 h" using rx_slot [OF assms, of 0] rx_lengths(3) [OF assms] by simp
qed

lemma rx_size:
  assumes "rx_at h q r"
  shows "ETH_GetRxPktSize r = (case q of [] \<Rightarrow> 0 | s # _ \<Rightarrow> if whole s then of_nat (seg_len s) else 0)"
proof (cases q)
  case Nil
  then have "Status (desc r (cur r)) = DESC_OWN" using rx_head [OF assms] by (simp add: rxSlot_def)
  then show ?thesis using Nil by (simp add: ETH_GetRxPktSize_def)
next
  case (Cons s q')
  then have "Status (desc r (cur r)) = rxStatus s" "seg_ok s" using rx_head [OF assms] by (simp_all add: rxSlot_def)
  then show ?thesis using Cons rxStatus_bits [of s] by (auto simp: ETH_GetRxPktSize_def Let_def seg_ok_def whole_def)
qed

lemma of_nat_nonzero: "0 < n \<Longrightarrow> n < 2 ^ 14 \<Longrightarrow> (of_nat n :: 32 word) \<noteq> 0"
  using unat_small [of n] by auto

lemma deliver_idle: "ETH_GetRxPktSize r = 0 \<Longrightarrow> deliver avail r = (None, r)"
  by (simp add: deliver_def rxPass_def)

text \<open>Copying the frame out into the buffers of the pool.\<close>

lemma sum_poolTail: "sum_list (poolTail n) = n"
proof (induction n rule: poolTail.induct)
  case (1 n)
  then show ?case by (subst poolTail.simps) (auto simp: min_def)
qed

lemma sum_poolLens: "sum_list (poolLens n) = n"
  by (simp add: poolLens_def sum_poolTail)

lemma get_bytes_append: "get_bytes b i (m + n) = get_bytes b i m @ get_bytes b (i + m) n"
  by (rule nth_equalityI) (auto simp: get_bytes_def nth_append)

lemma concat_copyOut: "concat (copyOut b l ns) = get_bytes b l (sum_list ns)"
  by (induction b l ns rule: copyOut.induct) (simp add: get_bytes_def, simp add: get_bytes_append)

lemma get_bytes_prefix:
  assumes "take (length d) b = d" and "n \<le> length d" and "length d \<le> length b"
  shows "get_bytes b 0 n = take n d"
proof (rule nth_equalityI)
  fix i assume i: "i < length (get_bytes b 0 n)"
  then have "b ! i = take (length d) b ! i" using assms(2) by simp
  then show "get_bytes b 0 n ! i = take n d ! i" using i assms by (simp add: get_bytes_def)
qed (use assms in simp)

lemma frame_length:
  assumes "64 \<le> n" and "n \<le> ETH_MAX_PACKET_SIZE"
  shows "unat (ucast (of_nat n - 4 :: 32 word) :: 16 word) = n - 4"
proof -
  have "of_nat n - 4 = (of_nat (n - 4) :: 32 word)" using assms(1) by (simp add: of_nat_diff)
  then show ?thesis using assms(2) by (simp only: unsigned_ucast_eq) (simp add: unat_small ETH_MAX_PACKET_SIZE_def take_bit_nat_eq_self)
qed

lemma rx_input:
  assumes r: "rx_at h (s # q) r" and w: "whole s"
  shows "ETH_GetRxPktSize r \<noteq> 0 \<and> (\<exists>p r'. low_level_input avail r = Some (p, r')
    \<and> map_option contents p = frameOf avail s \<and> rx_at (Suc h mod ETH_RXBUFNB) q r')"
proof -
  have h: "h < 100" "h < ETH_RXBUFNB" using rx_head [OF r] rx_lengths [OF r] by simp_all
  note len = rx_lengths [OF r]
  have sh: "shadowed ETH_RXBUFNB r" using r by (simp add: rx_at_def)
  have d: "Status (descs r ! h) = rxStatus s" "Buffer1Addr (descs r ! h) = seg_low s" "Buffer2NextDescAddr (descs r ! h) = seg_high s"
    "take (length (seg_data s)) (buffs r ! h) = seg_data s" and ok: "seg_ok s"
    using rx_head(3) [OF r] w by (simp_all add: rxSlot_def whole_def)
  have n: "64 \<le> length (seg_data s)" "length (seg_data s) \<le> ETH_MAX_PACKET_SIZE" "seg_len s = length (seg_data s)" "seg_len s < 2 ^ 14"
    using ok w by (simp_all add: seg_ok_def)
  have "of_nat (seg_len s) \<noteq> (0 :: 32 word)" by (rule of_nat_nonzero) (use n in linarith)+
  then have size: "ETH_GetRxPktSize r \<noteq> 0" using rx_size [OF r] w by simp
  note bits = rxStatus_bits [OF n(4)]
  let ?d = "(descs r ! h)\<lparr>Buffer1Addr := buffAddr r h, Buffer2NextDescAddr := descAddr r (Suc h mod ETH_RXBUFNB), Status := DESC_OWN\<rparr>"
  let ?r = "r\<lparr>cur := descAddr r (Suc h mod ETH_RXBUFNB), ptp_cur := ptpAddr r (Suc h mod ETH_RXBUFNB), descs := (descs r)[h := ?d], unavailable := False\<rparr>"
  let ?c = "copyOut (buffs r ! h) 0 (poolLens (length (seg_data s) - 4))"
  let ?t = "\<lparr>seconds = i32 (uint (seg_high s)), nanoseconds = i32 (uint (ETH_PTPSubSecond2NanoSecond (seg_low s)))\<rparr>"
  have mode: "ETH_PTPRxPkt_ChainMode r =
      (\<lparr>frame_length = of_nat (length (seg_data s)) - 4, frame_buffer = buffAddr r h, frame_desc = Some (cur r, ptp_cur r)\<rparr>,
       r\<lparr>cur := descAddr r (Suc h mod ETH_RXBUFNB), ptp_cur := ptpAddr r (Suc h mod ETH_RXBUFNB)\<rparr>)"
    using bits w d(1) n(3) rx_head(2) [OF r] shadow_entry [OF sh h(2)] nextShadow_ring [OF sh h(2) len(6)] len(6)
    by (simp add: ETH_PTPRxPkt_ChainMode_def Let_def whole_def)
  have low: "low_level_input avail r = Some (if avail then Some \<lparr>rx_chain = ?c, rx_time = ?t\<rparr> else None, ?r)"
    using h len(1,5,6) shadow_entry [OF sh h(2)] frame_length [OF n(1,2)] d
    by (simp add: low_level_input_def mode Let_def ETH_PTPRxPkt_ChainMode_CleanUp_def ETH_RxPkt_ChainMode_CleanUp_def
      desc_def ptp_desc_def set_desc_def del: of_nat_mult)
  have c: "contents \<lparr>rx_chain = ?c, rx_time = ?t\<rparr> = (take (length (seg_data s) - 4) (seg_data s), ?t)"
  proof -
    have "length (buffs r ! h) = ETH_MAX_PACKET_SIZE" using sh h(2) by (simp add: shadowed_def)
    then show ?thesis
      using get_bytes_prefix [OF d(4), of "length (seg_data s) - 4"] n
      by (simp add: contents_def concat_copyOut sum_poolLens)
  qed
  have "rxSlot ?r q k ((Suc h mod ETH_RXBUFNB + k) mod ETH_RXBUFNB)" if k: "k < ETH_RXBUFNB" for k
  proof (cases "Suc k = ETH_RXBUFNB")
    case True
    then have "(Suc h mod ETH_RXBUFNB + k) mod ETH_RXBUFNB = h" using h(2)
      by (metis add.commute add_Suc_right mod_add_left_eq mod_add_self1 mod_less)
    then show ?thesis using True len(1,4) h(2) by (simp add: rxSlot_def)
  next
    case False
    then have k': "Suc k < ETH_RXBUFNB" using k by simp
    have i: "(Suc h mod ETH_RXBUFNB + k) mod ETH_RXBUFNB = (h + Suc k) mod ETH_RXBUFNB" by (simp add: mod_add_left_eq)
    have "(h + Suc k) mod ETH_RXBUFNB \<noteq> h" using mod_apart [OF k', of 0 h] h(2) by simp
    then show ?thesis using rx_slot [OF r k'] unfolding i by (auto simp: rxSlot_def)
  qed
  moreover have "dma_cur ?r = descAddr r ((Suc h mod ETH_RXBUFNB + length q) mod ETH_RXBUFNB)"
    using r by (simp add: rx_at_def mod_add_left_eq)
  ultimately have "rx_at (Suc h mod ETH_RXBUFNB) q ?r" using sh len(4) by (simp add: rx_at_def)
  then show ?thesis using size low c by (simp add: frameOf_def)
qed

lemma rx_get_front:
  assumes "rx_at h (s # q) r" and "whole s"
  shows "fst (deliver avail r) = frameOf avail s \<and> rx_at (Suc h mod ETH_RXBUFNB) q (snd (deliver avail r))"
  using rx_input [OF assms, of avail] by (auto simp: deliver_def rxPass_def)

interpretation rx: polled_queue rx_ring ETH_RXBUFNB seg_ok whole dma_receive deliver frameOf
proof unfold_locales
  fix q r x assume "rx_ring q r" and ok: "seg_ok x" and n: "length q < ETH_RXBUFNB"
  then show "rx_ring (q @ [x]) (dma_receive x r)" using rx_put_room [OF _ ok n] by (auto simp: rx_ring_def)
next
  fix q r x assume r: "rx_ring q r" and n: "\<not> length q < ETH_RXBUFNB"
  then obtain h where h: "rx_at h q r" by (auto simp: rx_ring_def)
  then have "length q = ETH_RXBUFNB" using n rx_lengths(4) by fastforce
  then show "rx_ring q (dma_receive x r)" using rx_put_full [OF h] by (auto simp: rx_ring_def)
next
  fix r e assume "rx_ring [] r"
  then show "deliver e r = (None, r)" using rx_size deliver_idle by (fastforce simp: rx_ring_def)
next
  fix x q r e assume "rx_ring (x # q) r" and w: "whole x"
  then show "fst (deliver e r) = frameOf e x \<and> rx_ring q (snd (deliver e r))"
    using rx_get_front [OF _ w] unfolding rx_ring_def by metis
next
  fix x q r e assume "rx_ring (x # q) r" and w: "\<not> whole x"
  then show "deliver e r = (None, r)" using rx_size deliver_idle by (fastforce simp: rx_ring_def)
qed

definition rx_start :: "UInteger32 \<Rightarrow> UInteger32 \<Rightarrow> UInteger32 \<Rightarrow> Ring" where
  "rx_start tab ptp buf = ETH_DMAPTPRxDescChainInit ETH_RXBUFNB (ring_memory tab ptp buf ETH_RXBUFNB)"

lemma rx_init:
  assumes "ptp \<noteq> 0"
  shows "rx_ring [] (rx_start tab ptp buf)"
proof -
  let ?r = "ETH_DMAPTPRxDescChainInit ETH_RXBUFNB (ring_memory tab ptp buf ETH_RXBUFNB)"
  have sh: "shadowed ETH_RXBUFNB ?r"
    unfolding ETH_DMAPTPRxDescChainInit_def by (rule shadowed_init) (use assms in simp_all)
  have "rxSlot ?r [] k k" if "k < ETH_RXBUFNB" for k
    using that by (auto simp: rxSlot_def ETH_DMAPTPRxDescChainInit_def chainInit_def ring_memory_def Let_def buffAddr_def
      descAddr_def mod_Suc less_diff_conv)
  moreover have "cur ?r = descAddr ?r 0" "ptp_cur ?r = ptpAddr ?r 0" "dma_cur ?r = descAddr ?r 0"
    by (simp_all add: ETH_DMAPTPRxDescChainInit_def chainInit_def ring_memory_def Let_def descAddr_def ptpAddr_def)
  ultimately have "rx_at 0 [] ?r" using sh by (simp add: rx_at_def)
  then show ?thesis by (auto simp: rx_ring_def rx_start_def)
qed

text \<open>The loop of the interrupt handler delivers everything that waits and ends.\<close>

fun frames :: "(nat \<Rightarrow> bool) \<Rightarrow> nat \<Rightarrow> Segment list \<Rightarrow> (Octet list \<times> TimeInternal) list" where
  "frames avail k [] = []"
| "frames avail k (s # q) = (case frameOf (avail k) s of None \<Rightarrow> frames avail (Suc k) q | Some f \<Rightarrow> f # frames avail (Suc k) q)"

lemma rxLoop_frames:
  assumes "rx_ring q r" and "\<forall>s \<in> set q. whole s"
  shows "\<exists>qs r'. rxLoop avail k ps r = Some (ps @ qs, r') \<and> map contents qs = frames avail k q \<and> rx_ring [] r'"
  using assms
proof (induction q arbitrary: k ps r)
  case Nil
  then have "ETH_GetRxPktSize r = 0" using rx_size by (fastforce simp: rx_ring_def)
  then show ?case using Nil by (subst rxLoop.simps) simp
next
  case (Cons s q)
  then obtain h where "rx_at h (s # q) r" "whole s" by (auto simp: rx_ring_def)
  from rx_input [OF this, of "avail k"] obtain p r' where p: "ETH_GetRxPktSize r \<noteq> 0" "low_level_input (avail k) r = Some (p, r')"
    "map_option contents p = frameOf (avail k) s" "rx_ring q r'" by (auto simp: rx_ring_def)
  let ?ps = "case p of None \<Rightarrow> ps | Some p \<Rightarrow> ps @ [p]"
  obtain qs r'' where q: "rxLoop avail (Suc k) ?ps r' = Some (?ps @ qs, r'')" "map contents qs = frames avail (Suc k) q" "rx_ring [] r''"
    using Cons.IH [OF p(4)] Cons.prems(2) by fastforce
  have "rxLoop avail k ps r = Some (?ps @ qs, r'')" using p(1,2) q(1) by (subst rxLoop.simps) simp
  moreover have "?ps @ qs = ps @ (case p of None \<Rightarrow> qs | Some p \<Rightarrow> p # qs)" by (cases p) simp_all
  moreover have "map contents (case p of None \<Rightarrow> qs | Some p \<Rightarrow> p # qs) = frames avail k (s # q)"
    using p(3) [symmetric] q(2) by (cases p) auto
  ultimately show ?case using q(3) by metis
qed

subsection \<open>Properties of receiving\<close>

text \<open>C11: the receive ring is a bounded queue of frames: from the set-up on, however the DMA engine stores
  segments and the driver's loop passes, the packets handed to lwIP are those of a list of at most
  five segments; each has the contents of its frame without the checksum, and the time stamp of that
  frame and of no other.  The loop of the interrupt handler ends and hands over everything that waits.\<close>

theorem rx_ring_refines:
  assumes "ptp \<noteq> 0" and "\<forall>s. Put s \<in> set es \<longrightarrow> seg_ok s"
  shows "fst (fifo_run dma_receive deliver es (rx_start tab ptp buf)) = fst (fifo_spec ETH_RXBUFNB whole frameOf es [])
    \<and> (let r = snd (fifo_run dma_receive deliver es (rx_start tab ptp buf)); q = snd (fifo_spec ETH_RXBUFNB whole frameOf es [])
       in (\<forall>s \<in> set q. whole s) \<longrightarrow>
         (\<exists>ps r'. rxLoop avail 0 [] r = Some (ps, r') \<and> map contents ps = frames avail 0 q \<and> ETH_GetRxPktSize r' = 0))"
proof -
  let ?r = "snd (fifo_run dma_receive deliver es (rx_start tab ptp buf))" and ?q = "snd (fifo_spec ETH_RXBUFNB whole frameOf es [])"
  have r: "fst (fifo_run dma_receive deliver es (rx_start tab ptp buf)) = fst (fifo_spec ETH_RXBUFNB whole frameOf es [])"
    "rx_ring ?q ?r"
    using rx.run_refines [OF rx_init [OF assms(1)] assms(2)] by blast+
  have "\<exists>ps r'. rxLoop avail 0 [] ?r = Some (ps, r') \<and> map contents ps = frames avail 0 ?q \<and> ETH_GetRxPktSize r' = 0"
    if "\<forall>s \<in> set ?q. whole s"
    using rxLoop_frames [OF r(2) that, of avail 0 "[]"] rx_size by (fastforce simp: rx_ring_def)
  then show ?thesis using r(1) by (simp add: Let_def)
qed

text \<open>C35: one frame that does not fit into one descriptor, or is flagged as erroneous, stops reception for good:
  once such a segment is stored, at most four more packets are ever handed to lwIP (those that
  waited before it), whatever arrives and however often the driver looks.\<close>

theorem rx_bad_segment_blocks:
  assumes "ptp \<noteq> 0" and "\<forall>s. Put s \<in> set (es1 @ Put b # es2) \<longrightarrow> seg_ok s" and "\<not> whole b"
    and "length (snd (fifo_spec ETH_RXBUFNB whole frameOf es1 [])) < ETH_RXBUFNB"
  shows "length (fst (fifo_run dma_receive deliver (Put b # es2)
      (snd (fifo_run dma_receive deliver es1 (rx_start tab ptp buf))))) < ETH_RXBUFNB"
proof -
  let ?q = "snd (fifo_spec ETH_RXBUFNB whole frameOf es1 [])" and ?r = "snd (fifo_run dma_receive deliver es1 (rx_start tab ptp buf))"
  have "rx_ring ?q ?r" using rx.run_refines [OF rx_init [OF assms(1)], of es1] assms(2) by auto
  from rx.run_refines [OF this, of "Put b # es2"] assms(2)
  have "fst (fifo_run dma_receive deliver (Put b # es2) ?r) = fst (fifo_spec ETH_RXBUFNB whole frameOf (Put b # es2) ?q)" by simp
  also have "length \<dots> \<le> length ?q"
    using fifo_spec_blocked [of whole b ETH_RXBUFNB frameOf es2 ?q "[]"] assms(3,4) by simp
  finally show ?thesis using assms(4) by simp
qed

text \<open>A good frame and the first part of a frame of 1522 bytes, as a VLAN tag makes it.\<close>

definition sample_frame :: "Octet \<Rightarrow> Segment" where
  "sample_frame b = \<lparr>seg_data = replicate 64 b, seg_len = 64, seg_first = True, seg_last = True, seg_error = False,
     seg_low = 0x40000000, seg_high = 100\<rparr>"

definition sample_long :: Segment where
  "sample_long = \<lparr>seg_data = replicate 1520 0, seg_len = 0, seg_first = True, seg_last = False, seg_error = False,
     seg_low = 0, seg_high = 0\<rparr>"

lemma sample_segments: "seg_ok (sample_frame b)" "whole (sample_frame b)" "seg_ok sample_long" "\<not> whole sample_long"
  by (simp_all add: seg_ok_def whole_def sample_frame_def sample_long_def ETH_MAX_PACKET_SIZE_def)

theorem rx_ring_refines_witness:
  "fst (fifo_run dma_receive deliver [Put (sample_frame 1), Put (sample_frame 2), Get True, Get True] (rx_start 0x20001000 0x20002000 0x20003000))
    = [(replicate 60 1, \<lparr>seconds = 100, nanoseconds = 500000000\<rparr>), (replicate 60 2, \<lparr>seconds = 100, nanoseconds = 500000000\<rparr>)]"
  using rx_ring_refines [where ptp = "0x20002000" and tab = "0x20001000" and buf = "0x20003000"
    and es = "[Put (sample_frame 1), Put (sample_frame 2), Get True, Get True]"]
  by (simp add: sample_segments ETH_RXBUFNB_def frameOf_def) (simp add: sample_frame_def ETH_PTPSubSecond2NanoSecond_def)

theorem rx_bad_segment_blocks_witness:
  "length (fst (fifo_run dma_receive deliver (Put sample_long # concat (replicate 1000 [Put (sample_frame 1), Get True]))
      (snd (fifo_run dma_receive deliver [Put (sample_frame 1)] (rx_start 0x20001000 0x20002000 0x20003000))))) < ETH_RXBUFNB"
  using rx_bad_segment_blocks [where ptp = "0x20002000" and tab = "0x20001000" and buf = "0x20003000" and b = sample_long
    and ?es1.0 = "[Put (sample_frame 1)]" and ?es2.0 = "concat (replicate 1000 [Put (sample_frame 1), Get True])"]
  by (auto simp: sample_segments ETH_RXBUFNB_def)

subsection \<open>Sending\<close>

definition ERR_OK :: int where "ERR_OK = 0"
definition ERR_IF :: int where "ERR_IF = -12"
definition ERR_INPROGRESS :: int where "ERR_INPROGRESS = -14"

lemmas err_codes = ERR_OK_def ERR_IF_def ERR_INPROGRESS_def

text \<open>
  What the DMA engine does with its current descriptor when it owns it: it sends the frame, gives the
  descriptor back with the time stamp and goes on to the next one.  A \<open>TxDma\<close> tells at which look
  of the waiting driver this has happened, if at all, and the time.
\<close>

record TxDma =
  tx_check :: "nat option"
  tx_low :: UInteger32
  tx_high :: UInteger32

definition dma_transmit :: "TxDma \<Rightarrow> Ring \<Rightarrow> Ring" where
  "dma_transmit t r =
    (let d = desc r (dma_cur r); f = take (unat (ControlBufferSize d AND 0x1FFF)) (buffs r ! row r (Buffer1Addr d))
     in if Status d AND DESC_OWN = 0 then r
        else
          let r = set_desc (dma_cur r)
            (d\<lparr>Status := (Status d AND NOT DESC_OWN) OR Tx_TTSS, Buffer1Addr := tx_low t, Buffer2NextDescAddr := tx_high t\<rparr>) r
          in r\<lparr>wire := wire r @ [f], dma_cur := Buffer2NextDescAddr d\<rparr>)"

definition ETH_PTPTxPkt_PrepareBuffer :: "Ring \<Rightarrow> Ring option" where
  "ETH_PTPTxPkt_PrepareBuffer r =
    (let d = desc r (cur r); q = ptp_desc r (ptp_cur r)
     in if Status d AND DESC_OWN \<noteq> 0 then None
        else Some (set_desc (cur r) (d\<lparr>Buffer1Addr := Buffer1Addr q, Buffer2NextDescAddr := Buffer2NextDescAddr q\<rparr>) r))"

text \<open>The loop that waits for the time stamp; the result is the counter \<^verbatim>\<open>timeout\<close>.\<close>

function waitTTSS :: "TxDma \<Rightarrow> nat \<Rightarrow> Ring \<Rightarrow> nat \<times> Ring" where
  "waitTTSS t timeout r =
    (let timeout' = timeout + 1;
         r = (if tx_check t = Some timeout' then dma_transmit t r else r)
     in if Status (desc r (cur r)) AND Tx_TTSS = 0 \<and> timeout' < PHY_READ_TO then waitTTSS t timeout' r
        else (timeout', r))"
  by pat_completeness auto
termination by (relation "measure (\<lambda>(t, timeout, r). PHY_READ_TO - timeout)") auto

declare waitTTSS.simps [simp del]

definition ETH_PTPTxPkt_ChainMode :: "UInteger16 \<Rightarrow> TxDma \<Rightarrow> Ring \<Rightarrow> TimeInternal option \<times> Ring" where
  "ETH_PTPTxPkt_ChainMode len t r =
    (let d = desc r (cur r);
         r = (set_desc (cur r) (d\<lparr>ControlBufferSize := ucast len AND 0x1FFF, Status := Status d OR (Tx_LS OR Tx_FS) OR DESC_OWN\<rparr>) r)
           \<lparr>unavailable := False\<rparr>;
         (timeout, r) = waitTTSS t 0 r
     in if timeout = PHY_READ_TO then (None, r)
        else
          let d = desc r (cur r); q = ptp_desc r (ptp_cur r);
              time = \<lparr>seconds = i32 (uint (Buffer2NextDescAddr d)), nanoseconds = i32 (uint (ETH_PTPSubSecond2NanoSecond (Buffer1Addr d)))\<rparr>;
              r = set_desc (cur r)
                (d\<lparr>Status := Status d AND NOT Tx_TTSS, Buffer1Addr := Buffer1Addr q, Buffer2NextDescAddr := Buffer2NextDescAddr q\<rparr>) r
          in (Some time, r\<lparr>cur := Buffer2NextDescAddr q, ptp_cur := nextShadow r\<rparr>))"

text \<open>\<^verbatim>\<open>low_level_output\<close> of a chain of buffers: the error code and the time stamp the packet gets.\<close>

definition low_level_output :: "Octet list list \<Rightarrow> TxDma \<Rightarrow> Ring \<Rightarrow> int \<times> TimeInternal option \<times> Ring" where
  "low_level_output chain t r =
    (case ETH_PTPTxPkt_PrepareBuffer r of
       None \<Rightarrow> (ERR_INPROGRESS, None, r)
     | Some r \<Rightarrow>
         let i = row r (Buffer1Addr (desc r (cur r)));
             r = r\<lparr>buffs := (buffs r)[i := put_bytes (buffs r ! i) 0 (concat chain)]\<rparr>
         in case ETH_PTPTxPkt_ChainMode (of_nat (length (concat chain))) t r of
              (None, r) \<Rightarrow> (ERR_IF, None, r)
            | (Some time, r) \<Rightarrow> (ERR_OK, Some time, r))"

subsection \<open>The send ring\<close>

text \<open>All descriptors are free, and driver and DMA engine agree on the next one.\<close>

definition idle :: "ETH_DMADESC \<Rightarrow> bool" where
  "idle d \<longleftrightarrow> Status d AND DESC_OWN = 0 \<and> Status d AND Tx_TTSS = 0"

definition tx_at :: "nat \<Rightarrow> Ring \<Rightarrow> bool" where
  "tx_at h r \<longleftrightarrow> shadowed ETH_TXBUFNB r \<and> h < ETH_TXBUFNB \<and> cur r = descAddr r h \<and> ptp_cur r = ptpAddr r h
    \<and> dma_cur r = descAddr r h \<and> (\<forall>i < ETH_TXBUFNB. idle (descs r ! i))"

lemma status_bits:
  "st AND DESC_OWN = 0 \<longleftrightarrow> \<not> bit st 31" "st AND Tx_TTSS = 0 \<longleftrightarrow> \<not> bit st 17"
  for st :: UInteger32
  unfolding desc_bits and_exp_eq_0_iff_not_bit by simp_all

lemma sent_bits:
  "bit (st OR (Tx_LS OR Tx_FS) OR DESC_OWN) 31" "bit (st OR (Tx_LS OR Tx_FS) OR DESC_OWN) 17 \<longleftrightarrow> bit st 17"
  "bit ((st AND NOT DESC_OWN) OR Tx_TTSS) 17" "\<not> bit ((st AND NOT DESC_OWN) OR Tx_TTSS) 31"
  "bit (st AND NOT Tx_TTSS) 31 \<longleftrightarrow> bit st 31" "\<not> bit (st AND NOT Tx_TTSS) 17"
  for st :: UInteger32
  unfolding bit_or_iff bit_and_iff bit_not_iff bit_consts by simp_all

lemmas sent_bits_eval = sent_bits [simplified]

lemma tx_consts [simp]: "0 < ETH_TXBUFNB" "ETH_TXBUFNB < 100"
  by (simp_all add: ETH_TXBUFNB_def)

text \<open>The wait ends at the look that sees the time stamp.\<close>

lemma waitTTSS_done:
  assumes "tx_check t = Some k" and "timeout < k" and "k < PHY_READ_TO"
    and "\<not> bit (Status (desc r (cur r))) 17" and "bit (Status (desc (dma_transmit t r) (cur (dma_transmit t r)))) 17"
  shows "waitTTSS t timeout r = (k, dma_transmit t r)"
  using assms(2)
proof (induction "k - timeout" arbitrary: timeout)
  case (Suc n)
  show ?case
  proof (cases "timeout + 1 = k")
    case True
    then show ?thesis using assms(1,5) by (subst waitTTSS.simps) (simp add: status_bits)
  next
    case False
    then have "waitTTSS t timeout r = waitTTSS t (timeout + 1) r"
      using assms(1,3,4) Suc.prems by (subst waitTTSS.simps) (simp add: status_bits)
    also have "\<dots> = (k, dma_transmit t r)" by (rule Suc.hyps(1)) (use Suc False in linarith)+
    finally show ?thesis .
  qed
qed simp

lemma waitTTSS_timeout:
  assumes "tx_check t = None" and "timeout < PHY_READ_TO" and "\<not> bit (Status (desc r (cur r))) 17"
  shows "waitTTSS t timeout r = (PHY_READ_TO, r)"
  using assms(2)
proof (induction "PHY_READ_TO - timeout" arbitrary: timeout)
  case (Suc n)
  show ?case
  proof (cases "timeout + 1 = PHY_READ_TO")
    case True
    then show ?thesis using assms(1) by (subst waitTTSS.simps) simp
  next
    case False
    then have "waitTTSS t timeout r = waitTTSS t (timeout + 1) r"
      using assms(1,3) Suc.prems by (subst waitTTSS.simps) (simp add: status_bits)
    also have "\<dots> = (PHY_READ_TO, r)" by (rule Suc.hyps(1)) (use Suc False in linarith)+
    finally show ?thesis .
  qed
qed simp

text \<open>The descriptor and the ring when a packet has been handed over.\<close>

definition loaded :: "nat \<Rightarrow> Octet list \<Rightarrow> Ring \<Rightarrow> Ring" where
  "loaded h p r =
    (let d = descs r ! h
     in r\<lparr>buffs := (buffs r)[h := put_bytes (buffs r ! h) 0 p],
          descs := (descs r)[h := d\<lparr>Buffer1Addr := buffAddr r h, Buffer2NextDescAddr := descAddr r (Suc h mod ETH_TXBUFNB),
            ControlBufferSize := of_nat (length p), Status := Status d OR (Tx_LS OR Tx_FS) OR DESC_OWN\<rparr>], unavailable := False\<rparr>)"

lemma packet_length:
  assumes "n \<le> ETH_MAX_PACKET_SIZE"
  shows "ucast (of_nat n :: UInteger16) AND 0x1FFF = (of_nat n :: UInteger32)" "unat (of_nat n :: UInteger32) = n"
proof -
  have n: "n < 2 ^ 13" using assms by (simp add: ETH_MAX_PACKET_SIZE_def)
  then have "ucast (of_nat n :: UInteger16) = (of_nat n :: UInteger32)"
    by (simp add: unsigned_of_nat take_bit_nat_eq_self)
  moreover have "(of_nat n :: UInteger32) AND mask 13 = of_nat n"
    using n by (simp add: take_bit_eq_mask [symmetric] take_bit_of_nat take_bit_nat_eq_self)
  ultimately show "ucast (of_nat n :: UInteger16) AND 0x1FFF = (of_nat n :: UInteger32)"
    by (simp add: mask_eq_exp_minus_1)
  show "unat (of_nat n :: UInteger32) = n" using n by (intro unat_small) simp
qed

text \<open>Driver side of a ring whose descriptor \<open>h\<close> the driver owns.\<close>

definition tx_turn :: "nat \<Rightarrow> Ring \<Rightarrow> bool" where
  "tx_turn h r \<longleftrightarrow> shadowed ETH_TXBUFNB r \<and> h < ETH_TXBUFNB \<and> cur r = descAddr r h \<and> ptp_cur r = ptpAddr r h
    \<and> \<not> bit (Status (descs r ! h)) 31"

lemma output_unfold:
  assumes r: "tx_turn h r" and p: "length (concat chain) \<le> ETH_MAX_PACKET_SIZE"
    and w: "waitTTSS t 0 (loaded h (concat chain) r) = (k, r1)"
  shows "low_level_output chain t r =
    (if k = PHY_READ_TO then (ERR_IF, None, r1)
     else (let d = desc r1 (cur r1); q = ptp_desc r1 (ptp_cur r1);
               r2 = set_desc (cur r1) (d\<lparr>Status := Status d AND NOT Tx_TTSS, Buffer1Addr := Buffer1Addr q, Buffer2NextDescAddr := Buffer2NextDescAddr q\<rparr>) r1
           in (ERR_OK, Some \<lparr>seconds = i32 (uint (Buffer2NextDescAddr d)), nanoseconds = i32 (uint (ETH_PTPSubSecond2NanoSecond (Buffer1Addr d)))\<rparr>,
               r2\<lparr>cur := Buffer2NextDescAddr q, ptp_cur := nextShadow r2\<rparr>)))"
proof -
  have h: "h < 100" "h < ETH_TXBUFNB" "length (descs r) = ETH_TXBUFNB" and c: "cur r = descAddr r h" "ptp_cur r = ptpAddr r h"
    and sh: "shadowed ETH_TXBUFNB r" and o: "\<not> bit (Status (descs r ! h)) 31"
    using r less_trans [OF _ tx_consts(2)] by (auto simp: tx_turn_def shadowed_def)
  have load: "set_desc (descAddr r h) x (r'\<lparr>buffs := b\<rparr>) = (set_desc (descAddr r h) x r')\<lparr>buffs := b\<rparr>" for x r' b
    by (simp add: set_desc_def)
  show ?thesis
    using w h c o shadow_entry [OF sh h(2)] packet_length(1) [OF p]
    by (simp add: low_level_output_def ETH_PTPTxPkt_PrepareBuffer_def ETH_PTPTxPkt_ChainMode_def desc_def set_desc_def status_bits
      Let_def loaded_def split: prod.splits)
qed

lemma tx_turn_at: "tx_at h r \<Longrightarrow> tx_turn h r"
  by (simp add: tx_at_def tx_turn_def idle_def status_bits)

lemma shadowed_loaded: "shadowed ETH_TXBUFNB r \<Longrightarrow> shadowed ETH_TXBUFNB (loaded h p r)"
  using shadowed_buffs [of ETH_TXBUFNB r h 0 p] by (simp add: loaded_def Let_def)

text \<open>Sending of a loaded descriptor by the DMA engine.\<close>

lemma transmit_loaded:
  assumes r: "tx_turn h r" and d: "dma_cur r = descAddr r h" and p: "length p \<le> ETH_MAX_PACKET_SIZE"
  shows "dma_transmit t (loaded h p r) = (loaded h p r)
    \<lparr>descs := (descs r)[h := (descs (loaded h p r) ! h)\<lparr>Status := (Status (descs (loaded h p r) ! h) AND NOT DESC_OWN) OR Tx_TTSS,
        Buffer1Addr := tx_low t, Buffer2NextDescAddr := tx_high t\<rparr>],
     wire := wire r @ [p], dma_cur := descAddr r (Suc h mod ETH_TXBUFNB)\<rparr>"
proof -
  have h: "h < 100" "h < ETH_TXBUFNB" "length (descs r) = ETH_TXBUFNB" "length (buffs r) = ETH_TXBUFNB" "length (buffs r ! h) = ETH_MAX_PACKET_SIZE"
    using r less_trans [OF _ tx_consts(2)] by (auto simp: tx_turn_def shadowed_def)
  have "of_nat (length p) AND 0x1FFF = (of_nat (length p) :: UInteger32)"
    using packet_length [OF p] by (metis and.assoc and.idem)
  then show ?thesis
    using h d p sent_bits(1) packet_length(2) [OF p]
    by (simp add: dma_transmit_def loaded_def Let_def desc_def set_desc_def status_bits take_put_bytes)
qed

lemma output_good:
  assumes r: "tx_at h r" and p: "length (concat chain) \<le> ETH_MAX_PACKET_SIZE"
    and t: "tx_check t = Some k" "0 < k" "k < PHY_READ_TO"
  shows "\<exists>r'. low_level_output chain t r = (ERR_OK,
      Some \<lparr>seconds = i32 (uint (tx_high t)), nanoseconds = i32 (uint (ETH_PTPSubSecond2NanoSecond (tx_low t)))\<rparr>, r')
    \<and> tx_at (Suc h mod ETH_TXBUFNB) r' \<and> tab_at r' = tab_at r \<and> buff_at r' = buff_at r \<and> wire r' = wire r @ [concat chain]"
proof -
  let ?p = "concat chain" and ?r0 = "loaded h (concat chain) r"
  have h: "h < 100" "h < ETH_TXBUFNB" "length (descs r) = ETH_TXBUFNB" "cur r = descAddr r h" "ptp_cur r = ptpAddr r h" "dma_cur r = descAddr r h"
    and sh: "shadowed ETH_TXBUFNB r" and free: "\<And>i. i < ETH_TXBUFNB \<Longrightarrow> idle (descs r ! i)"
    using r less_trans [OF _ tx_consts(2)] by (auto simp: tx_at_def shadowed_def)
  define d where "d = (descs ?r0 ! h)\<lparr>Status := (Status (descs ?r0 ! h) AND NOT DESC_OWN) OR Tx_TTSS,
      Buffer1Addr := tx_low t, Buffer2NextDescAddr := tx_high t\<rparr>"
  define r1 where "r1 = ?r0\<lparr>descs := (descs r)[h := d], wire := wire r @ [?p], dma_cur := descAddr r (Suc h mod ETH_TXBUFNB)\<rparr>"
  have tr: "dma_transmit t ?r0 = r1"
    unfolding r1_def d_def by (rule transmit_loaded [OF tx_turn_at [OF r] h(6) p])
  have addr: "descAddr r1 = descAddr r" "ptpAddr r1 = ptpAddr r" "tab_at r1 = tab_at r" "cur r1 = cur r" "ptp_cur r1 = ptp_cur r" "length (descs r1) = length (descs r)"
    "\<And>a. ptp_desc r1 a = ptp_desc r a"
    by (simp_all add: r1_def loaded_def Let_def descAddr_def ptpAddr_def fun_eq_iff ptp_desc_def)
  have d1: "desc r1 (cur r1) = d" using h by (simp add: desc_def addr) (simp add: r1_def)
  have w: "waitTTSS t 0 ?r0 = (k, r1)"
    unfolding tr [symmetric]
  proof (rule waitTTSS_done [OF t(1-3)])
    have "desc ?r0 (cur ?r0) = descs ?r0 ! h" using h by (simp add: desc_def loaded_def Let_def)
    then show "\<not> bit (Status (desc ?r0 (cur ?r0))) 17"
      using h free [OF h(2)] sent_bits(2) by (simp add: loaded_def Let_def idle_def status_bits sent_bits_eval)
    show "bit (Status (desc (dma_transmit t ?r0) (cur (dma_transmit t ?r0)))) 17"
      unfolding tr d1 by (simp add: d_def sent_bits_eval)
  qed
  define r2 where "r2 = set_desc (cur r1) (d\<lparr>Status := Status d AND NOT Tx_TTSS, Buffer1Addr := buffAddr r h,
      Buffer2NextDescAddr := descAddr r (Suc h mod ETH_TXBUFNB)\<rparr>) r1"
  let ?r' = "r2\<lparr>cur := descAddr r (Suc h mod ETH_TXBUFNB), ptp_cur := nextShadow r2\<rparr>"
  have out: "low_level_output chain t r = (ERR_OK,
      Some \<lparr>seconds = i32 (uint (tx_high t)), nanoseconds = i32 (uint (ETH_PTPSubSecond2NanoSecond (tx_low t)))\<rparr>, ?r')"
    unfolding output_unfold [OF tx_turn_at [OF r] p w] d1
    using t(3) h shadow_entry [OF sh h(2)] by (simp add: Let_def addr r2_def) (simp add: d_def)
  have sh1: "shadowed ETH_TXBUFNB r1" using shadowed_loaded [OF sh, of h ?p] h(3) by (simp add: r1_def loaded_def Let_def)
  then have sh2: "shadowed ETH_TXBUFNB r2" by (simp add: r2_def)
  have same: "tab_at r2 = tab_at r" "buff_at r2 = buff_at r"
    by (simp_all add: r2_def r1_def set_desc_def loaded_def Let_def)
  have a2: "descAddr r2 = descAddr r" "ptpAddr r2 = ptpAddr r" "dma_cur r2 = descAddr r (Suc h mod ETH_TXBUFNB)" "ptp_cur r2 = ptpAddr r2 h" "wire r2 = wire r @ [?p]"
    "descs r2 = (descs r)[h := d\<lparr>Status := Status d AND NOT Tx_TTSS, Buffer1Addr := buffAddr r h, Buffer2NextDescAddr := descAddr r (Suc h mod ETH_TXBUFNB)\<rparr>]"
    using h by (simp_all add: r2_def r1_def set_desc_def loaded_def Let_def descAddr_def ptpAddr_def fun_eq_iff del: of_nat_mult)
  have "idle (descs r2 ! i)" if "i < ETH_TXBUFNB" for i
    using free [OF that] h(3) that unfolding a2(6)
    by (cases "i = h") (simp_all add: idle_def status_bits d_def sent_bits_eval)
  moreover have "Suc h mod ETH_TXBUFNB < ETH_TXBUFNB" by simp
  ultimately have "tx_at (Suc h mod ETH_TXBUFNB) ?r'"
    using sh2 a2(1-3) nextShadow_ring [OF sh2 h(2) a2(4)] by (simp add: tx_at_def)
  then show ?thesis using out a2(5) same by auto
qed

lemma tx_init:
  assumes "ptp \<noteq> 0"
  shows "tx_at 0 (ETH_DMAPTPTxDescChainInit ETH_TXBUFNB (ring_memory tab ptp buf ETH_TXBUFNB))"
proof -
  let ?r = "ETH_DMAPTPTxDescChainInit ETH_TXBUFNB (ring_memory tab ptp buf ETH_TXBUFNB)"
  have "shadowed ETH_TXBUFNB ?r"
    unfolding ETH_DMAPTPTxDescChainInit_def by (rule shadowed_init) (use assms in simp_all)
  moreover have "idle (descs ?r ! i)" if "i < ETH_TXBUFNB" for i
    using that by (simp add: idle_def ETH_DMAPTPTxDescChainInit_def chainInit_def ring_memory_def Let_def)
  moreover have "cur ?r = descAddr ?r 0" "ptp_cur ?r = ptpAddr ?r 0" "dma_cur ?r = descAddr ?r 0"
    by (simp_all add: ETH_DMAPTPTxDescChainInit_def chainInit_def ring_memory_def Let_def descAddr_def ptpAddr_def)
  ultimately show ?thesis by (simp add: tx_at_def)
qed

text \<open>Sending a list of packets, each with what the DMA engine does meanwhile.\<close>

fun txRun :: "(Octet list list \<times> TxDma) list \<Rightarrow> Ring \<Rightarrow> (int \<times> TimeInternal option) list \<times> Ring" where
  "txRun [] r = ([], r)"
| "txRun ((chain, t) # ps) r =
    (let (err, time, r) = low_level_output chain t r; (rs, r) = txRun ps r in ((err, time) # rs, r))"

definition tx_start :: "UInteger32 \<Rightarrow> UInteger32 \<Rightarrow> UInteger32 \<Rightarrow> Ring" where
  "tx_start tab ptp buf = ETH_DMAPTPTxDescChainInit ETH_TXBUFNB (ring_memory tab ptp buf ETH_TXBUFNB)"

definition stamp :: "TxDma \<Rightarrow> TimeInternal" where
  "stamp t = \<lparr>seconds = i32 (uint (tx_high t)), nanoseconds = i32 (uint (ETH_PTPSubSecond2NanoSecond (tx_low t)))\<rparr>"

definition prompt :: "Octet list list \<times> TxDma \<Rightarrow> bool" where
  "prompt = (\<lambda>(chain, t). length (concat chain) \<le> ETH_MAX_PACKET_SIZE
    \<and> (case tx_check t of None \<Rightarrow> False | Some k \<Rightarrow> 0 < k \<and> k < PHY_READ_TO))"

lemma txRun_prompt:
  assumes "tx_at h r" and "\<forall>p \<in> set ps. prompt p"
  shows "\<exists>r'. txRun ps r = (map (\<lambda>(chain, t). (ERR_OK, Some (stamp t))) ps, r') \<and> tx_at ((h + length ps) mod ETH_TXBUFNB) r'
    \<and> tab_at r' = tab_at r \<and> buff_at r' = buff_at r \<and> wire r' = wire r @ map (\<lambda>(chain, t). concat chain) ps"
  using assms
proof (induction ps arbitrary: h r)
  case (Cons p ps)
  obtain chain t where p: "p = (chain, t)" by fastforce
  then obtain k where k: "length (concat chain) \<le> ETH_MAX_PACKET_SIZE" "tx_check t = Some k" "0 < k" "k < PHY_READ_TO"
    using Cons.prems(2) by (auto simp: prompt_def split: option.splits)
  obtain r1 where r1: "low_level_output chain t r = (ERR_OK, Some (stamp t), r1)" "tx_at (Suc h mod ETH_TXBUFNB) r1"
    "tab_at r1 = tab_at r" "buff_at r1 = buff_at r" "wire r1 = wire r @ [concat chain]"
    using output_good [OF Cons.prems(1) k] by (auto simp: stamp_def)
  obtain r' where r': "txRun ps r1 = (map (\<lambda>(chain, t). (ERR_OK, Some (stamp t))) ps, r')"
    "tx_at ((Suc h mod ETH_TXBUFNB + length ps) mod ETH_TXBUFNB) r'" "tab_at r' = tab_at r1" "buff_at r' = buff_at r1"
    "wire r' = wire r1 @ map (\<lambda>(chain, t). concat chain) ps"
    using Cons.IH [OF r1(2)] Cons.prems(2) by auto
  then show ?case using p r1 by (simp add: mod_add_left_eq)
qed (auto simp: tx_at_def)

text \<open>C12: transmit time stamps: as long as the DMA engine sends each packet before the driver has looked 255 times,
  every packet of at most 1520 bytes is reported as sent, all packets go out in order and unchanged,
  and each gets the time stamp of its own transmission.\<close>

theorem tx_timestamps:
  assumes "ptp \<noteq> 0" and "\<forall>p \<in> set ps. prompt p"
  shows "fst (txRun ps (tx_start tab ptp buf)) = map (\<lambda>(chain, t). (ERR_OK, Some (stamp t))) ps
    \<and> wire (snd (txRun ps (tx_start tab ptp buf))) = map (\<lambda>(chain, t). concat chain) ps"
proof -
  have "wire (tx_start tab ptp buf) = []"
    by (simp add: tx_start_def ETH_DMAPTPTxDescChainInit_def chainInit_def ring_memory_def Let_def)
  then show ?thesis
    using txRun_prompt [OF tx_init [OF assms(1), of tab buf] assms(2)] by (auto simp: tx_start_def)
qed

theorem tx_timestamps_witness:
  "fst (txRun [([[1, 2], [3]], \<lparr>tx_check = Some 7, tx_low = 0x40000000, tx_high = 5\<rparr>)] (tx_start 0x20001000 0x20002000 0x20003000))
    = [(ERR_OK, Some \<lparr>seconds = 5, nanoseconds = 500000000\<rparr>)]"
  using tx_timestamps [where ptp = "0x20002000" and tab = "0x20001000" and buf = "0x20003000"
    and ps = "[([[1, 2], [3]], \<lparr>tx_check = Some 7, tx_low = 0x40000000, tx_high = 5\<rparr>)]"]
  by (simp add: prompt_def ETH_MAX_PACKET_SIZE_def PHY_READ_TO_def stamp_def ETH_PTPSubSecond2NanoSecond_def)

text \<open>A packet whose transmission the driver did not wait for, and the next one.\<close>

lemma output_late:
  assumes r: "tx_at h r" and p: "length (concat chain1) \<le> ETH_MAX_PACKET_SIZE" "length (concat chain2) \<le> ETH_MAX_PACKET_SIZE"
    and t: "tx_check t1 = None"
  shows "\<exists>r1. low_level_output chain1 t1 r = (ERR_IF, None, r1)
    \<and> fst (low_level_output chain2 t2 r1) = ERR_INPROGRESS
    \<and> (\<exists>r2. low_level_output chain2 t2 (dma_transmit late r1) = (ERR_OK,
        Some \<lparr>seconds = i32 (uint (descAddr r (Suc h mod ETH_TXBUFNB))), nanoseconds = i32 (uint (ETH_PTPSubSecond2NanoSecond (buffAddr r h)))\<rparr>, r2)
      \<and> wire r2 = wire r @ [concat chain1])"
proof -
  let ?r1 = "loaded h (concat chain1) r"
  note turn = tx_turn_at [OF r]
  have h: "h < 100" "h < ETH_TXBUFNB" "length (descs r) = ETH_TXBUFNB" "length (buffs r) = ETH_TXBUFNB" "cur r = descAddr r h" "ptp_cur r = ptpAddr r h"
    "dma_cur r = descAddr r h" and sh: "shadowed ETH_TXBUFNB r" and free: "\<And>i. i < ETH_TXBUFNB \<Longrightarrow> idle (descs r ! i)"
    using r less_trans [OF _ tx_consts(2)] by (auto simp: tx_at_def shadowed_def)
  have d1: "desc ?r1 (cur ?r1) = descs ?r1 ! h" "bit (Status (descs ?r1 ! h)) 31" "\<not> bit (Status (descs ?r1 ! h)) 17"
    using h free [OF h(2)] by (simp_all add: desc_def loaded_def Let_def sent_bits_eval idle_def status_bits)
  have "waitTTSS t1 0 ?r1 = (PHY_READ_TO, ?r1)"
    by (rule waitTTSS_timeout [OF t]) (simp_all add: d1 PHY_READ_TO_def)
  then have o1: "low_level_output chain1 t1 r = (ERR_IF, None, ?r1)" by (simp add: output_unfold [OF turn p(1)])
  have o2: "fst (low_level_output chain2 t2 ?r1) = ERR_INPROGRESS"
    by (simp add: low_level_output_def ETH_PTPTxPkt_PrepareBuffer_def d1 status_bits Let_def)
  define r2 where "r2 = dma_transmit late ?r1"
  note r2 = r2_def [unfolded transmit_loaded [OF turn h(7) p(1), of late]]
  have f2: "shadowed ETH_TXBUFNB r2" "cur r2 = descAddr r2 h" "ptp_cur r2 = ptpAddr r2 h" "descAddr r2 = descAddr r" "buffAddr r2 = buffAddr r" "ptpAddr r2 = ptpAddr r"
    "dma_cur r2 = descAddr r2 (Suc h mod ETH_TXBUFNB)" "wire r2 = wire r @ [concat chain1]" "length (descs r2) = ETH_TXBUFNB"
    "\<And>i. i < ETH_TXBUFNB \<Longrightarrow> i \<noteq> h \<Longrightarrow> descs r2 ! i = descs r ! i"
    "\<not> bit (Status (descs r2 ! h)) 31" "bit (Status (descs r2 ! h)) 17"
    using h shadowed_loaded [OF sh, of h "concat chain1"] unfolding r2 by (simp_all add: loaded_def Let_def sent_bits_eval)
  have tab2: "tab_at r2 = tab_at r" unfolding r2 by (simp add: loaded_def Let_def)
  have turn2: "tx_turn h r2" using f2 h by (simp add: tx_turn_def)
  let ?r3 = "loaded h (concat chain2) r2"
  have d3: "desc ?r3 (cur ?r3) = descs ?r3 ! h" "bit (Status (descs ?r3 ! h)) 17"
    using h f2 by (simp_all add: desc_def tab2 loaded_def Let_def sent_bits_eval)
  have "dma_transmit t2 ?r3 = ?r3"
  proof -
    have n: "Suc h mod ETH_TXBUFNB \<noteq> h" "Suc h mod ETH_TXBUFNB < ETH_TXBUFNB" "Suc h mod ETH_TXBUFNB < 100"
      using h(2) by (auto simp: ETH_TXBUFNB_def mod_Suc)
    then have "desc ?r3 (dma_cur ?r3) = descs r ! (Suc h mod ETH_TXBUFNB)"
      using f2 by (simp add: desc_def tab2 loaded_def Let_def)
    then show ?thesis using free [OF n(2)] by (simp add: dma_transmit_def idle_def Let_def)
  qed
  then have "waitTTSS t2 0 ?r3 = (1, ?r3)" by (subst waitTTSS.simps) (simp add: d3 status_bits)
  from output_unfold [OF turn2 p(2) this] d3 shadow_entry [OF f2(1) h(2)]
  have "\<exists>r4. low_level_output chain2 t2 r2 = (ERR_OK, Some \<lparr>seconds = i32 (uint (Buffer2NextDescAddr (descs ?r3 ! h))),
      nanoseconds = i32 (uint (ETH_PTPSubSecond2NanoSecond (Buffer1Addr (descs ?r3 ! h))))\<rparr>, r4) \<and> wire r4 = wire r2"
    by (simp add: PHY_READ_TO_def Let_def set_desc_def loaded_def)
  moreover have "Buffer2NextDescAddr (descs ?r3 ! h) = descAddr r (Suc h mod ETH_TXBUFNB)" "Buffer1Addr (descs ?r3 ! h) = buffAddr r h"
    using h f2 by (simp_all add: loaded_def Let_def)
  ultimately show ?thesis using o1 o2 f2(8) unfolding r2_def by auto
qed

text \<open>a transmission the driver did not wait for spoils the next time stamp: when the time stamp of a packet has not
  appeared after 255 looks, the packet is reported as failed although the DMA engine still owns and
  later sends it; until then every packet is refused, and the first packet after it is
  reported as sent although it is not, with the address of a descriptor as the seconds of its time stamp and
  the address of a buffer, converted, as the nanoseconds.\<close>

theorem tx_late_timestamp:
  assumes "ptp \<noteq> 0" and "\<forall>p \<in> set ps. prompt p" and "tx_check t1 = None"
    and "length (concat chain1) \<le> ETH_MAX_PACKET_SIZE" and "length (concat chain2) \<le> ETH_MAX_PACKET_SIZE"
  shows "\<exists>r1 r2. low_level_output chain1 t1 (snd (txRun ps (tx_start tab ptp buf))) = (ERR_IF, None, r1)
    \<and> fst (low_level_output chain2 t2 r1) = ERR_INPROGRESS
    \<and> low_level_output chain2 t2 (dma_transmit late r1) = (ERR_OK,
        Some \<lparr>seconds = i32 (uint (tab + of_nat (16 * (Suc (length ps) mod ETH_TXBUFNB)))),
          nanoseconds = i32 (uint (ETH_PTPSubSecond2NanoSecond (buf + of_nat (length ps mod ETH_TXBUFNB * ETH_MAX_PACKET_SIZE))))\<rparr>, r2)
    \<and> wire r2 = map (\<lambda>(chain, t). concat chain) ps @ [concat chain1]"
proof -
  have s: "wire (tx_start tab ptp buf) = []" "tab_at (tx_start tab ptp buf) = tab" "buff_at (tx_start tab ptp buf) = buf"
    by (simp_all add: tx_start_def ETH_DMAPTPTxDescChainInit_def chainInit_def ring_memory_def Let_def)
  obtain r where r: "snd (txRun ps (tx_start tab ptp buf)) = r" "tx_at (length ps mod ETH_TXBUFNB) r"
    "tab_at r = tab" "buff_at r = buf" "wire r = map (\<lambda>(chain, t). concat chain) ps"
    using txRun_prompt [OF tx_init [OF assms(1), of tab buf] assms(2)] s by (auto simp: tx_start_def [symmetric])
  show ?thesis
    using output_late [OF r(2) assms(4,5,3), of t2 late] unfolding r(1) r(5) [symmetric]
    by (simp add: descAddr_def buffAddr_def r(3,4) mod_Suc_eq del: of_nat_mult)
qed

end
