(* ===== verification/Dev_Tod.thy ===== *)
theory Dev_Tod
  imports Dev_Calendar Ptp_Protocol
begin

text \<open>
  The time-of-day input: the field scanners of \<^verbatim>\<open>USER/CMD_HANDLE/bds.c\<close> (\<^verbatim>\<open>my_strstr\<close>,
  \<^verbatim>\<open>NMEA_Comma_Pos\<close>, \<^verbatim>\<open>NMEA_Pow\<close>, \<^verbatim>\<open>NMEA_Str2num\<close>), the sentence \<^verbatim>\<open>XHTOD\<close>
  (\<^verbatim>\<open>TOD_Analysis\<close>) and its use by \<^verbatim>\<open>cmd_handle_usart1\<close> of \<^verbatim>\<open>cmd_handle.c\<close>.  A pointer into a buffer is
  the list from there on; behind the buffer stands a zero.
\<close>

definition peek :: "Octet list \<Rightarrow> nat \<Rightarrow> Octet" where
  "peek buf i = (if i < length buf then buf ! i else 0)"

abbreviation (input) COMMA :: Octet where "COMMA \<equiv> 0x2C"
abbreviation (input) STAR :: Octet where "STAR \<equiv> 0x2A"
abbreviation (input) MINUS :: Octet where "MINUS \<equiv> 0x2D"
abbreviation (input) POINT :: Octet where "POINT \<equiv> 0x2E"
abbreviation (input) DIGIT0 :: Octet where "DIGIT0 \<equiv> 0x30"
abbreviation (input) DIGIT9 :: Octet where "DIGIT9 \<equiv> 0x39"

subsection \<open>Scanners\<close>

text \<open>\<^verbatim>\<open>my_strstr\<close>: the pointer where the second string first occurs within the length given for the first.\<close>

fun my_strstr :: "Octet list \<Rightarrow> Octet list \<Rightarrow> nat \<Rightarrow> Octet list option" where
  "my_strstr str pat 0 = (if pat = [] then Some str else None)"
| "my_strstr str pat (Suc l1) =
    (if pat = [] then Some str
     else if Suc l1 < length pat then None
     else if take (length pat) str = pat then Some str
     else my_strstr (tl str) pat l1)"

text \<open>The offset behind the \<open>cx\<close>-th comma, or 0xFF; the result is an 8 bit number.\<close>

fun commaLoop :: "Octet list \<Rightarrow> 8 word \<Rightarrow> nat \<Rightarrow> 8 word" where
  "commaLoop [] cx k = (if cx = 0 then of_nat k else 0xFF)"
| "commaLoop (c # cs) cx k =
    (if cx = 0 then of_nat k
     else if c = STAR \<or> c < 0x20 \<or> c > 0x7A then 0xFF
     else commaLoop cs (if c = COMMA then cx - 1 else cx) (k + 1))"

definition NMEA_Comma_Pos :: "Octet list \<Rightarrow> 8 word \<Rightarrow> 8 word" where
  "NMEA_Comma_Pos buf cx = commaLoop buf cx 0"

definition NMEA_Pow :: "8 word \<Rightarrow> 8 word \<Rightarrow> 32 word" where
  "NMEA_Pow m n = ((\<lambda>result. result * ucast m) ^^ unat n) 1"

lemma peek_stops: "peek buf i \<noteq> 0 \<Longrightarrow> i < length buf"
  by (simp add: peek_def split: if_splits)

text \<open>
  The first loop of \<^verbatim>\<open>NMEA_Str2num\<close>: sign, and the lengths of the integer and the fractional part as 8 bit
  counters.  A point is skipped together with the character behind it, which counts as a
  fractional digit unseen.
\<close>

function numScan :: "Octet list \<Rightarrow> nat \<Rightarrow> bool \<Rightarrow> bool \<Rightarrow> 8 word \<Rightarrow> 8 word \<Rightarrow> bool \<times> 8 word \<times> 8 word" where
  "numScan buf i neg frac ilen flen =
    (let (neg, i) = (if peek buf i = MINUS then (True, i + 1) else (neg, i))
     in if peek buf i = COMMA \<or> peek buf i = STAR then (neg, ilen, flen)
        else if peek buf i \<noteq> POINT \<and> (peek buf i > DIGIT9 \<or> peek buf i < DIGIT0) then (neg, 0, 0)
        else
          let (frac, i) = (if peek buf i = POINT then (True, i + 1) else (frac, i))
          in if frac then numScan buf (i + 1) neg frac ilen (flen + 1)
             else numScan buf (i + 1) neg frac (ilen + 1) flen)"
  by pat_completeness auto

termination
proof (relation "measure (\<lambda>(buf, i, neg, frac, ilen, flen). length buf - i)")
  fix buf i neg frac ilen flen x neg' i' y frac' i''
  assume a: "x = (if peek buf i = MINUS then (True, i + 1) else (neg, i))" "(neg', i') = x"
    "\<not> (peek buf i' = COMMA \<or> peek buf i' = STAR)"
    "\<not> (peek buf i' \<noteq> POINT \<and> (peek buf i' > DIGIT9 \<or> peek buf i' < DIGIT0))"
    "y = (if peek buf i' = POINT then (True, i' + 1) else (frac, i'))" "(frac', i'') = y"
  have "peek buf i' \<noteq> 0" using a(4) by auto
  then have "i' < length buf" by (rule peek_stops)
  moreover have "i \<le> i'" "i' \<le> i''" using a(1,2,5,6) by (auto split: if_splits)
  ultimately show "frac' \<Longrightarrow> ((buf, i'' + 1, neg', frac', ilen, flen + 1), buf, i, neg, frac, ilen, flen)
      \<in> measure (\<lambda>(buf, i, neg, frac, ilen, flen). length buf - i)"
    and "\<not> frac' \<Longrightarrow> ((buf, i'' + 1, neg', frac', ilen + 1, flen), buf, i, neg, frac, ilen, flen)
      \<in> measure (\<lambda>(buf, i, neg, frac, ilen, flen). length buf - i)"
    by auto
qed simp

declare numScan.simps [simp del]

text \<open>The sums over the digits, in 32 bits.\<close>

fun digitSum :: "Octet list \<Rightarrow> nat \<Rightarrow> nat \<Rightarrow> nat \<Rightarrow> 32 word \<Rightarrow> 32 word" where
  "digitSum buf off len 0 acc = acc"
| "digitSum buf off len (Suc k) acc =
    (let i = len - Suc k
     in digitSum buf off len k
          (acc + NMEA_Pow 10 (of_nat (len - 1 - i)) * (ucast (peek buf (off + i)) - ucast DIGIT0)))"

definition NMEA_Str2num :: "Octet list \<Rightarrow> int \<times> 8 word" where
  "NMEA_Str2num buf =
    (let (neg, ilen, flen) = numScan buf 0 False False 0 0;
         off = (if neg then 1 else 0);
         ires = digitSum buf off (unat ilen) (unat ilen) 0;
         flen = (if flen > 5 then 5 else flen);
         fres = digitSum buf (off + unat ilen + 1) (unat flen) (unat flen) 0;
         res = i32 (uint (ires * NMEA_Pow 10 flen + fres))
     in (if neg then i32 (- res) else res, flen))"

subsection \<open>The sentence\<close>

text \<open>The tag \<^verbatim>\<open>XHTOD\<close>.\<close>

definition XHTOD :: "Octet list" where
  "XHTOD = [0x58, 0x48, 0x54, 0x4F, 0x44]"

text \<open>Behind the \<open>k\<close>-th comma stands a number, if there is such a comma.\<close>

definition todField :: "Octet list \<Rightarrow> 8 word \<Rightarrow> int option" where
  "todField q k =
    (let posx = NMEA_Comma_Pos q k
     in if posx \<noteq> 0xFF then Some (fst (NMEA_Str2num (drop (unat posx) q))) else None)"

definition TOD_Analysis :: "DateTime \<Rightarrow> Octet list \<Rightarrow> nat \<Rightarrow> DateTime" where
  "TOD_Analysis time buf len =
    (case my_strstr buf XHTOD len of
       None \<Rightarrow> time
     | Some q \<Rightarrow>
         let time = (case todField q 1 of None \<Rightarrow> time | Some temp \<Rightarrow> time\<lparr>year := word_of_int temp\<rparr>);
             time = (case todField q 2 of None \<Rightarrow> time | Some temp \<Rightarrow> time\<lparr>month := word_of_int temp\<rparr>);
             time = (case todField q 3 of None \<Rightarrow> time | Some temp \<Rightarrow> time\<lparr>day := word_of_int temp\<rparr>);
             time = (case todField q 4 of None \<Rightarrow> time | Some temp \<Rightarrow> time\<lparr>hour := word_of_int temp\<rparr>);
             time = (case todField q 5 of None \<Rightarrow> time | Some temp \<Rightarrow> time\<lparr>minute := word_of_int temp\<rparr>)
         in (case todField q 6 of None \<Rightarrow> time | Some temp \<Rightarrow> time\<lparr>second := word_of_int temp\<rparr>))"

text \<open>
  \<^verbatim>\<open>cmd_handle_usart1\<close>, on the global \<^verbatim>\<open>systime\<close>; \<open>tmpTime\<close> is what the uninitialised local
  holds.
\<close>

definition cmd_handle_usart1 :: "PTP_MODE \<Rightarrow> DateTime \<Rightarrow> Octet list \<Rightarrow> nat \<Rightarrow> clock \<Rightarrow> UInteger32 \<Rightarrow> UInteger32" where
  "cmd_handle_usart1 mode tmpTime str len c systime =
    (let p = take 512 str;
         t = TOD_Analysis tmpTime p len
     in if portState (portDS c) = PTP_MASTER \<and> mode = emNTPMaster
        then mktime (ucast (year t)) (uint (month t)) (ucast (day t)) (ucast (hour t)) (ucast (minute t)) (ucast (second t))
        else systime)"

subsection \<open>Numbers and fields of a well-formed sentence\<close>

text \<open>The decimal digits of a number, as text.\<close>

definition isDigit :: "Octet \<Rightarrow> bool" where
  "isDigit c \<longleftrightarrow> DIGIT0 \<le> c \<and> c \<le> DIGIT9"

fun decValue :: "Octet list \<Rightarrow> int" where
  "decValue [] = 0"
| "decValue (c # cs) = (uint c - 48) * 10 ^ length cs + decValue cs"

lemma digit_props:
  assumes "isDigit c"
  shows "c \<noteq> MINUS" "c \<noteq> COMMA" "c \<noteq> STAR" "c \<noteq> POINT" "\<not> (c > DIGIT9 \<or> c < DIGIT0)" "\<not> c < 0x20" "\<not> c > 0x7A"
    "48 \<le> uint c" "uint c \<le> 57"
proof -
  have "uint (0x30 :: 8 word) \<le> uint c" "uint c \<le> uint (0x39 :: 8 word)"
    using assms unfolding isDigit_def by (simp_all only: word_le_def)
  then show u: "48 \<le> uint c" "uint c \<le> 57" by simp_all
  then show "c \<noteq> MINUS" "c \<noteq> COMMA" "c \<noteq> STAR" "c \<noteq> POINT" by auto
  show "\<not> (c > DIGIT9 \<or> c < DIGIT0)" using assms by (auto simp: isDigit_def)
  have "uint (0x20 :: 8 word) \<le> uint c" "uint c \<le> uint (0x7A :: 8 word)" using u by simp_all
  then show "\<not> c < 0x20" "\<not> c > 0x7A" by (simp_all only: not_less word_le_def)
qed

lemma NMEA_Pow_10: "NMEA_Pow 10 n = word_of_int (10 ^ unat n)"
proof -
  have "((\<lambda>r :: 32 word. r * 10) ^^ k) 1 = 10 ^ k" for k by (induction k) simp_all
  then show ?thesis by (simp add: NMEA_Pow_def)
qed

lemma numScan_stop: "peek buf i = COMMA \<or> peek buf i = STAR \<Longrightarrow> numScan buf i neg frac il fl = (neg, il, fl)"
  by (subst numScan.simps) auto

lemma numScan_digit:
  assumes "isDigit (peek buf i)"
  shows "numScan buf i neg False il fl = numScan buf (i + 1) neg False (il + 1) fl"
proof -
  note d = digit_props(1-5) [OF assms]
  show ?thesis
    by (subst numScan.simps) (simp only: d Let_def if_False prod.case simp_thms)
qed

lemma numScan_digits:
  assumes "\<forall>c \<in> set ds. isDigit c" and "e = COMMA \<or> e = STAR"
  shows "i \<le> length ds \<Longrightarrow>
    numScan (ds @ e # rest) i False False (of_nat i) 0 = (False, of_nat (length ds), 0)"
proof (induction "length ds - i" arbitrary: i)
  case 0
  then have i: "i = length ds" by simp
  have "peek (ds @ e # rest) (length ds) = e" by (simp add: peek_def)
  then show ?case unfolding i using assms(2) by (intro numScan_stop) simp
next
  case (Suc n)
  then have i: "i < length ds" "n = length ds - (i + 1)" "i + 1 \<le> length ds" by simp_all
  have "isDigit (peek (ds @ e # rest) i)" using assms(1) i by (simp add: peek_def nth_append)
  then show ?case
    using Suc.hyps(1) [OF i(2,3)] by (simp add: numScan_digit add.commute)
qed

lemma digitSum_eq:
  assumes "k \<le> length ds" and "length ds < 256" and "\<forall>c \<in> set ds. isDigit c"
  shows "digitSum (ds @ rest) 0 (length ds) k acc = acc + word_of_int (decValue (drop (length ds - k) ds))"
  using assms(1)
proof (induction k arbitrary: acc)
  case (Suc k)
  define i where "i = length ds - Suc k"
  have i: "i < length ds" "length ds - 1 - i = k" "length ds - k = Suc i" using Suc.prems by (simp_all add: i_def)
  have p: "peek (ds @ rest) (0 + i) = ds ! i" using i(1) by (simp add: peek_def nth_append)
  have d: "drop i ds = ds ! i # drop (Suc i) ds" by (rule Cons_nth_drop_Suc [symmetric, OF i(1)])
  have n: "unat (of_nat k :: 8 word) = k" using Suc.prems assms(2) by (simp add: unat_of_nat)
  have w: "(ucast (ds ! i) - ucast DIGIT0 :: 32 word) = word_of_int (uint (ds ! i) - 48)" by simp
  have l: "length (drop (Suc i) ds) = k" using i(1,2) by simp
  have "digitSum (ds @ rest) 0 (length ds) (Suc k) acc =
      digitSum (ds @ rest) 0 (length ds) k (acc + word_of_int (10 ^ k) * word_of_int (uint (ds ! i) - 48))"
    unfolding digitSum.simps Let_def i_def [symmetric] p w i(2) NMEA_Pow_10 n ..
  also have "\<dots> = acc + word_of_int (10 ^ k) * word_of_int (uint (ds ! i) - 48) + word_of_int (decValue (drop (Suc i) ds))"
    using Suc.IH Suc.prems unfolding i(3) by simp
  also have "\<dots> = acc + word_of_int (decValue (drop i ds))"
    unfolding d decValue.simps l wi_hom_mult wi_hom_add by (simp add: ac_simps)
  finally show ?case unfolding i_def .
qed simp


lemma i32_small: "0 \<le> v \<Longrightarrow> v < 2147483648 \<Longrightarrow> i32 v = v"
  by (simp add: i32_def)

lemma decValue_bounds: "\<forall>c \<in> set ds. isDigit c \<Longrightarrow> 0 \<le> decValue ds \<and> decValue ds < 10 ^ length ds"
proof (induction ds)
  case (Cons c cs)
  then have IH: "0 \<le> decValue cs" "decValue cs < 10 ^ length cs" and c: "isDigit c" by simp_all
  have "0 \<le> uint c - 48" "uint c - 48 \<le> 9" using digit_props(8,9) [OF c] by simp_all
  then have "(uint c - 48) * 10 ^ length cs \<le> 9 * 10 ^ length cs" "0 \<le> (uint c - 48) * 10 ^ length cs"
    by (auto intro: mult_right_mono)
  moreover have "(10 :: int) ^ length (c # cs) = 9 * 10 ^ length cs + 10 ^ length cs" by simp
  ultimately show ?case using IH unfolding decValue.simps by linarith
qed simp

lemma NMEA_Str2num_digits:
  assumes "\<forall>c \<in> set ds. isDigit c" and "length ds \<le> 9" and "e = COMMA \<or> e = STAR"
  shows "NMEA_Str2num (ds @ e # rest) = (decValue ds, 0)"
proof -
  have b: "0 \<le> decValue ds" "decValue ds < 10 ^ length ds" using decValue_bounds [OF assms(1)] by simp_all
  have "(10 :: int) ^ length ds \<le> 10 ^ 9" using assms(2) by (rule power_increasing) simp
  then have v: "decValue ds < 2147483648" using b(2) by simp
  have n: "unat (of_nat (length ds) :: 8 word) = length ds" using assms(2) by (simp add: unat_of_nat)
  have s: "numScan (ds @ e # rest) 0 False False 0 0 = (False, of_nat (length ds), 0)"
    using numScan_digits [OF assms(1,3), of 0] by simp
  have d: "digitSum (ds @ e # rest) 0 (length ds) (length ds) 0 = word_of_int (decValue ds)"
    using digitSum_eq [OF order_refl _ assms(1)] assms(2) by simp
  have u: "uint (word_of_int (decValue ds) :: 32 word) = decValue ds"
    by (subst uint_word_of_int) (use b(1) v in \<open>simp add: mod_pos_pos_trivial\<close>)
  show ?thesis
    by (simp add: NMEA_Str2num_def s n d NMEA_Pow_10 u i32_small [OF b(1) v] del: uint_word_of_int_eq)
qed

text \<open>The fields of a sentence behind its tag, each led in by a comma.\<close>

definition fieldsText :: "Octet list list \<Rightarrow> Octet list" where
  "fieldsText fds = concat (map (Cons COMMA) fds)"

definition plainText :: "Octet list \<Rightarrow> bool" where
  "plainText cs \<longleftrightarrow> (\<forall>c \<in> set cs. c \<noteq> COMMA \<and> c \<noteq> STAR \<and> \<not> c < 0x20 \<and> \<not> c > 0x7A)"

lemma digits_plain: "\<forall>c \<in> set ds. isDigit c \<Longrightarrow> plainText ds"
  unfolding plainText_def by (intro ballI conjI; drule (1) bspec; erule digit_props)

lemma commaLoop_zero: "commaLoop xs 0 k = of_nat k"
  by (cases xs) simp_all

lemma commaLoop_plain: "plainText cs \<Longrightarrow> cx \<noteq> 0 \<Longrightarrow> commaLoop (cs @ xs) cx k = commaLoop xs cx (k + length cs)"
  by (induction cs arbitrary: k) (simp_all add: plainText_def)

lemma commaLoop_comma: "cx \<noteq> 0 \<Longrightarrow> commaLoop (COMMA # xs) cx k = commaLoop xs (cx - 1) (k + 1)"
  by simp

lemma commaLoop_fields:
  assumes "n < length fds" and "n < 255" and "\<forall>f \<in> set fds. plainText f"
  shows "commaLoop (fieldsText fds @ xs) (of_nat (Suc n)) k = of_nat (k + length (fieldsText (take n fds)) + 1)"
  using assms
proof (induction fds arbitrary: n k)
  case (Cons f fds)
  have u: "uint (of_nat (Suc n) :: 8 word) = int (Suc n)" using Cons.prems(2) by (simp add: uint_nat unat_of_nat del: of_nat_Suc)
  have nz: "of_nat (Suc n) \<noteq> (0 :: 8 word)"
  proof
    assume "of_nat (Suc n) = (0 :: 8 word)"
    then show False using u by (simp del: of_nat_Suc)
  qed
  have e: "fieldsText (f # fds) @ xs = COMMA # f @ fieldsText fds @ xs" by (simp add: fieldsText_def)
  have l: "commaLoop (fieldsText (f # fds) @ xs) (of_nat (Suc n)) k = commaLoop (f @ fieldsText fds @ xs) (of_nat n) (k + 1)"
    unfolding e commaLoop_comma [OF nz] by simp
  show ?case
  proof (cases n)
    case 0
    then show ?thesis using l by (simp add: commaLoop_zero fieldsText_def)
  next
    case (Suc m)
    have nz': "of_nat n \<noteq> (0 :: 8 word)"
    proof
      have "unat (of_nat n :: 8 word) = n" using Cons.prems(2) by (simp add: unat_of_nat)
      moreover assume "of_nat n = (0 :: 8 word)"
      ultimately show False using Suc by simp
    qed
    have "commaLoop (f @ fieldsText fds @ xs) (of_nat n) (k + 1) = commaLoop (fieldsText fds @ xs) (of_nat (Suc m)) (k + 1 + length f)"
      using commaLoop_plain [OF _ nz'] Cons.prems(3) Suc by simp
    also have "\<dots> = of_nat (k + 1 + length f + length (fieldsText (take m fds)) + 1)"
      using Cons.IH [of m] Cons.prems Suc by simp
    also have "k + 1 + length f + length (fieldsText (take m fds)) + 1 = k + length (fieldsText (take n (f # fds))) + 1"
      using Suc by (simp add: fieldsText_def)
    finally show ?thesis using l by simp
  qed
qed simp


lemma drop_fields:
  assumes "n < length fds"
  shows "drop (length (fieldsText (take n fds)) + 1) (fieldsText fds @ xs) = fds ! n @ fieldsText (drop (Suc n) fds) @ xs"
proof -
  have "fieldsText fds = fieldsText (take n fds) @ COMMA # fds ! n @ fieldsText (drop (Suc n) fds)"
    using arg_cong [OF id_take_nth_drop [OF assms], of fieldsText] by (simp add: fieldsText_def)
  then show ?thesis by simp
qed

lemma fields_lead: "\<exists>e ys. (e = COMMA \<or> e = STAR) \<and> fieldsText fds @ STAR # rest = e # ys"
  by (cases fds) (simp_all add: fieldsText_def)

lemma XHTOD_plain: "plainText XHTOD" and XHTOD_length: "length XHTOD = 5"
  by (simp_all add: plainText_def XHTOD_def)

lemma length_fields:
  "\<forall>f \<in> set fds. length f \<le> 9 \<Longrightarrow> length (fieldsText fds) \<le> 10 * length fds"
  by (induction fds) (auto simp: fieldsText_def)

lemma todField_value:
  assumes "n < length fds" and "length fds \<le> 6" and "\<forall>f \<in> set fds. (\<forall>c \<in> set f. isDigit c) \<and> length f \<le> 9"
  shows "todField (XHTOD @ fieldsText fds @ STAR # rest) (of_nat (Suc n)) = Some (decValue (fds ! n))"
proof -
  define a where "a = length (fieldsText (take n fds))"
  have "length (fieldsText (take n fds)) \<le> 10 * length (take n fds)"
    using assms(3) by (intro length_fields) (auto dest: in_set_takeD)
  then have a: "a \<le> 60" using assms(2) by (simp add: a_def)
  have nz: "of_nat (Suc n) \<noteq> (0 :: 8 word)"
  proof
    have "unat (of_nat (Suc n) :: 8 word) = Suc n" using assms(1,2) by (simp add: unat_of_nat del: of_nat_Suc)
    moreover assume "of_nat (Suc n) = (0 :: 8 word)"
    ultimately show False by simp
  qed
  have plain: "\<forall>f \<in> set fds. plainText f" using assms(3) digits_plain by blast
  have "NMEA_Comma_Pos (XHTOD @ fieldsText fds @ STAR # rest) (of_nat (Suc n)) = of_nat (5 + a + 1)"
    unfolding NMEA_Comma_Pos_def commaLoop_plain [OF XHTOD_plain nz] a_def
    using assms(1,2) commaLoop_fields [OF _ _ plain, of n "STAR # rest" 5] by (simp add: XHTOD_length del: of_nat_Suc of_nat_add)
  moreover have u: "unat (of_nat (5 + a + 1) :: 8 word) = 5 + (a + 1)" using a by (simp add: unat_of_nat del: of_nat_Suc of_nat_add)
  moreover have "of_nat (5 + a + 1) \<noteq> (0xFF :: 8 word)"
  proof
    assume "of_nat (5 + a + 1) = (0xFF :: 8 word)"
    then have "unat (of_nat (5 + a + 1) :: 8 word) = 255" by simp
    then show False using u a by simp
  qed
  moreover have "drop (5 + (a + 1)) (XHTOD @ fieldsText fds @ STAR # rest) = fds ! n @ fieldsText (drop (Suc n) fds) @ STAR # rest"
    using drop_fields [OF assms(1), of "STAR # rest"] by (simp add: XHTOD_length a_def)
  moreover obtain e ys where e: "e = COMMA \<or> e = STAR" "fieldsText (drop (Suc n) fds) @ STAR # rest = e # ys"
    using fields_lead by blast
  moreover have "NMEA_Str2num (fds ! n @ e # ys) = (decValue (fds ! n), 0)"
    using bspec [OF assms(3) nth_mem [OF assms(1)]] e(1) by (intro NMEA_Str2num_digits) simp_all
  ultimately show ?thesis
    by (simp add: todField_def Let_def del: of_nat_Suc of_nat_add)
qed

lemma my_strstr_found:
  "0x58 \<notin> set pre \<Longrightarrow> length pre + 5 \<le> len \<Longrightarrow> my_strstr (pre @ XHTOD @ r) XHTOD len = Some (XHTOD @ r)"
proof (induction pre arbitrary: len)
  case Nil
  then obtain l where "len = Suc l" by (cases len) simp_all
  then show ?case using Nil by (simp add: XHTOD_def)
next
  case (Cons c pre)
  then obtain l where l: "len = Suc l" by (cases len) simp_all
  have ne: "take 5 (c # pre @ XHTOD @ r) \<noteq> XHTOD" using Cons.prems(1) by (simp add: XHTOD_def)
  have "XHTOD \<noteq> []" by (simp add: XHTOD_def)
  then show ?case using Cons ne by (simp add: l XHTOD_length)
qed

text \<open>A sentence with six numbers is a date.\<close>

lemma TOD_Analysis_fields:
  assumes "0x58 \<notin> set pre" and "length pre + 5 \<le> len"
    and "length fds = 6" and "\<forall>f \<in> set fds. (\<forall>c \<in> set f. isDigit c) \<and> length f \<le> 9"
    and "map decValue fds = [uint (year t), uint (month t), uint (day t), uint (hour t), uint (minute t), uint (second t)]"
  shows "TOD_Analysis tmp (pre @ XHTOD @ fieldsText fds @ STAR # rest) len = t"
proof -
  have v: "decValue (fds ! n) = map decValue fds ! n" if "n < 6" for n using that assms(3) by simp
  have f: "todField (XHTOD @ fieldsText fds @ STAR # rest) (of_nat (Suc n)) = Some (map decValue fds ! n)" if "n < 6" for n
    using that assms(3,4) by (simp only: todField_value v)
  note fs' = f [of 0, simplified assms(5), simplified] f [of 1, simplified assms(5), simplified] f [of 2, simplified assms(5), simplified]
    f [of 3, simplified assms(5), simplified] f [of 4, simplified assms(5), simplified] f [of 5, simplified assms(5), simplified]
  show ?thesis
    by (simp add: TOD_Analysis_def my_strstr_found [OF assms(1,2)] fs')
qed

subsection \<open>Properties\<close>

text \<open>A time-of-day sentence sets the clock.  When the device serves NTP and is the master,
  and the text of the serial port has, at the first capital X in it and within the length given, the tag
  \<open>XHTOD\<close> with six decimal numbers of at most nine digits that are a valid date,
  then \<^verbatim>\<open>systime\<close> becomes the number of seconds from 1970 to that date (modulo \<open>2\<^sup>3\<^sup>2\<close>); what the
  uninitialised local held before does not matter.  In every other mode or state it keeps its value.\<close>

theorem tod_sets_clock:
  assumes "validDate t"
    and "map decValue fds = [uint (year t), uint (month t), uint (day t), uint (hour t), uint (minute t), uint (second t)]"
    and "\<forall>f \<in> set fds. (\<forall>c \<in> set f. isDigit c) \<and> length f \<le> 9"
    and "0x58 \<notin> set pre" and "length pre \<le> 400" and "length pre + 5 \<le> len"
  shows "cmd_handle_usart1 mode tmpTime (pre @ XHTOD @ fieldsText fds @ STAR # rest) len c systime =
    (if portState (portDS c) = PTP_MASTER \<and> mode = emNTPMaster then word_of_int (secondsOf t) else systime)"
proof -
  have n: "length fds = 6" using arg_cong [OF assms(2), of length] by simp
  then have "length (fieldsText fds) \<le> 60" using length_fields [of fds] assms(3) by simp
  then obtain m where "take 512 (pre @ XHTOD @ fieldsText fds @ STAR # rest) = pre @ XHTOD @ fieldsText fds @ STAR # take m rest"
    using assms(5) by (intro that [of "511 - length pre - 5 - length (fieldsText fds)"]) (simp add: XHTOD_length take_Cons' )
  then show ?thesis
    using TOD_Analysis_fields [OF assms(4,6) n assms(3,2)] mktime_secondsOf [OF assms(1)]
    by (simp add: cmd_handle_usart1_def Let_def)
qed

text \<open>The sentence \<open>$XHTOD,2018,01,24,12,30,45*\<close>.\<close>

definition sample_fields :: "Octet list list" where
  "sample_fields = [[0x32, 0x30, 0x31, 0x38], [0x30, 0x31], [0x32, 0x34], [0x31, 0x32], [0x33, 0x30], [0x34, 0x35]]"

definition sample_date :: DateTime where
  "sample_date = \<lparr>year = 2018, month = 1, day = 24, hour = 12, minute = 30, second = 45\<rparr>"

end
