(* ===== verification/Dev_Flash.thy ===== *)
theory Dev_Flash
  imports Ptp_Prelude
begin

text \<open>
  The flash driver \<^verbatim>\<open>USER/STMFLASH/stmflash.c\<close>: half words at even addresses, written through a
  sector buffer.  What the hardware makes of programming a cell is the parameter \<open>prog\<close> (old
  value, new value); its manual promises that an erased cell takes the new value.
\<close>

definition STM32_FLASH_BASE :: nat where "STM32_FLASH_BASE = 0x08000000"
definition STM32_FLASH_SIZE :: nat where "STM32_FLASH_SIZE = 256"
definition STM_SECTOR_SIZE :: nat where "STM_SECTOR_SIZE = 2048"

lemmas flash_consts = STM32_FLASH_BASE_def STM32_FLASH_SIZE_def STM_SECTOR_SIZE_def

text \<open>The cells by address in half words.\<close>

type_synonym flash = "nat \<Rightarrow> 16 word"

definition STMFLASH_ReadHalfWord :: "nat \<Rightarrow> flash \<Rightarrow> 16 word" where
  "STMFLASH_ReadHalfWord faddr f = f (faddr div 2)"

fun STMFLASH_Read :: "nat \<Rightarrow> nat \<Rightarrow> flash \<Rightarrow> 16 word list" where
  "STMFLASH_Read a 0 f = []"
| "STMFLASH_Read a (Suc n) f = STMFLASH_ReadHalfWord a f # STMFLASH_Read (a + 2) n f"

definition FLASH_ProgramHalfWord :: "(16 word \<Rightarrow> 16 word \<Rightarrow> 16 word) \<Rightarrow> nat \<Rightarrow> 16 word \<Rightarrow> flash \<Rightarrow> flash" where
  "FLASH_ProgramHalfWord prog a d f = f(a div 2 := prog (f (a div 2)) d)"

definition FLASH_ErasePage :: "nat \<Rightarrow> flash \<Rightarrow> flash" where
  "FLASH_ErasePage a f = (\<lambda>i. if a div 2 \<le> i \<and> i < a div 2 + STM_SECTOR_SIZE div 2 then 0xFFFF else f i)"

fun STMFLASH_Write_NoCheck :: "(16 word \<Rightarrow> 16 word \<Rightarrow> 16 word) \<Rightarrow> nat \<Rightarrow> 16 word list \<Rightarrow> flash \<Rightarrow> flash" where
  "STMFLASH_Write_NoCheck prog a [] f = f"
| "STMFLASH_Write_NoCheck prog a (d # ds) f =
    STMFLASH_Write_NoCheck prog (a + 2) ds (FLASH_ProgramHalfWord prog a d f)"

text \<open>
  The loop over the sectors.  \<open>p\<close> is the data from \<^verbatim>\<open>pBuffer\<close> on; the address advances by the
  number of half words written, as the source has it.  The source leaves the loop when \<open>num = secremain\<close>;
  the other two tests never hold for the calls of \<^verbatim>\<open>STMFLASH_Write\<close> and bound the recursion.
\<close>

function flashLoop :: "(16 word \<Rightarrow> 16 word \<Rightarrow> 16 word) \<Rightarrow> nat \<Rightarrow> nat \<Rightarrow> nat \<Rightarrow> nat \<Rightarrow> 16 word list \<Rightarrow> nat \<Rightarrow> flash \<Rightarrow> flash" where
  "flashLoop prog secpos secoff secremain addr p num f =
    (let base = secpos * STM_SECTOR_SIZE + STM32_FLASH_BASE;
         buf = STMFLASH_Read base (STM_SECTOR_SIZE div 2) f;
         f = (if list_ex (\<lambda>i. buf ! (secoff + i) \<noteq> 0xFFFF) [0..<secremain]
              then
                let f = FLASH_ErasePage base f;
                    buf = take secoff buf @ take secremain p @ drop (secoff + secremain) buf
                in STMFLASH_Write_NoCheck prog base buf f
              else STMFLASH_Write_NoCheck prog addr (take secremain p) f)
     in if num = secremain \<or> secremain = 0 \<or> num < secremain then f
        else
          let num = num - secremain
          in flashLoop prog (secpos + 1) 0 (if num > STM_SECTOR_SIZE div 2 then STM_SECTOR_SIZE div 2 else num)
               (addr + secremain) (drop secremain p) num f)"
  by pat_completeness auto
termination by (relation "measure (\<lambda>(prog, secpos, secoff, secremain, addr, p, num, f). num)") auto

definition STMFLASH_Write :: "(16 word \<Rightarrow> 16 word \<Rightarrow> 16 word) \<Rightarrow> nat \<Rightarrow> 16 word list \<Rightarrow> nat \<Rightarrow> flash \<Rightarrow> flash" where
  "STMFLASH_Write prog addr p num f =
    (if addr < STM32_FLASH_BASE \<or> addr \<ge> STM32_FLASH_BASE + 1024 * STM32_FLASH_SIZE then f
     else
       let offaddr = addr - STM32_FLASH_BASE;
           secpos = offaddr div STM_SECTOR_SIZE;
           secoff = (offaddr mod STM_SECTOR_SIZE) div 2;
           secremain = STM_SECTOR_SIZE div 2 - secoff;
           secremain = (if num \<le> secremain then num else secremain)
       in flashLoop prog secpos secoff secremain addr p num f)"

subsection \<open>What a write leaves behind\<close>

lemma length_Read [simp]: "length (STMFLASH_Read a n f) = n"
  by (induction n arbitrary: a) simp_all

lemma nth_Read: "i < n \<Longrightarrow> STMFLASH_Read a n f ! i = f (a div 2 + i)"
  by (induction n arbitrary: a i) (auto simp: STMFLASH_ReadHalfWord_def nth_Cons split: nat.split)

text \<open>Writing to erased cells stores the data and touches nothing else.\<close>

lemma Write_NoCheck_erased:
  assumes "\<And>d. prog 0xFFFF d = d" and "\<And>i. i < length ds \<Longrightarrow> f (a div 2 + i) = 0xFFFF"
  shows "STMFLASH_Write_NoCheck prog a ds f = (\<lambda>j. if a div 2 \<le> j \<and> j < a div 2 + length ds then ds ! (j - a div 2) else f j)"
  using assms(2)
proof (induction ds arbitrary: a f)
  case (Cons d ds)
  have e: "f (a div 2) = 0xFFFF" using Cons.prems [of 0] by simp
  have "STMFLASH_Write_NoCheck prog (a + 2) ds (FLASH_ProgramHalfWord prog a d f) =
    (\<lambda>j. if (a + 2) div 2 \<le> j \<and> j < (a + 2) div 2 + length ds then ds ! (j - (a + 2) div 2) else FLASH_ProgramHalfWord prog a d f j)"
    using Cons.prems [of "Suc _"] by (intro Cons.IH) (simp add: FLASH_ProgramHalfWord_def)
  then have r: "STMFLASH_Write_NoCheck prog a (d # ds) f j =
    (if Suc (a div 2) \<le> j \<and> j < Suc (a div 2) + length ds then ds ! (j - Suc (a div 2)) else if j = a div 2 then d else f j)" for j
    by (simp add: FLASH_ProgramHalfWord_def e assms(1))
  show ?case
  proof
    fix j
    show "STMFLASH_Write_NoCheck prog a (d # ds) f j =
        (if a div 2 \<le> j \<and> j < a div 2 + length (d # ds) then (d # ds) ! (j - a div 2) else f j)"
      unfolding r by (cases "j \<le> a div 2") (auto simp: Suc_diff_le nth_Cons' not_le)
  qed
qed (auto simp: fun_eq_iff)

lemma STMFLASH_Write_one:
  assumes "\<And>d. prog 0xFFFF d = d" and "STM32_FLASH_BASE \<le> addr" and "addr < STM32_FLASH_BASE + 1024 * STM32_FLASH_SIZE"
    and "even addr" and "length p = num" and "(addr mod STM_SECTOR_SIZE) div 2 + num \<le> STM_SECTOR_SIZE div 2"
  shows "STMFLASH_Write prog addr p num f = (\<lambda>j. if addr div 2 \<le> j \<and> j < addr div 2 + num then p ! (j - addr div 2) else f j)"
proof -
  define off where "off = addr - STM32_FLASH_BASE"
  define sp so where "sp = off div STM_SECTOR_SIZE" and "so = off mod STM_SECTOR_SIZE div 2"
  have addr: "addr = STM32_FLASH_BASE + off" using assms(2) by (simp add: off_def)
  have m: "addr mod STM_SECTOR_SIZE = off mod STM_SECTOR_SIZE"   proof -
    have B: "STM32_FLASH_BASE = 65536 * STM_SECTOR_SIZE" by (simp add: flash_consts)
    show ?thesis unfolding addr B by (rule mod_mult_self3)
  qed
  have so: "so + num \<le> 1024" using assms(6) unfolding m by (simp add: so_def STM_SECTOR_SIZE_def)
  have ev: "even off" using assms(4) unfolding addr by (simp add: flash_consts)
  define base where "base = sp * STM_SECTOR_SIZE + STM32_FLASH_BASE"
  have b: "addr div 2 = base div 2 + so"
  proof -
    have "off = sp * 2048 + off mod 2048" by (simp add: sp_def STM_SECTOR_SIZE_def)
    moreover have "off mod 2048 = 2 * so"
    proof -
      have "even (off mod 2048)" using ev by (simp add: dvd_mod_iff)
      then show ?thesis by (simp add: so_def STM_SECTOR_SIZE_def)
    qed
    ultimately have "off = sp * 2048 + 2 * so" by (rule HOL.trans [OF _ arg_cong])
    then have "addr = 2 * (sp * 1024 + so + 67108864)" unfolding addr STM32_FLASH_BASE_def by simp
    moreover have "base = 2 * (sp * 1024 + 67108864)" by (simp add: base_def flash_consts)
    ultimately show ?thesis by simp
  qed
  define buf where "buf = STMFLASH_Read base 1024 f"
  have bl: "length buf = 1024" by (simp add: buf_def)
  have bn: "buf ! i = f (base div 2 + i)" if "i < 1024" for i using that by (simp add: buf_def nth_Read)
  define new where "new = take so buf @ p @ drop (so + num) buf"
  have w: "STMFLASH_Write prog addr p num f =
    (if list_ex (\<lambda>i. buf ! (so + i) \<noteq> 0xFFFF) [0..<num] then STMFLASH_Write_NoCheck prog base new (FLASH_ErasePage base f)
     else STMFLASH_Write_NoCheck prog addr p f)"
  proof -
    have r: "\<not> (addr < STM32_FLASH_BASE \<or> addr \<ge> STM32_FLASH_BASE + 1024 * STM32_FLASH_SIZE)" using assms(2,3) by simp
    have n: "num \<le> STM_SECTOR_SIZE div 2 - so" "STM_SECTOR_SIZE div 2 = 1024" using so by (simp_all add: STM_SECTOR_SIZE_def)
    have t: "take num p = p" using assms(5) by simp
    show ?thesis
      unfolding STMFLASH_Write_def Let_def off_def [symmetric] sp_def [symmetric] so_def [symmetric] if_not_P [OF r] if_P [OF n(1)]
      by (subst flashLoop.simps) (simp only: Let_def base_def [symmetric] n(2) buf_def [symmetric] t new_def [symmetric] if_True simp_thms)
  qed
  show ?thesis
  proof (cases "list_ex (\<lambda>i. buf ! (so + i) \<noteq> 0xFFFF) [0..<num]")
    case True
    have l: "length new = 1024" using so assms(5) by (simp add: new_def bl)
    have e: "STMFLASH_Write_NoCheck prog base new (FLASH_ErasePage base f)
      = (\<lambda>j. if base div 2 \<le> j \<and> j < base div 2 + 1024 then new ! (j - base div 2) else FLASH_ErasePage base f j)"
      using Write_NoCheck_erased [where prog = prog, OF assms(1), where ds = new and f = "FLASH_ErasePage base f" and a = base] l
      by (simp add: FLASH_ErasePage_def STM_SECTOR_SIZE_def)
    have nw: "new ! i = (if so \<le> i \<and> i < so + num then p ! (i - so) else f (base div 2 + i))" if "i < 1024" for i
      using that so assms(5) by (auto simp: new_def nth_append bl bn)
    show ?thesis
    proof
      fix j
      show "STMFLASH_Write prog addr p num f j = (if addr div 2 \<le> j \<and> j < addr div 2 + num then p ! (j - addr div 2) else f j)"
      proof (cases "base div 2 \<le> j \<and> j < base div 2 + 1024")
        case T: True
        then have "j - base div 2 < 1024" "base div 2 + (j - base div 2) = j" by auto
        then show ?thesis unfolding w if_P [OF True] e b using T nw by auto
      next
        case F: False
        then show ?thesis unfolding w if_P [OF True] e b using so by (auto simp: FLASH_ErasePage_def STM_SECTOR_SIZE_def)
      qed
    qed
  next
    case False
    then have "f (addr div 2 + i) = 0xFFFF" if "i < num" for i
      using that so bn [of "so + i"] unfolding b list_ex_iff by (auto simp: add.assoc)
    then show ?thesis
      unfolding w if_not_P [OF False] using Write_NoCheck_erased [where prog = prog and ds = p and f = f and a = addr, OF assms(1)] assms(5) by simp
  qed
qed

text \<open>C30: a write that stays in one sector stores its data and nothing else: afterwards the half words from the
  address on are the data, and every other cell holds what it held, whether the cells were
  erased or the sector had to be erased and restored.\<close>

theorem STMFLASH_Write_sector:
  assumes "\<And>d. prog 0xFFFF d = d" and "STM32_FLASH_BASE \<le> addr" and "addr < STM32_FLASH_BASE + 1024 * STM32_FLASH_SIZE"
    and "even addr" and "length p = num" and "(addr mod STM_SECTOR_SIZE) div 2 + num \<le> STM_SECTOR_SIZE div 2"
  shows "STMFLASH_Write prog addr p num f = (\<lambda>j. if addr div 2 \<le> j \<and> j < addr div 2 + num then p ! (j - addr div 2) else f j)"
  using assms by (rule STMFLASH_Write_one)

text \<open>The device saves its configuration, 20 half words, at the start of a sector.\<close>

definition FLASH_SAVE_Data :: nat where "FLASH_SAVE_Data = 0x08032000 + 0x4000"

theorem STMFLASH_Write_sector_witness:
  "STMFLASH_Read FLASH_SAVE_Data 2 (STMFLASH_Write (\<lambda>old new. if old = 0xFFFF then new else old AND new) FLASH_SAVE_Data [1, 2] 2 (\<lambda>_. 7)) = [1, 2]"
proof -
  have "STMFLASH_Write (\<lambda>old new. if old = 0xFFFF then new else old AND new) FLASH_SAVE_Data [1, 2] 2 (\<lambda>_. 7)
    = (\<lambda>j. if FLASH_SAVE_Data div 2 \<le> j \<and> j < FLASH_SAVE_Data div 2 + 2 then [1, 2] ! (j - FLASH_SAVE_Data div 2) else 7)"
  proof (rule STMFLASH_Write_sector)
  qed (simp_all add: FLASH_SAVE_Data_def flash_consts)
  then show ?thesis by (intro nth_equalityI) (simp_all add: nth_Read)
qed

end
