(* ===== verification/Dev_Uart.thy ===== *)
theory Dev_Uart
  imports Ptp_Bytes
begin

text \<open>
  The serial ports: \<^verbatim>\<open>USER/usart/usart.c\<close>.  The receive interrupt stores a byte and counts it;
  \<^verbatim>\<open>receive_str_manage\<close>, polled every 20 ms, takes a port that has received something since its
  last delivery and nothing since the last poll, copies the bytes and resets the port.  The five ports run the same code on
  their own state, which is a function of the port's name; the static counters of
  \<^verbatim>\<open>receive_str_manage\<close> are fields of that state.
\<close>

datatype EUsart = EUsart_1 | EUsart_2 | EUsart_3 | EUsart_4 | EUsart_5

definition USART_RECEIVE_MAX :: nat where "USART_RECEIVE_MAX = 1024"

record STUsart =
  receive_count :: UInteger16
  ubuff :: "Octet list"
  usart_tmp :: UInteger32
  usart_state :: UInteger8

type_synonym ports = "EUsart \<Rightarrow> STUsart"

definition usart_idle :: STUsart where
  "usart_idle = \<lparr>receive_count = 0, ubuff = replicate USART_RECEIVE_MAX 0, usart_tmp = 0, usart_state = 0\<rparr>"

text \<open>The interrupt handlers of the five ports.\<close>

definition storeByte :: "Octet \<Rightarrow> STUsart \<Rightarrow> STUsart" where
  "storeByte res u =
    (let u = u\<lparr>ubuff := (ubuff u)[unat (receive_count u) := res]\<rparr>;
         u = u\<lparr>receive_count := receive_count u + 1\<rparr>
     in if unat (receive_count u) \<ge> USART_RECEIVE_MAX then u\<lparr>receive_count := 0\<rparr> else u)"

definition USART_IRQHandler :: "EUsart \<Rightarrow> Octet \<Rightarrow> ports \<Rightarrow> ports" where
  "USART_IRQHandler com res S = S(com := storeByte res (S com))"

text \<open>
  \<^verbatim>\<open>receive_str_manage\<close> up to the call of the port's function: whether there is something to deliver, the copy, and
  the reset, between which the interrupt may strike.  A delivery is the whole zero-filled local buffer
  and the length.
\<close>

definition manageDue :: "STUsart \<Rightarrow> bool" where
  "manageDue u \<longleftrightarrow> ucast (receive_count u) = usart_tmp u \<and> usart_state u > 0"

definition manageCopy :: "STUsart \<Rightarrow> Octet list \<times> UInteger16" where
  "manageCopy u =
    (put_bytes (replicate USART_RECEIVE_MAX 0) 0 (take (unat (receive_count u)) (ubuff u)), receive_count u)"

definition manageReset :: "STUsart \<Rightarrow> STUsart" where
  "manageReset u = u\<lparr>receive_count := 0, ubuff := replicate USART_RECEIVE_MAX 0, usart_tmp := 0, usart_state := 0\<rparr>"

definition managePort :: "STUsart \<Rightarrow> (Octet list \<times> UInteger16) option \<times> STUsart" where
  "managePort u =
    (if ucast (receive_count u) \<noteq> usart_tmp u
     then (None, u\<lparr>usart_tmp := ucast (receive_count u), usart_state := usart_state u + 1\<rparr>)
     else if manageDue u then (Some (manageCopy u), manageReset u)
     else (None, u))"

definition receive_str_manage :: "EUsart \<Rightarrow> ports \<Rightarrow> (Octet list \<times> UInteger16) option \<times> ports" where
  "receive_str_manage com S = (let (r, u) = managePort (S com) in (r, S(com := u)))"

text \<open>
  Sending waits for the transmitter before every byte; the bytes go out in order.
\<close>

definition com_send_str :: "EUsart \<Rightarrow> Octet list \<Rightarrow> nat \<Rightarrow> (EUsart \<times> Octet list) list \<Rightarrow> (EUsart \<times> Octet list) list" where
  "com_send_str com str len sent = sent @ [(com, take len str)]"

subsection \<open>Bursts of bytes\<close>

text \<open>What happens on a port: bytes arrive, the port is polled.\<close>

datatype UsartEvent = Arrives Octet | Polled

fun usartEvents :: "UsartEvent list \<Rightarrow> STUsart \<Rightarrow> (Octet list \<times> UInteger16) list \<times> STUsart" where
  "usartEvents [] u = ([], u)"
| "usartEvents (Arrives b # es) u = usartEvents es (storeByte b u)"
| "usartEvents (Polled # es) u =
    (let (r, u) = managePort u; (rs, u) = usartEvents es u
     in (case r of None \<Rightarrow> rs | Some d \<Rightarrow> d # rs, u))"

text \<open>A port that has received \<open>bs\<close> since it was idle, \<open>n\<close> of them and \<open>k\<close> polls with news ago.\<close>

definition receiving :: "Octet list \<Rightarrow> nat \<Rightarrow> nat \<Rightarrow> STUsart \<Rightarrow> bool" where
  "receiving bs n k u \<longleftrightarrow> length bs < USART_RECEIVE_MAX \<and> unat (receive_count u) = length bs \<and> unat (usart_tmp u) = n
    \<and> unat (usart_state u) = k \<and> length (ubuff u) = USART_RECEIVE_MAX \<and> take (length bs) (ubuff u) = bs"

lemma receiving_idle: "receiving [] 0 0 usart_idle"
  by (simp add: receiving_def usart_idle_def USART_RECEIVE_MAX_def)

lemma unat_Suc16: "unat (w :: 16 word) < 1024 \<Longrightarrow> unat (w + 1) = Suc (unat w)"
  using unat_add_lem [of w 1] by simp

lemma receiving_byte:
  assumes "receiving bs n k u" and "Suc (length bs) < USART_RECEIVE_MAX"
  shows "receiving (bs @ [b]) n k (storeByte b u)"
proof -
  have c: "unat (receive_count u) = length bs" "length (ubuff u) = 1024" "take (length bs) (ubuff u) = bs"
    using assms(1) by (simp_all add: receiving_def USART_RECEIVE_MAX_def)
  then have s: "unat (receive_count u + 1) = Suc (length bs)"
    using assms(2) by (simp add: unat_Suc16 USART_RECEIVE_MAX_def)
  have "take (Suc (length bs)) ((ubuff u)[length bs := b]) = bs @ [b]"
    using c assms(2) by (simp add: take_Suc_conv_app_nth USART_RECEIVE_MAX_def)
  then show ?thesis
    using assms by (simp add: receiving_def storeByte_def Let_def c(1) s)
qed

lemma receiving_bytes:
  "receiving bs n k u \<Longrightarrow> length bs + length cs < USART_RECEIVE_MAX \<Longrightarrow> receiving (bs @ cs) n k (fold storeByte cs u)"
proof (induction cs arbitrary: bs u)
  case (Cons c cs)
  then have "receiving (bs @ [c]) n k (storeByte c u)" by (intro receiving_byte) simp_all
  from Cons.IH [OF this] Cons.prems(2) show ?case by simp
qed simp

lemma unat_ucast_up: "unat (ucast (w :: 16 word) :: 32 word) = unat w"
  by (simp only: unat_eq_nat_uint) (simp add: uint_up_ucast is_up)

lemma receiving_news:
  assumes "receiving bs n k u" and "n \<noteq> length bs" and "Suc k < 256"
  shows "\<exists>u'. managePort u = (None, u') \<and> receiving bs (length bs) (Suc k) u'"
proof -
  have c: "unat (receive_count u) = length bs" "unat (usart_tmp u) = n" "unat (usart_state u) = k" using assms(1) by (simp_all add: receiving_def)
  have "ucast (receive_count u) \<noteq> usart_tmp u"
    using assms(2) c unat_ucast_up [of "receive_count u"] by auto
  moreover have "unat (usart_state u + 1) = Suc k"
    using unat_add_lem [of "usart_state u" 1] c(3) assms(3) by simp
  ultimately show ?thesis
    using assms(1) by (simp add: managePort_def receiving_def unat_ucast_up)
qed

lemma receiving_copy:
  assumes "receiving bs n k u"
  shows "manageCopy u = (bs @ replicate (USART_RECEIVE_MAX - length bs) 0, of_nat (length bs))"
proof -
  have c: "unat (receive_count u) = length bs" "take (length bs) (ubuff u) = bs" "length bs < USART_RECEIVE_MAX"
    using assms by (simp_all add: receiving_def)
  have "put_bytes (replicate USART_RECEIVE_MAX 0) 0 bs = bs @ replicate (USART_RECEIVE_MAX - length bs) 0"
    using c(3) by (intro nth_equalityI) (auto simp: nth_put_bytes nth_append)
  moreover have "receive_count u = of_nat (length bs)" using c(1) [symmetric] by simp
  ultimately show ?thesis unfolding manageCopy_def c(1,2) by simp
qed

lemma receiving_quiet:
  assumes "receiving bs (length bs) k u" and "0 < k"
  shows "managePort u = (Some (bs @ replicate (USART_RECEIVE_MAX - length bs) 0, of_nat (length bs)), usart_idle)"
proof -
  have c: "unat (receive_count u) = length bs" "unat (usart_tmp u) = length bs" "unat (usart_state u) = k"
    "take (length bs) (ubuff u) = bs" using assms(1) by (simp_all add: receiving_def)
  have e: "ucast (receive_count u) = usart_tmp u"
    using c unat_ucast_up [of "receive_count u"] by (simp add: word_unat_eq_iff)
  have s: "usart_state u > 0" using c(3) assms(2) by (simp add: word_less_nat_alt)
  have r: "receive_count u = of_nat (length bs)" using c(1) [symmetric] by simp
  have "manageReset u = usart_idle" by (simp add: manageReset_def usart_idle_def)
  then show ?thesis
    using e s receiving_copy [OF assms(1)] by (simp add: managePort_def manageDue_def)
qed

text \<open>A message is sent in pieces, each followed by a poll, and after the last comes a poll with no news.\<close>

definition delivery :: "Octet list \<Rightarrow> Octet list \<times> UInteger16" where
  "delivery bs = (bs @ replicate (USART_RECEIVE_MAX - length bs) 0, of_nat (length bs))"

definition burst :: "Octet list list \<Rightarrow> UsartEvent list" where
  "burst css = concat (map (\<lambda>cs. map Arrives cs @ [Polled]) css) @ [Polled]"

definition isMessage :: "Octet list list \<Rightarrow> bool" where
  "isMessage css \<longleftrightarrow> css \<noteq> [] \<and> [] \<notin> set css \<and> length (concat css) < USART_RECEIVE_MAX \<and> length css < 256"

lemma usartEvents_append:
  "usartEvents (es @ fs) u =
    (let (rs, u) = usartEvents es u; (ss, u) = usartEvents fs u in (rs @ ss, u))"
  by (induction es u rule: usartEvents.induct) (auto simp: Let_def split: prod.splits option.splits)

lemma usartEvents_arrivals: "usartEvents (map Arrives cs) u = ([], fold storeByte cs u)"
  by (induction cs arbitrary: u) simp_all

lemma burst_received:
  assumes "receiving bs (length bs) k u" and "[] \<notin> set css" and "length bs + length (concat css) < USART_RECEIVE_MAX"
    and "k + length css < 256" and "css = [] \<Longrightarrow> 0 < k"
  shows "usartEvents (burst css) u = ([delivery (bs @ concat css)], usart_idle)"
  using assms
proof (induction css arbitrary: bs k u)
  case Nil
  then show ?case using receiving_quiet [OF Nil(1)] by (simp add: burst_def delivery_def)
next
  case (Cons cs css)
  have f: "receiving (bs @ cs) (length bs) k (fold storeByte cs u)"
    using Cons.prems by (intro receiving_bytes) simp_all
  have "length bs \<noteq> length (bs @ cs)" using Cons.prems(2) by auto
  then obtain u' where u': "managePort (fold storeByte cs u) = (None, u')" "receiving (bs @ cs) (length (bs @ cs)) (Suc k) u'"
    using receiving_news [OF f] Cons.prems(4) by auto
  have "burst (cs # css) = map Arrives cs @ Polled # burst css" by (simp add: burst_def)
  then have "usartEvents (burst (cs # css)) u = usartEvents (burst css) u'"
    by (simp add: usartEvents_append usartEvents_arrivals u'(1) split: prod.splits)
  also have "\<dots> = ([delivery ((bs @ cs) @ concat css)], usart_idle)"
    using Cons.prems by (intro Cons.IH [OF u'(2)]) simp_all
  finally show ?case by simp
qed

lemma message_received: "isMessage css \<Longrightarrow> usartEvents (burst css) usart_idle = ([delivery (concat css)], usart_idle)"
  using burst_received [of "[]" 0 usart_idle css] receiving_idle by (simp add: isMessage_def)

text \<open>The byte that fills the buffer makes the port look empty.\<close>

lemma receiving_wrap:
  assumes "receiving bs n k u" and "Suc (length bs) = USART_RECEIVE_MAX"
  shows "receiving [] n k (storeByte b u)"
proof -
  have c: "unat (receive_count u) = 1023" using assms by (simp add: receiving_def USART_RECEIVE_MAX_def)
  then have "unat (receive_count u + 1) = 1024" by (simp add: unat_Suc16)
  then show ?thesis using assms by (simp add: receiving_def storeByte_def Let_def USART_RECEIVE_MAX_def)
qed

lemma overfull_received:
  assumes "USART_RECEIVE_MAX \<le> length bs" and "length bs < 2 * USART_RECEIVE_MAX"
  shows "receiving (drop USART_RECEIVE_MAX bs) 0 0 (fold storeByte bs usart_idle)"
proof -
  define f where "f = take 1023 bs"
  have bs: "bs = f @ bs ! 1023 # drop 1024 bs"
    using assms(1) id_take_nth_drop [of 1023 bs] by (simp add: f_def USART_RECEIVE_MAX_def)
  have f: "length f = 1023" using assms(1) by (simp add: f_def USART_RECEIVE_MAX_def)
  have "receiving f 0 0 (fold storeByte f usart_idle)"
    using receiving_bytes [OF receiving_idle, of f] f by (simp add: USART_RECEIVE_MAX_def)
  then have "receiving [] 0 0 (storeByte (bs ! 1023) (fold storeByte f usart_idle))"
    by (rule receiving_wrap) (simp add: f USART_RECEIVE_MAX_def)
  then have "receiving (drop 1024 bs) 0 0 (fold storeByte (drop 1024 bs) (storeByte (bs ! 1023) (fold storeByte f usart_idle)))"
    using receiving_bytes [where bs = "[]"] assms(2) by (simp add: USART_RECEIVE_MAX_def)
  moreover have "fold storeByte bs usart_idle = fold storeByte (drop 1024 bs) (storeByte (bs ! 1023) (fold storeByte f usart_idle))"
    by (subst bs) simp
  ultimately show ?thesis by (simp add: USART_RECEIVE_MAX_def)
qed

subsection \<open>Properties\<close>

text \<open>C31: messages come out of a serial port as they went in: when every message has less than 1024 bytes, arrives
  in fewer than 256 pieces with at least one byte before each poll, and is followed by one poll
  without news, then the port's function is called once for each message, in their order, with exactly its bytes,
  and the port is idle again.\<close>

theorem usart_messages:
  assumes "\<forall>css \<in> set msgs. isMessage css"
  shows "usartEvents (concat (map burst msgs)) usart_idle = (map (\<lambda>css. delivery (concat css)) msgs, usart_idle)"
  using assms by (induction msgs) (simp_all add: usartEvents_append message_received)

theorem usart_messages_witness:
  "usartEvents (concat (map burst [[[0x24, 0x58], [0x48]], [[0x2A]]])) usart_idle
    = ([delivery [0x24, 0x58, 0x48], delivery [0x2A]], usart_idle)"
  using usart_messages [of "[[[0x24, 0x58], [0x48]], [[0x2A]]]"] by (simp add: isMessage_def USART_RECEIVE_MAX_def)

text \<open>C32: what a port loses: of 1024 bytes or more that arrive between two polls the first 1024 are lost without
  notice, and exactly 1024 are no message at all; and a byte whose interrupt strikes between the
  copying of the message and the reset of the port is neither in that message nor in the next.\<close>

theorem usart_losses:
  assumes "USART_RECEIVE_MAX \<le> length bs" and "length bs < 2 * USART_RECEIVE_MAX" and "isMessage [ms]"
  shows "fst (usartEvents (burst [bs]) usart_idle) = (if length bs = USART_RECEIVE_MAX then [] else [delivery (drop USART_RECEIVE_MAX bs)])
    \<and> (let u = snd (usartEvents (map Arrives ms @ [Polled]) usart_idle)
       in manageDue u \<and> manageCopy u = delivery ms \<and> manageReset (storeByte b u) = usart_idle)"
proof (intro conjI)
  let ?u = "fold storeByte bs usart_idle"
  have r: "receiving (drop USART_RECEIVE_MAX bs) 0 0 ?u" using assms by (intro overfull_received)
  have e: "usartEvents (burst [bs]) usart_idle = usartEvents [Polled, Polled] ?u"
    by (simp add: burst_def usartEvents_append usartEvents_arrivals split: prod.splits)
  show "fst (usartEvents (burst [bs]) usart_idle) = (if length bs = USART_RECEIVE_MAX then [] else [delivery (drop USART_RECEIVE_MAX bs)])"
  proof (cases "length bs = USART_RECEIVE_MAX")
    case True
    then have "ucast (receive_count ?u) = usart_tmp ?u" "\<not> manageDue ?u"
      using r unat_ucast_up [of "receive_count ?u"] by (simp_all add: receiving_def manageDue_def unat_eq_zero)
    then have "managePort ?u = (None, ?u)" by (simp add: managePort_def)
    then show ?thesis unfolding e using True by simp
  next
    case False
    then obtain u' where u': "managePort ?u = (None, u')"
      "receiving (drop USART_RECEIVE_MAX bs) (length (drop USART_RECEIVE_MAX bs)) 1 u'"
      using receiving_news [OF r] assms(1) by auto
    show ?thesis unfolding e using receiving_quiet [OF u'(2)] False by (simp add: u'(1) delivery_def)
  qed
  have m: "ms \<noteq> []" "length ms < USART_RECEIVE_MAX" using assms(3) by (auto simp: isMessage_def)
  then obtain u where u: "managePort (fold storeByte ms usart_idle) = (None, u)" "receiving ms (length ms) 1 u"
    using receiving_news [OF receiving_bytes [OF receiving_idle, of ms]] by auto
  have "manageDue u" using receiving_quiet [OF u(2)] by (auto simp: managePort_def split: if_splits)
  moreover have "snd (usartEvents (map Arrives ms @ [Polled]) usart_idle) = u"
    by (simp add: usartEvents_append usartEvents_arrivals u(1) split: prod.splits)
  moreover have "manageReset (storeByte b u) = usart_idle" by (simp add: manageReset_def usart_idle_def)
  ultimately show "let u = snd (usartEvents (map Arrives ms @ [Polled]) usart_idle)
      in manageDue u \<and> manageCopy u = delivery ms \<and> manageReset (storeByte b u) = usart_idle"
    using receiving_copy [OF u(2)] by (simp add: Let_def delivery_def)
qed

theorem usart_losses_witness:
  "fst (usartEvents (burst [replicate 1024 0x41 @ [0x42]]) usart_idle) = [delivery [0x42]]"
  using usart_losses [of "replicate 1024 0x41 @ [0x42]" "[0x24]" 0] by (simp add: isMessage_def USART_RECEIVE_MAX_def)

end
