(* ===== verification/Dev_Cmd.thy ===== *)
theory Dev_Cmd
  imports Dev_Tod Dev_Flash Dev_Uart
begin

text \<open>
  The commands of the serial ports: \<^verbatim>\<open>cmd_handle_usart5\<close> of \<^verbatim>\<open>USER/CMD_HANDLE/cmd_handle.c\<close>, on the
  state of the device: the PTP stack, the ports and what they have sent, the configuration \<^verbatim>\<open>TS_FDS\<close> and the
  flash it is saved to, the network mask and gateway of the interface (its address belongs to the
  stack's state).
\<close>

subsection \<open>The device\<close>

record ts_IP =
  ui_ip :: UInteger32
  ui_mask :: UInteger32
  ui_gatway :: UInteger32
  us_port :: UInteger16

record ts_FLASH_DATA_SAVE =
  ts_local_ipaddr :: ts_IP
  ts_remote_ipaddr :: ts_IP
  FDS_MODE :: PTP_MODE
  sc_FixOffset :: UInteger32

text \<open>
  \<open>addr_bytes\<close> are the twelve globals \<^verbatim>\<open>netif_ip_addr1\<close> to \<^verbatim>\<open>netif_ip_gw4\<close> in the order of the
  command; \<open>fds_beyond\<close> is what the memory holds behind \<^verbatim>\<open>TS_FDS\<close>; \<open>uninit_date\<close> what the local
  \<^verbatim>\<open>tmpTime\<close> of \<^verbatim>\<open>cmd_handle_usart1\<close> finds on the stack.
\<close>

record Device =
  stack :: clock
  ports :: ports
  sent :: "(EUsart \<times> Octet list) list"
  TS_FDS :: ts_FLASH_DATA_SAVE
  fds_beyond :: "16 word list"
  cells :: flash
  netif_netmask :: UInteger32
  netif_gw :: UInteger32
  addr_bytes :: "Octet list"
  systime :: UInteger32
  uninit_date :: DateTime

definition dev_send :: "EUsart \<Rightarrow> Octet list \<Rightarrow> Device \<Rightarrow> Device" where
  "dev_send com str d = d\<lparr>sent := com_send_str com str (length str) (sent d)\<rparr>"

text \<open>The packed structure in memory, in half words.\<close>

definition half32 :: "UInteger32 \<Rightarrow> 16 word list" where
  "half32 v = [ucast v, ucast (drop_bit 16 v)]"

definition halves_IP :: "ts_IP \<Rightarrow> 16 word list" where
  "halves_IP a = half32 (ui_ip a) @ half32 (ui_mask a) @ half32 (ui_gatway a) @ [us_port a]"

fun modeWord :: "PTP_MODE \<Rightarrow> 16 word" where
  "modeWord emPTPSlave = 0"
| "modeWord emPTPMaster = 1"
| "modeWord emNTPSlave = 2"
| "modeWord emNTPMaster = 3"

definition halves_FDS :: "ts_FLASH_DATA_SAVE \<Rightarrow> 16 word list" where
  "halves_FDS s = halves_IP (ts_local_ipaddr s) @ halves_IP (ts_remote_ipaddr s) @ [modeWord (FDS_MODE s)] @ half32 (sc_FixOffset s)"

text \<open>\<^verbatim>\<open>STMFLASH_Write(FLASH_SAVE_Data, (u16*)&TS_FDS, 20)\<close>\<close>

definition save_FDS :: "(16 word \<Rightarrow> 16 word \<Rightarrow> 16 word) \<Rightarrow> Device \<Rightarrow> Device" where
  "save_FDS prog d = d\<lparr>cells := STMFLASH_Write prog FLASH_SAVE_Data (take 20 (halves_FDS (TS_FDS d) @ fds_beyond d)) 20 (cells d)\<rparr>"

definition set_mode :: "PTP_MODE \<Rightarrow> Device \<Rightarrow> Device" where
  "set_mode m d = d\<lparr>TS_FDS := (TS_FDS d)\<lparr>FDS_MODE := m\<rparr>\<rparr>"

subsection \<open>Text\<close>

text \<open>\<^verbatim>\<open>strstr\<close> on the text up to the first zero; the result is \<^verbatim>\<open>cpos - p\<close>.\<close>

fun findText :: "Octet list \<Rightarrow> Octet list \<Rightarrow> nat option" where
  "findText [] pat = (if pat = [] then Some 0 else None)"
| "findText (c # cs) pat =
    (if take (length pat) (c # cs) = pat then Some 0 else map_option Suc (findText cs pat))"

definition strstr :: "Octet list \<Rightarrow> Octet list \<Rightarrow> nat option" where
  "strstr p pat = findText (takeWhile (\<lambda>c. c \<noteq> 0) p) pat"

definition isSpace :: "Octet \<Rightarrow> bool" where
  "isSpace c \<longleftrightarrow> c \<in> {0x20, 0x09, 0x0A, 0x0B, 0x0C, 0x0D}"

definition atoi :: "Octet list \<Rightarrow> int" where
  "atoi s =
    (case dropWhile isSpace s of
       [] \<Rightarrow> 0
     | c # cs \<Rightarrow>
         if c = MINUS then - decValue (takeWhile isDigit cs)
         else if c = 0x2B then decValue (takeWhile isDigit cs)
         else decValue (takeWhile isDigit (c # cs)))"

text \<open>The conversion \<^verbatim>\<open>%d\<close> of \<^verbatim>\<open>sprintf\<close>, for numbers that are not negative.\<close>

fun decText :: "nat \<Rightarrow> Octet list" where
  "decText n = (if n < 10 then [DIGIT0 + of_nat n] else decText (n div 10) @ [DIGIT0 + of_nat (n mod 10)])"

declare decText.simps [simp del]

abbreviation (input) SLASH :: Octet where "SLASH \<equiv> 0x2F"

text \<open>The separators of the twelve numbers, and the texts of the commands.\<close>

definition setpSeps :: "Octet list" where
  "setpSeps = concat (replicate 3 [COMMA, COMMA, COMMA, SLASH])"

definition E1_Master :: "Octet list" where
  "E1_Master = [0x45, 0x31, 0x20, 0x4D, 0x61, 0x73, 0x74, 0x65, 0x72]"
definition E1_Slave :: "Octet list" where
  "E1_Slave = [0x45, 0x31, 0x20, 0x53, 0x6C, 0x61, 0x76, 0x65]"
definition AT_only :: "Octet list" where
  "AT_only = [0x41, 0x54, 0x0D, 0x0A]"
definition AT_SETP :: "Octet list" where
  "AT_SETP = [0x41, 0x54, 0x2B, 0x53, 0x45, 0x54, 0x50, 0x3D]"
definition AT_E1SHOW :: "Octet list" where
  "AT_E1SHOW = [0x41, 0x54, 0x2B, 0x45, 0x31, 0x53, 0x48, 0x4F, 0x57, 0x3D]"
definition AT_ETBK :: "Octet list" where
  "AT_ETBK = [0x41, 0x54, 0x2B, 0x45, 0x54, 0x42, 0x4B, 0x3D]"

fun addrText :: "Octet list \<Rightarrow> Octet list \<Rightarrow> Octet list" where
  "addrText (a # as) (s # ss) = decText (unat a) @ s # addrText as ss"
| "addrText as ss = []"

text \<open>\<^verbatim>\<open>sprintf(p, "AT+ETBK=%d,...", ...)\<close>\<close>

definition etbkText :: "Octet list \<Rightarrow> Octet list" where
  "etbkText as = AT_ETBK @ addrText as setpSeps @ [0x0D, 0x0A]"

subsection \<open>The twelve numbers\<close>

text \<open>One of the twelve loops: the characters up to the separator, at most four of them.\<close>

function takeField :: "Octet list \<Rightarrow> nat \<Rightarrow> Octet \<Rightarrow> nat \<Rightarrow> Octet list option" where
  "takeField p i sep ip_count =
    (if peek p i = sep then Some []
     else if ip_count + 1 \<ge> 5 then None
     else map_option (Cons (peek p i)) (takeField p (i + 1) sep (ip_count + 1)))"
  by pat_completeness auto
termination by (relation "measure (\<lambda>(p, i, sep, ip_count). 5 - ip_count)") auto

declare takeField.simps [simp del]

text \<open>The numbers go to the globals one by one; the second component is false at the early return.\<close>

fun takeFields :: "Octet list \<Rightarrow> nat \<Rightarrow> Octet list \<Rightarrow> nat \<Rightarrow> Octet list \<Rightarrow> Octet list \<times> bool" where
  "takeFields p i [] k regs = (regs, True)"
| "takeFields p i (sep # seps) k regs =
    (case takeField p i sep 0 of
       None \<Rightarrow> (regs, False)
     | Some buff \<Rightarrow> takeFields p (i + length buff + 1) seps (k + 1) (regs[k := word_of_int (atoi buff)]))"

definition pack4 :: "Octet \<Rightarrow> Octet \<Rightarrow> Octet \<Rightarrow> Octet \<Rightarrow> UInteger32" where
  "pack4 a b c e = push_bit 24 (ucast a) OR push_bit 16 (ucast b) OR push_bit 8 (ucast c) OR ucast e"

definition IP4_ADDR :: "Octet \<Rightarrow> Octet \<Rightarrow> Octet \<Rightarrow> Octet \<Rightarrow> UInteger32" where
  "IP4_ADDR a b c e = htonl (pack4 a b c e)"

text \<open>\<^verbatim>\<open>ip4_addr1\<close> to \<^verbatim>\<open>ip4_addr4\<close>\<close>

definition ip4_addrs :: "UInteger32 \<Rightarrow> Octet list" where
  "ip4_addrs addr =
    [ucast (drop_bit 24 (htonl addr)), ucast (drop_bit 16 (htonl addr)), ucast (drop_bit 8 (htonl addr)), ucast (htonl addr)]"

subsection \<open>The commands\<close>

definition CMD_NONE :: nat where "CMD_NONE = 10"
definition SYSTEM :: nat where "SYSTEM = 2"
definition UDP_CONNET :: nat where "UDP_CONNET = 4"
definition IPSHOW :: nat where "IPSHOW = 5"
definition IP_ERROR :: nat where "IP_ERROR = 6"
definition PTP_SLAVE_BACK :: nat where "PTP_SLAVE_BACK = 11"
definition PTP_MASTER_BACK :: nat where "PTP_MASTER_BACK = 12"

lemmas cmd_codes = CMD_NONE_def SYSTEM_def UDP_CONNET_def IPSHOW_def IP_ERROR_def PTP_SLAVE_BACK_def PTP_MASTER_BACK_def

text \<open>\<^verbatim>\<open>netif_set_addr\<close> sets the three addresses of the interface; there are no TCP connections to abort.\<close>

definition netif_set_addr :: "UInteger32 \<Rightarrow> UInteger32 \<Rightarrow> UInteger32 \<Rightarrow> Device \<Rightarrow> Device" where
  "netif_set_addr ip msk gw d = d\<lparr>stack := (stack d)\<lparr>netif_ip := ip\<rparr>, netif_netmask := msk, netif_gw := gw\<rparr>"

definition setp_apply :: "(16 word \<Rightarrow> 16 word \<Rightarrow> 16 word) \<Rightarrow> Device \<Rightarrow> Device" where
  "setp_apply prog d =
    (let r = addr_bytes d;
         d = dev_send EUsart_5 (etbkText r) d;
         local = (ts_local_ipaddr (TS_FDS d))
           \<lparr>ui_ip := pack4 (r ! 0) (r ! 1) (r ! 2) (r ! 3),
            ui_gatway := pack4 (r ! 8) (r ! 9) (r ! 10) (r ! 11),
            ui_mask := pack4 (r ! 4) (r ! 5) (r ! 6) (r ! 7)\<rparr>;
         d = save_FDS prog (d\<lparr>TS_FDS := (TS_FDS d)\<lparr>ts_local_ipaddr := local\<rparr>\<rparr>)
     in netif_set_addr (IP4_ADDR (r ! 0) (r ! 1) (r ! 2) (r ! 3)) (IP4_ADDR (r ! 4) (r ! 5) (r ! 6) (r ! 7))
          (IP4_ADDR (r ! 8) (r ! 9) (r ! 10) (r ! 11)) d)"

definition shown :: "Device \<Rightarrow> Octet list" where
  "shown d = ip4_addrs (netif_ip (stack d)) @ ip4_addrs (netif_netmask d) @ ip4_addrs (netif_gw d)"

definition cmd_mode :: "(16 word \<Rightarrow> 16 word \<Rightarrow> 16 word) \<Rightarrow> Octet list \<Rightarrow> nat \<times> Device \<Rightarrow> nat \<times> Device" where
  "cmd_mode prog p rd =
    (let (ret, d) = rd;
         (ret, d) =
           (if strstr p E1_Master \<noteq> None
            then
              let d = set_mode emPTPMaster d;
                  d = save_FDS prog d
              in (PTP_MASTER_BACK, d\<lparr>stack := cmd_E1_Master (stack d)\<rparr>)
            else (ret, d))
     in if strstr p E1_Slave \<noteq> None
        then
          let d = set_mode emPTPSlave d;
              d = save_FDS prog d;
              d = dev_send EUsart_2 (takeWhile (\<lambda>c. c \<noteq> 0) p) d
          in (PTP_SLAVE_BACK, d\<lparr>stack := cmd_E1_Slave (stack d)\<rparr>)
        else (ret, d))"

definition cmd_handle_usart5 :: "(16 word \<Rightarrow> 16 word \<Rightarrow> 16 word) \<Rightarrow> Octet list \<Rightarrow> nat \<Rightarrow> Device \<Rightarrow> nat \<times> Device" where
  "cmd_handle_usart5 prog str len d =
    (let p = take 512 str;
         (ret, d) = cmd_mode prog p (CMD_NONE, d);
         ret = (if strstr p AT_only \<noteq> None then SYSTEM else ret)
     in case strstr p AT_SETP of
          Some tmpcnt \<Rightarrow>
            let (regs, ok) = takeFields p (tmpcnt + 8) setpSeps 0 (addr_bytes d);
                d = d\<lparr>addr_bytes := regs\<rparr>
            in if \<not> ok then (IP_ERROR, d)
               else
                 let d = setp_apply prog d;
                     p = etbkText regs
                 in if strstr p AT_E1SHOW \<noteq> None
                    then (IPSHOW, dev_send EUsart_5 (etbkText (shown d)) d)
                    else (UDP_CONNET, d)
        | None \<Rightarrow>
            if strstr p AT_E1SHOW \<noteq> None
            then (IPSHOW, dev_send EUsart_5 (etbkText (shown d)) d)
            else (ret, d))"

subsection \<open>Numbers as text and back\<close>

lemma digit_char:
  assumes "k < 10"
  shows "uint (DIGIT0 + of_nat k :: Octet) = 48 + int k" "isDigit (DIGIT0 + of_nat k)"
proof -
  have k: "k \<in> {0, 1, 2, 3, 4, 5, 6, 7, 8, 9}" using assms by auto
  show "uint (DIGIT0 + of_nat k :: Octet) = 48 + int k" using k by auto
  show "isDigit (DIGIT0 + of_nat k)" using k by (auto simp: isDigit_def)
qed

lemma decValue_snoc: "decValue (cs @ [c]) = 10 * decValue cs + (uint c - 48)"
  by (induction cs) (simp_all add: algebra_simps)

lemma decText_digits: "\<forall>c \<in> set (decText n). isDigit c"
proof (induction n rule: decText.induct)
  case (1 n)
  then show ?case by (cases "n < 10") (simp_all add: decText.simps [of n] digit_char(2))
qed

lemma decText_value: "decValue (decText n) = int n"
proof (induction n rule: decText.induct)
  case (1 n)
  show ?case
  proof (cases "n < 10")
    case True
    then show ?thesis by (simp add: decText.simps [of n] digit_char(1))
  next
    case False
    then have "decValue (decText n) = 10 * int (n div 10) + int (n mod 10)"
      using 1 by (simp add: decText.simps [of n] decValue_snoc digit_char(1))
    then show ?thesis by (simp add: zdiv_int zmod_int)
  qed
qed

lemma decText_length: "n < 1000 \<Longrightarrow> length (decText n) \<le> 3"
  by (simp add: decText.simps [of n] decText.simps [of "n div 10"] decText.simps [of "n div 10 div 10"])

lemma unat_byte_less: "unat (a :: 8 word) < 256"
  using unsigned_less [of a, where ?'a = nat] by simp

lemma decText_nonempty: "decText n \<noteq> []"
  by (simp add: decText.simps [of n])

lemma digit_not_space: "isDigit c \<Longrightarrow> \<not> isSpace c"
proof -
  assume "isDigit c"
  then have "48 \<le> uint c" by (rule digit_props)
  then show "\<not> isSpace c" by (auto simp: isSpace_def)
qed

lemma atoi_digits:
  assumes "\<forall>c \<in> set ds. isDigit c"
  shows "atoi ds = decValue ds"
proof (cases ds)
  case (Cons c cs)
  have c: "isDigit c" using assms Cons by simp
  have "dropWhile isSpace ds = ds" using digit_not_space [OF c] Cons by simp
  moreover have "takeWhile isDigit ds = ds" using assms by (simp add: takeWhile_eq_all_conv)
  moreover have "c \<noteq> MINUS" "c \<noteq> 0x2B" using c digit_props(1) digit_props(8) [OF c] by auto
  ultimately show ?thesis using Cons by (simp add: atoi_def)
qed (simp add: atoi_def)

lemma atoi_decText: "atoi (decText n) = int n"
  by (simp add: atoi_digits decText_digits decText_value)

subsection \<open>Reading the numbers of a command\<close>

lemma peek_drop: "drop i p = c # r \<Longrightarrow> peek p i = c"
  by (metis drop_eq_Nil leI list.distinct(1) nth_via_drop peek_def)

lemma takeField_found:
  "drop i p = cs @ sep # rest \<Longrightarrow> sep \<notin> set cs \<Longrightarrow> n + length cs < 5 \<Longrightarrow> takeField p i sep n = Some cs"
proof (induction cs arbitrary: i n)
  case Nil
  then have "peek p i = sep" by (intro peek_drop) simp
  then show ?case by (simp add: takeField.simps)
next
  case (Cons c cs)
  have "peek p i = c" using Cons.prems(1) by (intro peek_drop) simp
  moreover have "drop (i + 1) p = cs @ sep # rest" using Cons.prems(1) by (metis append_Cons drop_Suc list.sel(3) Suc_eq_plus1 tl_drop)
  ultimately show ?case using Cons by (subst takeField.simps) auto
qed

lemma takeField_long:
  "drop i p = cs @ rest \<Longrightarrow> sep \<notin> set cs \<Longrightarrow> n + length cs = 5 \<Longrightarrow> cs \<noteq> [] \<Longrightarrow> takeField p i sep n = None"
proof (induction cs arbitrary: i n)
  case (Cons c cs)
  have c: "peek p i = c" using Cons.prems(1) by (intro peek_drop) simp
  have d: "drop (i + 1) p = cs @ rest" using Cons.prems(1) by (metis append_Cons drop_Suc list.sel(3) Suc_eq_plus1 tl_drop)
  have "takeField p (i + 1) sep (n + 1) = None" if "cs \<noteq> []"
    using Cons.IH [OF d] Cons.prems that by simp
  then show ?case using Cons.prems by (subst takeField.simps, cases cs) (auto simp: c)
qed simp

definition separator :: "Octet \<Rightarrow> bool" where
  "separator c \<longleftrightarrow> c = COMMA \<or> c = SLASH"

lemma separator_not_digit: "separator s \<Longrightarrow> \<not> isDigit s"
  by (auto simp: separator_def isDigit_def)

lemma takeFields_text:
  assumes "length as = length seps" and "list_all separator seps"
  shows "drop i p = addrText as seps @ rest \<Longrightarrow> k + length as \<le> length regs \<Longrightarrow>
    takeFields p i (seps @ ts) k regs =
      takeFields p (i + length (addrText as seps)) ts (k + length as) (take k regs @ as @ drop (k + length as) regs)"
  using assms
proof (induction as seps arbitrary: i k regs rule: list_induct2)
  case (Cons a as s ss)
  let ?cs = "decText (unat a)"
  have d: "drop i p = ?cs @ s # addrText as ss @ rest" using Cons.prems(1) by simp
  have "s \<notin> set ?cs" using decText_digits [of "unat a"] separator_not_digit Cons.prems(3) by auto
  moreover have "length ?cs \<le> 3" by (intro decText_length) (rule less_trans [OF unat_byte_less], simp)
  ultimately have t: "takeField p i s 0 = Some ?cs" using d by (intro takeField_found) simp_all
  have d': "drop (i + length ?cs + 1) p = addrText as ss @ rest"
  proof -
    have "drop (i + length ?cs + 1) p = drop (length ?cs + 1) (drop i p)" by (simp add: add.commute add.left_commute)
    then show ?thesis by (simp add: d)
  qed
  let ?regs = "regs[k := a]"
  have r: "take (Suc k) ?regs @ as @ drop (Suc k + length as) ?regs = take k regs @ (a # as) @ drop (k + length (a # as)) regs"
    using Cons.prems(2) by (simp add: take_Suc_conv_app_nth)
  have "takeFields p i ((s # ss) @ ts) k regs = takeFields p (i + length ?cs + 1) (ss @ ts) (Suc k) ?regs"
    by (simp add: t atoi_decText)
  also have "\<dots> = takeFields p (i + length ?cs + 1 + length (addrText as ss)) ts (Suc k + length as)
      (take (Suc k) ?regs @ as @ drop (Suc k + length as) ?regs)"
    using Cons.prems(2,3) by (intro Cons.IH [OF d']) simp_all
  also have "\<dots> = takeFields p (i + length (addrText (a # as) (s # ss))) ts (k + length (a # as))
      (take k regs @ (a # as) @ drop (k + length (a # as)) regs)"
    unfolding r by (simp add: add.assoc)
  finally show ?case .
qed simp

subsection \<open>Which commands a text holds\<close>

lemma findText_set: "findText cs pat \<noteq> None \<Longrightarrow> set pat \<subseteq> set cs"
proof (induction cs)
  case (Cons c cs)
  show ?case
  proof (cases "take (length pat) (c # cs) = pat")
    case True
    then show ?thesis by (metis set_take_subset)
  qed (use Cons in \<open>auto split: if_splits\<close>)
qed (simp split: if_splits)

lemma strstr_absent: "x \<in> set pat \<Longrightarrow> x \<notin> set p \<Longrightarrow> strstr p pat = None"
  using findText_set [of "takeWhile (\<lambda>c. c \<noteq> 0) p" pat] set_takeWhileD unfolding strstr_def by fastforce

lemma strstr_front:
  assumes "0 \<notin> set pat" and "pat \<noteq> []"
  shows "strstr (pat @ r) pat = Some 0"
proof -
  have "takeWhile (\<lambda>c. c \<noteq> 0) (pat @ r) = pat @ takeWhile (\<lambda>c. c \<noteq> 0) r"
    using assms(1) by (subst takeWhile_append2) auto
  then show ?thesis using assms(2) by (cases pat) (simp_all add: strstr_def)
qed

lemma addrText_chars: "list_all separator seps \<Longrightarrow> c \<in> set (addrText as seps) \<Longrightarrow> isDigit c \<or> separator c"
proof (induction as seps rule: addrText.induct)
  case (1 a as s ss)
  then show ?case using decText_digits [of "unat a"] by auto
qed simp_all

lemma setpSeps_simps: "list_all separator setpSeps" "length setpSeps = 12"
  by (simp_all add: setpSeps_def separator_def numeral_3_eq_3)

lemma letter_absent:
  assumes "0x3A \<le> c" and "list_all separator seps"
  shows "c \<notin> set (addrText as seps)"
proof
  assume "c \<in> set (addrText as seps)"
  then have "isDigit c \<or> separator c" by (rule addrText_chars [OF assms(2)])
  moreover have "uint (0x3A :: Octet) \<le> uint c" using assms(1) by (simp only: word_le_def)
  then have "58 \<le> uint c" by simp
  ultimately show False using digit_props(9) [of c] by (auto simp: separator_def)
qed

lemma addrText_length: "length (addrText as seps) \<le> 4 * length as"
proof (induction as seps rule: addrText.induct)
  case (1 a as s ss)
  have "length (decText (unat a)) \<le> 3"
    by (intro decText_length) (rule less_trans [OF unat_byte_less], simp)
  then show ?case using 1 by simp
qed simp_all

subsection \<open>Addresses\<close>

lemma ip4_addrs_IP4_ADDR: "ip4_addrs (IP4_ADDR a b c e) = [a, b, c, e]"
proof -
  have n: "\<not> bit x m" if "8 \<le> m" for x :: Octet and m using that word8_le_bits [of x m] by auto
  have "ucast (drop_bit 24 (pack4 a b c e)) = a" "ucast (drop_bit 16 (pack4 a b c e)) = b"
    "ucast (drop_bit 8 (pack4 a b c e)) = c" "ucast (pack4 a b c e) = e"
    unfolding pack4_def by (rule bit_word_eqI; simp add: bit_simps n)+
  then show ?thesis by (simp add: ip4_addrs_def IP4_ADDR_def)
qed

lemma length_12: "length as = 12 \<Longrightarrow> as = [as!0, as!1, as!2, as!3, as!4, as!5, as!6, as!7, as!8, as!9, as!10, as!11]"
  by (rule nth_equalityI) (auto simp: less_Suc_eq numeral_eq_Suc)

text \<open>The saved configuration, in its place in the flash.\<close>

definition savedAs :: "16 word list \<Rightarrow> flash \<Rightarrow> flash" where
  "savedAs hs f = (\<lambda>j. if FLASH_SAVE_Data div 2 \<le> j \<and> j < FLASH_SAVE_Data div 2 + 20 then hs ! (j - FLASH_SAVE_Data div 2) else f j)"

lemma length_halves: "length (halves_FDS s) = 17"
  by (simp add: halves_FDS_def halves_IP_def half32_def)

lemma save_FDS_cells:
  assumes "\<And>x. prog 0xFFFF x = x" and "length (fds_beyond d) = 3"
  shows "save_FDS prog d = d\<lparr>cells := savedAs (halves_FDS (TS_FDS d) @ fds_beyond d) (cells d)\<rparr>"
proof -
  have "STMFLASH_Write prog FLASH_SAVE_Data (halves_FDS (TS_FDS d) @ fds_beyond d) 20 (cells d)
      = savedAs (halves_FDS (TS_FDS d) @ fds_beyond d) (cells d)"
    unfolding savedAs_def
    by (rule STMFLASH_Write_one [where prog = prog, OF assms(1)]) (simp_all add: length_halves assms(2) FLASH_SAVE_Data_def flash_consts)
  moreover have "take 20 (halves_FDS (TS_FDS d) @ fds_beyond d) = halves_FDS (TS_FDS d) @ fds_beyond d"
    using assms(2) by (simp add: length_halves)
  ultimately show ?thesis by (simp add: save_FDS_def)
qed

subsection \<open>Properties\<close>

text \<open>A command text: its tag, the numbers, and more text that is not one of the mode commands.\<close>

definition setpText :: "Octet list \<Rightarrow> Octet list \<Rightarrow> Octet list" where
  "setpText as rest = AT_SETP @ addrText as setpSeps @ rest"

lemma take_command:
  assumes "length as \<le> 12" and "length bs \<le> 5"
  shows "\<exists>m. take 512 (AT_SETP @ addrText as seps @ bs @ rest) = AT_SETP @ addrText as seps @ bs @ take m rest"
  using addrText_length [of as seps] assms
  by (intro exI [of _ "504 - length (addrText as seps) - length bs"]) (simp add: AT_SETP_def take_Cons')

lemma letters:
  assumes "x = 0x4D \<or> x = 0x6C" and "list_all separator seps" and "x \<notin> set rest"
  shows "x \<notin> set (AT_SETP @ addrText as seps @ rest)"
  using assms letter_absent [of x seps as] by (auto simp: AT_SETP_def)

lemma no_mode_command:
  assumes "0x4D \<notin> set p" and "0x6C \<notin> set p"
  shows "cmd_mode prog p rd = rd"
proof -
  have "strstr p E1_Master = None" using assms(1) by (intro strstr_absent [of "0x4D"]) (simp_all add: E1_Master_def)
  moreover have "strstr p E1_Slave = None" using assms(2) by (intro strstr_absent [of "0x6C"]) (simp_all add: E1_Slave_def)
  ultimately show ?thesis by (simp add: cmd_mode_def split: prod.splits)
qed

lemma etbk_no_command: "strstr (etbkText as) AT_E1SHOW = None"
  using letter_absent [of "0x57" setpSeps as] setpSeps_simps
  by (intro strstr_absent [of "0x57"]) (auto simp: AT_E1SHOW_def etbkText_def AT_ETBK_def)

lemma setp_found:
  assumes "length as = 12" and "length regs = 12"
  shows "strstr (setpText as rest) AT_SETP = Some 0" "takeFields (setpText as rest) 8 setpSeps 0 regs = (as, True)"
proof -
  show "strstr (setpText as rest) AT_SETP = Some 0"
    unfolding setpText_def by (rule strstr_front) (simp_all add: AT_SETP_def)
  have "drop 8 (setpText as rest) = addrText as setpSeps @ rest" by (simp add: setpText_def AT_SETP_def)
  from takeFields_text [OF _ setpSeps_simps(1) this, of 0 regs "[]"] show "takeFields (setpText as rest) 8 setpSeps 0 regs = (as, True)"
    using assms by (simp add: setpSeps_simps)
qed

lemma shown_set:
  assumes "length as = 12"
  shows "shown (netif_set_addr (IP4_ADDR (as ! 0) (as ! 1) (as ! 2) (as ! 3)) (IP4_ADDR (as ! 4) (as ! 5) (as ! 6) (as ! 7))
      (IP4_ADDR (as ! 8) (as ! 9) (as ! 10) (as ! 11)) d) = as"
  by (subst (13) length_12 [OF assms]) (simp add: shown_def netif_set_addr_def ip4_addrs_IP4_ADDR)

lemma show_command:
  "cmd_handle_usart5 prog AT_E1SHOW n d = (IPSHOW, dev_send EUsart_5 (etbkText (shown d)) d)"
proof -
  have "strstr AT_E1SHOW AT_SETP = None" by (rule strstr_absent [of "0x50"]) (simp_all add: AT_SETP_def AT_E1SHOW_def)
  moreover have "strstr AT_E1SHOW AT_E1SHOW = Some 0" using strstr_front [of AT_E1SHOW "[]"] by (simp add: AT_E1SHOW_def)
  moreover have "take 512 AT_E1SHOW = AT_E1SHOW" by (simp add: AT_E1SHOW_def)
  moreover have "cmd_mode prog AT_E1SHOW rd = rd" for rd by (rule no_mode_command) (simp_all add: AT_E1SHOW_def)
  ultimately show ?thesis by (simp add: cmd_handle_usart5_def)
qed

lemma setp_command:
  assumes "length as = 12" and "length (addr_bytes d) = 12" and "0x4D \<notin> set rest" and "0x6C \<notin> set rest"
  shows "cmd_handle_usart5 prog (setpText as rest) n d = (UDP_CONNET, setp_apply prog (d\<lparr>addr_bytes := as\<rparr>))"
proof -
  obtain m where p: "take 512 (setpText as rest) = setpText as (take m rest)"
    using take_command [of as "[]" setpSeps rest] assms(1) by (auto simp: setpText_def)
  have "0x4D \<notin> set (take m rest)" "0x6C \<notin> set (take m rest)" using assms(3,4) by (auto dest: in_set_takeD)
  then have "0x4D \<notin> set (setpText as (take m rest))" "0x6C \<notin> set (setpText as (take m rest))"
    unfolding setpText_def using setpSeps_simps by (intro letters; simp)+
  then have "cmd_mode prog (setpText as (take m rest)) rd = rd" for rd by (rule no_mode_command)
  then show ?thesis
    by (simp add: cmd_handle_usart5_def p setp_found [OF assms(1,2)] etbk_no_command)
qed

text \<open>C33: the command that sets the addresses works from the text to the flash: for every twelve octets,
  \<^verbatim>\<open>AT+SETP=a,b,c,d/a,b,c,d/a,b,c,d/\<close> answers with the same numbers, gives the interface that
  address, mask and gateway, stores them in the configuration and saves the configuration in the flash, leaving every
  other cell alone; a following \<^verbatim>\<open>AT+E1SHOW=\<close> prints the same numbers again.\<close>

theorem setp_roundtrip:
  assumes "length as = 12" and "length (addr_bytes d) = 12" and "length (fds_beyond d) = 3"
    and "\<And>x. prog 0xFFFF x = x" and "0x4D \<notin> set rest" and "0x6C \<notin> set rest"
  shows "\<exists>e. cmd_handle_usart5 prog (setpText as rest) n d = (UDP_CONNET, e)
    \<and> sent e = sent d @ [(EUsart_5, etbkText as)]
    \<and> netif_ip (stack e) = IP4_ADDR (as ! 0) (as ! 1) (as ! 2) (as ! 3)
    \<and> ui_ip (ts_local_ipaddr (TS_FDS e)) = pack4 (as ! 0) (as ! 1) (as ! 2) (as ! 3)
    \<and> ui_mask (ts_local_ipaddr (TS_FDS e)) = pack4 (as ! 4) (as ! 5) (as ! 6) (as ! 7)
    \<and> ui_gatway (ts_local_ipaddr (TS_FDS e)) = pack4 (as ! 8) (as ! 9) (as ! 10) (as ! 11)
    \<and> cells e = savedAs (halves_FDS (TS_FDS e) @ fds_beyond d) (cells d)
    \<and> cmd_handle_usart5 prog AT_E1SHOW n e = (IPSHOW, dev_send EUsart_5 (etbkText as) e)"
proof -
  have s: "save_FDS prog x = x\<lparr>cells := savedAs (halves_FDS (TS_FDS x) @ fds_beyond x) (cells x)\<rparr>"
    if "length (fds_beyond x) = 3" for x using assms(4) that by (rule save_FDS_cells)
  have "shown (setp_apply prog (d\<lparr>addr_bytes := as\<rparr>)) = as"
    using shown_set [OF assms(1)] by (simp add: setp_apply_def Let_def dev_send_def)
  then show ?thesis
    unfolding setp_command [OF assms(1,2,5,6)] show_command
    by (intro exI [of _ "setp_apply prog (d\<lparr>addr_bytes := as\<rparr>)"])
      (simp add: setp_apply_def Let_def dev_send_def com_send_str_def netif_set_addr_def s assms(3))
qed

text \<open>a number of more than four characters stops the command: if it is the \<open>n\<close>-th, the numbers before it are in
  the globals, and that is all that has changed: nothing is sent, saved or set, and the
  result is \<^verbatim>\<open>IP_ERROR\<close>.\<close>

theorem setp_rejects:
  assumes "length as < 12" and "length (addr_bytes d) = 12" and "length bad = 5" and "setpSeps ! length as \<notin> set bad"
    and "0x4D \<notin> set (bad @ rest)" and "0x6C \<notin> set (bad @ rest)"
  shows "cmd_handle_usart5 prog (AT_SETP @ addrText as (take (length as) setpSeps) @ bad @ rest) n d
    = (IP_ERROR, d\<lparr>addr_bytes := as @ drop (length as) (addr_bytes d)\<rparr>)"
proof -
  let ?seps = "take (length as) setpSeps" and ?ts = "drop (length as) setpSeps"
  let ?t = "\<lambda>rest. AT_SETP @ addrText as ?seps @ bad @ rest"
  have seps: "list_all separator ?seps" using setpSeps_simps(1) by (auto simp: list_all_iff dest: in_set_takeD)
  obtain m where p: "take 512 (?t rest) = ?t (take m rest)"
    using take_command [of as bad ?seps rest] assms(1,3) by auto
  have "0x4D \<notin> set (bad @ take m rest)" "0x6C \<notin> set (bad @ take m rest)" using assms(5,6) by (auto dest: in_set_takeD)
  then have "0x4D \<notin> set (?t (take m rest))" "0x6C \<notin> set (?t (take m rest))" using seps by (intro letters; simp)+
  then have md: "cmd_mode prog (?t (take m rest)) rd = rd" for rd by (rule no_mode_command)
  have st: "strstr (?t (take m rest)) AT_SETP = Some 0" by (rule strstr_front) (simp_all add: AT_SETP_def)
  have d: "drop 8 (?t (take m rest)) = addrText as ?seps @ bad @ take m rest" by (simp add: AT_SETP_def)
  have l: "length as = length ?seps" using assms(1) by (simp add: setpSeps_simps)
  have la: "length AT_SETP = 8" by (simp add: AT_SETP_def)
  have "drop (8 + length (addrText as ?seps)) (?t (take m rest)) = bad @ take m rest"
    by (simp add: la)
  then have f: "takeField (?t (take m rest)) (8 + length (addrText as ?seps)) (setpSeps ! length as) 0 = None"
    using assms(3,4) by (intro takeField_long) auto
  have ts: "?ts = setpSeps ! length as # drop (Suc (length as)) setpSeps"
    using assms(1) by (simp add: setpSeps_simps Cons_nth_drop_Suc)
  have "takeFields (?t (take m rest)) 8 (?seps @ ?ts) 0 (addr_bytes d)
      = takeFields (?t (take m rest)) (8 + length (addrText as ?seps)) ?ts (length as) (as @ drop (length as) (addr_bytes d))"
    using takeFields_text [OF l seps d, of 0 "addr_bytes d" ?ts] assms(1,2) by simp
  also have "\<dots> = (as @ drop (length as) (addr_bytes d), False)" unfolding ts takeFields.simps f by simp
  finally have "takeFields (?t (take m rest)) 8 setpSeps 0 (addr_bytes d) = (as @ drop (length as) (addr_bytes d), False)"
    by simp
  then show ?thesis unfolding cmd_handle_usart5_def p Let_def md by (simp add: st)
qed

text \<open>A device as it is switched on, with the flash erased.\<close>

definition sample_IP :: ts_IP where
  "sample_IP = \<lparr>ui_ip = 0, ui_mask = 0, ui_gatway = 0, us_port = 0\<rparr>"

definition sample_device :: Device where
  "sample_device = \<lparr>stack = power_up (\<lambda>_. 0) (\<lambda>_. 0) (\<lambda>_. tx_good), ports = (\<lambda>_. usart_idle), sent = [],
     TS_FDS = \<lparr>ts_local_ipaddr = sample_IP, ts_remote_ipaddr = sample_IP, FDS_MODE = emPTPSlave, sc_FixOffset = 0\<rparr>,
     fds_beyond = [0, 0, 0], cells = (\<lambda>_. 0xFFFF), netif_netmask = 0, netif_gw = 0, addr_bytes = replicate 12 0,
     systime = 0, uninit_date = epoch_date\<rparr>"

definition sample_addrs :: "Octet list" where
  "sample_addrs = [192, 168, 1, 10, 255, 255, 255, 0, 192, 168, 1, 1]"

theorem setp_roundtrip_witness:
  "\<exists>e. cmd_handle_usart5 (\<lambda>old new. new) (setpText sample_addrs [0x0D, 0x0A]) 0 sample_device = (UDP_CONNET, e)
    \<and> netif_ip (stack e) = IP4_ADDR 192 168 1 10"
  using setp_roundtrip [of sample_addrs sample_device "\<lambda>old new. new" "[0x0D, 0x0A]" 0]
  by (auto simp: sample_addrs_def sample_device_def)

end
