(* ===== verification/Dev_Task.thy ===== *)
theory Dev_Task
  imports Dev_Cmd
begin

text \<open>
  The main program: \<^verbatim>\<open>Main/task.c\<close> (the scheduler, its callbacks and the reports on the serial
  ports), the receive callbacks of \<^verbatim>\<open>Main/init.c\<close>, the second interrupt \<^verbatim>\<open>TIM3_IRQHandler\<close> of
  \<^verbatim>\<open>USER/LWIP_APP/timer.c\<close>, the checksum \<^verbatim>\<open>fe5650a_cs_calc\<close> of \<^verbatim>\<open>USER/tracking/Rubidium.c\<close> and the lwIP
  timers of \<^verbatim>\<open>USER/LWIP_APP/netconf.c\<close>.  \<open>None\<close> is a turn of the main loop that does not end.
\<close>

subsection \<open>Receiving on the serial ports\<close>

definition IP_ERROR_text :: "Octet list" where
  "IP_ERROR_text = [0x49, 0x50, 0x41, 0x64, 0x64, 0x72, 0x20, 0x45, 0x52, 0x52, 0x4F, 0x52, 0x0D, 0x0A]"

definition uart1_call_back :: "Octet list \<Rightarrow> nat \<Rightarrow> Device \<Rightarrow> Device" where
  "uart1_call_back str len d =
    (let d = d\<lparr>sent := com_send_str EUsart_2 str len (sent d)\<rparr>
     in d\<lparr>systime := cmd_handle_usart1 (FDS_MODE (TS_FDS d)) (uninit_date d) str len (stack d) (systime d)\<rparr>)"

definition uart2_call_back :: "(16 word \<Rightarrow> 16 word \<Rightarrow> 16 word) \<Rightarrow> Octet list \<Rightarrow> nat \<Rightarrow> Device \<Rightarrow> Device" where
  "uart2_call_back prog str len d =
    (let (_, d) = cmd_handle_usart5 prog str len d
     in d\<lparr>sent := com_send_str EUsart_5 str len (sent d)\<rparr>)"

definition uart5_call_back :: "(16 word \<Rightarrow> 16 word \<Rightarrow> 16 word) \<Rightarrow> Octet list \<Rightarrow> nat \<Rightarrow> Device \<Rightarrow> Device" where
  "uart5_call_back prog str len d =
    (let (ret, d) = cmd_handle_usart5 prog str len d
     in if ret = IP_ERROR then dev_send EUsart_5 IP_ERROR_text d else d)"

definition pollPort :: "EUsart \<Rightarrow> (Octet list \<Rightarrow> nat \<Rightarrow> Device \<Rightarrow> Device) \<Rightarrow> Device \<Rightarrow> Device" where
  "pollPort com func d =
    (let (r, S) = receive_str_manage com (ports d);
         d = d\<lparr>ports := S\<rparr>
     in case r of None \<Rightarrow> d | Some (buff, len) \<Rightarrow> func buff (unat len) d)"

definition USART_CallBack :: "(16 word \<Rightarrow> 16 word \<Rightarrow> 16 word) \<Rightarrow> Device \<Rightarrow> Device" where
  "USART_CallBack prog d =
    pollPort EUsart_2 (uart2_call_back prog) (pollPort EUsart_5 (uart5_call_back prog) (pollPort EUsart_1 uart1_call_back d))"

subsection \<open>The firmware\<close>

datatype Callback = RunStateLock | USART | KEY | ADJ | LED | UDBG | DS1302

text \<open>The periods of the table \<^verbatim>\<open>List\<close>, in its order.\<close>

definition taskList :: "(UInteger32 \<times> Callback) list" where
  "taskList = [(1000, RunStateLock), (20, USART), (4000, KEY), (1000, ADJ), (500, LED), (2000, UDBG), (60000, DS1302)]"

text \<open>
  \<open>Count\<close> are the times of the last calls; \<open>fed\<close> counts the feedings of the watchdog, and
  \<open>etharp_tmrs\<close> and \<open>tcp_tmrs\<close> the calls of the two lwIP timers, which are not modelled further.
\<close>

record Firmware =
  dev :: Device
  LocalTime :: UInteger32
  Count :: "UInteger32 list"
  g_SYSTIME :: TimeInternal
  g_PTPTIME :: TimeInternal
  g_OFFSET :: TimeInternal
  fed :: nat
  ARPTimer :: UInteger32
  TCPTimer :: UInteger32
  etharp_tmrs :: nat
  tcp_tmrs :: nat

definition on_dev :: "(Device \<Rightarrow> Device) \<Rightarrow> Firmware \<Rightarrow> Firmware" where
  "on_dev f w = w\<lparr>dev := f (dev w)\<rparr>"

definition on_stack :: "(clock \<Rightarrow> clock) \<Rightarrow> Firmware \<Rightarrow> Firmware" where
  "on_stack f = on_dev (\<lambda>d. d\<lparr>stack := f (stack d)\<rparr>)"

abbreviation mode :: "Firmware \<Rightarrow> PTP_MODE" where "mode w \<equiv> FDS_MODE (TS_FDS (dev w))"

subsection \<open>Interrupts\<close>

definition Time_Update :: "Firmware \<Rightarrow> Firmware" where
  "Time_Update w = w\<lparr>LocalTime := LocalTime w + 1\<rparr>"

definition TIM3_IRQHandler :: "Firmware \<Rightarrow> Firmware" where
  "TIM3_IRQHandler w =
    (let w = on_dev (\<lambda>d. d\<lparr>systime := systime d + 1\<rparr>) w
     in if mode w = emPTPMaster \<or> mode w = emNTPMaster
        then
          let (t, c) = getTime (stack (dev w))
          in (on_stack (\<lambda>_. c) w)\<lparr>g_PTPTIME := t, g_SYSTIME := \<lparr>seconds = i32 (uint (systime (dev w))), nanoseconds = 0\<rparr>\<rparr>
        else w)"

subsection \<open>The report of the date\<close>

text \<open>\<^verbatim>\<open>%0nd\<close> and \<^verbatim>\<open>%d\<close>\<close>

definition padText :: "nat \<Rightarrow> nat \<Rightarrow> Octet list" where
  "padText w n = replicate (w - length (decText n)) DIGIT0 @ decText n"

definition intText :: "int \<Rightarrow> Octet list" where
  "intText i = (if i < 0 then MINUS # decText (nat (- i)) else decText (nat i))"

definition etodText :: "nat \<Rightarrow> nat list \<Rightarrow> PTP_MODE \<Rightarrow> Octet list" where
  "etodText y nums m = [0x24, 0x45, 0x54, 0x4F, 0x44, COMMA] @ padText 4 y @ concat (map (\<lambda>f. COMMA # padText 2 f) nums)
    @ COMMA # padText 1 (unat (modeWord m)) @ [STAR, 0x0A]"

definition ptp_tod_msg_pack :: "Firmware \<Rightarrow> Firmware option" where
  "ptp_tod_msg_pack w =
    (if mode w = emPTPMaster
     then map_option (\<lambda>_. on_dev (dev_send EUsart_5 (etodText 0 [0, 0, 0, 0, 0] emPTPMaster)) w)
            (SecToTime (systime (dev w)) UTC)
     else if mode w = emPTPSlave
     then
       let (hi, c) = hw_read (stack (dev w));
           w = on_stack (\<lambda>_. c) w
       in map_option (\<lambda>t. on_dev (dev_send EUsart_5
              (etodText (unat (year t)) [unat (month t), unat (day t), unat (hour t), unat (minute t), unat (second t)] emPTPSlave)) w)
            (SecToTime hi UTC)
     else Some (on_dev (dev_send EUsart_5 []) w))"

subsection \<open>The report of the monitor\<close>

definition fe5650a_cs_calc :: "Octet list \<Rightarrow> nat \<Rightarrow> Octet" where
  "fe5650a_cs_calc pDat len = fold (\<lambda>b x. x XOR b) (take len pDat) 0"

definition EONE :: "Octet list" where "EONE = [0x24, 0x45, 0x4F, 0x4E, 0x45]"

definition monBytes :: "ptp_control \<Rightarrow> Octet list" where
  "monBytes m = le32 (ipaddr m) @ le32 (word_of_int (seconds (Offset m))) @ le32 (word_of_int (nanoseconds (Offset m))) @ le32 (Time m)"

fun putMonitor :: "nat \<Rightarrow> ptp_control list \<Rightarrow> Octet list \<Rightarrow> Octet list" where
  "putMonitor i [] buff = buff"
| "putMonitor i (m # ms) buff = putMonitor (i + 1) ms (put_bytes buff (i * 16 + 4) (monBytes m))"

definition monitorFrame :: "ptp_control list \<Rightarrow> Octet list" where
  "monitorFrame ms =
    (let buff = put_bytes (replicate 262 0) 0 (take 4 EONE);
         buff = putMonitor 0 (take ptpMonitorlConstant ms) buff
     in buff[261 := fe5650a_cs_calc buff 261])"

definition ptp_msg_hanlde_packed :: "Device \<Rightarrow> Device" where
  "ptp_msg_hanlde_packed d = dev_send EUsart_5 (monitorFrame (ptpMonitorl (stack d))) d"

subsection \<open>The callbacks\<close>

definition KEY_CallBack :: "Firmware \<Rightarrow> Firmware" where
  "KEY_CallBack w = (if mode w = emPTPMaster then on_dev ptp_msg_hanlde_packed w else w)"

definition ADJ_CallBack :: "Firmware \<Rightarrow> Firmware" where
  "ADJ_CallBack w =
    (if (portState (portDS (stack (dev w))) = PTP_MASTER \<and> mode w = emPTPMaster) \<or> mode w = emNTPMaster
     then
       let g = subTime (g_PTPTIME w) (g_SYSTIME w);
           g = (if \<bar>nanoseconds g\<bar> > 900000000 \<and> seconds g = 0 then g\<lparr>nanoseconds := nanoseconds g - 1000000000\<rparr> else g);
           g = subTime g \<lparr>seconds = 0, nanoseconds = 640\<rparr>
       in on_stack (\<lambda>c. updateClock (c\<lparr>currentDS := (currentDS c)\<lparr>offsetFromMaster := g\<rparr>\<rparr>)) (w\<lparr>g_OFFSET := g\<rparr>)
     else w)"

definition LED_CallBack :: "Firmware \<Rightarrow> Firmware" where
  "LED_CallBack w =
    (let (t, c) = getTime (stack (dev w));
         w = (on_stack (\<lambda>_. c) w)\<lparr>fed := fed w + 1\<rparr>
     in on_dev (dev_send EUsart_2 (intText (seconds t) @ [COMMA, 0x20] @ intText (nanoseconds t) @ [0x0D, 0x0A])) w)"

fun callback :: "(16 word \<Rightarrow> 16 word \<Rightarrow> 16 word) \<Rightarrow> Callback \<Rightarrow> Firmware \<Rightarrow> Firmware option" where
  "callback prog RunStateLock w = ptp_tod_msg_pack w"
| "callback prog USART w = Some (on_dev (USART_CallBack prog) w)"
| "callback prog KEY w = Some (KEY_CallBack w)"
| "callback prog ADJ w = Some (ADJ_CallBack w)"
| "callback prog LED w = Some (LED_CallBack w)"
| "callback prog UDBG w = Some w"
| "callback prog DS1302 w = Some w"

subsection \<open>The scheduler and the main loop\<close>

fun pollTasks :: "(16 word \<Rightarrow> 16 word \<Rightarrow> 16 word) \<Rightarrow> UInteger32 \<Rightarrow> nat \<Rightarrow> (UInteger32 \<times> Callback) list \<Rightarrow> Firmware \<Rightarrow> Firmware option" where
  "pollTasks prog time i [] w = Some w"
| "pollTasks prog time i ((period, cb) # ts) w =
    (if time - Count w ! i \<ge> period
     then
       case callback prog cb (w\<lparr>Count := (Count w)[i := time]\<rparr>) of
         None \<Rightarrow> None
       | Some w \<Rightarrow> pollTasks prog time (i + 1) ts w
     else pollTasks prog time (i + 1) ts w)"

definition Task_Poll :: "(16 word \<Rightarrow> 16 word \<Rightarrow> 16 word) \<Rightarrow> UInteger32 \<Rightarrow> Firmware \<Rightarrow> Firmware option" where
  "Task_Poll prog time w = pollTasks prog time 0 taskList w"

definition LwIP_Periodic_Handle :: "UInteger32 \<Rightarrow> Firmware \<Rightarrow> Firmware" where
  "LwIP_Periodic_Handle localtime w =
    (let w = (if localtime - TCPTimer w \<ge> 250 then w\<lparr>TCPTimer := localtime, tcp_tmrs := tcp_tmrs w + 1\<rparr> else w)
     in if localtime - ARPTimer w \<ge> 5000 then w\<lparr>ARPTimer := localtime, etharp_tmrs := etharp_tmrs w + 1\<rparr> else w)"

definition run_task_turn :: "(16 word \<Rightarrow> 16 word \<Rightarrow> 16 word) \<Rightarrow> Firmware \<Rightarrow> Firmware option" where
  "run_task_turn prog w =
    (case Task_Poll prog (LocalTime w) w of
       None \<Rightarrow> None
     | Some w \<Rightarrow>
         let w = LwIP_Periodic_Handle (LocalTime w) w
         in map_option (\<lambda>c. on_stack (\<lambda>_. c) w) (ptpd_Periodic_Handle (LocalTime w) (stack (dev w))))"

subsection \<open>When the callbacks run\<close>

lemma Count_stack [simp]: "Count (on_stack f w) = Count w" "fed (on_stack f w) = fed w" "LocalTime (on_stack f w) = LocalTime w"
  by (simp_all add: on_stack_def on_dev_def)

lemma Count_dev [simp]: "Count (on_dev f w) = Count w" "fed (on_dev f w) = fed w" "LocalTime (on_dev f w) = LocalTime w"
  by (simp_all add: on_dev_def)

definition keeps :: "nat \<Rightarrow> Firmware \<Rightarrow> Firmware \<Rightarrow> bool" where
  "keeps k w w' \<longleftrightarrow> Count w' = Count w \<and> LocalTime w' = LocalTime w \<and> fed w' = fed w + k"

lemma keeps_dev: "keeps 0 w (on_dev f w)" "keeps 0 w (on_dev f (on_stack g w))"
  by (simp_all add: keeps_def)

lemma keeps_tod: "ptp_tod_msg_pack w = Some w' \<Longrightarrow> keeps 0 w w'"
  unfolding ptp_tod_msg_pack_def Let_def split_beta
  by (auto simp only: map_option_eq_Some option.inject keeps_dev split: if_splits)

lemma keeps_ADJ: "keeps 0 w (ADJ_CallBack w)"
  by (simp add: ADJ_CallBack_def Let_def keeps_def)

lemma keeps_LED: "keeps 1 w (LED_CallBack w)"
  by (simp add: LED_CallBack_def Let_def keeps_def split_beta)

lemma callback_keeps: "callback prog cb w = Some w' \<Longrightarrow> keeps (if cb = LED then 1 else 0) w w'"
  using keeps_tod keeps_ADJ [of w] keeps_LED [of w] keeps_dev
  by (cases cb) (auto simp: KEY_CallBack_def keeps_def split: if_splits)

text \<open>A task is due when its period has gone since its last call, modulo \<open>2\<^sup>3\<^sup>2\<close>.\<close>

abbreviation due :: "UInteger32 \<Rightarrow> UInteger32 \<Rightarrow> UInteger32 \<Rightarrow> bool" where
  "due time called period \<equiv> time - called \<ge> period"

lemma pollTasks_Count:
  "pollTasks prog t i ts w = Some w' \<Longrightarrow> i + length ts = length (Count w) \<Longrightarrow>
    Count w' = take i (Count w) @ map2 (\<lambda>c (p, _). if due t c p then t else c) (drop i (Count w)) ts
    \<and> fed w' = fed w + length (filter (\<lambda>(c, p, cb). cb = LED \<and> due t c p) (zip (drop i (Count w)) ts))
    \<and> LocalTime w' = LocalTime w"
proof (induction prog t i ts w rule: pollTasks.induct)
  case (2 prog t i p cb ts w)
  have i: "i < length (Count w)" using 2(4) by simp
  have d: "drop i (Count w) = Count w ! i # drop (Suc i) (Count w)" using i by (simp add: Cons_nth_drop_Suc)
  show ?case
  proof (cases "due t (Count w ! i) p")
    case True
    then obtain v where v: "callback prog cb (w\<lparr>Count := (Count w)[i := t]\<rparr>) = Some v" "pollTasks prog t (i + 1) ts v = Some w'"
      using 2(3) by (auto split: option.splits)
    note k = callback_keeps [OF v(1), unfolded keeps_def]
    show ?thesis
      using 2(1) [OF True v(1,2)] k 2(4) True i by (simp add: d take_Suc_conv_app_nth)
  next
    case False
    then show ?thesis using 2(2) [OF False] 2(3,4) i by (simp add: d take_Suc_conv_app_nth)
  qed
qed simp

lemma unat_of_nat_diff:
  assumes "a \<le> t" and "t < a + 4294967296"
  shows "unat (of_nat t - of_nat a :: 32 word) = t - a"
proof -
  have e: "(of_nat t - of_nat a :: 32 word) = of_nat (t - a)" using assms(1) by (simp add: of_nat_diff)
  show ?thesis unfolding e unat_of_nat by (rule mod_less) (use assms in simp)
qed

lemma due_of_nat:
  assumes "a \<le> t" and "t < a + 4294967296"
  shows "due (of_nat t) (of_nat a) p \<longleftrightarrow> a + unat p \<le> t"
  using assms by (auto simp: word_le_nat_alt unat_of_nat_diff)

text \<open>What a turn does to the feeding of the watchdog, the fifth task.\<close>

lemma taskList_fifth: "length taskList = 7" "taskList ! 4 = (500, LED)"
  by (simp_all add: taskList_def)

lemma length_7: "length xs = 7 \<Longrightarrow> xs = [xs!0, xs!1, xs!2, xs!3, xs!4, xs!5, xs!6]"
  by (rule nth_equalityI) (auto simp: less_Suc_eq numeral_eq_Suc)

lemma LwIP_keeps: "Count (LwIP_Periodic_Handle t w) = Count w" "fed (LwIP_Periodic_Handle t w) = fed w"
  "dev (LwIP_Periodic_Handle t w) = dev w" "LocalTime (LwIP_Periodic_Handle t w) = LocalTime w"
  by (simp_all add: LwIP_Periodic_Handle_def Let_def)

lemma turn_feeds:
  assumes "run_task_turn prog w = Some w'" and "length (Count w) = 7"
  shows "length (Count w') = 7 \<and> Count w' ! 0 = (if due (LocalTime w) (Count w ! 0) 1000 then LocalTime w else Count w ! 0)
    \<and> Count w' ! 4 = (if due (LocalTime w) (Count w ! 4) 500 then LocalTime w else Count w ! 4)
    \<and> fed w' = fed w + (if due (LocalTime w) (Count w ! 4) 500 then 1 else 0)"
proof -
  obtain v where v: "Task_Poll prog (LocalTime w) w = Some v" "Count w' = Count v" "fed w' = fed v"
    using assms(1) by (auto simp: run_task_turn_def Let_def LwIP_keeps split: option.splits)
  obtain c0 c1 c2 c3 c4 c5 c6 where c: "Count w = [c0, c1, c2, c3, c4, c5, c6]"
    using length_7 [OF assms(2)] by blast
  have "Count v = map2 (\<lambda>c (p, _). if due (LocalTime w) c p then LocalTime w else c) (Count w) taskList
    \<and> fed v = fed w + length (filter (\<lambda>(c, p, cb). cb = LED \<and> due (LocalTime w) c p) (zip (Count w) taskList))"
    using pollTasks_Count [OF v(1) [unfolded Task_Poll_def]] assms(2) by (simp add: taskList_fifth)
  then show ?thesis unfolding v(2,3) by (simp add: c taskList_def)
qed

text \<open>The times, in milliseconds, of the turns that feed the watchdog, when turns happen at the times \<open>ts\<close>.\<close>

fun feedings :: "(16 word \<Rightarrow> 16 word \<Rightarrow> 16 word) \<Rightarrow> nat list \<Rightarrow> Firmware \<Rightarrow> nat list option" where
  "feedings prog [] w = Some []"
| "feedings prog (t # ts) w =
    (case run_task_turn prog (w\<lparr>LocalTime := of_nat t\<rparr>) of
       None \<Rightarrow> None
     | Some w' \<Rightarrow> map_option (\<lambda>fs. if fed w' > fed w then t # fs else fs) (feedings prog ts w'))"

lemma feedings_spaced:
  assumes "feedings prog ts w = Some fds" and "length (Count w) = 7" and "Count w ! 4 = of_nat a"
    and "a \<le> q" and "q < a + 500" and "successively (\<lambda>x y. x \<le> y \<and> y \<le> x + \<delta>) (q # ts)" and "\<delta> < 4294966000"
  shows "successively (\<lambda>x y. x + 500 \<le> y \<and> y < x + 500 + \<delta>) (a # fds) \<and> last (q # ts) < last (a # fds) + 500"
  using assms
proof (induction ts arbitrary: w a q fds)
  case (Cons t ts)
  obtain w' gs where w': "run_task_turn prog (w\<lparr>LocalTime := of_nat t\<rparr>) = Some w'" "feedings prog ts w' = Some gs"
    "fds = (if fed w' > fed w then t # gs else gs)"
    using Cons.prems(1) by (auto split: option.splits)
  have t: "q \<le> t" "t \<le> q + \<delta>" "successively (\<lambda>x y. x \<le> y \<and> y \<le> x + \<delta>) (t # ts)" using Cons.prems(6) by simp_all
  have d: "due (of_nat t) (of_nat a) 500 \<longleftrightarrow> a + 500 \<le> t"
    using due_of_nat [of a t 500] t Cons.prems(4,5,7) by simp
  have f: "length (Count w') = 7" "Count w' ! 4 = of_nat (if a + 500 \<le> t then t else a)"
    "fed w' = fed w + (if a + 500 \<le> t then 1 else 0)"
    using turn_feeds [OF w'(1)] Cons.prems(2,3) d by auto
  show ?case
  proof (cases "a + 500 \<le> t")
    case True
    have "successively (\<lambda>x y. x + 500 \<le> y \<and> y < x + 500 + \<delta>) (t # gs) \<and> last (t # ts) < last (t # gs) + 500"
      using Cons.IH [OF w'(2) f(1), of t t] f(2) t(3) True Cons.prems(7) by simp
    then show ?thesis using True f(3) w'(3) t(2) Cons.prems(5) by simp
  next
    case False
    have "successively (\<lambda>x y. x + 500 \<le> y \<and> y < x + 500 + \<delta>) (a # gs) \<and> last (t # ts) < last (a # gs) + 500"
      using Cons.IH [OF w'(2) f(1), of a t] f(2) t Cons.prems(4,7) False by simp
    then show ?thesis using False f(3) w'(3) by simp
  qed
qed simp

subsection \<open>The monitor frame\<close>

lemma length_monBytes [simp]: "length (monBytes m) = 16"
  by (simp add: monBytes_def le32_def)

lemma length_putMonitor [simp]: "length (putMonitor i ms buff) = length buff"
  by (induction i ms buff rule: putMonitor.induct) simp_all

lemma putMonitor_slot:
  "j < length ms \<Longrightarrow> (i + length ms) * 16 + 4 \<le> length buff \<Longrightarrow>
    get_bytes (putMonitor i ms buff) ((i + j) * 16 + 4) 16 = monBytes (ms ! j)"
  and putMonitor_front:
  "k < i * 16 + 4 \<Longrightarrow> (i + length ms) * 16 + 4 \<le> length buff \<Longrightarrow> putMonitor i ms buff ! k = buff ! k"
proof (induction i ms buff arbitrary: j k rule: putMonitor.induct)
  case (2 i m ms buff)
  {
    case 1
    let ?b = "put_bytes buff (i * 16 + 4) (monBytes m)"
    have l: "(i + 1 + length ms) * 16 + 4 \<le> length ?b" using 1(2) by simp
    show ?case
    proof (cases j)
      case 0
      have "get_bytes (putMonitor (i + 1) ms ?b) (i * 16 + 4) 16 = get_bytes ?b (i * 16 + 4) 16"
        unfolding get_bytes_def using 2(2) [OF _ l] by simp
      then show ?thesis using 0 l by (simp add: get_bytes_put_same)
    next
      case (Suc j')
      then show ?thesis using 2(1) [OF _ l, of j'] 1(1) by simp
    qed
  next
    case 2
    then show ?case using "2.IH"(2) [of j] by (simp add: nth_put_bytes)
  }
qed simp_all

lemma fold_xor_snoc: "fold (\<lambda>b x. x XOR b) (xs @ [c]) (a :: Octet) = fold (\<lambda>b x. x XOR b) xs a XOR c"
  by simp

lemma take_get_bytes: "n \<le> length b \<Longrightarrow> take n b = get_bytes b 0 n"
  by (rule nth_equalityI) (simp_all add: get_bytes_def)

text \<open>C34: the frame that reports the monitored slaves: it has 262 octets and begins with \<open>$EON\<close>, the four
  bytes of its tag that are copied; entry \<open>i\<close> of the table stands at \<open>4 + 16 * i\<close> and is read back
  from there, address, offset and time, as little-endian words; and the checksum makes the exclusive or of the whole frame
  zero.\<close>

theorem monitor_frame:
  assumes "length ms = ptpMonitorlConstant"
  shows "length (monitorFrame ms) = 262 \<and> take 4 (monitorFrame ms) = take 4 EONE
    \<and> (\<forall>i < ptpMonitorlConstant. get32 (monitorFrame ms) (4 + 16 * i) = ipaddr (ms ! i)
        \<and> get32 (monitorFrame ms) (8 + 16 * i) = word_of_int (seconds (Offset (ms ! i)))
        \<and> get32 (monitorFrame ms) (12 + 16 * i) = word_of_int (nanoseconds (Offset (ms ! i)))
        \<and> get32 (monitorFrame ms) (16 + 16 * i) = Time (ms ! i))
    \<and> fe5650a_cs_calc (monitorFrame ms) 262 = 0"
proof -
  let ?t = "put_bytes (replicate 262 0) 0 (take 4 EONE)"
  let ?b = "putMonitor 0 ms ?t"
  define cs where "cs = fe5650a_cs_calc ?b 261"
  have m: "length ms = 16" using assms by (simp add: ptpMonitorlConstant_def)
  have f: "monitorFrame ms = ?b[261 := cs]" using assms by (simp add: monitorFrame_def Let_def cs_def)
  have l: "length (monitorFrame ms) = 262" "length ?b = 262" by (simp_all add: f)
  have slot: "monitorFrame ms ! (16 * i + 4 + k) = monBytes (ms ! i) ! k" if "i < 16" "k < 16" for i k
  proof -
    have "get_bytes ?b (16 * i + 4) 16 = monBytes (ms ! i)"
      using putMonitor_slot [of i ms 0 ?t] that(1) m by (simp add: mult.commute)
    from arg_cong [OF this, of "\<lambda>l. l ! k"] that show ?thesis by (simp add: f get_bytes_def)
  qed
  have word: "get32 (monitorFrame ms) (16 * i + 4 + k) = un_le32 (take 4 (drop k (monBytes (ms ! i))))"
    if "i < 16" "k \<le> 12" for i k
  proof -
    have "get_bytes (monitorFrame ms) (16 * i + 4 + k) 4 = take 4 (drop k (monBytes (ms ! i)))"
      using that slot [OF that(1)] by (intro nth_equalityI) (simp_all add: get_bytes_def add.assoc)
    then show ?thesis by (simp add: get32_def)
  qed
  have "get32 (monitorFrame ms) (4 + 16 * i) = ipaddr (ms ! i)
      \<and> get32 (monitorFrame ms) (8 + 16 * i) = word_of_int (seconds (Offset (ms ! i)))
      \<and> get32 (monitorFrame ms) (12 + 16 * i) = word_of_int (nanoseconds (Offset (ms ! i)))
      \<and> get32 (monitorFrame ms) (16 + 16 * i) = Time (ms ! i)" if "i < 16" for i
    using word [OF that, of 0] word [OF that, of 4] word [OF that, of 8] word [OF that, of 12]
    by (simp add: monBytes_def add.commute)
  moreover have "take 4 (monitorFrame ms) = take 4 EONE"
  proof -
    have "get_bytes (monitorFrame ms) 0 4 = get_bytes ?t 0 4"
      using putMonitor_front [of _ 0 ms ?t] m by (simp add: get_bytes_def f)
    also have "\<dots> = take 4 EONE" by (simp add: get_bytes_put_same EONE_def)
    finally show ?thesis by (simp add: take_get_bytes l(1))
  qed
  moreover have "fe5650a_cs_calc (monitorFrame ms) 262 = 0"
  proof -
    have t: "take 262 (monitorFrame ms) = take 261 ?b @ [cs]"
      using l upd_conv_take_nth_drop [of 261 ?b cs] by (simp add: f)
    show ?thesis unfolding fe5650a_cs_calc_def t fold_xor_snoc by (simp add: cs_def fe5650a_cs_calc_def)
  qed
  ultimately show ?thesis using l(1) by (simp add: ptpMonitorlConstant_def)
qed

definition sample_monitor :: "ptp_control list" where
  "sample_monitor = replicate 15 ptp_control_zero @ [ptp_control_zero\<lparr>ipaddr := 0x0A01A8C0\<rparr>]"

theorem monitor_frame_witness: "get32 (monitorFrame sample_monitor) (4 + 16 * 15) = 0x0A01A8C0"
proof -
  have l: "length sample_monitor = ptpMonitorlConstant" by (simp add: sample_monitor_def ptpMonitorlConstant_def)
  have "15 < ptpMonitorlConstant" by (simp add: ptpMonitorlConstant_def)
  with monitor_frame [OF l] have "get32 (monitorFrame sample_monitor) (4 + 16 * 15) = ipaddr (sample_monitor ! 15)" by blast
  then show ?thesis by (simp add: sample_monitor_def nth_append)
qed

subsection \<open>From the serial line to the clock\<close>

datatype SerialEvent = RxByte EUsart Octet | PollPorts

fun serialRun :: "(16 word \<Rightarrow> 16 word \<Rightarrow> 16 word) \<Rightarrow> SerialEvent list \<Rightarrow> Device \<Rightarrow> Device" where
  "serialRun prog [] d = d"
| "serialRun prog (RxByte com b # es) d = serialRun prog es (d\<lparr>ports := USART_IRQHandler com b (ports d)\<rparr>)"
| "serialRun prog (PollPorts # es) d = serialRun prog es (USART_CallBack prog d)"

text \<open>The events of one port, all others silent.\<close>

fun onPort1 :: "UsartEvent \<Rightarrow> SerialEvent" where
  "onPort1 (Arrives b) = RxByte EUsart_1 b"
| "onPort1 Polled = PollPorts"

lemma managePort_idle: "managePort usart_idle = (None, usart_idle)"
  by (simp add: managePort_def usart_idle_def manageDue_def)

lemma pollPort_idle: "ports d com = usart_idle \<Longrightarrow> pollPort com func d = d"
  by (simp add: pollPort_def receive_str_manage_def managePort_idle fun_upd_idem)

lemma uart1_keeps: "ports (uart1_call_back str n d) = ports d"
  by (simp add: uart1_call_back_def Let_def)

definition deliver1 :: "Octet list \<times> UInteger16 \<Rightarrow> Device \<Rightarrow> Device" where
  "deliver1 r = uart1_call_back (fst r) (unat (snd r))"

lemma uart1_ports: "uart1_call_back str n (d\<lparr>ports := S\<rparr>) = (uart1_call_back str n d)\<lparr>ports := S\<rparr>"
  by (simp add: uart1_call_back_def Let_def)

lemma deliver1_ports: "fold deliver1 rs (d\<lparr>ports := S\<rparr>) = (fold deliver1 rs d)\<lparr>ports := S\<rparr>"
  by (induction rs arbitrary: d) (simp_all add: deliver1_def uart1_ports)

lemma serialRun_port1:
  assumes "ports d EUsart_2 = usart_idle" and "ports d EUsart_5 = usart_idle"
  shows "serialRun prog (map onPort1 es) d =
    (case usartEvents es (ports d EUsart_1) of (rs, u) \<Rightarrow> (fold deliver1 rs d)\<lparr>ports := (ports d)(EUsart_1 := u)\<rparr>)"
  using assms
proof (induction es arbitrary: d)
  case (Cons e es)
  show ?case
  proof (cases e)
    case (Arrives b)
    let ?S = "USART_IRQHandler EUsart_1 b (ports d)"
    obtain rs u where e: "usartEvents es (storeByte b (ports d EUsart_1)) = (rs, u)" by fastforce
    have "?S EUsart_1 = storeByte b (ports d EUsart_1)" "?S EUsart_2 = usart_idle" "?S EUsart_5 = usart_idle"
      "?S(EUsart_1 := u) = (ports d)(EUsart_1 := u)"
      using Cons.prems by (simp_all add: USART_IRQHandler_def)
    then show ?thesis
      using Cons.IH [of "d\<lparr>ports := ?S\<rparr>"] Arrives e by (simp add: deliver1_ports del: fun_upd_apply)
  next
    case Polled
    obtain r u where r: "managePort (ports d EUsart_1) = (r, u)" by fastforce
    let ?S = "(ports d)(EUsart_1 := u)"
    let ?d = "case r of None \<Rightarrow> d | Some x \<Rightarrow> deliver1 x d"
    have p: "pollPort EUsart_1 uart1_call_back d = ?d\<lparr>ports := ?S\<rparr>"
      by (simp add: pollPort_def receive_str_manage_def r deliver1_def uart1_ports split: option.splits prod.splits)
    have "USART_CallBack prog d = ?d\<lparr>ports := ?S\<rparr>"
      using Cons.prems by (simp add: USART_CallBack_def pollPort_idle p)
    moreover obtain rs v where v: "usartEvents es u = (rs, v)" by fastforce
    moreover have "serialRun prog (map onPort1 es) (?d\<lparr>ports := ?S\<rparr>) = (fold deliver1 rs ?d)\<lparr>ports := (ports d)(EUsart_1 := v)\<rparr>"
      using Cons.IH [of "?d\<lparr>ports := ?S\<rparr>"] Cons.prems v by (simp add: deliver1_ports del: fun_upd_apply) simp
    ultimately show ?thesis using Polled r by (simp del: fun_upd_apply split: option.splits)
  qed
qed simp

definition XHTOD_text :: "Octet list \<Rightarrow> Octet list list \<Rightarrow> Octet list \<Rightarrow> Octet list" where
  "XHTOD_text pre fds rest = pre @ XHTOD @ fieldsText fds @ STAR # rest"

text \<open>C10: a time-of-day sentence that arrives byte by byte on the first serial port sets the clock: the receive
  interrupts collect it, in however many pieces between the polls, the poll without news
  delivers it once, it is echoed on the second port, and \<^verbatim>\<open>systime\<close> becomes the number of seconds from 1970 to
  its date (modulo \<open>2\<^sup>3\<^sup>2\<close>) if the device serves NTP as a master, and keeps its value otherwise; what
  the uninitialised local held does not matter, and the ports are idle again.\<close>

theorem serial_sentence_sets_clock:
  assumes "ports d = (\<lambda>_. usart_idle)" and "isMessage css" and "concat css = XHTOD_text pre fds rest"
    and "validDate t" and "0x58 \<notin> set pre" and "length pre \<le> 400"
    and "map decValue fds = [uint (year t), uint (month t), uint (day t), uint (hour t), uint (minute t), uint (second t)]"
    and "\<forall>f \<in> set fds. (\<forall>c \<in> set f. isDigit c) \<and> length f \<le> 9"
  shows "serialRun prog (map onPort1 (burst css)) d = d\<lparr>sent := sent d @ [(EUsart_2, concat css)],
    systime := (if portState (portDS (stack d)) = PTP_MASTER \<and> FDS_MODE (TS_FDS d) = emNTPMaster
                then word_of_int (secondsOf t) else systime d)\<rparr>"
proof -
  define bs where "bs = concat css"
  define str where "str = bs @ replicate (USART_RECEIVE_MAX - length bs) 0"
  have bs: "bs = XHTOD_text pre fds rest" using assms(3) by (simp add: bs_def)
  have str: "str = pre @ XHTOD @ fieldsText fds @ STAR # rest @ replicate (USART_RECEIVE_MAX - length bs) 0"
    unfolding str_def by (subst (1) bs) (simp add: XHTOD_text_def)
  have t: "take (length bs) str = bs" by (simp add: str_def)
  have "length bs < 1024" using assms(2) by (simp add: isMessage_def USART_RECEIVE_MAX_def bs_def)
  then have n: "unat (of_nat (length bs) :: UInteger16) = length bs" unfolding unat_of_nat by simp
  have "length pre + 5 \<le> length bs" unfolding bs by (simp add: XHTOD_text_def XHTOD_length)
  note c = tod_sets_clock [OF assms(4,7,8,5,6) this, where rest = "rest @ replicate (USART_RECEIVE_MAX - length bs) 0", folded str]
  have e: "(usart_idle, (\<lambda>_. usart_idle)(EUsart_1 := usart_idle)) = (usart_idle, ports d)" using assms(1) by auto
  have "serialRun prog (map onPort1 (burst css)) d = (deliver1 (delivery bs) d)\<lparr>ports := ports d\<rparr>"
    using serialRun_port1 [of d prog "burst css"] message_received [OF assms(2)] e by (simp add: assms(1) bs_def)
  also have "\<dots> = uart1_call_back str (length bs) d"
    using uart1_keeps [of _ _ d] by (simp add: deliver1_def delivery_def n str_def)
  also have "\<dots> = d\<lparr>sent := sent d @ [(EUsart_2, bs)],
    systime := (if portState (portDS (stack d)) = PTP_MASTER \<and> FDS_MODE (TS_FDS d) = emNTPMaster
                then word_of_int (secondsOf t) else systime d)\<rparr>"
    by (simp add: uart1_call_back_def Let_def com_send_str_def c t)
  finally show ?thesis by (simp add: bs_def)
qed

text \<open>The sentence \<open>$XHTOD,2018,01,24,12,30,45*\<close> in two pieces, on a master that serves NTP.\<close>

definition sample_pieces :: "Octet list list" where
  "sample_pieces = (let bs = XHTOD_text [0x24] sample_fields [0x0A] in [take 9 bs, drop 9 bs])"

definition sample_ntp_master :: Device where
  "sample_ntp_master = sample_device\<lparr>stack := (stack sample_device)\<lparr>portDS := PortDS_zero\<lparr>portState := PTP_MASTER\<rparr>\<rparr>,
     TS_FDS := (TS_FDS sample_device)\<lparr>FDS_MODE := emNTPMaster\<rparr>\<rparr>"

theorem serial_sentence_sets_clock_witness:
  "systime (serialRun (\<lambda>old new. new) (map onPort1 (burst sample_pieces)) sample_ntp_master) = word_of_int (secondsOf sample_date)"
proof -
  have p: "ports sample_ntp_master = (\<lambda>_. usart_idle)" by (simp add: sample_ntp_master_def sample_device_def)
  have i: "isMessage sample_pieces"
    by (simp add: isMessage_def sample_pieces_def XHTOD_text_def XHTOD_def fieldsText_def sample_fields_def USART_RECEIVE_MAX_def Let_def)
  have c: "concat sample_pieces = XHTOD_text [0x24] sample_fields [0x0A]" by (simp add: sample_pieces_def Let_def)
  have v: "validDate sample_date" by (simp add: validDate_def sample_date_def monthDays_simps)
  have m: "map decValue sample_fields = [uint (year sample_date), uint (month sample_date), uint (day sample_date),
      uint (hour sample_date), uint (minute sample_date), uint (second sample_date)]"
    by (simp add: sample_fields_def sample_date_def)
  have d: "\<forall>f \<in> set sample_fields. (\<forall>c \<in> set f. isDigit c) \<and> length f \<le> 9"
    by (simp add: sample_fields_def isDigit_def)
  show ?thesis
    by (subst serial_sentence_sets_clock [OF p i c v _ _ m d]) (simp_all add: sample_ntp_master_def sample_device_def)
qed

end
