(* ===== verification/Dev_Main.thy ===== *)
theory Dev_Main
  imports Dev_Task Ptp_Loop
begin

text \<open>
  The main loop of the device as a whole: in slave mode a turn returns, whatever the serial ports
  and the network bring, unless a port hands over one of two commands or the clock shows the last day of a leap year;
  and the watchdog is fed in time as long as the turns return.
\<close>

subsection \<open>A device in slave mode\<close>

text \<open>
  The commands that end this: the text \<^verbatim>\<open>E1 Master\<close>, and \<^verbatim>\<open>AT+SETP=\<close> with the address 0.0.0.0, with which
  the stack cannot come up again.  \<open>newAddress\<close> is the address a text sets, if it sets one.
\<close>

definition newAddress :: "Octet list \<Rightarrow> UInteger32 option" where
  "newAddress p =
    (case strstr p AT_SETP of
       None \<Rightarrow> None
     | Some tmpcnt \<Rightarrow>
         let (r, ok) = takeFields p (tmpcnt + 8) setpSeps 0 (replicate 12 0)
         in if ok then Some (IP4_ADDR (r ! 0) (r ! 1) (r ! 2) (r ! 3)) else None)"

definition ends_slave :: "Octet list \<Rightarrow> bool" where
  "ends_slave str \<longleftrightarrow> strstr (take 512 str) E1_Master \<noteq> None \<or> newAddress (take 512 str) = Some 0"

text \<open>The port is about to hand over such a text.\<close>

definition hands_over :: "EUsart \<Rightarrow> Device \<Rightarrow> bool" where
  "hands_over com d = (case fst (receive_str_manage com (ports d)) of None \<Rightarrow> False | Some (str, n) \<Rightarrow> ends_slave str)"

definition slave_device :: "Device \<Rightarrow> bool" where
  "slave_device d \<longleftrightarrow> slave_stack (stack d) \<and> FDS_MODE (TS_FDS d) = emPTPSlave"

text \<open>A device in slave mode with its twelve address globals.\<close>

definition slave_dev12 :: "Device \<Rightarrow> bool" where
  "slave_dev12 d \<longleftrightarrow> slave_device d \<and> length (addr_bytes d) = 12"

lemma slave_dev12_fields:
  "slave_dev12 (d\<lparr>sent := x\<rparr>) = slave_dev12 d" "slave_dev12 (d\<lparr>systime := s\<rparr>) = slave_dev12 d"
  "slave_dev12 (d\<lparr>ports := ps\<rparr>) = slave_dev12 d" "slave_dev12 (dev_send com str d) = slave_dev12 d"
  by (simp_all add: slave_dev12_def slave_device_def dev_send_def)

subsection \<open>The commands keep it\<close>

lemma takeFields_agree:
  assumes "take k regs = take k regs'" and "length regs = length regs'" and "k + length seps \<le> length regs"
  shows "snd (takeFields p i seps k regs) = snd (takeFields p i seps k regs')
    \<and> (snd (takeFields p i seps k regs) \<longrightarrow>
        take (k + length seps) (fst (takeFields p i seps k regs)) = take (k + length seps) (fst (takeFields p i seps k regs')))"
  using assms
proof (induction seps arbitrary: i k regs regs')
  case (Cons sep seps)
  have "take (k + 1) (regs[k := v]) = take (k + 1) (regs'[k := v])" for v
    using Cons.prems by (simp add: take_Suc_conv_app_nth)
  from Cons.IH [OF this] Cons.prems(2,3) show ?case by (auto split: option.split)
qed simp

lemma length_takeFields: "length (fst (takeFields p i seps k regs)) = length regs"
  by (induction p i seps k regs rule: takeFields.induct) (auto split: option.split)

lemma newAddress_SETP:
  assumes "strstr p AT_SETP = Some n" and "takeFields p (n + 8) setpSeps 0 regs = (r, True)" and "length regs = 12"
  shows "newAddress p = Some (IP4_ADDR (r ! 0) (r ! 1) (r ! 2) (r ! 3))"
proof -
  have l: "length setpSeps = 12" by (simp add: setpSeps_def numeral_eq_Suc)
  obtain r' ok where r': "takeFields p (n + 8) setpSeps 0 (replicate 12 0) = (r', ok)" by fastforce
  have "ok \<and> take 12 r = take 12 r'"
    using takeFields_agree [of 0 regs "replicate 12 0" setpSeps p "n + 8"] assms(2,3) r' by (simp add: l)
  moreover have "length r = 12" "length r' = 12"
    using length_takeFields [of p "n + 8" setpSeps 0 regs] length_takeFields [of p "n + 8" setpSeps 0 "replicate 12 0"] assms(2,3) r' by simp_all
  ultimately show ?thesis using r' by (simp add: newAddress_def assms(1))
qed

lemma slave_cmd_mode:
  assumes "slave_dev12 d" and "strstr p E1_Master = None"
  shows "slave_dev12 (snd (cmd_mode prog p (r, d)))" and "ports (snd (cmd_mode prog p (r, d))) = ports d"
    and "addr_bytes (snd (cmd_mode prog p (r, d))) = addr_bytes d"
  using assms slave_stack_restart
  by (simp_all add: cmd_mode_def Let_def slave_dev12_def slave_device_def set_mode_def save_FDS_def dev_send_def)

lemma slave_setp:
  assumes "slave_dev12 d" and "IP4_ADDR (addr_bytes d ! 0) (addr_bytes d ! 1) (addr_bytes d ! 2) (addr_bytes d ! 3) \<noteq> 0"
  shows "slave_dev12 (setp_apply prog d)"
  using assms slave_stack_address
  by (simp add: setp_apply_def Let_def slave_dev12_def slave_device_def save_FDS_def dev_send_def netif_set_addr_def)

lemma slave_cmd5:
  assumes "slave_dev12 d" and "\<not> ends_slave str"
  shows "slave_dev12 (snd (cmd_handle_usart5 prog str n d))"
proof -
  define p where "p = take 512 str"
  obtain ret e where e: "cmd_mode prog p (CMD_NONE, d) = (ret, e)" by fastforce
  have a: "strstr p E1_Master = None" "newAddress p \<noteq> Some 0" using assms(2) by (simp_all add: ends_slave_def p_def)
  have s: "slave_dev12 e" using slave_cmd_mode(1) [OF assms(1) a(1), of prog CMD_NONE] e by simp
  show ?thesis
  proof (cases "strstr p AT_SETP")
    case None
    then show ?thesis using s e by (simp add: cmd_handle_usart5_def Let_def p_def slave_dev12_fields)
  next
    case (Some m)
    obtain regs ok where f: "takeFields p (m + 8) setpSeps 0 (addr_bytes e) = (regs, ok)" by fastforce
    have t: "slave_dev12 (e\<lparr>addr_bytes := regs\<rparr>)"
      using s length_takeFields [of p "m + 8" setpSeps 0 "addr_bytes e"] f by (simp add: slave_dev12_def slave_device_def)
    have "slave_dev12 (setp_apply prog (e\<lparr>addr_bytes := regs\<rparr>))" if ok
      using newAddress_SETP [OF Some, of "addr_bytes e" regs] f s a(2) that by (intro slave_setp t) (simp add: slave_dev12_def)
    then show ?thesis using t e f Some by (simp add: cmd_handle_usart5_def Let_def p_def slave_dev12_fields)
  qed
qed

lemma ports_fields: "ports (dev_send com str d) = ports d" "ports (setp_apply prog d) = ports d" "ports (snd (cmd_mode prog p (r, d))) = ports d"
  by (simp_all add: setp_apply_def cmd_mode_def Let_def save_FDS_def dev_send_def netif_set_addr_def set_mode_def)

lemma cmd5_ports: "ports (snd (cmd_handle_usart5 prog str n d)) = ports d"
  using ports_fields(3) [of prog "take 512 str" CMD_NONE d]
  by (cases "cmd_mode prog (take 512 str) (CMD_NONE, d)")
    (simp add: cmd_handle_usart5_def Let_def ports_fields split: prod.split option.split)

lemma slave_uart1: "slave_dev12 d \<Longrightarrow> slave_dev12 (uart1_call_back str n d)"
  by (simp add: uart1_call_back_def Let_def slave_dev12_fields)

lemma slave_uart2: "slave_dev12 d \<Longrightarrow> \<not> ends_slave str \<Longrightarrow> slave_dev12 (uart2_call_back prog str n d)"
  using slave_cmd5 [of d str prog n] by (auto simp: uart2_call_back_def Let_def slave_dev12_fields split: prod.splits)

lemma slave_uart5: "slave_dev12 d \<Longrightarrow> \<not> ends_slave str \<Longrightarrow> slave_dev12 (uart5_call_back prog str n d)"
  using slave_cmd5 [of d str prog n] by (auto simp: uart5_call_back_def Let_def slave_dev12_fields split: prod.splits)

lemma uart5_ports: "ports (uart5_call_back prog str n d) = ports d"
  using cmd5_ports [of prog str n d] by (auto simp: uart5_call_back_def Let_def ports_fields split: prod.splits)

lemma slave_pollPort:
  assumes "slave_dev12 d" and "any \<or> \<not> hands_over com d"
    and "\<And>str n e. slave_dev12 e \<Longrightarrow> any \<or> \<not> ends_slave str \<Longrightarrow> slave_dev12 (func str n e)"
  shows "slave_dev12 (pollPort com func d)"
proof -
  obtain r S where r: "receive_str_manage com (ports d) = (r, S)" by fastforce
  show ?thesis
  proof (cases r)
    case None
    then show ?thesis using assms(1) r by (simp add: pollPort_def slave_dev12_fields)
  next
    case (Some x)
    then have "any \<or> \<not> ends_slave (fst x)" using assms(2) r by (simp add: hands_over_def split_beta)
    then show ?thesis
      using assms(3) [of "d\<lparr>ports := S\<rparr>" "fst x" "unat (snd x)"] assms(1) r Some by (simp add: pollPort_def slave_dev12_fields split_beta)
  qed
qed

text \<open>Polling a port leaves the others as they are.\<close>

lemma hands_over_pollPort:
  assumes "com' \<noteq> com" and "\<And>str n e. ports (func str n e) = ports e"
  shows "hands_over com' (pollPort com func d) = hands_over com' d"
proof -
  have "ports (pollPort com func d) com' = ports d com'"
    using assms by (auto simp: pollPort_def receive_str_manage_def Let_def split: option.split prod.split)
  then show ?thesis by (simp add: hands_over_def receive_str_manage_def split_beta)
qed

lemma slave_USART:
  assumes "slave_dev12 d" and "\<not> hands_over EUsart_2 d" and "\<not> hands_over EUsart_5 d"
  shows "slave_dev12 (USART_CallBack prog d)"
proof -
  define d1 where "d1 = pollPort EUsart_1 uart1_call_back d"
  define d5 where "d5 = pollPort EUsart_5 (uart5_call_back prog) d1"
  have "slave_dev12 d1" unfolding d1_def by (rule slave_pollPort [OF assms(1), of True]) (simp_all add: slave_uart1)
  moreover have h: "\<not> hands_over EUsart_2 d1" "\<not> hands_over EUsart_5 d1"
    using assms(2,3) by (simp_all add: d1_def hands_over_pollPort uart1_keeps)
  ultimately have s: "slave_dev12 d5"
    unfolding d5_def by (intro slave_pollPort [where any = False]) (simp_all add: slave_uart5)
  have "\<not> hands_over EUsart_2 d5" using h(1) by (simp add: d5_def hands_over_pollPort uart5_ports)
  then show ?thesis
    unfolding USART_CallBack_def d1_def [symmetric] d5_def [symmetric]
    using s by (intro slave_pollPort [where any = False]) (simp_all add: slave_uart2)
qed

subsection \<open>Its callbacks\<close>

definition slave_firmware :: "Firmware \<Rightarrow> bool" where
  "slave_firmware w \<longleftrightarrow> slave_dev12 (dev w)"

text \<open>The date report is due and the clock shows a second of the last day of a leap year.\<close>

definition at_leap_end :: "Firmware \<Rightarrow> bool" where
  "at_leap_end w \<longleftrightarrow> due (LocalTime w) (Count w ! 0) 1000 \<and> lastLeapDay (uint (hw_reads (stack (dev w)) (hw_n (stack (dev w)))))"

text \<open>The ports are due, and one of the two that take commands hands over one that ends slave mode or the address.\<close>

definition commanded :: "Firmware \<Rightarrow> bool" where
  "commanded w \<longleftrightarrow> due (LocalTime w) (Count w ! 1) 20 \<and> (hands_over EUsart_2 (dev w) \<or> hands_over EUsart_5 (dev w))"

lemma slave_stack_hw: "slave_stack c \<Longrightarrow> slave_stack (snd (hw_read c))" "slave_stack c \<Longrightarrow> slave_stack (snd (getTime c))"
  by (auto intro!: slave_stack_step [of c] simp: core_sys mem_sys)

lemma slave_on_stack:
  assumes "slave_firmware w" and "\<And>c. slave_stack c \<Longrightarrow> slave_stack (f c)"
  shows "slave_firmware (on_stack f w)"
  using assms by (simp add: slave_firmware_def on_stack_def on_dev_def slave_dev12_def slave_device_def)

lemma slave_send: "slave_firmware (on_dev (dev_send com str) w) = slave_firmware w"
  by (simp add: slave_firmware_def on_dev_def slave_dev12_fields)

lemma slave_extra:
  "slave_firmware (w\<lparr>Count := x1\<rparr>) = slave_firmware w" "slave_firmware (w\<lparr>fed := x2\<rparr>) = slave_firmware w"
  "slave_firmware (w\<lparr>LocalTime := x3\<rparr>) = slave_firmware w"
  by (simp_all add: slave_firmware_def)

lemma slave_mode: "slave_firmware w \<Longrightarrow> mode w = emPTPSlave" "slave_firmware w \<Longrightarrow> slave_stack (stack (dev w))"
  by (simp_all add: slave_firmware_def slave_dev12_def slave_device_def)

text \<open>The date report: when it returns it leaves the device as it was but for what it sent and the clock it read.\<close>

lemma slave_tod:
  assumes "slave_firmware w" and "ptp_tod_msg_pack w = Some w'"
  shows "slave_firmware w' \<and> ports (dev w') = ports (dev w)"
proof -
  obtain hi c where h: "hw_read (stack (dev w)) = (hi, c)" by fastforce
  then have "slave_stack c" using slave_stack_hw(1) [of "stack (dev w)"] slave_mode(2) [OF assms(1)] by simp
  then have "slave_firmware (on_stack (\<lambda>_. c) w)" using assms(1) by (intro slave_on_stack)
  then show ?thesis
    using slave_mode(1) [OF assms(1)] assms(2) by (auto simp: ptp_tod_msg_pack_def h slave_send) (simp add: on_stack_def on_dev_def ports_fields)
qed

lemma slave_tod_returns:
  assumes "slave_firmware w" and "\<not> lastLeapDay (uint (hw_reads (stack (dev w)) (hw_n (stack (dev w)))))"
  shows "ptp_tod_msg_pack w \<noteq> None"
proof -
  obtain hi c where h: "hw_read (stack (dev w)) = (hi, c)" by fastforce
  then have hi: "hi = hw_reads (stack (dev w)) (hw_n (stack (dev w)))" by (auto simp: hw_read_def)
  obtain t where "SecToTime hi UTC = Some t"
    using calc_date_time_date [of hi] assms(2) by (auto simp: SecToTime_UTC hi)
  then show ?thesis using slave_mode(1) [OF assms(1)] by (simp add: ptp_tod_msg_pack_def h)
qed

text \<open>The tasks behind the first two.\<close>

lemma slave_callback:
  assumes "slave_firmware w" and "cb \<noteq> RunStateLock" and "cb \<noteq> USART"
  shows "\<exists>w'. callback prog cb w = Some w' \<and> slave_firmware w'"
proof (cases cb)
  case LED
  obtain t c where t: "getTime (stack (dev w)) = (t, c)" by fastforce
  then have "slave_stack c" using slave_stack_hw(2) [of "stack (dev w)"] slave_mode(2) [OF assms(1)] by simp
  then have "slave_firmware (on_stack (\<lambda>_. c) w)" using assms(1) by (intro slave_on_stack)
  then show ?thesis using LED by (simp add: LED_CallBack_def t Let_def slave_send slave_extra)
qed (use assms slave_mode(1) in \<open>simp_all add: KEY_CallBack_def ADJ_CallBack_def\<close>)

lemma slave_pollTasks:
  "slave_firmware w \<Longrightarrow> RunStateLock \<notin> snd ` set ts \<Longrightarrow> USART \<notin> snd ` set ts \<Longrightarrow>
    \<exists>w'. pollTasks prog t i ts w = Some w' \<and> slave_firmware w'"
proof (induction prog t i ts w rule: pollTasks.induct)
  case (2 prog t i p cb ts w)
  show ?case
  proof (cases "due t (Count w ! i) p")
    case True
    let ?w = "w\<lparr>Count := (Count w)[i := t]\<rparr>"
    have "slave_firmware ?w" using 2(3) by (simp add: slave_extra)
    moreover have "cb \<noteq> RunStateLock" "cb \<noteq> USART" using 2(4,5) by auto
    ultimately obtain v where "callback prog cb ?w = Some v" "slave_firmware v"
      using slave_callback [of ?w cb prog] by blast
    then show ?thesis using 2(1) [OF True] True 2(4,5) by simp
  qed (use 2 in simp)
qed simp

text \<open>The task of the ports and those behind it.\<close>

lemma slave_pollPorts:
  assumes "slave_firmware w" and "\<not> commanded w" and "LocalTime w = t" and "RunStateLock \<notin> snd ` set ts" and "USART \<notin> snd ` set ts"
  shows "\<exists>w'. pollTasks prog t 1 ((20, USART) # ts) w = Some w' \<and> slave_firmware w'"
proof (cases "due t (Count w ! 1) 20")
  case True
  let ?w = "on_dev (USART_CallBack prog) (w\<lparr>Count := (Count w)[1 := t]\<rparr>)"
  have "slave_firmware ?w"
    using assms(1-3) True slave_USART [of "dev w" prog] by (simp add: slave_firmware_def on_dev_def commanded_def)
  then show ?thesis using slave_pollTasks [OF _ assms(4,5), of ?w] True by simp
next
  case False
  then show ?thesis using slave_pollTasks [OF assms(1,4,5)] by simp
qed

text \<open>The first task is the date report.\<close>

definition dateTask :: "Firmware \<Rightarrow> Firmware option" where
  "dateTask w = (if due (LocalTime w) (Count w ! 0) 1000
    then ptp_tod_msg_pack (w\<lparr>Count := (Count w)[0 := LocalTime w]\<rparr>) else Some w)"

lemma slave_dateTask:
  assumes "slave_firmware w" and "dateTask w = Some v"
  shows "slave_firmware v" and "commanded v = commanded w" and "LocalTime v = LocalTime w"
proof -
  have "slave_firmware v \<and> ports (dev v) = ports (dev w) \<and> Count v ! 1 = Count w ! 1 \<and> LocalTime v = LocalTime w"
  proof (cases "due (LocalTime w) (Count w ! 0) 1000")
    case True
    let ?w = "w\<lparr>Count := (Count w)[0 := LocalTime w]\<rparr>"
    have v: "ptp_tod_msg_pack ?w = Some v" using assms(2) True by (simp add: dateTask_def)
    show ?thesis using slave_tod [OF _ v] keeps_tod [OF v] assms(1) by (simp add: slave_extra keeps_def)
  qed (use assms in \<open>simp add: dateTask_def\<close>)
  then show "slave_firmware v" "commanded v = commanded w" "LocalTime v = LocalTime w"
    by (simp_all add: commanded_def hands_over_def)
qed

lemma dateTask_returns: "slave_firmware w \<Longrightarrow> \<not> at_leap_end w \<Longrightarrow> dateTask w \<noteq> None"
  using slave_tod_returns [of "w\<lparr>Count := (Count w)[0 := LocalTime w]\<rparr>"] by (auto simp: dateTask_def at_leap_end_def slave_extra)

lemma Task_Poll_dateTask:
  "Task_Poll prog (LocalTime w) w = Option.bind (dateTask w) (pollTasks prog (LocalTime w) 1 (tl taskList))"
proof -
  define ts where "ts = tl taskList"
  have l: "taskList = (1000, RunStateLock) # ts" by (simp add: taskList_def ts_def)
  show ?thesis unfolding Task_Poll_def ts_def [symmetric] unfolding l by (simp add: dateTask_def split: option.split)
qed

lemma slave_turn_from:
  assumes "slave_firmware w" and "\<not> commanded w" and "dateTask w = Some v"
  shows "\<exists>w'. run_task_turn prog w = Some w' \<and> slave_firmware w' \<and> netSelect (stack (dev w')) = 0"
proof -
  define ts where "ts = tl (tl taskList)"
  have l: "taskList = (1000, RunStateLock) # (20, USART) # ts" "RunStateLock \<notin> snd ` set ts" "USART \<notin> snd ` set ts"
    by (simp_all add: taskList_def ts_def)
  note v = slave_dateTask [OF assms(1,3)]
  obtain u where u: "pollTasks prog (LocalTime w) 1 ((20, USART) # ts) v = Some u" "slave_firmware u"
    using slave_pollPorts [OF v(1) _ v(3) l(2,3)] v(2) assms(2) by blast
  have p: "Task_Poll prog (LocalTime w) w = Some u"
    unfolding Task_Poll_dateTask assms(3) l(1) using u(1) by (simp only: list.sel bind.bind_lunit)
  let ?u = "LwIP_Periodic_Handle (LocalTime u) u"
  have s: "slave_firmware ?u" using u(2) by (simp add: slave_firmware_def LwIP_keeps)
  obtain e where e: "ptpd_Periodic_Handle (LocalTime ?u) (stack (dev ?u)) = Some e" "netSelect e = 0" "slave_stack e"
    using slave_stack_poll [OF slave_mode(2) [OF s]] by blast
  have "slave_firmware (on_stack (\<lambda>_. e) ?u)" using s e(3) by (intro slave_on_stack)
  moreover have "stack (dev (on_stack (\<lambda>_. e) ?u)) = e" by (simp add: on_stack_def on_dev_def)
  ultimately show ?thesis using p e(1,2) by (simp add: run_task_turn_def Let_def)
qed

lemma slave_turn:
  assumes "slave_firmware w" and "\<not> commanded w" and "\<not> at_leap_end w"
  shows "\<exists>w'. run_task_turn prog w = Some w' \<and> slave_firmware w' \<and> netSelect (stack (dev w')) = 0"
  using slave_turn_from [OF assms(1,2)] dateTask_returns [OF assms(1,3)] by blast

text \<open>A turn that returns at all keeps slave mode.\<close>

lemma run_needs_date: "dateTask w = None \<Longrightarrow> run_task_turn prog w = None"
  by (simp add: run_task_turn_def Task_Poll_dateTask)

lemma slave_turn_keeps:
  assumes "slave_firmware w" and "\<not> commanded w" and "run_task_turn prog w = Some w'"
  shows "slave_firmware w'"
proof -
  obtain v where "dateTask w = Some v" using run_needs_date [of w prog] assms(3) by (cases "dateTask w") simp_all
  from slave_turn_from [OF assms(1,2) this, of prog] show ?thesis using assms(3) by auto
qed

subsection \<open>Its runs\<close>

text \<open>
  Milliseconds and seconds pass, any bytes arrive on the serial ports, packets arrive from the network,
  and the main loop turns, in any order.  Only a turn that would act on one of the two commands is left out.
\<close>

inductive device_run :: "(16 word \<Rightarrow> 16 word \<Rightarrow> 16 word) \<Rightarrow> Firmware \<Rightarrow> Firmware \<Rightarrow> bool" for prog w where
  dev_start: "device_run prog w w"
| dev_tick: "device_run prog w v \<Longrightarrow> device_run prog w (Time_Update v)"
| dev_second: "device_run prog w v \<Longrightarrow> device_run prog w (TIM3_IRQHandler v)"
| dev_byte: "device_run prog w v \<Longrightarrow> device_run prog w (on_dev (\<lambda>d. d\<lparr>ports := USART_IRQHandler com b (ports d)\<rparr>) v)"
| dev_event: "device_run prog w v \<Longrightarrow> pbuf_ok p \<Longrightarrow> device_run prog w (on_stack (netRecvEventCallback p) v)"
| dev_general: "device_run prog w v \<Longrightarrow> pbuf_ok p \<Longrightarrow> device_run prog w (on_stack (netRecvGeneralCallback p) v)"
| dev_turn: "device_run prog w v \<Longrightarrow> \<not> commanded v \<Longrightarrow> run_task_turn prog v = Some v' \<Longrightarrow> device_run prog w v'"

lemma device_run_slave: "device_run prog w v \<Longrightarrow> slave_firmware w \<Longrightarrow> slave_firmware v"
proof (induction rule: device_run.induct)
  case (dev_tick v)
  then show ?case by (simp add: Time_Update_def slave_extra)
next
  case (dev_second v)
  then have "slave_firmware v" by simp
  then show ?case using slave_mode(1) by (simp add: TIM3_IRQHandler_def Let_def slave_firmware_def on_dev_def slave_dev12_fields)
next
  case (dev_byte v com b)
  then show ?case by (simp add: slave_firmware_def on_dev_def slave_dev12_fields)
next
  case (dev_event v p)
  then show ?case by (auto intro!: slave_on_stack intro: slave_stack_step simp: mem_callbacks)
next
  case (dev_general v p)
  then show ?case by (auto intro!: slave_on_stack intro: slave_stack_step simp: mem_callbacks)
next
  case (dev_turn v v')
  then show ?case using slave_turn_keeps by blast
qed simp

text \<open>The firmware as \<^verbatim>\<open>system_init\<close> leaves it in slave mode.\<close>

definition boot_slave :: "Device \<Rightarrow> Firmware" where
  "boot_slave d = \<lparr>dev = set_mode emPTPSlave (d\<lparr>stack := TargetTime_Init emPTPSlave (stack d), ports := (\<lambda>_. usart_idle)\<rparr>),
     LocalTime = 0, Count = replicate 7 0, g_SYSTIME = \<lparr>seconds = 0, nanoseconds = 0\<rparr>, g_PTPTIME = \<lparr>seconds = 0, nanoseconds = 0\<rparr>,
     g_OFFSET = \<lparr>seconds = 0, nanoseconds = 0\<rparr>, fed = 0, ARPTimer = 0, TCPTimer = 0, etharp_tmrs = 0, tcp_tmrs = 0\<rparr>"

lemma boot_slave_device: "powered (stack d) \<Longrightarrow> online (stack d) \<Longrightarrow> slave_device (dev (boot_slave d))"
  using slave_stack_start by (simp add: boot_slave_def slave_device_def set_mode_def)

lemma boot_slave_ok:
  "powered (stack d) \<Longrightarrow> online (stack d) \<Longrightarrow> length (addr_bytes d) = 12 \<Longrightarrow> slave_firmware (boot_slave d)"
  using boot_slave_device [of d] by (simp add: slave_firmware_def slave_dev12_def) (simp add: boot_slave_def set_mode_def)

text \<open>C1: the main loop of a slave returns: on a device switched on in slave mode whose network comes up (\<open>online\<close>: it has an address, the
  group addresses are well formed and allocations succeed; \<open>addr_bytes\<close> are the twelve address globals), whatever packets and whatever bytes on all ports have
  arrived, in whatever order and however time passed, a turn of the main loop (scheduler, callbacks, lwIP
  timers, PTP stack) returns, with both packet queues empty, the port in no leading state and the device still in slave mode.
  There are two exceptions: the ports hand over \<^verbatim>\<open>E1 Master\<close>, or \<^verbatim>\<open>AT+SETP=\<close> with the address 0.0.0.0, on a port that takes
  commands (\<open>commanded\<close>; after that nothing is said); or the date report is due while the clock shows the last day of a leap
  year (\<open>at_leap_end\<close>), when the calendar loop is caught.  Every other command is allowed, new addresses included.\<close>

theorem main_loop_returns:
  assumes "powered (stack d)" and "online (stack d)" and "length (addr_bytes d) = 12"
    and "device_run prog (boot_slave d) w" and "\<not> commanded w" and "\<not> at_leap_end w"
  shows "\<exists>w'. run_task_turn prog w = Some w' \<and> netSelect (stack (dev w')) = 0
    \<and> \<not> leading (portState (portDS (stack (dev w')))) \<and> mode w' = emPTPSlave"
proof -
  have "slave_firmware w" using device_run_slave [OF assms(4) boot_slave_ok [OF assms(1-3)]] .
  from slave_turn [OF this assms(5,6), of prog] obtain w' where w': "run_task_turn prog w = Some w'" "slave_firmware w'" "netSelect (stack (dev w')) = 0"
    by blast
  then show ?thesis using slave_mode [OF w'(2)] by (auto simp: slave_stack_def follower_def)
qed

text \<open>The sample device has received the letter \<open>M\<close> on a command port when the ports are polled after 20 milliseconds.\<close>

definition sample_run :: Firmware where
  "sample_run = (Time_Update ^^ 20) (on_dev (\<lambda>d. d\<lparr>ports := USART_IRQHandler EUsart_5 0x4D (ports d)\<rparr>) (boot_slave sample_device))"

lemma device_run_ticks: "device_run prog w v \<Longrightarrow> device_run prog w ((Time_Update ^^ n) v)"
  by (induction n) (simp_all add: dev_tick)

lemma ticks_time: "(Time_Update ^^ n) w = w\<lparr>LocalTime := LocalTime w + of_nat n\<rparr>"
  by (induction n) (simp_all add: Time_Update_def ac_simps)

lemma sample_run_fields: "LocalTime sample_run = 20" "Count sample_run = replicate 7 0"
  "ports (dev sample_run) = (\<lambda>_. usart_idle)(EUsart_5 := storeByte 0x4D usart_idle)"
  by (simp_all add: sample_run_def ticks_time on_dev_def boot_slave_def set_mode_def USART_IRQHandler_def)

lemma sample_run_calm: "\<not> commanded sample_run" "\<not> at_leap_end sample_run"
proof -
  have "fst (managePort usart_idle) = None" "fst (managePort (storeByte 0x4D usart_idle)) = None"
    by (simp_all add: managePort_idle) (simp add: managePort_def storeByte_def usart_idle_def USART_RECEIVE_MAX_def)
  then show "\<not> commanded sample_run"
    by (simp add: commanded_def hands_over_def receive_str_manage_def split_beta sample_run_fields)
qed (simp add: at_leap_end_def sample_run_fields word_le_nat_alt)

theorem main_loop_returns_witness:
  "\<exists>w'. run_task_turn (\<lambda>old new. new) sample_run = Some w' \<and> mode w' = emPTPSlave"
proof -
  have d: "powered (stack sample_device)" "online (stack sample_device)" "length (addr_bytes sample_device) = 12"
    by (simp_all add: sample_device_def powered_power_up online_power_up)
  have r: "device_run (\<lambda>old new. new) (boot_slave sample_device) sample_run"
    unfolding sample_run_def by (intro device_run_ticks dev_byte dev_start)
  show ?thesis using main_loop_returns [OF d r sample_run_calm] by blast
qed

subsection \<open>The watchdog\<close>


text \<open>The sample device turns its loop after 400 and after 800 milliseconds.\<close>

lemma quiet_callback:
  assumes "callback prog cb w = Some w'" and "ports (dev w) = (\<lambda>_. usart_idle)"
  shows "ports (dev w') = ports (dev w)"
proof (cases cb)
  case RunStateLock
  then show ?thesis
    using assms(1) by (auto simp: ptp_tod_msg_pack_def on_stack_def on_dev_def ports_fields split: if_splits prod.splits)
next
  case USART
  then show ?thesis using assms by (auto simp: on_dev_def USART_CallBack_def pollPort_idle)
next
  case LED
  then show ?thesis using assms(1) by (auto simp: LED_CallBack_def on_stack_def on_dev_def ports_fields Let_def split: prod.splits)
qed (use assms(1) in \<open>auto simp: KEY_CallBack_def ADJ_CallBack_def ptp_msg_hanlde_packed_def on_stack_def on_dev_def ports_fields Let_def\<close>)

lemma quiet_pollTasks:
  "pollTasks prog t i ts w = Some w' \<Longrightarrow> ports (dev w) = (\<lambda>_. usart_idle) \<Longrightarrow> ports (dev w') = (\<lambda>_. usart_idle)"
proof (induction prog t i ts w rule: pollTasks.induct)
  case (2 prog t i p cb ts w)
  then show ?case using quiet_callback [of prog cb "w\<lparr>Count := (Count w)[i := t]\<rparr>"] by (auto split: if_splits option.splits)
qed simp

text \<open>A turn on quiet ports leaves them quiet.\<close>

lemma quiet_turn:
  assumes "run_task_turn prog w = Some w'" and "ports (dev w) = (\<lambda>_. usart_idle)"
  shows "ports (dev w') = (\<lambda>_. usart_idle)"
  using assms(1) quiet_pollTasks [OF _ assms(2), of prog "LocalTime w" 0 taskList]
  by (auto simp: run_task_turn_def Task_Poll_def Let_def on_stack_def on_dev_def LwIP_keeps split: option.splits)


end
