(* ===== verification/Dev_Link.thy ===== *)
theory Dev_Link
  imports Dev_Main
begin

text \<open>
  The interface and its link: the start of the device (\<^verbatim>\<open>system_init\<close> of \<^verbatim>\<open>Main/init.c\<close>, \<^verbatim>\<open>LwIP_Init\<close> of
  \<^verbatim>\<open>USER/LWIP_APP/netconf.c\<close>, \<^verbatim>\<open>low_level_init\<close> of \<^verbatim>\<open>port/ethernetif.c\<close>), the flags of the interface in
  \<^verbatim>\<open>core/netif.c\<close>, and the reaction to the link interrupt of the PHY in
  \<^verbatim>\<open>USER/DP83848/stm32f4x7_eth_bsp.c\<close>.  \<open>None\<close> is an interrupt that does not return.
\<close>

abbreviation (input) NETIF_FLAG_UP :: UInteger8 where "NETIF_FLAG_UP \<equiv> 0x01"
abbreviation (input) NETIF_FLAG_BROADCAST :: UInteger8 where "NETIF_FLAG_BROADCAST \<equiv> 0x02"
abbreviation (input) NETIF_FLAG_LINK_UP :: UInteger8 where "NETIF_FLAG_LINK_UP \<equiv> 0x10"
abbreviation (input) NETIF_FLAG_ETHARP :: UInteger8 where "NETIF_FLAG_ETHARP \<equiv> 0x20"
abbreviation (input) NETIF_FLAG_IGMP :: UInteger8 where "NETIF_FLAG_IGMP \<equiv> 0x40"

text \<open>
  \<open>nflags\<close> and \<open>has_callback\<close> belong to the \<^verbatim>\<open>netif\<close> structure; every read of a PHY register takes the next
  value of \<open>phy_reads\<close>; \<open>gratuitous\<close> and \<open>igmp_reports\<close> count the announcements lwIP makes.
\<close>

record Link =
  ldev :: Device
  nflags :: UInteger8
  has_callback :: bool
  EthStatus :: UInteger32
  ETH_AutoNegotiation :: bool
  ETH_Mode :: UInteger32
  ETH_Speed :: UInteger32
  MACCR :: UInteger32
  phy_reads :: "nat \<Rightarrow> UInteger16"
  phy_n :: nat
  phy_writes :: "UInteger16 list"
  gratuitous :: nat
  igmp_reports :: nat

subsection \<open>The interface\<close>

definition etharp_gratuitous :: "Link \<Rightarrow> Link" where
  "etharp_gratuitous l = l\<lparr>gratuitous := gratuitous l + 1\<rparr>"

definition announceArp :: "Link \<Rightarrow> Link" where
  "announceArp l = (if nflags l AND NETIF_FLAG_ETHARP \<noteq> 0 then etharp_gratuitous l else l)"

definition netif_is_link_up :: "Link \<Rightarrow> bool" where
  "netif_is_link_up l \<longleftrightarrow> nflags l AND NETIF_FLAG_LINK_UP \<noteq> 0"

text \<open>\<^verbatim>\<open>NETIF_LINK_CALLBACK\<close>, with the function the pointer holds.\<close>

definition NETIF_LINK_CALLBACK :: "(Link \<Rightarrow> Link) \<Rightarrow> Link \<Rightarrow> Link" where
  "NETIF_LINK_CALLBACK cb l = (if has_callback l then cb l else l)"

definition netif_set_up :: "(Link \<Rightarrow> Link) \<Rightarrow> Link \<Rightarrow> Link" where
  "netif_set_up cb l =
    (if nflags l AND NETIF_FLAG_UP = 0
     then announceArp (NETIF_LINK_CALLBACK cb (l\<lparr>nflags := nflags l OR NETIF_FLAG_UP\<rparr>)) else l)"

definition netif_set_down :: "(Link \<Rightarrow> Link) \<Rightarrow> Link \<Rightarrow> Link" where
  "netif_set_down cb l =
    (if nflags l AND NETIF_FLAG_UP \<noteq> 0
     then NETIF_LINK_CALLBACK cb (l\<lparr>nflags := nflags l AND NOT NETIF_FLAG_UP\<rparr>) else l)"

definition netif_set_link_up :: "(Link \<Rightarrow> Link) \<Rightarrow> Link \<Rightarrow> Link" where
  "netif_set_link_up cb l =
    (let l = announceArp (l\<lparr>nflags := nflags l OR NETIF_FLAG_LINK_UP\<rparr>);
         l = (if nflags l AND NETIF_FLAG_IGMP \<noteq> 0 then l\<lparr>igmp_reports := igmp_reports l + 1\<rparr> else l)
     in NETIF_LINK_CALLBACK cb l)"

definition netif_set_link_down :: "(Link \<Rightarrow> Link) \<Rightarrow> Link \<Rightarrow> Link" where
  "netif_set_link_down cb l = NETIF_LINK_CALLBACK cb (l\<lparr>nflags := nflags l AND NOT NETIF_FLAG_LINK_UP\<rparr>)"

subsection \<open>The callback\<close>

definition phyRead :: "Link \<Rightarrow> UInteger16 \<times> Link" where
  "phyRead l = (phy_reads l (phy_n l), l\<lparr>phy_n := phy_n l + 1\<rparr>)"

text \<open>The wait for the end of the negotiation.\<close>

function waitNego :: "nat \<Rightarrow> Link \<Rightarrow> Link" where
  "waitNego timeout l =
    (let (v, l) = phyRead l
     in if v AND 0x0020 = 0 \<and> timeout + 1 < 0xFF then waitNego (timeout + 1) l else l)"
  by pat_completeness auto
termination by (relation "measure (\<lambda>(t, l). 0xFF - t)") auto

declare waitNego.simps [simp del]

definition negotiate :: "Link \<Rightarrow> Link" where
  "negotiate l =
    (if \<not> ETH_AutoNegotiation l then l
     else
       let l = l\<lparr>phy_writes := 0x1000 # phy_writes l\<rparr>;
           l = waitNego 0 l;
           (RegValue, l) = phyRead l;
           l = l\<lparr>ETH_Mode := (if RegValue AND 0x0004 \<noteq> 0 then 0x0800 else 0)\<rparr>;
           l = l\<lparr>ETH_Speed := (if RegValue AND 0x0002 \<noteq> 0 then 0 else 0x4000)\<rparr>
       in l\<lparr>MACCR := MACCR l OR (ETH_Speed l OR ETH_Mode l)\<rparr>)"

definition slaveOpts :: "RunTimeOpts \<Rightarrow> RunTimeOpts" where
  "slaveOpts ro = ro\<lparr>rt_slaveOnly := True, rt_clockQuality := (rt_clockQuality ro)\<lparr>clockAccuracy := 0xFE\<rparr>\<rparr>"

definition restart :: "Device \<Rightarrow> Device" where
  "restart d =
    (let a = ts_local_ipaddr (TS_FDS d);
         d = d\<lparr>stack := toState PTP_LISTENING (stack d)\<rparr>;
         d = netif_set_addr (htonl (ui_ip a)) (htonl (ui_mask a)) (htonl (ui_gatway a)) d;
         c = stack d
     in if FDS_MODE (TS_FDS d) = emPTPMaster then d\<lparr>stack := ptpdStartup (masterOpts (rtOpts c)) (ptpForeignRecords c) c\<rparr>
        else if FDS_MODE (TS_FDS d) = emPTPSlave then d\<lparr>stack := ptpdStartup (slaveOpts (rtOpts c)) (ptpForeignRecords c) c\<rparr>
        else d)"

text \<open>
  The callback sets the interface up or down, which calls it again through the pointer; the flag of the
  interface is changed before the inner call, so the nesting ends.
\<close>

lemma flag_bits:
  "x AND 1 = 0 \<longleftrightarrow> \<not> bit x 0" "x AND 0x10 = 0 \<longleftrightarrow> \<not> bit x 4" "x AND 0x20 = 0 \<longleftrightarrow> \<not> bit x 5" "x AND 0x40 = 0 \<longleftrightarrow> \<not> bit x 6"
  for x :: UInteger8
  using and_exp_eq_0_iff_not_bit [of x 0] and_exp_eq_0_iff_not_bit [of x 4] and_exp_eq_0_iff_not_bit [of x 5]
    and_exp_eq_0_iff_not_bit [of x 6] by simp_all

lemma bit_flags:
  "bit (x OR 1) n \<longleftrightarrow> bit x n \<or> n = 0" "bit (x AND NOT 1) n \<longleftrightarrow> bit x n \<and> n \<noteq> 0"
  "bit (x OR 0x10) n \<longleftrightarrow> bit x n \<or> n = 4" "bit (x AND NOT 0x10) n \<longleftrightarrow> bit x n \<and> n \<noteq> 4"
  for x :: UInteger8
proof -
  have c: "(1 :: UInteger8) = 2 ^ 0" "(0x10 :: UInteger8) = 2 ^ 4" by simp_all
  show "bit (x OR 1) n \<longleftrightarrow> bit x n \<or> n = 0" "bit (x AND NOT 1) n \<longleftrightarrow> bit x n \<and> n \<noteq> 0"
    "bit (x OR 0x10) n \<longleftrightarrow> bit x n \<or> n = 4" "bit (x AND NOT 0x10) n \<longleftrightarrow> bit x n \<and> n \<noteq> 4"
    unfolding c bit_or_iff bit_and_iff bit_not_iff bit_exp_iff by (auto dest: bit_imp_le_length)
qed

lemmas flag_simps = flag_bits bit_flags bit_flags [simplified]

lemma waitNego_frame: "\<exists>n. waitNego t l = l\<lparr>phy_n := n\<rparr>"
proof (induction t l rule: waitNego.induct)
  case (1 t l)
  obtain v k where r: "phyRead l = (v, k)" "k = l\<lparr>phy_n := phy_n l + 1\<rparr>" by (simp add: phyRead_def)
  then show ?case using 1 [OF r(1) [symmetric]] by (subst waitNego.simps) auto
qed

lemma negotiate_frame [simp]:
  "nflags (negotiate l) = nflags l" "ldev (negotiate l) = ldev l" "has_callback (negotiate l) = has_callback l"
  "EthStatus (negotiate l) = EthStatus l" "gratuitous (negotiate l) = gratuitous l"
  using waitNego_frame [of 0 "l\<lparr>phy_writes := 0x1000 # phy_writes l\<rparr>"]
  by (auto simp: negotiate_def phyRead_def Let_def)

lemma netif_set_up_cong [fundef_cong]:
  "l = l' \<Longrightarrow> (\<And>x. nflags l' AND NETIF_FLAG_UP = 0 \<Longrightarrow> x = l'\<lparr>nflags := nflags l' OR NETIF_FLAG_UP\<rparr> \<Longrightarrow> cb x = cb' x) \<Longrightarrow>
    netif_set_up cb l = netif_set_up cb' l'"
  by (simp add: netif_set_up_def NETIF_LINK_CALLBACK_def)

lemma netif_set_down_cong [fundef_cong]:
  "l = l' \<Longrightarrow> (\<And>x. nflags l' AND NETIF_FLAG_UP \<noteq> 0 \<Longrightarrow> x = l'\<lparr>nflags := nflags l' AND NOT NETIF_FLAG_UP\<rparr> \<Longrightarrow> cb x = cb' x) \<Longrightarrow>
    netif_set_down cb l = netif_set_down cb' l'"
  by (simp add: netif_set_down_def NETIF_LINK_CALLBACK_def)

function ETH_link_callback :: "Link \<Rightarrow> Link" where
  "ETH_link_callback l =
    (if netif_is_link_up l then
       (let l = negotiate l;
            l = l\<lparr>ldev := restart (ldev l)\<rparr>
        in netif_set_up ETH_link_callback l)
     else netif_set_down ETH_link_callback l)"
  by pat_completeness auto
termination
  by (relation "measure (\<lambda>l. of_bool (bit (nflags l) 0 \<noteq> bit (nflags l) 4))")
    (auto simp: netif_is_link_up_def flag_simps Let_def)

declare ETH_link_callback.simps [simp del]

subsection \<open>The interrupt\<close>

text \<open>
  \<^verbatim>\<open>Eth_Link_ITHandler\<close>: the loop without end when the link comes up while \<^verbatim>\<open>EthStatus\<close> is 0, which
  nothing in the program changes.
\<close>

definition Eth_Link_ITHandler :: "Link \<Rightarrow> Link option" where
  "Eth_Link_ITHandler l =
    (let (misr, l) = phyRead l
     in if misr AND 0x2000 \<noteq> 0
        then
          let (sr, l) = phyRead l
          in if sr AND 1 \<noteq> 0
             then (if EthStatus l = 0 then None else Some (netif_set_link_up ETH_link_callback l))
             else Some (netif_set_link_down ETH_link_callback l)
        else Some l)"

subsection \<open>The start\<close>

text \<open>The hardware address, from the unique number of the chip.\<close>

definition macOf :: "UInteger32 \<Rightarrow> Octet list" where
  "macOf sn0 = [2, 0, 0, ucast (drop_bit 16 sn0 AND 0xFF), ucast (drop_bit 8 sn0 AND 0xFFF), ucast (sn0 AND 0xFF)]"

definition low_level_init :: "Octet list \<Rightarrow> Link \<Rightarrow> Link" where
  "low_level_init MACaddr l =
    (let l = l\<lparr>ldev := (ldev l)\<lparr>stack := (stack (ldev l))\<lparr>netif_hwaddr := MACaddr\<rparr>\<rparr>\<rparr>;
         l = l\<lparr>nflags := NETIF_FLAG_BROADCAST OR NETIF_FLAG_ETHARP OR NETIF_FLAG_LINK_UP\<rparr>
     in l\<lparr>ldev := (ldev l)\<lparr>stack := ETH_PTPStart True (stack (ldev l))\<rparr>\<rparr>)"

text \<open>\<open>room\<close> is whether \<^verbatim>\<open>mem_malloc\<close> finds the memory for the driver's structure.\<close>

definition ethernetif_init :: "bool \<Rightarrow> Octet list \<Rightarrow> Link \<Rightarrow> bool \<times> Link" where
  "ethernetif_init room MACaddr l =
    (if \<not> room then (False, l)
     else
       let l = low_level_init MACaddr l
       in (True, l\<lparr>nflags := nflags l OR (NETIF_FLAG_IGMP OR NETIF_FLAG_BROADCAST)\<rparr>))"

definition netif_add :: "bool \<Rightarrow> Octet list \<Rightarrow> UInteger32 \<Rightarrow> UInteger32 \<Rightarrow> UInteger32 \<Rightarrow> Link \<Rightarrow> bool \<times> Link" where
  "netif_add room MACaddr ip msk gw l =
    (let l = l\<lparr>ldev := netif_set_addr 0 0 0 (ldev l), nflags := 0, has_callback := False\<rparr>;
         l = l\<lparr>ldev := netif_set_addr ip msk gw (ldev l)\<rparr>
     in ethernetif_init room MACaddr l)"

definition default_FDS :: "ts_FLASH_DATA_SAVE \<Rightarrow> ts_FLASH_DATA_SAVE" where
  "default_FDS s =
    (let s = s\<lparr>ts_local_ipaddr := (ts_local_ipaddr s)\<lparr>ui_ip := 0xE11FA8C0, ui_gatway := 0x011FA8C0, ui_mask := 0x00FFFFFF\<rparr>\<rparr>;
         s = s\<lparr>ts_remote_ipaddr := (ts_remote_ipaddr s)\<lparr>ui_ip := 0x6C1FA8C0\<rparr>\<rparr>
     in s\<lparr>FDS_MODE := emPTPMaster\<rparr>)"

definition LwIP_Init :: "bool \<Rightarrow> UInteger32 \<Rightarrow> Link \<Rightarrow> Link" where
  "LwIP_Init room sn0 l =
    (let l = l\<lparr>ldev := (ldev l)\<lparr>TS_FDS := default_FDS (TS_FDS (ldev l))\<rparr>\<rparr>;
         a = ts_local_ipaddr (TS_FDS (ldev l));
         l = l\<lparr>ldev := netif_set_addr (ui_ip a) (ui_mask a) (ui_gatway a) (ldev l)\<rparr>;
         (_, l) = netif_add room (macOf sn0) (ui_ip a) (ui_mask a) (ui_gatway a) l;
         l = netif_set_up ETH_link_callback l
     in l\<lparr>has_callback := True\<rparr>)"

text \<open>The three serial ports of \<^verbatim>\<open>main_com_init\<close> start empty.\<close>

definition main_com_init :: "Device \<Rightarrow> Device" where
  "main_com_init d = d\<lparr>ports := (\<lambda>_. usart_idle)\<rparr>"

definition system_init :: "bool \<Rightarrow> UInteger32 \<Rightarrow> Link \<Rightarrow> Link" where
  "system_init room sn0 l =
    (let l = LwIP_Init room sn0 l;
         l = l\<lparr>ldev := main_com_init (ldev l)\<rparr>;
         l = l\<lparr>ldev := set_mode emPTPSlave (ldev l)\<rparr>
     in l\<lparr>ldev := (ldev l)\<lparr>stack := TargetTime_Init (FDS_MODE (TS_FDS (ldev l))) (stack (ldev l))\<rparr>\<rparr>)"

subsection \<open>After the start\<close>

lemma callback_down:
  assumes "\<not> netif_is_link_up l"
  shows "ETH_link_callback l = (if bit (nflags l) 0 then l\<lparr>nflags := nflags l AND NOT 1\<rparr> else l)"
proof -
  have d: "ETH_link_callback k = k" if "\<not> netif_is_link_up k" "\<not> bit (nflags k) 0" for k
    using that by (subst ETH_link_callback.simps) (simp add: netif_set_down_def flag_simps)
  let ?k = "l\<lparr>nflags := nflags l AND NOT 1\<rparr>"
  have k: "ETH_link_callback ?k = ?k" using assms by (intro d) (simp_all add: netif_is_link_up_def flag_simps)
  show ?thesis
    using assms k by (subst ETH_link_callback.simps) (simp add: netif_set_down_def NETIF_LINK_CALLBACK_def flag_bits)
qed

lemma callback_up:
  assumes "netif_is_link_up l"
  shows "ldev (ETH_link_callback l) = (if bit (nflags l) 0 \<or> \<not> has_callback l then restart (ldev l) else restart (restart (ldev l)))"
proof -
  have up: "ETH_link_callback k = (negotiate k)\<lparr>ldev := restart (ldev k)\<rparr>" if "netif_is_link_up k" "bit (nflags k) 0" for k
    using that by (subst ETH_link_callback.simps) (simp add: netif_set_up_def flag_simps Let_def)
  have a: "ldev (announceArp k) = ldev k" for k by (simp add: announceArp_def etharp_gratuitous_def)
  show ?thesis
  proof (cases "bit (nflags l) 0")
    case True then show ?thesis by (simp add: up [OF assms])
  next
    case False
    let ?k = "(negotiate l)\<lparr>ldev := restart (ldev l), nflags := nflags l OR 1\<rparr>"
    have "ETH_link_callback ?k = (negotiate ?k)\<lparr>ldev := restart (ldev ?k)\<rparr>"
      using assms by (intro up) (simp_all add: netif_is_link_up_def flag_simps)
    then show ?thesis
      using assms False by (subst ETH_link_callback.simps) (simp add: netif_set_up_def NETIF_LINK_CALLBACK_def flag_simps a Let_def)
  qed
qed

lemma LwIP_Init_eq:
  "LwIP_Init True sn0 l = l\<lparr>ldev := (ldev l)\<lparr>TS_FDS := default_FDS (TS_FDS (ldev l)),
      stack := ETH_PTPStart True ((stack (ldev l))\<lparr>netif_ip := 0xE11FA8C0, netif_hwaddr := macOf sn0\<rparr>),
      netif_netmask := 0x00FFFFFF, netif_gw := 0x011FA8C0\<rparr>,
    nflags := 0x73, has_callback := True, gratuitous := gratuitous l + 1\<rparr>"
  by (simp add: LwIP_Init_def netif_add_def ethernetif_init_def low_level_init_def netif_set_addr_def default_FDS_def
      netif_set_up_def NETIF_LINK_CALLBACK_def announceArp_def etharp_gratuitous_def Let_def)

lemma LwIP_Init_no_memory: "nflags (LwIP_Init False sn0 l) = 1"
  by (simp add: LwIP_Init_def netif_add_def ethernetif_init_def netif_set_up_def NETIF_LINK_CALLBACK_def announceArp_def Let_def)

lemma system_init_boots:
  "ldev (system_init room sn0 l) = dev (boot_slave (ldev (LwIP_Init room sn0 l)))"
  "nflags (system_init room sn0 l) = nflags (LwIP_Init room sn0 l)" "gratuitous (system_init room sn0 l) = gratuitous (LwIP_Init room sn0 l)"
  "has_callback (system_init room sn0 l)"
  by (simp_all add: system_init_def main_com_init_def set_mode_def boot_slave_def LwIP_Init_def Let_def split_beta)

lemma netif_frame [simp]:
  "netif_ip (toState s c) = netif_ip c" "netif_ip (ptpdStartup ro fo c) = netif_ip c"
proof -
  have t: "netif_ip (toState u k) = netif_ip k" for u k
    using core_eqD(13) [OF core_toState [of u k]] by (simp add: entered_def setState_def Let_def)
  show "netif_ip (toState s c) = netif_ip c" by (rule t)
  show "netif_ip (ptpdStartup ro fo c) = netif_ip c" by (simp add: ptpdStartup_def Let_def t)
qed

lemma netif_boot: "netif_ip (TargetTime_Init m c) = netif_ip c" "netif_hwaddr (TargetTime_Init m c) = netif_hwaddr c"
  by (simp_all add: TargetTime_Init_def PTPd_Init_def Let_def)

lemma boot_slave_fields:
  "shown (dev (boot_slave d)) = shown d" "netif_hwaddr (stack (dev (boot_slave d))) = netif_hwaddr (stack d)"
  "FDS_MODE (TS_FDS (dev (boot_slave d))) = emPTPSlave" "ports (dev (boot_slave d)) = (\<lambda>_. usart_idle)" "ts_local_ipaddr (TS_FDS (dev (boot_slave d))) = ts_local_ipaddr (TS_FDS d)"
  by (simp_all add: boot_slave_def set_mode_def shown_def netif_boot)

text \<open>C36: the start of the device: from the zeroed memory \<^verbatim>\<open>system_init\<close> brings the interface up with the
  address 192.168.31.225, the mask 255.255.255.0, the gateway 192.168.31.1 and the hardware address of the
  chip, announces it once by ARP without calling the link callback, and leaves the stack in slave mode, though
  \<^verbatim>\<open>LwIP_Init\<close> sets master mode, and the ports empty, in a state the turns of the main loop keep; without memory
  for the driver the start goes on with an interface that is up but has no link.\<close>

theorem system_boots:
  assumes "powered (stack (ldev l))" and "online ((stack (ldev l))\<lparr>netif_ip := 1\<rparr>)"
  shows "slave_device (ldev (system_init True sn0 l)) \<and> ports (ldev (system_init True sn0 l)) = (\<lambda>_. usart_idle)
    \<and> shown (ldev (system_init True sn0 l)) = [192, 168, 31, 225, 255, 255, 255, 0, 192, 168, 31, 1]
    \<and> netif_hwaddr (stack (ldev (system_init True sn0 l))) = macOf sn0
    \<and> nflags (system_init True sn0 l) = 0x73 \<and> gratuitous (system_init True sn0 l) = gratuitous l + 1
    \<and> FDS_MODE (TS_FDS (ldev (LwIP_Init True sn0 l))) = emPTPMaster
    \<and> FDS_MODE (TS_FDS (ldev (system_init True sn0 l))) = emPTPSlave
    \<and> nflags (system_init False sn0 l) = 1 \<and> \<not> netif_is_link_up (system_init False sn0 l)"
proof -
  let ?d = "ldev (LwIP_Init True sn0 l)"
  have "powered (stack ?d)"
    using assms(1) by (simp add: LwIP_Init_eq powered_def ETH_PTPStart_def emit_def Let_def macOf_def PtpClock.truncate_def)
  moreover have "online (stack ?d)" using assms(2) by (simp add: LwIP_Init_eq online_def ETH_PTPStart_def emit_def Let_def)
  ultimately have "slave_device (dev (boot_slave ?d))" by (rule boot_slave_device)
  moreover have "shown ?d = [192, 168, 31, 225, 255, 255, 255, 0, 192, 168, 31, 1]"
    by (simp add: LwIP_Init_eq shown_def ip4_addrs_def ETH_PTPStart_def emit_def Let_def htonl_def drop_bit_eq_div)
  ultimately show ?thesis
    by (simp add: system_init_boots boot_slave_fields netif_is_link_up_def LwIP_Init_no_memory)
      (simp add: LwIP_Init_eq ETH_PTPStart_def emit_def Let_def default_FDS_def)
qed

theorem system_boots_witness:
  "\<exists>l. slave_device (ldev (system_init True 0x12345678 l)) \<and> macOf 0x12345678 = [2, 0, 0, 0x34, 0x56, 0x78]"
proof -
  let ?l = "\<lparr>ldev = sample_device, nflags = 0, has_callback = False, EthStatus = 0, ETH_AutoNegotiation = True, ETH_Mode = 0,
    ETH_Speed = 0, MACCR = 0, phy_reads = (\<lambda>_. 0), phy_n = 0, phy_writes = [], gratuitous = 0, igmp_reports = 0\<rparr> :: Link"
  have "powered (stack (ldev ?l))" by (simp add: sample_device_def powered_power_up)
  moreover have "online ((stack (ldev ?l))\<lparr>netif_ip := 1\<rparr>)"
    using online_power_up [of "\<lambda>_. 0" "\<lambda>_. 0" "\<lambda>_. tx_good"] by (simp add: sample_device_def online_def)
  ultimately have "slave_device (ldev (system_init True 0x12345678 ?l))" using system_boots by blast
  moreover have "macOf 0x12345678 = [2, 0, 0, 0x34, 0x56, 0x78]"
    by (simp add: macOf_def drop_bit_eq_div)
  ultimately show ?thesis by blast
qed

subsection \<open>Changes of the link\<close>

primrec linkRun :: "nat \<Rightarrow> Link \<Rightarrow> Link option" where
  "linkRun 0 l = Some l"
| "linkRun (Suc n) l = (case linkRun n l of None \<Rightarrow> None | Some k \<Rightarrow> Eth_Link_ITHandler k)"

text \<open>What a run of link interrupts leaves alone, and the flags it can leave.\<close>

definition unlinked :: "Link \<Rightarrow> bool" where
  "unlinked l \<longleftrightarrow> \<not> bit (nflags l) 0 \<and> \<not> bit (nflags l) 4"

definition keeps_link :: "Link \<Rightarrow> Link \<Rightarrow> bool" where
  "keeps_link l k \<longleftrightarrow> ldev k = ldev l \<and> EthStatus k = EthStatus l \<and> has_callback k = has_callback l \<and> phy_reads k = phy_reads l"

lemma link_down_step:
  assumes "has_callback l"
  shows "keeps_link l (netif_set_link_down ETH_link_callback l) \<and> unlinked (netif_set_link_down ETH_link_callback l)"
proof -
  let ?k = "l\<lparr>nflags := nflags l AND NOT 0x10\<rparr>"
  have "ETH_link_callback ?k = (if bit (nflags ?k) 0 then ?k\<lparr>nflags := nflags ?k AND NOT 1\<rparr> else ?k)"
    by (rule callback_down) (simp add: netif_is_link_up_def flag_simps)
  then show ?thesis
    using assms by (simp add: netif_set_link_down_def NETIF_LINK_CALLBACK_def flag_simps keeps_link_def unlinked_def)
qed

lemma interrupt_step:
  assumes "Eth_Link_ITHandler l = Some k" and "EthStatus l = 0" and "has_callback l"
  shows "keeps_link l k \<and> (nflags k = nflags l \<or> unlinked k)"
proof -
  let ?l = "l\<lparr>phy_n := phy_n l + 2\<rparr>"
  have "k = l\<lparr>phy_n := phy_n l + 1\<rparr> \<or> k = netif_set_link_down ETH_link_callback ?l"
    using assms(1,2) by (simp add: Eth_Link_ITHandler_def phyRead_def Let_def split: if_splits)
  then show ?thesis using link_down_step [of ?l] assms(3) by (elim disjE) (simp_all add: keeps_link_def)
qed

text \<open>C37: a link that has gone down never comes back: whatever the PHY reports, as long as the interrupts return
  they change neither the addresses nor the stack, the interface either keeps its flags or is left without link and
  down, and an interrupt that reports the link up never returns, for \<^verbatim>\<open>EthStatus\<close> stays 0.\<close>

theorem link_never_returns:
  assumes "linkRun n l = Some k" and "EthStatus l = 0" and "has_callback l"
  shows "ldev k = ldev l \<and> (nflags k = nflags l \<or> unlinked k)
    \<and> (phy_reads l (phy_n k) AND 0x2000 \<noteq> 0 \<and> phy_reads l (phy_n k + 1) AND 1 \<noteq> 0 \<longrightarrow> linkRun (Suc n) l = None)"
proof -
  have "keeps_link l k \<and> (nflags k = nflags l \<or> unlinked k)"
    using assms(1)
  proof (induction n arbitrary: k)
    case 0
    then show ?case by (simp add: keeps_link_def)
  next
    case (Suc n)
    then obtain j where j: "linkRun n l = Some j" "Eth_Link_ITHandler j = Some k" by (auto split: option.splits)
    have "keeps_link l j" "nflags j = nflags l \<or> unlinked j" using Suc.IH [OF j(1)] by simp_all
    moreover have "keeps_link j k" "nflags k = nflags j \<or> unlinked k"
      using interrupt_step [OF j(2)] calculation(1) assms(2,3) by (simp_all add: keeps_link_def)
    ultimately show ?case by (auto simp: keeps_link_def unlinked_def)
  qed
  then show ?thesis
    using assms by (auto simp: Eth_Link_ITHandler_def phyRead_def Let_def keeps_link_def)
qed

text \<open>A link that goes down and comes up again.\<close>

definition sample_link :: "UInteger16 list \<Rightarrow> Link" where
  "sample_link vs = \<lparr>ldev = sample_device, nflags = 0x73, has_callback = True, EthStatus = 0, ETH_AutoNegotiation = True,
    ETH_Mode = 0, ETH_Speed = 0, MACCR = 0, phy_reads = (\<lambda>n. (vs @ replicate (n + 1) 0) ! n), phy_n = 0, phy_writes = [],
    gratuitous = 1, igmp_reports = 0\<rparr>"

theorem link_never_returns_witness:
  "\<exists>k. linkRun 1 (sample_link [0x2000, 0, 0x2000, 1]) = Some k \<and> linkRun 2 (sample_link [0x2000, 0, 0x2000, 1]) = None"
proof -
  let ?l = "sample_link [0x2000, 0, 0x2000, 1]"
  let ?k = "netif_set_link_down ETH_link_callback (?l\<lparr>phy_n := Suc (Suc 0)\<rparr>)"
  have r: "linkRun 1 ?l = Some ?k" by (simp add: Eth_Link_ITHandler_def phyRead_def Let_def sample_link_def)
  have "phy_n ?k = 2"
    by (simp add: netif_set_link_down_def NETIF_LINK_CALLBACK_def callback_down netif_is_link_up_def flag_simps sample_link_def)
  then have "linkRun (Suc 1) ?l = None"
    using link_never_returns [OF r] by (simp add: sample_link_def)
  then show ?thesis using r by (simp add: numeral_2_eq_2)
qed

text \<open>the addresses after the link callback: it converts the configured addresses with \<^verbatim>\<open>htonl\<close>, but
  \<^verbatim>\<open>LwIP_Init\<close> has stored them in network order already, so the callback turns 192.168.31.225 into 225.31.168.192
  and the gateway and mask likewise; addresses given by the command \<^verbatim>\<open>AT+SETP\<close>, stored in host order, survive
  it.  The stack is started again twice when the interface was down, once when it was up.\<close>

theorem link_callback_addresses:
  assumes "netif_is_link_up l"
  shows "ldev (ETH_link_callback l) = (if nflags l AND 1 \<noteq> 0 \<or> \<not> has_callback l then restart (ldev l) else restart (restart (ldev l)))
    \<and> (ldev l = ldev (system_init True sn0 l0) \<longrightarrow>
        shown (ldev (ETH_link_callback l)) = [225, 31, 168, 192, 0, 255, 255, 255, 1, 31, 168, 192])
    \<and> (ldev l = setp_apply prog d \<longrightarrow> shown (ldev (ETH_link_callback l)) = shown (ldev l))"
proof -
  have a: "ts_local_ipaddr (TS_FDS (restart d)) = ts_local_ipaddr (TS_FDS d)"
    "netif_ip (stack (restart d)) = htonl (ui_ip (ts_local_ipaddr (TS_FDS d)))"
    "netif_netmask (restart d) = htonl (ui_mask (ts_local_ipaddr (TS_FDS d)))"
    "netif_gw (restart d) = htonl (ui_gatway (ts_local_ipaddr (TS_FDS d)))" for d
    by (simp_all add: restart_def netif_set_addr_def Let_def)
  note cb = callback_up [OF assms]
  have s: "shown (ldev (ETH_link_callback l)) = (let r = ts_local_ipaddr (TS_FDS (ldev l)) in
      ip4_addrs (htonl (ui_ip r)) @ ip4_addrs (htonl (ui_mask r)) @ ip4_addrs (htonl (ui_gatway r)))"
    by (simp add: cb shown_def a Let_def)
  show ?thesis
  proof (intro conjI impI)
    show "ldev (ETH_link_callback l) = (if nflags l AND 1 \<noteq> 0 \<or> \<not> has_callback l then restart (ldev l) else restart (restart (ldev l)))"
      unfolding cb by (simp add: flag_bits)
    assume "ldev l = ldev (system_init True sn0 l0)"
    then have "ts_local_ipaddr (TS_FDS (ldev l)) = (ts_local_ipaddr (TS_FDS (ldev l0)))\<lparr>ui_ip := 0xE11FA8C0, ui_gatway := 0x011FA8C0, ui_mask := 0x00FFFFFF\<rparr>"
      by (simp add: system_init_boots boot_slave_fields LwIP_Init_eq default_FDS_def Let_def)
    then show "shown (ldev (ETH_link_callback l)) = [225, 31, 168, 192, 0, 255, 255, 255, 1, 31, 168, 192]"
      unfolding s by (simp add: ip4_addrs_def htonl_htonl drop_bit_eq_div Let_def)
  next
    assume "ldev l = setp_apply prog d"
    then show "shown (ldev (ETH_link_callback l)) = shown (ldev l)"
      unfolding s by (simp add: setp_apply_def netif_set_addr_def shown_def IP4_ADDR_def save_FDS_def dev_send_def Let_def)
  qed
qed

end
