(* ===== verification/Lwip_Arp.thy ===== *)
theory Lwip_Arp
  imports Ptp_Bytes Dev_Eth
begin

text \<open>
  lwIP below the sockets, first part: packet buffers (\<^verbatim>\<open>core/pbuf.c\<close>), the tests on addresses
  (\<^verbatim>\<open>ip_addr.c\<close>, \<^verbatim>\<open>ip_addr.h\<close>) and the address resolution of \<^verbatim>\<open>netif/etharp.c\<close> with its table, its
  queues and its timer, as configured by \<^verbatim>\<open>lwipopts.h\<close> for the one interface of the device.
\<close>

definition ERR_MEM :: int where "ERR_MEM = -1"
definition ERR_BUF :: int where "ERR_BUF = -2"
definition ERR_RTE :: int where "ERR_RTE = -4"
definition ERR_VAL :: int where "ERR_VAL = -9"
definition ERR_USE :: int where "ERR_USE = -11"
definition ERR_ARG :: int where "ERR_ARG = -10"

lemmas lwip_errs = ERR_OK_def ERR_MEM_def ERR_BUF_def ERR_RTE_def ERR_VAL_def ERR_USE_def ERR_ARG_def

abbreviation (input) NETIF_FLAG_UP :: UInteger8 where "NETIF_FLAG_UP \<equiv> 0x01"
abbreviation (input) NETIF_FLAG_BROADCAST :: UInteger8 where "NETIF_FLAG_BROADCAST \<equiv> 0x02"
abbreviation (input) NETIF_FLAG_IGMP :: UInteger8 where "NETIF_FLAG_IGMP \<equiv> 0x40"

subsection \<open>Packet buffers\<close>

text \<open>
  A chain of buffers in RAM or from the pool: the memory in front of the payload, the payload of the first buffer, the memory behind
  it, and the payloads of the following buffers.
\<close>

record Pbuf =
  pb_room :: "Octet list"
  pb_head :: "Octet list"
  pb_stale :: "nat \<Rightarrow> Octet"
  pb_next :: "Octet list list"

definition pbytes :: "Pbuf \<Rightarrow> Octet list" where
  "pbytes p = pb_head p @ concat (pb_next p)"

definition pb_tot_len :: "Pbuf \<Rightarrow> nat" where
  "pb_tot_len p = length (pb_head p) + sum_list (map length (pb_next p))"

text \<open>The first \<open>n\<close> bytes at the payload pointer, as a header structure sees them.\<close>

definition hdr :: "nat \<Rightarrow> Pbuf \<Rightarrow> Octet list" where
  "hdr n p = take n (pb_head p @ map (pb_stale p) [0..<n])"

text \<open>\<^verbatim>\<open>pbuf_header\<close>: \<open>True\<close> is the failure the code tests for.\<close>

definition pbuf_header :: "Pbuf \<Rightarrow> int \<Rightarrow> bool \<times> Pbuf" where
  "pbuf_header p inc =
    (if inc = 0 then (False, p)
     else if inc < 0
     then
       let n = nat (- inc)
       in if n \<le> length (pb_head p)
          then (False, p\<lparr>pb_room := pb_room p @ take n (pb_head p), pb_head := drop n (pb_head p)\<rparr>)
          else (True, p)
     else
       let k = length (pb_room p) - nat inc
       in if nat inc \<le> length (pb_room p)
          then (False, p\<lparr>pb_room := take k (pb_room p), pb_head := drop k (pb_room p) @ pb_head p\<rparr>)
          else (True, p))"

text \<open>A store into the first buffer.\<close>

definition pb_put :: "(Octet list \<Rightarrow> Octet list) \<Rightarrow> Pbuf \<Rightarrow> Pbuf" where
  "pb_put f p = p\<lparr>pb_head := f (pb_head p)\<rparr>"

text \<open>The memory behind the first buffer when only \<open>n\<close> bytes of it are kept: the cut bytes are still there.\<close>

definition cutStale :: "nat \<Rightarrow> Pbuf \<Rightarrow> nat \<Rightarrow> Octet" where
  "cutStale n p k = (let d = drop n (pb_head p) in if k < length d then d ! k else pb_stale p (k - length d))"

text \<open>\<^verbatim>\<open>pbuf_realloc\<close>: step over the buffers that stay, cut the last one, drop the rest.\<close>

fun trimChain :: "nat \<Rightarrow> Octet list list \<Rightarrow> Octet list list" where
  "trimChain n [] = []"
| "trimChain n (q # qs) = (if n > length q then q # trimChain (n - length q) qs else [take n q])"

definition pbuf_realloc :: "Pbuf \<Rightarrow> nat \<Rightarrow> Pbuf" where
  "pbuf_realloc p new_len =
    (if new_len \<ge> pb_tot_len p then p
     else case trimChain new_len (pb_head p # pb_next p) of
            h # t \<Rightarrow> p\<lparr>pb_head := h, pb_stale := cutStale (length h) p, pb_next := t\<rparr>
          | [] \<Rightarrow> p)"

subsection \<open>The state\<close>

datatype etharp_state = ETHARP_STATE_EMPTY | ETHARP_STATE_PENDING | ETHARP_STATE_STABLE

record etharp_entry =
  arp_q :: "Pbuf list"
  arp_ipaddr :: UInteger32
  arp_ethaddr :: "Octet list"
  arp_state :: etharp_state
  arp_ctime :: UInteger8

definition ARP_TABLE_SIZE :: nat where "ARP_TABLE_SIZE = 10"
definition ARP_MAXAGE :: UInteger8 where "ARP_MAXAGE = 240"
definition ARP_MAXPENDING :: UInteger8 where "ARP_MAXPENDING = 2"

text \<open>The callback a control block holds: the ones the program registers.\<close>

datatype Recv = netRecvEvent | netRecvGeneral | sntp_server_recv | sntp_client_recv

record udp_pcb =
  local_ip :: UInteger32
  remote_ip :: UInteger32
  pcb_tos :: UInteger8
  pcb_ttl :: UInteger8
  connected :: bool
  local_port :: UInteger16
  remote_port :: UInteger16
  multicast_ip :: UInteger32
  recv_fn :: "Recv option"

text \<open>A multicast group of \<^verbatim>\<open>igmp.c\<close>; there is one interface, so its \<^verbatim>\<open>interface\<close> field is left out.\<close>

datatype igmp_group_state = IGMP_GROUP_NON_MEMBER | IGMP_GROUP_DELAYING_MEMBER | IGMP_GROUP_IDLE_MEMBER

record igmp_group =
  group_address :: UInteger32
  last_reporter_flag :: bool
  group_state :: igmp_group_state
  ig_timer :: UInteger16
  ig_use :: UInteger8

text \<open>
  What the code does to the outside: a frame given to the driver, a datagram given to the callback of a control block, a packet
  given to a part that is not modelled, and a received or queued packet freed.
\<close>

datatype LwipOut =
    Frame "Octet list"
  | UdpRecv nat Recv Pbuf UInteger32 UInteger16
  | TcpInput Pbuf
  | IcmpInput Pbuf
  | Reassemble Pbuf
  | DestUnreach UInteger8 Pbuf
  | Freed

text \<open>
  A control block is named by a number, \<open>pcbs\<close> is the memory they are in, \<open>pcb_n\<close> the number of the next one that is allocated
  and \<open>udp_pcbs\<close> the list of the active ones.  \<open>link_errs\<close> are the results of \<^verbatim>\<open>netif->linkoutput\<close>, \<open>mem_oks\<close> those of the allocations; \<open>if_listed\<close> and \<open>if_default\<close> say
  that the interface is in \<^verbatim>\<open>netif_list\<close> and is \<^verbatim>\<open>netif_default\<close>, \<open>groups\<close> is \<^verbatim>\<open>igmp_group_list\<close> and
  \<open>frag_buf\<close> the static buffer of \<^verbatim>\<open>ip_frag.c\<close>.  Most recent output first.
\<close>

record Lwip =
  if_ip :: UInteger32
  if_mask :: UInteger32
  if_gw :: UInteger32
  if_flags :: UInteger8
  if_hwaddr :: "Octet list"
  if_listed :: bool
  if_default :: bool
  arp_table :: "etharp_entry list"
  etharp_cached_entry :: nat
  ip_id :: UInteger16
  frag_buf :: "Octet list"
  pcbs :: "nat \<Rightarrow> udp_pcb"
  pcb_n :: nat
  udp_pcbs :: "nat list"
  groups :: "igmp_group list"
  link_errs :: "nat \<Rightarrow> int"
  link_n :: nat
  mem_oks :: "nat \<Rightarrow> bool"
  mem_n :: nat
  lwip_out :: "LwipOut list"

definition out :: "LwipOut \<Rightarrow> Lwip \<Rightarrow> Lwip" where
  "out x l = l\<lparr>lwip_out := x # lwip_out l\<rparr>"

definition pbuf_free :: "Lwip \<Rightarrow> Lwip" where
  "pbuf_free l = out Freed l"

definition mem_alloc :: "Lwip \<Rightarrow> bool \<times> Lwip" where
  "mem_alloc l = (mem_oks l (mem_n l), l\<lparr>mem_n := mem_n l + 1\<rparr>)"

definition linkoutput :: "Pbuf \<Rightarrow> Lwip \<Rightarrow> int \<times> Lwip" where
  "linkoutput p l = (link_errs l (link_n l), out (Frame (pbytes p)) (l\<lparr>link_n := link_n l + 1\<rparr>))"

subsection \<open>Addresses\<close>

text \<open>An address is the word in memory, with its bytes in network order.\<close>

definition ip_addr_isany :: "UInteger32 \<Rightarrow> bool" where "ip_addr_isany a \<longleftrightarrow> a = 0"

definition ip_addr_netcmp :: "UInteger32 \<Rightarrow> UInteger32 \<Rightarrow> UInteger32 \<Rightarrow> bool" where
  "ip_addr_netcmp a b m \<longleftrightarrow> a AND m = b AND m"

definition ip_addr_ismulticast :: "UInteger32 \<Rightarrow> bool" where
  "ip_addr_ismulticast a \<longleftrightarrow> a AND htonl 0xf0000000 = htonl 0xe0000000"

definition ip_addr_isbroadcast :: "UInteger32 \<Rightarrow> Lwip \<Rightarrow> bool" where
  "ip_addr_isbroadcast addr l =
    (if NOT addr = 0 \<or> addr = 0 then True
     else if if_flags l AND NETIF_FLAG_BROADCAST = 0 then False
     else if addr = if_ip l then False
     else if ip_addr_netcmp addr (if_ip l) (if_mask l)
        \<and> addr AND NOT (if_mask l) = 0xffffffff AND NOT (if_mask l) then True
     else False)"

definition ethbroadcast :: "Octet list" where "ethbroadcast = [0xff, 0xff, 0xff, 0xff, 0xff, 0xff]"
definition ethzero :: "Octet list" where "ethzero = [0, 0, 0, 0, 0, 0]"

subsection \<open>The table\<close>

definition on_entry :: "nat \<Rightarrow> (etharp_entry \<Rightarrow> etharp_entry) \<Rightarrow> Lwip \<Rightarrow> Lwip" where
  "on_entry i f l = l\<lparr>arp_table := (arp_table l)[i := f (arp_table l ! i)]\<rparr>"

text \<open>\<^verbatim>\<open>free_etharp_q\<close> frees every packet of a queue.\<close>

fun free_etharp_q :: "Pbuf list \<Rightarrow> Lwip \<Rightarrow> Lwip" where
  "free_etharp_q [] l = l"
| "free_etharp_q (p # q) l = free_etharp_q q (pbuf_free l)"

definition expired :: "etharp_entry \<Rightarrow> bool" where
  "expired e \<longleftrightarrow> arp_state e = ETHARP_STATE_STABLE \<and> arp_ctime e \<ge> ARP_MAXAGE
    \<or> arp_state e = ETHARP_STATE_PENDING \<and> arp_ctime e \<ge> ARP_MAXPENDING"

definition tmrEntry :: "nat \<Rightarrow> Lwip \<Rightarrow> Lwip" where
  "tmrEntry i l =
    (let l = on_entry i (\<lambda>e. e\<lparr>arp_ctime := arp_ctime e + 1\<rparr>) l;
         e = arp_table l ! i
     in if expired e
        then on_entry i (\<lambda>e. e\<lparr>arp_q := [], arp_state := ETHARP_STATE_EMPTY\<rparr>) (free_etharp_q (arp_q e) l)
        else l)"

definition etharp_tmr :: "Lwip \<Rightarrow> Lwip" where
  "etharp_tmr l = fold tmrEntry [0..<ARP_TABLE_SIZE] l"

text \<open>The candidates \<^verbatim>\<open>find_entry\<close> collects in its sweep; \<^verbatim>\<open>ARP_TABLE_SIZE\<close> is none.\<close>

record Candidates =
  c_empty :: nat
  c_stable :: nat
  c_pending :: nat
  c_queue :: nat
  age_stable :: UInteger8
  age_pending :: UInteger8
  age_queue :: UInteger8

definition no_candidates :: Candidates where
  "no_candidates = \<lparr>c_empty = ARP_TABLE_SIZE, c_stable = ARP_TABLE_SIZE, c_pending = ARP_TABLE_SIZE, c_queue = ARP_TABLE_SIZE,
    age_stable = 0, age_pending = 0, age_queue = 0\<rparr>"

fun sweep :: "UInteger32 \<Rightarrow> nat \<Rightarrow> etharp_entry list \<Rightarrow> Candidates \<Rightarrow> nat + Candidates" where
  "sweep a i [] c = Inr c"
| "sweep a i (e # es) c =
    (if c_empty c = ARP_TABLE_SIZE \<and> arp_state e = ETHARP_STATE_EMPTY then sweep a (Suc i) es (c\<lparr>c_empty := i\<rparr>)
     else if arp_state e = ETHARP_STATE_PENDING
     then
       if a = arp_ipaddr e then Inl i
       else if arp_q e \<noteq> []
       then sweep a (Suc i) es (if arp_ctime e \<ge> age_queue c then c\<lparr>c_queue := i, age_queue := arp_ctime e\<rparr> else c)
       else sweep a (Suc i) es (if arp_ctime e \<ge> age_pending c then c\<lparr>c_pending := i, age_pending := arp_ctime e\<rparr> else c)
     else if arp_state e = ETHARP_STATE_STABLE
     then
       if a = arp_ipaddr e then Inl i
       else sweep a (Suc i) es (if arp_ctime e \<ge> age_stable c then c\<lparr>c_stable := i, age_stable := arp_ctime e\<rparr> else c)
     else sweep a (Suc i) es c)"

text \<open>\<^verbatim>\<open>find_entry\<close>, with the flags \<^verbatim>\<open>ETHARP_TRY_HARD\<close> and \<^verbatim>\<open>ETHARP_FIND_ONLY\<close>; every caller gives an address.\<close>

definition newEntry :: "UInteger32 \<Rightarrow> nat \<Rightarrow> Lwip \<Rightarrow> int \<times> Lwip" where
  "newEntry a i l =
    (int i, (on_entry i (\<lambda>e. e\<lparr>arp_state := ETHARP_STATE_EMPTY, arp_ipaddr := a, arp_ctime := 0\<rparr>) l)\<lparr>etharp_cached_entry := i\<rparr>)"

definition find_entry :: "UInteger32 \<Rightarrow> bool \<Rightarrow> bool \<Rightarrow> Lwip \<Rightarrow> int \<times> Lwip" where
  "find_entry a try_hard find_only l =
    (if arp_state (arp_table l ! etharp_cached_entry l) = ETHARP_STATE_STABLE \<and> a = arp_ipaddr (arp_table l ! etharp_cached_entry l)
     then (int (etharp_cached_entry l), l)
     else
       case sweep a 0 (arp_table l) no_candidates of
         Inl i \<Rightarrow> (int i, l\<lparr>etharp_cached_entry := i\<rparr>)
       | Inr c \<Rightarrow>
           if c_empty c = ARP_TABLE_SIZE \<and> \<not> try_hard \<or> find_only then (ERR_MEM, l)
           else if c_empty c < ARP_TABLE_SIZE then newEntry a (c_empty c) l
           else if c_stable c < ARP_TABLE_SIZE then newEntry a (c_stable c) l
           else if c_pending c < ARP_TABLE_SIZE then newEntry a (c_pending c) l
           else if c_queue c < ARP_TABLE_SIZE
           then newEntry a (c_queue c)
             (on_entry (c_queue c) (\<lambda>e. e\<lparr>arp_q := []\<rparr>) (free_etharp_q (arp_q (arp_table l ! c_queue c)) l))
           else (ERR_MEM, l))"

subsection \<open>Sending\<close>

definition ETHTYPE_IP :: UInteger16 where "ETHTYPE_IP = 0x0800"
definition ETHTYPE_ARP :: UInteger16 where "ETHTYPE_ARP = 0x0806"
definition ARP_REQUEST :: UInteger16 where "ARP_REQUEST = 1"
definition ARP_REPLY :: UInteger16 where "ARP_REPLY = 2"

definition etharp_send_ip :: "Pbuf \<Rightarrow> Octet list \<Rightarrow> Octet list \<Rightarrow> Lwip \<Rightarrow> int \<times> Lwip" where
  "etharp_send_ip p src dst l =
    (let p = pb_put (\<lambda>b. put_bytes b 0 dst) p;
         p = pb_put (\<lambda>b. put_bytes b 6 src) p;
         p = pb_put (\<lambda>b. put16 b 12 (htons ETHTYPE_IP)) p
     in linkoutput p l)"

fun sendQueued :: "Pbuf list \<Rightarrow> Octet list \<Rightarrow> Lwip \<Rightarrow> Lwip" where
  "sendQueued [] eth l = l"
| "sendQueued (p # q) eth l = sendQueued q eth (pbuf_free (snd (etharp_send_ip p (if_hwaddr l) eth l)))"

definition update_arp_entry :: "UInteger32 \<Rightarrow> Octet list \<Rightarrow> bool \<Rightarrow> Lwip \<Rightarrow> int \<times> Lwip" where
  "update_arp_entry ip eth try_hard l =
    (if ip_addr_isany ip \<or> ip_addr_isbroadcast ip l \<or> ip_addr_ismulticast ip then (ERR_ARG, l)
     else
       let (i, l) = find_entry ip try_hard False l
       in if i < 0 then (i, l)
          else
            let l = on_entry (nat i) (\<lambda>e. e\<lparr>arp_state := ETHARP_STATE_STABLE, arp_ethaddr := eth, arp_ctime := 0\<rparr>) l;
                q = arp_q (arp_table l ! nat i)
            in (ERR_OK, sendQueued q eth (on_entry (nat i) (\<lambda>e. e\<lparr>arp_q := []\<rparr>) l)))"

definition arpPacket ::
  "Octet list \<Rightarrow> Octet list \<Rightarrow> Octet list \<Rightarrow> UInteger32 \<Rightarrow> Octet list \<Rightarrow> UInteger32 \<Rightarrow> UInteger16 \<Rightarrow> Octet list" where
  "arpPacket ethsrc ethdst hwsrc ipsrc hwdst ipdst opcode =
    (let b = replicate 42 0;
         b = put16 b 20 (htons opcode);
         b = put_bytes (put_bytes b 22 hwsrc) 32 hwdst;
         b = put_bytes (put_bytes b 0 ethdst) 6 ethsrc;
         b = put32 (put32 b 28 ipsrc) 38 ipdst;
         b = put16 (put16 b 14 (htons 1)) 16 (htons ETHTYPE_IP);
         b = put16 b 18 (htons (push_bit 8 6 OR 4))
     in put16 b 12 (htons ETHTYPE_ARP))"

definition etharp_raw ::
  "Octet list \<Rightarrow> Octet list \<Rightarrow> Octet list \<Rightarrow> UInteger32 \<Rightarrow> Octet list \<Rightarrow> UInteger32 \<Rightarrow> UInteger16 \<Rightarrow> Lwip \<Rightarrow> int \<times> Lwip" where
  "etharp_raw ethsrc ethdst hwsrc ipsrc hwdst ipdst opcode l =
    (let (ok, l) = mem_alloc l
     in if \<not> ok then (ERR_MEM, l)
        else
          let b = arpPacket ethsrc ethdst hwsrc ipsrc hwdst ipdst opcode;
              (result, l) = linkoutput \<lparr>pb_room = [], pb_head = b, pb_stale = (\<lambda>_. 0), pb_next = []\<rparr> l
          in (result, pbuf_free l))"

definition etharp_request :: "UInteger32 \<Rightarrow> Lwip \<Rightarrow> int \<times> Lwip" where
  "etharp_request ip l = etharp_raw (if_hwaddr l) ethbroadcast (if_hwaddr l) (if_ip l) ethzero ip ARP_REQUEST l"

text \<open>
  \<^verbatim>\<open>etharp_query\<close> for a packet \<open>q\<close>: every packet of the program is in RAM or from the pool, so a packet that has
  to wait is copied.
\<close>

definition queueCopy :: "nat \<Rightarrow> Pbuf \<Rightarrow> int \<Rightarrow> Lwip \<Rightarrow> int \<times> Lwip" where
  "queueCopy i q result l =
    (let (ok, l) = mem_alloc l
     in if \<not> ok then (result, l)
        else
          let p = \<lparr>pb_room = [], pb_head = pbytes q, pb_stale = (\<lambda>_. 0), pb_next = []\<rparr>;
              (ok, l) = mem_alloc l
          in if ok then (ERR_OK, on_entry i (\<lambda>e. e\<lparr>arp_q := arp_q e @ [p]\<rparr>) l)
             else (result, pbuf_free l))"

definition markPending :: "nat \<Rightarrow> Lwip \<Rightarrow> Lwip" where
  "markPending i l =
    (if arp_state (arp_table l ! i) = ETHARP_STATE_EMPTY then on_entry i (\<lambda>e. e\<lparr>arp_state := ETHARP_STATE_PENDING\<rparr>) l else l)"

definition queryEntry :: "nat \<Rightarrow> UInteger32 \<Rightarrow> Pbuf \<Rightarrow> Lwip \<Rightarrow> int \<times> Lwip" where
  "queryEntry i ip q l =
    (let (result, l) = (if arp_state (arp_table l ! i) = ETHARP_STATE_PENDING then etharp_request ip l else (ERR_MEM, l))
     in if arp_state (arp_table l ! i) = ETHARP_STATE_STABLE
        then etharp_send_ip q (if_hwaddr l) (arp_ethaddr (arp_table l ! i)) l
        else if arp_state (arp_table l ! i) = ETHARP_STATE_PENDING then queueCopy i q result l
        else (result, l))"

definition etharp_query :: "UInteger32 \<Rightarrow> Pbuf \<Rightarrow> Lwip \<Rightarrow> int \<times> Lwip" where
  "etharp_query ip q l =
    (if ip_addr_isbroadcast ip l \<or> ip_addr_ismulticast ip \<or> ip_addr_isany ip then (ERR_ARG, l)
     else
       let (i, l) = find_entry ip True False l
       in if i < 0 then (i, l) else queryEntry (nat i) ip q (markPending (nat i) l))"

definition mcastaddr :: "UInteger32 \<Rightarrow> Octet list" where
  "mcastaddr ip = [0x01, 0x00, 0x5e, ucast (drop_bit 16 (htonl ip)) AND 0x7f, ucast (drop_bit 8 (htonl ip)), ucast (htonl ip)]"

definition etharp_output :: "Pbuf \<Rightarrow> UInteger32 \<Rightarrow> Lwip \<Rightarrow> int \<times> Lwip" where
  "etharp_output q ip l =
    (let (failed, q) = pbuf_header q 14
     in if failed then (ERR_BUF, l)
        else if ip_addr_isbroadcast ip l then etharp_send_ip q (if_hwaddr l) ethbroadcast l
        else if ip_addr_ismulticast ip then etharp_send_ip q (if_hwaddr l) (mcastaddr ip) l
        else if \<not> ip_addr_netcmp ip (if_ip l) (if_mask l)
        then (if if_gw l \<noteq> 0 then etharp_query (if_gw l) q l else (ERR_RTE, l))
        else etharp_query ip q l)"

subsection \<open>Receiving\<close>

definition etharp_ip_input :: "Pbuf \<Rightarrow> Lwip \<Rightarrow> Lwip" where
  "etharp_ip_input p l =
    (let h = hdr 34 p; src = get32 h 26
     in if \<not> ip_addr_netcmp src (if_ip l) (if_mask l) then l
        else snd (update_arp_entry src (get_bytes h 6 6) False l))"

definition arpReply :: "Octet list \<Rightarrow> Octet list \<Rightarrow> Lwip \<Rightarrow> Octet list" where
  "arpReply b ethaddr l =
    (let shw = get_bytes b 22 6;
         b = put16 b 20 (htons ARP_REPLY);
         b = put32 b 38 (get32 b 28);
         b = put32 b 28 (if_ip l);
         b = put_bytes b 32 shw;
         b = put_bytes b 0 shw;
         b = put_bytes b 22 ethaddr
     in put_bytes b 6 ethaddr)"

definition etharp_arp_input :: "Octet list \<Rightarrow> Pbuf \<Rightarrow> Lwip \<Rightarrow> Lwip" where
  "etharp_arp_input ethaddr p l =
    (if length (pb_head p) < 42 then pbuf_free l
     else
       let b = pb_head p
       in if get16 b 14 \<noteq> htons 1 \<or> get16 b 18 \<noteq> htons (push_bit 8 6 OR 4) \<or> get16 b 16 \<noteq> htons ETHTYPE_IP
             \<or> get16 b 12 \<noteq> htons ETHTYPE_ARP
          then pbuf_free l
          else
            let sipaddr = get32 b 28; dipaddr = get32 b 38;
                for_us = (if_ip l \<noteq> 0 \<and> dipaddr = if_ip l);
                l = snd (update_arp_entry sipaddr (get_bytes b 22 6) for_us l);
                l = (if htons (get16 b 20) = ARP_REQUEST \<and> for_us
                     then snd (linkoutput (pb_put (\<lambda>b. arpReply b ethaddr l) p) l) else l)
            in pbuf_free l)"

subsection \<open>The search\<close>

abbreviation live :: "etharp_entry \<Rightarrow> bool" where "live e \<equiv> arp_state e \<noteq> ETHARP_STATE_EMPTY"

text \<open>A table in order: an address has at most one live entry, only a pending entry has packets waiting, and a live
  entry is younger than the age at which the timer drops it.\<close>

definition table_ok :: "etharp_entry list \<Rightarrow> bool" where
  "table_ok t \<longleftrightarrow> length t = ARP_TABLE_SIZE
    \<and> (\<forall>i j. i < length t \<longrightarrow> j < length t \<longrightarrow> live (t ! i) \<longrightarrow> live (t ! j) \<longrightarrow> arp_ipaddr (t ! i) = arp_ipaddr (t ! j) \<longrightarrow> i = j)
    \<and> (\<forall>e \<in> set t. arp_q e \<noteq> [] \<longrightarrow> arp_state e = ETHARP_STATE_PENDING)
    \<and> (\<forall>e \<in> set t. live e \<longrightarrow> arp_ctime e < ARP_MAXAGE)"

definition arp_ok :: "Lwip \<Rightarrow> bool" where
  "arp_ok l \<longleftrightarrow> table_ok (arp_table l) \<and> etharp_cached_entry l < ARP_TABLE_SIZE"

lemma arp_okD:
  assumes "arp_ok l"
  shows "length (arp_table l) = 10" "etharp_cached_entry l < 10"
    "i < 10 \<Longrightarrow> j < 10 \<Longrightarrow> live (arp_table l ! i) \<Longrightarrow> live (arp_table l ! j) \<Longrightarrow>
      arp_ipaddr (arp_table l ! i) = arp_ipaddr (arp_table l ! j) \<Longrightarrow> i = j"
    "e \<in> set (arp_table l) \<Longrightarrow> arp_q e \<noteq> [] \<Longrightarrow> arp_state e = ETHARP_STATE_PENDING"
    "e \<in> set (arp_table l) \<Longrightarrow> live e \<Longrightarrow> arp_ctime e < ARP_MAXAGE"
  using assms by (auto simp: arp_ok_def table_ok_def ARP_TABLE_SIZE_def)

definition candidates_ok :: "etharp_entry list \<Rightarrow> Candidates \<Rightarrow> bool" where
  "candidates_ok t c \<longleftrightarrow>
    (c_stable c < length t \<longrightarrow> arp_state (t ! c_stable c) = ETHARP_STATE_STABLE)
    \<and> (c_pending c < length t \<longrightarrow> arp_state (t ! c_pending c) = ETHARP_STATE_PENDING \<and> arp_q (t ! c_pending c) = [])
    \<and> (c_empty c < length t \<longrightarrow> arp_state (t ! c_empty c) = ETHARP_STATE_EMPTY)"

definition some_candidate :: "Candidates \<Rightarrow> bool" where
  "some_candidate c \<longleftrightarrow> c_empty c < ARP_TABLE_SIZE \<or> c_stable c < ARP_TABLE_SIZE \<or> c_pending c < ARP_TABLE_SIZE \<or> c_queue c < ARP_TABLE_SIZE"

definition remember :: "nat \<Rightarrow> etharp_entry \<Rightarrow> Candidates \<Rightarrow> Candidates" where
  "remember i e c = (case arp_state e of
      ETHARP_STATE_EMPTY \<Rightarrow> (if c_empty c = ARP_TABLE_SIZE then c\<lparr>c_empty := i\<rparr> else c)
    | ETHARP_STATE_PENDING \<Rightarrow>
        (if arp_q e \<noteq> [] then (if arp_ctime e \<ge> age_queue c then c\<lparr>c_queue := i, age_queue := arp_ctime e\<rparr> else c)
         else if arp_ctime e \<ge> age_pending c then c\<lparr>c_pending := i, age_pending := arp_ctime e\<rparr> else c)
    | ETHARP_STATE_STABLE \<Rightarrow> (if arp_ctime e \<ge> age_stable c then c\<lparr>c_stable := i, age_stable := arp_ctime e\<rparr> else c))"

lemma sweep_Cons:
  "sweep a i (e # es) c = (if live e \<and> arp_ipaddr e = a then Inl i else sweep a (Suc i) es (remember i e c))"
  by (cases "arp_state e") (auto simp: remember_def)

declare sweep.simps(2) [simp del]

lemma sweep_found:
  "sweep a i es c = Inl k \<Longrightarrow> i \<le> k \<and> k < i + length es \<and> live (es ! (k - i)) \<and> arp_ipaddr (es ! (k - i)) = a"
proof (induction es arbitrary: i c)
  case (Cons e es)
  then show ?case
    by (fastforce simp: sweep_Cons nth_Cons' split: if_splits dest: Cons.IH)
qed simp

lemma sweep_all: "sweep a i es c = Inr c' \<Longrightarrow> e \<in> set es \<Longrightarrow> live e \<Longrightarrow> arp_ipaddr e \<noteq> a"
  by (induction es arbitrary: i c) (auto simp: sweep_Cons split: if_splits)

text \<open>Age 0 is the start of each comparison, so the first entry of a kind is always a candidate.\<close>

definition ages_ok :: "Candidates \<Rightarrow> bool" where
  "ages_ok c \<longleftrightarrow> (c_stable c = ARP_TABLE_SIZE \<longrightarrow> age_stable c = 0) \<and> (c_pending c = ARP_TABLE_SIZE \<longrightarrow> age_pending c = 0)
    \<and> (c_queue c = ARP_TABLE_SIZE \<longrightarrow> age_queue c = 0)
    \<and> c_empty c \<le> ARP_TABLE_SIZE \<and> c_stable c \<le> ARP_TABLE_SIZE \<and> c_pending c \<le> ARP_TABLE_SIZE \<and> c_queue c \<le> ARP_TABLE_SIZE"

lemma remember_ok:
  assumes "candidates_ok t c" and "ages_ok c" and "i < ARP_TABLE_SIZE"
  shows "candidates_ok t (remember i (t ! i) c) \<and> ages_ok (remember i (t ! i) c) \<and> some_candidate (remember i (t ! i) c)"
  using assms
  by (cases "arp_state (t ! i)") (auto simp: remember_def candidates_ok_def ages_ok_def some_candidate_def not_le)

lemma sweep_candidates:
  assumes "sweep a i (drop i t) c = Inr c'" and "length t = ARP_TABLE_SIZE" and "i \<le> ARP_TABLE_SIZE"
    and "candidates_ok t c" and "ages_ok c"
  shows "candidates_ok t c' \<and> ages_ok c' \<and> (some_candidate c \<or> i < ARP_TABLE_SIZE \<longrightarrow> some_candidate c')"
  using assms
proof (induction "ARP_TABLE_SIZE - i" arbitrary: i c)
  case (Suc n)
  then have i: "i < length t" by simp
  then show ?case
    using Suc.hyps(1) [of "Suc i" "remember i (t ! i) c"] Suc.hyps(2) Suc.prems remember_ok [OF Suc.prems(4,5), of i]
    by (auto simp: Cons_nth_drop_Suc [symmetric] sweep_Cons split: if_splits)
qed simp

lemma sweep_empty:
  "sweep a i es c = Inr c' \<Longrightarrow> i + length es \<le> ARP_TABLE_SIZE \<Longrightarrow> c_empty c < ARP_TABLE_SIZE \<or> (\<exists>e \<in> set es. \<not> live e) \<Longrightarrow>
    c_empty c \<le> ARP_TABLE_SIZE \<Longrightarrow> c_empty c' < ARP_TABLE_SIZE"
proof (induction es arbitrary: i c)
  case (Cons e es)
  have "c_empty (remember i e c) \<le> ARP_TABLE_SIZE \<and> (c_empty c < ARP_TABLE_SIZE \<or> \<not> live e \<longrightarrow> c_empty (remember i e c) < ARP_TABLE_SIZE)"
    using Cons.prems(2,4) by (cases "arp_state e") (auto simp: remember_def)
  then show ?case
    using Cons.prems Cons.IH [of "Suc i" "remember i e c"] by (auto simp: sweep_Cons split: if_splits)
qed auto

lemma free_etharp_q_out [simp]: "free_etharp_q q l = l\<lparr>lwip_out := replicate (length q) Freed @ lwip_out l\<rparr>"
  by (induction q arbitrary: l) (simp_all add: pbuf_free_def out_def replicate_app_Cons_same)

definition fresh :: "UInteger32 \<Rightarrow> etharp_entry \<Rightarrow> etharp_entry" where
  "fresh a e = e\<lparr>arp_q := [], arp_state := ETHARP_STATE_EMPTY, arp_ipaddr := a, arp_ctime := 0\<rparr>"

abbreviation hits :: "UInteger32 \<Rightarrow> etharp_entry \<Rightarrow> bool" where "hits a e \<equiv> live e \<and> arp_ipaddr e = a"

definition replaced :: "UInteger32 \<Rightarrow> nat \<Rightarrow> Lwip \<Rightarrow> Lwip" where
  "replaced a k l = l\<lparr>arp_table := (arp_table l)[k := fresh a (arp_table l ! k)], etharp_cached_entry := k,
    lwip_out := replicate (length (arp_q (arp_table l ! k))) Freed @ lwip_out l\<rparr>"

lemma newEntry_replaced:
  "arp_q (arp_table l ! k) = [] \<Longrightarrow> newEntry a k l = (int k, replaced a k l)"
  by (cases "arp_table l ! k") (simp add: newEntry_def replaced_def fresh_def on_entry_def)

lemma newEntry_freed:
  "k < length (arp_table l) \<Longrightarrow>
    newEntry a k (on_entry k (\<lambda>e. e\<lparr>arp_q := []\<rparr>) (free_etharp_q (arp_q (arp_table l ! k)) l)) = (int k, replaced a k l)"
  by (simp add: newEntry_def replaced_def fresh_def on_entry_def)

lemma find_entry_sweep:
  assumes "arp_ok l"
  shows "find_entry a th fo l = (if hits a (arp_table l ! etharp_cached_entry l) \<and> arp_state (arp_table l ! etharp_cached_entry l) = ETHARP_STATE_STABLE
      then (int (etharp_cached_entry l), l)
      else case sweep a 0 (arp_table l) no_candidates of Inl k \<Rightarrow> (int k, l\<lparr>etharp_cached_entry := k\<rparr>)
        | Inr c \<Rightarrow> if fo then (ERR_MEM, l)
            else if c_empty c < 10 then (int (c_empty c), replaced a (c_empty c) l)
            else if \<not> th then (ERR_MEM, l)
            else let k = (if c_stable c < 10 then c_stable c else if c_pending c < 10 then c_pending c else c_queue c)
                 in (int k, replaced a k l))"
proof (cases "sweep a 0 (arp_table l) no_candidates")
  case (Inl k)
  then show ?thesis by (auto simp: find_entry_def)
next
  case (Inr c)
  have len: "length (arp_table l) = ARP_TABLE_SIZE" using arp_okD(1) [OF assms] by (simp add: ARP_TABLE_SIZE_def)
  have c: "candidates_ok (arp_table l) c" "some_candidate c" "ages_ok c"
    using sweep_candidates [of a 0 "arp_table l" no_candidates c] Inr len
    by (simp_all add: candidates_ok_def ages_ok_def no_candidates_def ARP_TABLE_SIZE_def)
  have q: "arp_q (arp_table l ! k) = []" if "k < 10" "arp_state (arp_table l ! k) \<noteq> ETHARP_STATE_PENDING" for k
    using arp_okD(4) [OF assms, of "arp_table l ! k"] arp_okD(1) [OF assms] that by auto
  have e: "c_empty c < 10 \<Longrightarrow> newEntry a (c_empty c) l = (int (c_empty c), replaced a (c_empty c) l)"
    and s: "c_stable c < 10 \<Longrightarrow> newEntry a (c_stable c) l = (int (c_stable c), replaced a (c_stable c) l)"
    and p: "c_pending c < 10 \<Longrightarrow> newEntry a (c_pending c) l = (int (c_pending c), replaced a (c_pending c) l)"
    using c(1) q len by (auto simp: candidates_ok_def ARP_TABLE_SIZE_def intro!: newEntry_replaced)
  have f: "c_queue c < 10 \<Longrightarrow> newEntry a (c_queue c)
      (on_entry (c_queue c) (\<lambda>e. e\<lparr>arp_q := []\<rparr>) (free_etharp_q (arp_q (arp_table l ! c_queue c)) l)) = (int (c_queue c), replaced a (c_queue c) l)"
    using newEntry_freed [of "c_queue c" l a] len by (simp add: ARP_TABLE_SIZE_def)
  have n: "c_empty c = 10 \<longleftrightarrow> \<not> c_empty c < 10" using c(3) by (auto simp: ages_ok_def ARP_TABLE_SIZE_def)
  have m: "c_empty c < 10 \<or> c_stable c < 10 \<or> c_pending c < 10 \<or> c_queue c < 10" using c(2) by (simp add: some_candidate_def ARP_TABLE_SIZE_def)
  have pick: "(if c_empty c < 10 then newEntry a (c_empty c) l
      else if c_stable c < 10 then newEntry a (c_stable c) l
      else if c_pending c < 10 then newEntry a (c_pending c) l
      else if c_queue c < 10 then newEntry a (c_queue c)
        (on_entry (c_queue c) (\<lambda>e. e\<lparr>arp_q := []\<rparr>) (free_etharp_q (arp_q (arp_table l ! c_queue c)) l))
      else (ERR_MEM, l))
    = (let k = (if c_empty c < 10 then c_empty c else if c_stable c < 10 then c_stable c else if c_pending c < 10 then c_pending c else c_queue c)
       in (int k, replaced a k l))"
    using e s p f m by (simp only: Let_def split: if_split) blast
  show ?thesis
    unfolding find_entry_def Inr ARP_TABLE_SIZE_def sum.case pick n by (auto simp: Let_def)
qed

lemma find_entry_cases:
  assumes "arp_ok l"
  obtains
    (none) "find_entry a th fo l = (ERR_MEM, l)" "\<forall>j < 10. \<not> hits a (arp_table l ! j)"
      "fo \<or> \<not> th \<and> \<not> (\<exists>e \<in> set (arp_table l). \<not> live e)"
  | (found) k where "k < 10" "find_entry a th fo l = (int k, l\<lparr>etharp_cached_entry := k\<rparr>)" "hits a (arp_table l ! k)"
  | (new) k where "k < 10" "find_entry a th fo l = (int k, replaced a k l)" "\<forall>j < 10. \<not> hits a (arp_table l ! j)" "\<not> fo"
      "\<exists>e \<in> set (arp_table l). \<not> live e \<Longrightarrow> \<not> live (arp_table l ! k)"
proof -
  have len: "length (arp_table l) = ARP_TABLE_SIZE" "ARP_TABLE_SIZE = 10" using arp_okD(1) [OF assms] by (simp_all add: ARP_TABLE_SIZE_def)
  show ?thesis
  proof (cases "hits a (arp_table l ! etharp_cached_entry l) \<and> arp_state (arp_table l ! etharp_cached_entry l) = ETHARP_STATE_STABLE")
    case True
    then show ?thesis using found [of "etharp_cached_entry l"] arp_okD(2) [OF assms] find_entry_sweep [OF assms, of a th fo] by simp
  next
    case False
    note u = find_entry_sweep [OF assms, of a th fo, unfolded if_not_P [OF False]]
    show ?thesis
    proof (cases "sweep a 0 (arp_table l) no_candidates")
      case (Inl k)
      then show ?thesis using found [of k] sweep_found [OF Inl] len u by simp
    next
      case (Inr c)
      have n: "\<forall>j < 10. \<not> hits a (arp_table l ! j)" using sweep_all [OF Inr] len by (metis nth_mem)
      have c: "some_candidate c"
        using sweep_candidates [of a 0 "arp_table l" no_candidates c] Inr len
        by (simp add: candidates_ok_def ages_ok_def no_candidates_def)
      have m: "c_empty c < 10 \<or> c_stable c < 10 \<or> c_pending c < 10 \<or> c_queue c < 10"
        using c by (simp add: some_candidate_def ARP_TABLE_SIZE_def)
      have v: "c_empty c < 10" if "\<exists>e \<in> set (arp_table l). \<not> live e"
        using sweep_empty [OF Inr] that len by (simp add: no_candidates_def)
      have w: "c_empty c < 10 \<Longrightarrow> \<not> live (arp_table l ! c_empty c)"
        using sweep_candidates [of a 0 "arp_table l" no_candidates c] Inr len
        by (simp add: candidates_ok_def ages_ok_def no_candidates_def)
      note u = u [unfolded Inr sum.case]
      consider "fo" | "\<not> fo" "c_empty c < 10" | "\<not> fo" "\<not> c_empty c < 10" "\<not> th" | "\<not> fo" "\<not> c_empty c < 10" "th" by blast
      then show ?thesis
      proof cases
        case 4
        define k where "k = (if c_stable c < 10 then c_stable c else if c_pending c < 10 then c_pending c else c_queue c)"
        have "find_entry a th fo l = (int k, replaced a k l)" using u 4 by (simp add: k_def Let_def)
        moreover have "k < 10" using m 4 by (auto simp: k_def)
        ultimately show ?thesis using new n 4(1,2) v by blast
      next
        case 2
        have "find_entry a th fo l = (int (c_empty c), replaced a (c_empty c) l)" using u 2 by simp
        then show ?thesis using new n 2 w by blast
      next
        case 3
        have "find_entry a th fo l = (ERR_MEM, l)" using u 3 by simp
        then show ?thesis using none n 3 v by blast
      qed (use u n none in simp)
    qed
  qed
qed

lemma table_ok_update:
  assumes "table_ok t" and "k < 10" and "live e \<Longrightarrow> \<forall>j < 10. j \<noteq> k \<longrightarrow> \<not> hits (arp_ipaddr e) (t ! j)"
    and "arp_q e \<noteq> [] \<Longrightarrow> arp_state e = ETHARP_STATE_PENDING" and "live e \<Longrightarrow> arp_ctime e < ARP_MAXAGE"
  shows "table_ok (t[k := e])"
proof -
  have t: "length t = 10" "\<And>i j. i < 10 \<Longrightarrow> j < 10 \<Longrightarrow> live (t ! i) \<Longrightarrow> live (t ! j) \<Longrightarrow> arp_ipaddr (t ! i) = arp_ipaddr (t ! j) \<Longrightarrow> i = j"
    "\<And>e. e \<in> set t \<Longrightarrow> arp_q e \<noteq> [] \<Longrightarrow> arp_state e = ETHARP_STATE_PENDING"
    "\<And>e. e \<in> set t \<Longrightarrow> live e \<Longrightarrow> arp_ctime e < ARP_MAXAGE"
    using assms(1) unfolding table_ok_def ARP_TABLE_SIZE_def by metis+
  show ?thesis
    unfolding table_ok_def ARP_TABLE_SIZE_def length_list_update
  proof (intro conjI allI impI ballI)
    fix i j assume "i < length t" "j < length t" "live (t[k := e] ! i)" "live (t[k := e] ! j)"
      "arp_ipaddr (t[k := e] ! i) = arp_ipaddr (t[k := e] ! j)"
    then show "i = j" using assms(3) t(1,2) by (cases "i = k"; cases "j = k") (auto simp: eq_commute)
  next
    fix x assume "x \<in> set (t[k := e])" "arp_q x \<noteq> []"
    then show "arp_state x = ETHARP_STATE_PENDING" using t(3) assms(4) set_update_subset_insert [of t k e] by blast
  next
    fix x assume "x \<in> set (t[k := e])" "live x"
    then show "arp_ctime x < ARP_MAXAGE" using t(4) assms(5) set_update_subset_insert [of t k e] by blast
  qed (rule t(1))
qed

text \<open>What a search leaves: the entry for the address is the only one for it that can be live.\<close>

definition located :: "UInteger32 \<Rightarrow> nat \<Rightarrow> Lwip \<Rightarrow> bool" where
  "located a k l \<longleftrightarrow> arp_ok l \<and> k < 10 \<and> arp_ipaddr (arp_table l ! k) = a \<and> arp_ctime (arp_table l ! k) < ARP_MAXAGE
    \<and> (\<forall>j < 10. j \<noteq> k \<longrightarrow> \<not> hits a (arp_table l ! j))"

lemma arp_ok_replaced:
  assumes "arp_ok l" and "k < 10" and "\<forall>j < 10. \<not> hits a (arp_table l ! j)"
  shows "located a k (replaced a k l)"
proof -
  have "length (arp_table l) = 10" using arp_okD(1) [OF assms(1)] .
  moreover have "table_ok (arp_table (replaced a k l))"
    using assms unfolding replaced_def arp_ok_def by (auto simp: fresh_def intro!: table_ok_update)
  ultimately show ?thesis
    using assms by (simp add: located_def arp_ok_def replaced_def ARP_TABLE_SIZE_def ARP_MAXAGE_def fresh_def)
qed

lemma find_entry_located:
  assumes "arp_ok l" and "find_entry a th False l = (i, l')" and "0 \<le> i"
  shows "located a (nat i) l'"
  using assms(1)
proof (cases rule: find_entry_cases [of l a th False])
  case none then show ?thesis using assms(2,3) by (simp add: ERR_MEM_def)
next
  case (found k)
  have l: "i = int k" "l' = l\<lparr>etharp_cached_entry := k\<rparr>" using found(2) assms(2) by simp_all
  have "\<not> hits a (arp_table l ! j)" if "j < 10" "j \<noteq> k" for j
    using arp_okD(3) [OF assms(1) that(1) found(1)] found(3) that(2) by auto
  moreover have "arp_ok l'" using assms(1) found(1) unfolding l arp_ok_def by (simp add: ARP_TABLE_SIZE_def)
  moreover have "arp_ctime (arp_table l ! k) < ARP_MAXAGE"
    using arp_okD(5) [OF assms(1), of "arp_table l ! k"] arp_okD(1) [OF assms(1)] found(1,3) by simp
  ultimately show ?thesis using found(1,3) unfolding l located_def by simp
next
  case (new k)
  have l: "i = int k" "l' = replaced a k l" using new(2) assms(2) by simp_all
  show ?thesis using arp_ok_replaced [OF assms(1) new(1,3)] unfolding l by simp
qed

lemma arp_ok_on_entry:
  assumes "located a k l" and "arp_ipaddr (f (arp_table l ! k)) = a"
    and "arp_q (f (arp_table l ! k)) \<noteq> [] \<Longrightarrow> arp_state (f (arp_table l ! k)) = ETHARP_STATE_PENDING"
    and "arp_ctime (f (arp_table l ! k)) < ARP_MAXAGE"
  shows "located a k (on_entry k f l)"
proof -
  have "table_ok ((arp_table l)[k := f (arp_table l ! k)])"
    using assms by (intro table_ok_update) (auto simp: located_def arp_ok_def)
  then show ?thesis using assms arp_okD(1) [of l] by (auto simp: located_def arp_ok_def on_entry_def)
qed

lemma arp_ok_cong: "arp_table l = arp_table k \<Longrightarrow> etharp_cached_entry l = etharp_cached_entry k \<Longrightarrow> arp_ok l = arp_ok k"
  by (simp add: arp_ok_def)

subsection \<open>The operations on the table\<close>

definition framed :: "Octet list \<Rightarrow> Octet list \<Rightarrow> Pbuf \<Rightarrow> Octet list" where
  "framed src dst p = put16 (put_bytes (put_bytes (pb_head p) 0 dst) 6 src) 12 (htons ETHTYPE_IP) @ concat (pb_next p)"

lemma etharp_send_ip_eq:
  "etharp_send_ip p src dst l = (link_errs l (link_n l), out (Frame (framed src dst p)) (l\<lparr>link_n := link_n l + 1\<rparr>))"
  by (simp add: etharp_send_ip_def linkoutput_def framed_def pb_put_def pbytes_def)

lemma sendQueued_eq:
  "sendQueued q eth l = l\<lparr>link_n := link_n l + length q,
    lwip_out := concat (map (\<lambda>p. [Freed, Frame (framed (if_hwaddr l) eth p)]) (rev q)) @ lwip_out l\<rparr>"
  by (induction q arbitrary: l) (simp_all add: etharp_send_ip_eq pbuf_free_def out_def)

text \<open>The part of the state these operations leave alone.\<close>

definition same_host :: "Lwip \<Rightarrow> Lwip \<Rightarrow> bool" where
  "same_host l k \<longleftrightarrow> if_ip k = if_ip l \<and> if_mask k = if_mask l \<and> if_gw k = if_gw l \<and> if_flags k = if_flags l \<and> if_hwaddr k = if_hwaddr l
    \<and> if_listed k = if_listed l \<and> if_default k = if_default l \<and> udp_pcbs k = udp_pcbs l \<and> pcbs k = pcbs l \<and> pcb_n k = pcb_n l \<and> groups k = groups l
    \<and> ip_id k = ip_id l \<and> link_errs k = link_errs l \<and> mem_oks k = mem_oks l"

lemma same_host_refl [simp]: "same_host l l"
  by (simp add: same_host_def)

lemma same_host_trans: "same_host a b \<Longrightarrow> same_host b c \<Longrightarrow> same_host a c"
  by (simp add: same_host_def)

lemma find_entry_same:
  assumes "arp_ok l" and "find_entry a th fo l = (i, l')"
  shows "same_host l l' \<and> arp_ok l' \<and> link_n l' = link_n l \<and> mem_n l' = mem_n l"
  using assms(1)
proof (cases rule: find_entry_cases [of l a th fo])
  case none then show ?thesis using assms by simp
next
  case (found k)
  then show ?thesis using assms by (auto simp: same_host_def arp_ok_def ARP_TABLE_SIZE_def)
next
  case (new k)
  then show ?thesis using assms arp_ok_replaced [OF assms(1) new(1,3)] by (auto simp: same_host_def replaced_def located_def)
qed

lemma update_arp_entry_cases:
  assumes "arp_ok l" and "update_arp_entry ip eth th l = (e, l')"
  shows "same_host l l' \<and> arp_ok l' \<and> mem_n l' = mem_n l"
proof (cases "ip_addr_isany ip \<or> ip_addr_isbroadcast ip l \<or> ip_addr_ismulticast ip")
  case True then show ?thesis using assms by (simp add: update_arp_entry_def)
next
  case False
  obtain i k where f: "find_entry ip th False l = (i, k)" by fastforce
  note same = find_entry_same [OF assms(1) f]
  show ?thesis
  proof (cases "i < 0")
    case True then show ?thesis using assms same False f by (simp add: update_arp_entry_def)
  next
    case i: False
    define a b where "a = on_entry (nat i) (\<lambda>e. e\<lparr>arp_state := ETHARP_STATE_STABLE, arp_ethaddr := eth, arp_ctime := 0\<rparr>) k"
      and "b = on_entry (nat i) (\<lambda>e. e\<lparr>arp_q := []\<rparr>) a"
    have r: "l' = sendQueued (arp_q (arp_table a ! nat i)) eth b"
      using assms(2) False i f by (simp add: update_arp_entry_def a_def b_def Let_def)
    have k: "located ip (nat i) k" using find_entry_located [OF assms(1) f] i by simp
    have b: "b = on_entry (nat i) (\<lambda>e. e\<lparr>arp_state := ETHARP_STATE_STABLE, arp_ethaddr := eth, arp_ctime := 0, arp_q := []\<rparr>) k"
      using k arp_okD(1) [of k] by (simp add: b_def a_def on_entry_def located_def)
    have "located ip (nat i) b" unfolding b by (rule arp_ok_on_entry [OF k]) (use k in \<open>simp_all add: located_def ARP_MAXAGE_def\<close>)
    then show ?thesis
      using same unfolding r sendQueued_eq by (simp add: located_def same_host_def arp_ok_def b_def a_def on_entry_def)
  qed
qed

definition arpRequest :: "UInteger32 \<Rightarrow> Lwip \<Rightarrow> Octet list" where
  "arpRequest ip l = arpPacket (if_hwaddr l) ethbroadcast (if_hwaddr l) (if_ip l) ethzero ip ARP_REQUEST"

lemma etharp_request_eq:
  "etharp_request ip l = (if mem_oks l (mem_n l)
    then (link_errs l (link_n l), l\<lparr>mem_n := mem_n l + 1, link_n := link_n l + 1,
      lwip_out := Freed # Frame (arpRequest ip l) # lwip_out l\<rparr>) else (ERR_MEM, l\<lparr>mem_n := mem_n l + 1\<rparr>))"
  by (simp add: etharp_request_def etharp_raw_def mem_alloc_def linkoutput_def out_def pbuf_free_def arpRequest_def pbytes_def)

lemma etharp_request_same:
  "etharp_request ip l = (r, k) \<Longrightarrow> same_host l k \<and> arp_table k = arp_table l \<and> etharp_cached_entry k = etharp_cached_entry l"
  by (auto simp: etharp_request_eq same_host_def split: if_splits)

lemma queueCopy_same:
  assumes "queueCopy i q r l = (r', k)" and "located a i l" and "arp_state (arp_table l ! i) = ETHARP_STATE_PENDING"
  shows "same_host l k \<and> arp_ok k"
proof -
  let ?p = "\<lparr>pb_room = [], pb_head = pbytes q, pb_stale = (\<lambda>_. 0), pb_next = []\<rparr>"
  let ?l = "l\<lparr>mem_n := mem_n l + 2\<rparr>"
  have k: "k = l\<lparr>mem_n := mem_n l + 1\<rparr> \<or> k = pbuf_free ?l \<or> k = on_entry i (\<lambda>e. e\<lparr>arp_q := arp_q e @ [?p]\<rparr>) ?l"
    using assms(1) by (simp add: queueCopy_def mem_alloc_def split: if_splits)
  have "located a i (on_entry i (\<lambda>e. e\<lparr>arp_q := arp_q e @ [?p]\<rparr>) l)"
    using assms(2,3) by (intro arp_ok_on_entry) (simp_all add: located_def)
  then have "arp_ok (on_entry i (\<lambda>e. e\<lparr>arp_q := arp_q e @ [?p]\<rparr>) ?l)"
    by (simp add: located_def arp_ok_def on_entry_def)
  moreover have "arp_ok l" using assms(2) by (simp add: located_def)
  ultimately show ?thesis
    using k by (elim disjE) (simp_all add: same_host_def on_entry_def arp_ok_def pbuf_free_def out_def)
qed

lemma markPending_same: "same_host l (markPending i l)"
  by (simp add: markPending_def same_host_def on_entry_def)

lemma markPending_located:
  assumes "located a i l"
  shows "located a i (markPending i l) \<and> live (arp_table (markPending i l) ! i)"
  using assms arp_ok_on_entry [OF assms] arp_okD(1) [of l] by (auto simp: markPending_def located_def on_entry_def)

lemma queryEntry_same:
  assumes "queryEntry i ip q l = (e, l')" and "located a i l"
  shows "same_host l l' \<and> arp_ok l'"
proof -
  obtain r b where rb: "(if arp_state (arp_table l ! i) = ETHARP_STATE_PENDING then etharp_request ip l else (ERR_MEM, l)) = (r, b)" by fastforce
  have b: "same_host l b" "arp_table b = arp_table l" "etharp_cached_entry b = etharp_cached_entry l"
    using rb etharp_request_same [of ip l r b] by (auto split: if_splits)
  have bl: "located a i b" using assms(2) b by (simp add: located_def arp_ok_def)
  have "(if arp_state (arp_table b ! i) = ETHARP_STATE_STABLE then etharp_send_ip q (if_hwaddr b) (arp_ethaddr (arp_table b ! i)) b
     else if arp_state (arp_table b ! i) = ETHARP_STATE_PENDING then queueCopy i q r b else (r, b)) = (e, l')"
    using assms(1) rb by (simp add: queryEntry_def)
  then have "same_host b l' \<and> arp_ok l'"
    using bl queueCopy_same [OF _ bl]
    by (auto simp: etharp_send_ip_eq out_def same_host_def located_def arp_ok_def split: if_splits)
  then show ?thesis using b(1) same_host_trans by blast
qed

lemma etharp_query_same:
  assumes "arp_ok l" and "etharp_query ip q l = (e, l')"
  shows "same_host l l' \<and> arp_ok l'"
proof -
  obtain i k where f: "find_entry ip True False l = (i, k)" by fastforce
  note same = find_entry_same [OF assms(1) f]
  have "l' = l \<or> l' = k \<or> 0 \<le> i \<and> queryEntry (nat i) ip q (markPending (nat i) k) = (e, l')"
    using assms(2) f by (auto simp: etharp_query_def split: if_splits)
  then show ?thesis
  proof (elim disjE conjE)
    assume i: "0 \<le> i" and q: "queryEntry (nat i) ip q (markPending (nat i) k) = (e, l')"
    note k = find_entry_located [OF assms(1) f i]
    show ?thesis
      using queryEntry_same [OF q] markPending_located [OF k] markPending_same [of k "nat i"] same same_host_trans by blast
  qed (use assms(1) same in simp_all)
qed

lemma etharp_output_same:
  assumes "arp_ok l" and "etharp_output q ip l = (e, l')"
  shows "same_host l l' \<and> arp_ok l'"
proof -
  define P where "P r \<longleftrightarrow> same_host l (snd r) \<and> arp_ok (snd r)" for r :: "int \<times> Lwip"
  have s: "P (etharp_send_ip p src dst l)" for p src dst
    using assms(1) by (simp add: P_def etharp_send_ip_eq out_def same_host_def arp_ok_def)
  have t: "P (etharp_query a p l)" for a p
    using etharp_query_same [OF assms(1) prod.collapse [symmetric]] by (simp add: P_def)
  have u: "P (e, l)" for e using assms(1) by (simp add: P_def)
  obtain f p where h: "pbuf_header q 14 = (f, p)" by fastforce
  have i: "P x \<Longrightarrow> P y \<Longrightarrow> P (if b then x else y)" for b x y by simp
  have "P (etharp_output q ip l)"
    unfolding etharp_output_def h Let_def case_prod_conv by (intro i s t u)
  then show ?thesis unfolding assms(2) P_def snd_conv .
qed

lemma etharp_ip_input_same:
  assumes "arp_ok l"
  shows "same_host l (etharp_ip_input p l) \<and> arp_ok (etharp_ip_input p l)"
proof -
  have "same_host l (snd (update_arp_entry a b th l)) \<and> arp_ok (snd (update_arp_entry a b th l))" for a b th
    using update_arp_entry_cases [OF assms prod.collapse [symmetric]] by blast
  then show ?thesis using assms by (simp add: etharp_ip_input_def Let_def)
qed

lemma etharp_arp_input_same:
  assumes "arp_ok l"
  shows "same_host l (etharp_arp_input eth p l) \<and> arp_ok (etharp_arp_input eth p l)"
proof -
  define k where "k = snd (update_arp_entry (get32 (pb_head p) 28) (get_bytes (pb_head p) 22 6) (if_ip l \<noteq> 0 \<and> get32 (pb_head p) 38 = if_ip l) l)"
  have k: "same_host l k \<and> arp_ok k" using update_arp_entry_cases [OF assms prod.collapse [symmetric]] unfolding k_def by blast
  have "etharp_arp_input eth p l = pbuf_free l \<or> etharp_arp_input eth p l = pbuf_free k
    \<or> (\<exists>q. etharp_arp_input eth p l = pbuf_free (snd (linkoutput q k)))"
    unfolding etharp_arp_input_def Let_def k_def [symmetric] by auto
  then show ?thesis
    using assms k by (elim disjE exE) (simp_all add: pbuf_free_def out_def linkoutput_def same_host_def arp_ok_def)
qed

text \<open>What the timer does to one entry.\<close>

definition tick :: "etharp_entry \<Rightarrow> etharp_entry" where
  "tick e = (if expired (e\<lparr>arp_ctime := arp_ctime e + 1\<rparr>)
    then e\<lparr>arp_ctime := arp_ctime e + 1, arp_q := [], arp_state := ETHARP_STATE_EMPTY\<rparr>
    else e\<lparr>arp_ctime := arp_ctime e + 1\<rparr>)"

lemma tmrEntry_tick:
  assumes "i < length (arp_table l)"
  shows "arp_table (tmrEntry i l) = (arp_table l)[i := tick (arp_table l ! i)]" "etharp_cached_entry (tmrEntry i l) = etharp_cached_entry l"
    "same_host l (tmrEntry i l)"
  using assms by (simp_all add: tmrEntry_def tick_def Let_def on_entry_def same_host_def)

lemma tick_simps:
  "arp_ipaddr (tick e) = arp_ipaddr e" "arp_ctime (tick e) = arp_ctime e + 1"
  "arp_q (tick e) \<noteq> [] \<Longrightarrow> arp_q (tick e) = arp_q e \<and> arp_state (tick e) = arp_state e"
  by (simp_all add: tick_def split: if_splits)

lemma tick_live:
  "live (tick e) \<Longrightarrow> live e \<and> arp_state (tick e) = arp_state e \<and> arp_ctime e + 1 < ARP_MAXAGE
    \<and> (arp_state e = ETHARP_STATE_PENDING \<longrightarrow> arp_ctime e + 1 < ARP_MAXPENDING)"
  by (cases "arp_state e") (auto simp: tick_def expired_def ARP_MAXAGE_def ARP_MAXPENDING_def not_le split: if_splits
    elim: order.strict_trans2)

lemma tmrEntry_same:
  assumes "arp_ok l" and "i < 10"
  shows "same_host l (tmrEntry i l) \<and> arp_ok (tmrEntry i l)"
proof -
  let ?e = "arp_table l ! i"
  have i: "i < length (arp_table l)" using assms arp_okD(1) by simp
  have "table_ok ((arp_table l)[i := tick ?e])"
  proof (rule table_ok_update)
    show "table_ok (arp_table l)" using assms(1) by (simp add: arp_ok_def)
    show "\<forall>j < 10. j \<noteq> i \<longrightarrow> \<not> hits (arp_ipaddr (tick ?e)) (arp_table l ! j)" if "live (tick ?e)"
      using arp_okD(3) [OF assms(1) _ assms(2)] tick_live [OF that] by (auto simp: tick_simps)
    show "arp_state (tick ?e) = ETHARP_STATE_PENDING" if "arp_q (tick ?e) \<noteq> []"
      using tick_simps(3) [OF that] that arp_okD(4) [OF assms(1) nth_mem [OF i]] by simp
    show "arp_ctime (tick ?e) < ARP_MAXAGE" if "live (tick ?e)"
      using tick_live [OF that] by (simp add: tick_simps)
  qed (rule assms(2))
  then show ?thesis using assms(1) tmrEntry_tick [OF i] by (simp add: arp_ok_def)
qed

lemma etharp_tmr_same:
  assumes "arp_ok l"
  shows "same_host l (etharp_tmr l) \<and> arp_ok (etharp_tmr l)"
proof -
  have "same_host l (fold tmrEntry is l) \<and> arp_ok (fold tmrEntry is l)" if "\<forall>i \<in> set is. i < 10" for "is"
    using that assms
  proof (induction "is" arbitrary: l)
    case (Cons i "is")
    then show ?case using tmrEntry_same [of l i] same_host_trans by fastforce
  qed simp
  then show ?thesis by (simp add: etharp_tmr_def ARP_TABLE_SIZE_def)
qed

lemma etharp_tmr_table:
  assumes "length (arp_table l) = 10"
  shows "arp_table (etharp_tmr l) = map tick (arp_table l)"
proof -
  have "arp_table (fold tmrEntry [0..<n] l) = map tick (take n (arp_table l)) @ drop n (arp_table l)" if "n \<le> 10" for n
    using that
  proof (induction n)
    case (Suc n)
    then have "n < length (arp_table (fold tmrEntry [0..<n] l))" using assms by simp
    then show ?case
      using Suc assms by (simp add: tmrEntry_tick list_update_append nth_append take_Suc_conv_app_nth Cons_nth_drop_Suc [symmetric])
  qed simp
  from this [of 10] show ?thesis using assms by (simp add: etharp_tmr_def ARP_TABLE_SIZE_def)
qed

subsection \<open>The table as a map\<close>

text \<open>What the table knows about an address: nothing, packets that wait for it, or its hardware address.\<close>

datatype Route = Unknown | Waiting "Pbuf list" | Known "Octet list"

definition route :: "UInteger32 \<Rightarrow> Lwip \<Rightarrow> Route" where
  "route a l = (case find (hits a) (arp_table l) of
      None \<Rightarrow> Unknown
    | Some e \<Rightarrow> if arp_state e = ETHARP_STATE_PENDING then Waiting (arp_q e) else Known (arp_ethaddr e))"

definition unicast :: "UInteger32 \<Rightarrow> Lwip \<Rightarrow> bool" where
  "unicast a l \<longleftrightarrow> \<not> ip_addr_isany a \<and> \<not> ip_addr_isbroadcast a l \<and> \<not> ip_addr_ismulticast a"

definition spare :: "Lwip \<Rightarrow> bool" where
  "spare l \<longleftrightarrow> (\<exists>e \<in> set (arp_table l). \<not> live e)"

lemma find_hit:
  assumes "arp_ok l" and "k < 10" and "hits a (arp_table l ! k)"
  shows "find (hits a) (arp_table l) = Some (arp_table l ! k)"
proof -
  have "\<not> hits a (arp_table l ! j)" if "j < k" for j
    using arp_okD(3) [OF assms(1) _ assms(2), of j] assms(2,3) that by auto
  then show ?thesis using assms arp_okD(1) [OF assms(1)] by (auto simp: find_Some_iff intro!: exI [of _ k])
qed

lemma find_miss:
  assumes "arp_ok l" and "\<forall>j < 10. \<not> hits a (arp_table l ! j)"
  shows "find (hits a) (arp_table l) = None"
  using assms(2) arp_okD(1) [OF assms(1)] by (auto simp: find_None_iff in_set_conv_nth)

lemma route_located:
  assumes "located a k l"
  shows "route a l = (if live (arp_table l ! k)
    then if arp_state (arp_table l ! k) = ETHARP_STATE_PENDING then Waiting (arp_q (arp_table l ! k)) else Known (arp_ethaddr (arp_table l ! k))
    else Unknown)"
proof (cases "live (arp_table l ! k)")
  case True
  then show ?thesis using assms find_hit [of l k a] by (simp add: route_def located_def)
next
  case False
  then have "\<forall>j < 10. \<not> hits a (arp_table l ! j)" using assms by (auto simp: located_def)
  then show ?thesis using assms find_miss [of l a] False by (simp add: route_def located_def)
qed

lemma route_other:
  assumes "located a k l" and "b \<noteq> a" and "arp_ipaddr (f (arp_table l ! k)) = a"
  shows "route b (on_entry k f l) = route b l"
proof -
  have n: "k < length (arp_table l)" "arp_ipaddr (arp_table l ! k) = a" using assms(1) arp_okD(1) [of l] by (simp_all add: located_def)
  define t where "t = arp_table l"
  have "find (hits b) (t[k := f (t ! k)]) = find (hits b) t"
    using n assms(2,3) unfolding t_def [symmetric]
  proof (induction t arbitrary: k)
    case (Cons e t)
    then show ?case by (cases k) auto
  qed simp
  then show ?thesis by (simp add: route_def on_entry_def t_def)
qed

lemma find_update_irrelevant:
  "\<not> P e \<Longrightarrow> \<not> P (t ! k) \<Longrightarrow> find P (t[k := e]) = find P t"
  by (induction t arbitrary: k) (auto split: nat.splits)

lemma find_entry_route:
  assumes "arp_ok l" and "find_entry a th False l = (i, l')" and "th \<or> route a l \<noteq> Unknown \<or> spare l"
  shows "0 \<le> i" "located a (nat i) l'" "route a l' = route a l"
    "spare l \<or> route a l \<noteq> Unknown \<Longrightarrow> lwip_out l' = lwip_out l \<and> (\<forall>b. b \<noteq> a \<longrightarrow> route b l' = route b l)"
proof -
  have "0 \<le> i \<and> route a l' = route a l
    \<and> (spare l \<or> route a l \<noteq> Unknown \<longrightarrow> lwip_out l' = lwip_out l \<and> (\<forall>b. b \<noteq> a \<longrightarrow> route b l' = route b l))"
    using assms(1)
  proof (cases rule: find_entry_cases [of l a th False])
    case none
    then have "route a l = Unknown" using find_miss [OF assms(1)] by (simp add: route_def)
    then show ?thesis using none assms(3) by (simp add: spare_def)
  next
    case (found k)
    then show ?thesis using assms(2) by (auto simp: route_def)
  next
    case (new k)
    have l: "i = int k" "l' = replaced a k l" using new(2) assms(2) by simp_all
    have u: "route a l = Unknown" using find_miss [OF assms(1) new(3)] by (simp add: route_def)
    have u': "route a l' = Unknown"
      using route_located [OF arp_ok_replaced [OF assms(1) new(1,3)]] new(1) arp_okD(1) [OF assms(1)]
      unfolding l by (simp add: replaced_def fresh_def)
    have "lwip_out l' = lwip_out l \<and> (\<forall>b. b \<noteq> a \<longrightarrow> route b l' = route b l)" if "spare l"
    proof -
      have n: "\<not> live (arp_table l ! k)" using new(5) that by (simp add: spare_def)
      then have "arp_q (arp_table l ! k) = []" using arp_okD(4) [OF assms(1), of "arp_table l ! k"] new(1) arp_okD(1) [OF assms(1)] by auto
      moreover have "route b l' = route b l" for b
        unfolding route_def l replaced_def by (simp add: find_update_irrelevant n fresh_def)
      ultimately show ?thesis by (simp add: l replaced_def)
    qed
    then show ?thesis using u u' by (simp add: l)
  qed
  then show "0 \<le> i" "route a l' = route a l"
    "spare l \<or> route a l \<noteq> Unknown \<Longrightarrow> lwip_out l' = lwip_out l \<and> (\<forall>b. b \<noteq> a \<longrightarrow> route b l' = route b l)" by simp_all
  then show "located a (nat i) l'" using find_entry_located [OF assms(1,2)] by simp
qed

text \<open>What an update and a query do to the map.\<close>

definition sentFrames :: "Octet list \<Rightarrow> Octet list \<Rightarrow> Pbuf list \<Rightarrow> LwipOut list" where
  "sentFrames src dst q = concat (map (\<lambda>p. [Freed, Frame (framed src dst p)]) (rev q))"

lemma update_arp_entry_route:
  assumes "arp_ok l" and "unicast a l" and "route a l \<noteq> Unknown \<or> spare l"
  shows "\<exists>l'. update_arp_entry a eth th l = (ERR_OK, l') \<and> route a l' = Known eth
    \<and> lwip_out l' = sentFrames (if_hwaddr l) eth (case route a l of Waiting q \<Rightarrow> q | _ \<Rightarrow> []) @ lwip_out l
    \<and> (\<forall>b. b \<noteq> a \<longrightarrow> route b l' = route b l)"
proof -
  obtain i k where f: "find_entry a th False l = (i, k)" by fastforce
  note r = find_entry_route [OF assms(1) f]
  have i: "0 \<le> i" and k: "located a (nat i) k" and ra: "route a k = route a l" and rb: "lwip_out k = lwip_out l" "\<And>b. b \<noteq> a \<Longrightarrow> route b k = route b l"
    using r assms(3) by blast+
  have hw: "if_hwaddr k = if_hwaddr l" using find_entry_same [OF assms(1) f] by (simp add: same_host_def)
  let ?g = "\<lambda>e. e\<lparr>arp_state := ETHARP_STATE_STABLE, arp_ethaddr := eth, arp_ctime := 0, arp_q := []\<rparr>"
  define q where "q = arp_q (arp_table k ! nat i)"
  have n: "nat i < length (arp_table k)" "arp_ipaddr (arp_table k ! nat i) = a" "arp_ok k"
    using k arp_okD(1) [of k] by (simp_all add: located_def)
  have q: "q = (case route a l of Waiting q \<Rightarrow> q | _ \<Rightarrow> [])"
    using route_located [OF k] ra arp_okD(4) [OF n(3), of "arp_table k ! nat i"] n(1) unfolding q_def
    by (auto split: if_splits)
  have u: "update_arp_entry a eth th l = (ERR_OK, sendQueued q eth (on_entry (nat i) ?g k))"
    using assms(2) f i n(1) by (simp add: update_arp_entry_def unicast_def on_entry_def q_def Let_def)
  have b: "located a (nat i) (on_entry (nat i) ?g k)" by (rule arp_ok_on_entry [OF k]) (use n in \<open>simp_all add: ARP_MAXAGE_def\<close>)
  have s: "route c (sendQueued q eth x) = route c x" for c x by (simp add: sendQueued_eq route_def)
  have "route a (on_entry (nat i) ?g k) = Known eth" using route_located [OF b] n(1) by (simp add: on_entry_def)
  moreover have "route b (on_entry (nat i) ?g k) = route b l" if "b \<noteq> a" for b
    using route_other [OF k that, of ?g] rb(2) [OF that] n by simp
  moreover have "lwip_out (sendQueued q eth (on_entry (nat i) ?g k)) = sentFrames (if_hwaddr l) eth q @ lwip_out l"
    by (simp add: sendQueued_eq sentFrames_def on_entry_def rb(1) hw)
  ultimately show ?thesis unfolding u q [symmetric] by (simp add: s)
qed

definition copied :: "Pbuf \<Rightarrow> Pbuf" where
  "copied q = \<lparr>pb_room = [], pb_head = pbytes q, pb_stale = (\<lambda>_. 0), pb_next = []\<rparr>"

definition waiting :: "UInteger32 \<Rightarrow> Lwip \<Rightarrow> Pbuf list" where
  "waiting a l = (case route a l of Waiting q \<Rightarrow> q | _ \<Rightarrow> [])"

lemma queryEntry_known:
  assumes "arp_state (arp_table l ! i) = ETHARP_STATE_STABLE"
  shows "queryEntry i ip q l = (link_errs l (link_n l), out (Frame (framed (if_hwaddr l) (arp_ethaddr (arp_table l ! i)) q)) (l\<lparr>link_n := link_n l + 1\<rparr>))"
  using assms by (simp add: queryEntry_def etharp_send_ip_eq)

lemma queryEntry_waiting:
  assumes "arp_state (arp_table l ! i) = ETHARP_STATE_PENDING"
    and "mem_oks l (mem_n l)" "mem_oks l (mem_n l + 1)" "mem_oks l (mem_n l + 2)"
  shows "queryEntry i ip q l = (ERR_OK, on_entry i (\<lambda>e. e\<lparr>arp_q := arp_q e @ [copied q]\<rparr>)
    (l\<lparr>link_n := link_n l + 1, lwip_out := Freed # Frame (arpRequest ip l) # lwip_out l, mem_n := mem_n l + 3\<rparr>))"
  using assms by (simp add: queryEntry_def etharp_request_eq queueCopy_def mem_alloc_def copied_def numeral_3_eq_3)

lemma etharp_query_route:
  assumes "arp_ok l" and "unicast a l" and "route a l \<noteq> Unknown \<or> spare l"
    and "mem_oks l (mem_n l)" "mem_oks l (mem_n l + 1)" "mem_oks l (mem_n l + 2)"
  shows "\<exists>e l'. etharp_query a q l = (e, l') \<and> (\<forall>b. b \<noteq> a \<longrightarrow> route b l' = route b l)
    \<and> (case route a l of
        Known m \<Rightarrow> e = link_errs l (link_n l) \<and> route a l' = Known m \<and> lwip_out l' = Frame (framed (if_hwaddr l) m q) # lwip_out l
      | _ \<Rightarrow> e = ERR_OK \<and> route a l' = Waiting (waiting a l @ [copied q]) \<and> lwip_out l' = Freed # Frame (arpRequest a l) # lwip_out l)"
proof -
  obtain i k where f: "find_entry a True False l = (i, k)" by fastforce
  note r = find_entry_route [OF assms(1) f]
  have i: "0 \<le> i" and k: "located a (nat i) k" and ra: "route a k = route a l" and rb: "lwip_out k = lwip_out l" "\<And>b. b \<noteq> a \<Longrightarrow> route b k = route b l"
    using r assms(3) by blast+
  have same: "same_host l k" "link_n k = link_n l" "mem_n k = mem_n l" using find_entry_same [OF assms(1) f] by simp_all
  define n where "n = nat i"
  note k = k [folded n_def]
  have n: "n < length (arp_table k)" "arp_ipaddr (arp_table k ! n) = a" "arp_ok k"
    using k arp_okD(1) [of k] by (simp_all add: located_def)
  have u: "etharp_query a q l = queryEntry n a q (markPending n k)"
    using assms(2) f i by (simp add: etharp_query_def unicast_def n_def)
  show ?thesis
  proof (cases "arp_state (arp_table k ! n) = ETHARP_STATE_STABLE")
    case True
    then have m: "markPending n k = k" by (simp add: markPending_def)
    have "route a l = Known (arp_ethaddr (arp_table k ! n))" using route_located [OF k] ra True by simp
    moreover have "route b (out x (k\<lparr>link_n := y\<rparr>)) = route b k" for b x y by (simp add: route_def out_def)
    ultimately show ?thesis
      unfolding u m queryEntry_known [OF True] using same rb ra by (simp add: same_host_def) (simp add: out_def)
  next
    case False
    let ?p = "markPending n k"
    have p: "located a n ?p" "arp_state (arp_table ?p ! n) = ETHARP_STATE_PENDING" "same_host k ?p" "mem_n ?p = mem_n k" "link_n ?p = link_n k"
      "lwip_out ?p = lwip_out k" "arp_q (arp_table ?p ! n) = arp_q (arp_table k ! n)"
      using markPending_located [OF k] markPending_same [of k n] False n(1)
      by (auto simp: markPending_def on_entry_def intro: etharp_state.exhaust)
    have w: "arp_q (arp_table k ! n) = waiting a l"
      using route_located [OF k] ra arp_okD(4) [OF n(3), of "arp_table k ! n"] n(1) False unfolding waiting_def
      by (auto split: if_splits intro: etharp_state.exhaust)
    have pb: "route b ?p = route b k" if "b \<noteq> a" for b
      using route_other [OF k that, of "\<lambda>e. e\<lparr>arp_state := ETHARP_STATE_PENDING\<rparr>"] n by (simp add: markPending_def)
    let ?h = "\<lambda>e. e\<lparr>arp_q := arp_q e @ [copied q]\<rparr>"
    have g: "located a n (on_entry n ?h ?p)" by (rule arp_ok_on_entry [OF p(1)]) (use p n in \<open>simp_all add: located_def\<close>)
    have len: "n < length (arp_table ?p)" using p(1) arp_okD(1) [of ?p] by (simp add: located_def)
    have ga: "route a (on_entry n ?h ?p) = Waiting (waiting a l @ [copied q])"
      using route_located [OF g] p(2,7) w len by (simp add: on_entry_def)
    have gb: "route b (on_entry n ?h ?p) = route b l" if "b \<noteq> a" for b
      using route_other [OF p(1) that, of ?h] pb [OF that] rb(2) [OF that] p(1) by (simp add: located_def)
    have fr: "route b (on_entry n ?h (l0\<lparr>link_n := y, lwip_out := z, mem_n := x\<rparr>)) = route b (on_entry n ?h l0)" for b l0 x y z
      by (simp add: route_def on_entry_def)
    have nk: "\<not> (\<exists>m. route a l = Known m)" using route_located [OF k] ra False by (cases "arp_state (arp_table k ! n)") auto
    have q: "queryEntry n a q ?p = (ERR_OK, on_entry n ?h (?p\<lparr>link_n := link_n ?p + 1,
        lwip_out := Freed # Frame (arpRequest a ?p) # lwip_out ?p, mem_n := mem_n ?p + 3\<rparr>))"
      by (rule queryEntry_waiting) (use p same assms(4-6) in \<open>simp_all add: same_host_def\<close>)
    have "arpRequest a ?p = arpRequest a l" using p(3) same(1) by (simp add: arpRequest_def same_host_def)
    then show ?thesis
      unfolding u q using nk rb(1) p(6) by (cases "route a l") (simp_all add: fr ga gb, simp_all add: on_entry_def)
  qed
qed

lemma etharp_query_known:
  assumes "arp_ok l" and "unicast a l" and "route a l = Known m"
  shows "\<exists>e l'. etharp_query a q l = (e, l') \<and> lwip_out l' = Frame (framed (if_hwaddr l) m q) # lwip_out l"
proof -
  obtain i k where f: "find_entry a True False l = (i, k)" by fastforce
  have s: "True \<or> route a l \<noteq> Unknown \<or> spare l" by simp
  note r = find_entry_route [OF assms(1) f s]
  have k: "located a (nat i) k" "route a k = Known m" "lwip_out k = lwip_out l" "0 \<le> i" using r assms(3) by simp_all
  have same: "if_hwaddr k = if_hwaddr l" using find_entry_same [OF assms(1) f] by (simp add: same_host_def)
  have st: "arp_state (arp_table k ! nat i) = ETHARP_STATE_STABLE" "arp_ethaddr (arp_table k ! nat i) = m"
    using route_located [OF k(1)] k(2) by (cases "arp_state (arp_table k ! nat i)"; simp)+
  then have p: "markPending (nat i) k = k" by (simp add: markPending_def)
  have "etharp_query a q l = queryEntry (nat i) a q k"
    using assms(2) f k(4) p by (simp add: etharp_query_def unicast_def)
  then show ?thesis using queryEntry_known [OF st(1), of a q] st(2) k(3) same by (simp add: out_def)
qed

subsection \<open>Requests and replies\<close>

text \<open>The fields of an ARP message on the wire, whatever follows it.\<close>

definition arp_message :: "Octet list \<Rightarrow> UInteger16 \<Rightarrow> Octet list \<Rightarrow> UInteger32 \<Rightarrow> UInteger32 \<Rightarrow> bool" where
  "arp_message b opcode shw sip dip \<longleftrightarrow> 42 \<le> length b \<and> get16 b 12 = htons ETHTYPE_ARP \<and> get16 b 14 = htons 1
    \<and> get16 b 16 = htons ETHTYPE_IP \<and> get16 b 18 = htons (push_bit 8 6 OR 4) \<and> get16 b 20 = htons opcode
    \<and> get_bytes b 22 6 = shw \<and> get32 b 28 = sip \<and> get32 b 38 = dip"

lemma get_append:
  "i + n \<le> length b \<Longrightarrow> get_bytes (b @ c) i n = get_bytes b i n"
  "i + 2 \<le> length b \<Longrightarrow> get16 (b @ c) i = get16 b i"
  "i + 4 \<le> length b \<Longrightarrow> get32 (b @ c) i = get32 b i"
proof -
  show g: "get_bytes (b @ c) i n = get_bytes b i n" if "i + n \<le> length b" for n
    using that by (intro nth_equalityI) (simp_all add: get_bytes_def nth_append)
  show "i + 2 \<le> length b \<Longrightarrow> get16 (b @ c) i = get16 b i" by (simp add: get16_def g)
  show "i + 4 \<le> length b \<Longrightarrow> get32 (b @ c) i = get32 b i" by (simp add: get32_def g)
qed

lemma arp_message_append: "arp_message b o' s i d \<Longrightarrow> arp_message (b @ c) o' s i d"
  by (simp add: arp_message_def get_append)

lemma arpPacket_message:
  assumes "length ethsrc = 6" "length ethdst = 6" "length hwsrc = 6" "length hwdst = 6"
  shows "arp_message (arpPacket ethsrc ethdst hwsrc ipsrc hwdst ipdst opcode) opcode hwsrc ipsrc ipdst"
  using assms by (simp add: arp_message_def arpPacket_def put_get_defs buf_simps Let_def)

lemma arpPacket_to:
  assumes "length ethsrc = 6" "length ethdst = 6" "length hwsrc = 6" "length hwdst = 6"
  shows "get_bytes (arpPacket ethsrc ethdst hwsrc ipsrc hwdst ipdst opcode) 0 6 = ethdst"
  using assms by (simp add: arpPacket_def put_get_defs buf_simps Let_def)

lemma arpReply_message:
  assumes "arp_message b opcode shw sip dip" and "length hw = 6"
  shows "arp_message (arpReply b hw l) ARP_REPLY hw (if_ip l) sip \<and> get_bytes (arpReply b hw l) 0 6 = shw \<and> get_bytes (arpReply b hw l) 6 6 = hw"
proof -
  have "length shw = 6" using assms(1) by (auto simp: arp_message_def)
  then show ?thesis
    using assms by (simp add: arp_message_def arpReply_def put_get_defs buf_simps Let_def)
qed

lemma etharp_arp_input_message:
  assumes "arp_message (pb_head p) opcode shw sip dip"
  shows "etharp_arp_input hw p l =
    (let for_us = (if_ip l \<noteq> 0 \<and> dip = if_ip l); k = snd (update_arp_entry sip shw for_us l)
     in pbuf_free (if opcode = ARP_REQUEST \<and> for_us then snd (linkoutput (pb_put (\<lambda>b. arpReply b hw k) p) k) else k))"
  using assms by (simp add: etharp_arp_input_def arp_message_def Let_def)

lemma isbroadcast_same:
  assumes "same_host l k"
  shows "ip_addr_isbroadcast a k = ip_addr_isbroadcast a l"
proof -
  have "if_ip k = if_ip l" "if_mask k = if_mask l" "if_flags k = if_flags l" using assms by (simp_all add: same_host_def)
  then show ?thesis unfolding ip_addr_isbroadcast_def by (simp only:)
qed

subsection \<open>A sequence of operations\<close>

text \<open>The table and the cached index as the start of the program leaves them, cleared.\<close>

definition emptyEntry :: etharp_entry where
  "emptyEntry = \<lparr>arp_q = [], arp_ipaddr = 0, arp_ethaddr = ethzero, arp_state = ETHARP_STATE_EMPTY, arp_ctime = 0\<rparr>"

definition arp_start :: "Lwip \<Rightarrow> Lwip" where
  "arp_start l = l\<lparr>arp_table := replicate ARP_TABLE_SIZE emptyEntry, etharp_cached_entry := 0\<rparr>"

inductive arp_reachable :: "Lwip \<Rightarrow> bool" where
  init: "arp_reachable (arp_start l)"
| timer: "arp_reachable l \<Longrightarrow> arp_reachable (etharp_tmr l)"
| query: "arp_reachable l \<Longrightarrow> etharp_query ip q l = (e, l') \<Longrightarrow> arp_reachable l'"
| send: "arp_reachable l \<Longrightarrow> etharp_output q ip l = (e, l') \<Longrightarrow> arp_reachable l'"
| ip_input: "arp_reachable l \<Longrightarrow> arp_reachable (etharp_ip_input p l)"
| arp_input: "arp_reachable l \<Longrightarrow> arp_reachable (etharp_arp_input hw p l)"

text \<open>An entry that is not renewed is dropped by the timer: a pending one at its second tick, a stable one at its 240th.\<close>

lemma tick_power:
  assumes "live ((tick ^^ n) e)" and "arp_ctime e < ARP_MAXAGE"
  shows "arp_state ((tick ^^ n) e) = arp_state e \<and> unat (arp_ctime ((tick ^^ n) e)) = unat (arp_ctime e) + n
    \<and> unat (arp_ctime e) + n < 240 \<and> (arp_state e = ETHARP_STATE_PENDING \<and> 0 < n \<longrightarrow> unat (arp_ctime e) + n < 2)"
  using assms(1)
proof (induction n)
  case 0
  then show ?case using assms(2) by (simp add: ARP_MAXAGE_def word_less_nat_alt)
next
  case (Suc n)
  let ?e = "(tick ^^ n) e"
  have t: "live (tick ?e)" using Suc.prems by simp
  have "unat (arp_ctime ?e + 1) = unat (arp_ctime ?e) + 1"
    using Suc.IH tick_live [OF t] by (simp add: unat_add_lem [symmetric] unat_word_ariths)
  then show ?case
    using Suc.IH tick_live [OF t] by (auto simp: tick_simps ARP_MAXAGE_def ARP_MAXPENDING_def word_less_nat_alt)
qed

lemma etharp_tmr_power:
  assumes "arp_ok l"
  shows "arp_ok ((etharp_tmr ^^ n) l) \<and> arp_table ((etharp_tmr ^^ n) l) = map (tick ^^ n) (arp_table l)"
proof (induction n)
  case (Suc n)
  then show ?case
    using etharp_tmr_same [of "(etharp_tmr ^^ n) l"] etharp_tmr_table [of "(etharp_tmr ^^ n) l"] arp_okD(1) [of "(etharp_tmr ^^ n) l"] by simp
qed (use assms in simp)

lemma route_none: "arp_ok l \<Longrightarrow> (\<And>e. e \<in> set (arp_table l) \<Longrightarrow> \<not> hits a e) \<Longrightarrow> route a l = Unknown"
  using find_None_iff [of "hits a" "arp_table l"] by (simp add: route_def)

text \<open>Two hosts for the examples.\<close>

definition hostMac :: "Octet list" where "hostMac = [2, 0, 0, 0, 0, 1]"
definition peerMac :: "Octet list" where "peerMac = [2, 0, 0, 0, 0, 2]"

definition no_pcb :: udp_pcb where
  "no_pcb = \<lparr>local_ip = 0, remote_ip = 0, pcb_tos = 0, pcb_ttl = 0, connected = False, local_port = 0, remote_port = 0,
    multicast_ip = 0, recv_fn = None\<rparr>"

definition host :: "UInteger32 \<Rightarrow> Octet list \<Rightarrow> Lwip" where
  "host ip mac = \<lparr>if_ip = ip, if_mask = 0x00ffffff, if_gw = 0, if_flags = 0x43, if_hwaddr = mac, if_listed = True, if_default = True,
    arp_table = replicate ARP_TABLE_SIZE emptyEntry,
    etharp_cached_entry = 0, ip_id = 0, frag_buf = replicate 1500 0, pcbs = (\<lambda>_. no_pcb), pcb_n = 0, udp_pcbs = [], groups = [], link_errs = (\<lambda>_. 0), link_n = 0, mem_oks = (\<lambda>_. True), mem_n = 0,
    lwip_out = []\<rparr>"

definition hostPacket :: Pbuf where
  "hostPacket = \<lparr>pb_room = [], pb_head = replicate 42 0, pb_stale = (\<lambda>_. 0), pb_next = []\<rparr>"

lemma host_ok:
  "arp_ok (host ip mac)" "unicast 0x0200000a (host 0x0100000a mac)" "spare (host ip mac)" "route a (host ip mac) = Unknown"
  "length hostMac = 6" "length peerMac = 6" "if_hwaddr (host ip mac) = mac" "if_ip (host ip mac) = ip" "lwip_out (host ip mac) = []"
  "mem_oks (host ip mac) = (\<lambda>_. True)"
  using find_None_iff [of "hits a" "arp_table (host ip mac)"]
  by (simp_all add: host_def emptyEntry_def arp_ok_def table_ok_def ARP_TABLE_SIZE_def unicast_def ip_addr_isany_def ip_addr_isbroadcast_def ip_addr_netcmp_def
    ip_addr_ismulticast_def spare_def route_def hostMac_def peerMac_def htonl_def)

text \<open>A host that waits for an address takes the answer and sends what waited.\<close>

lemma arp_reply_taken:
  assumes "arp_ok A" and "unicast b A" and "route b A = Waiting qs" and "arp_message m ARP_REPLY mac b (if_ip A)" and "pb_head p = m @ pad"
  shows "lwip_out (etharp_arp_input (if_hwaddr A) p A) = Freed # sentFrames (if_hwaddr A) mac qs @ lwip_out A
    \<and> route b (etharp_arp_input (if_hwaddr A) p A) = Known mac"
proof -
  have m: "arp_message (pb_head p) ARP_REPLY mac b (if_ip A)" using assms(5) arp_message_append [OF assms(4)] by simp
  obtain A2 where A2: "update_arp_entry b mac (if_ip A \<noteq> 0) A = (ERR_OK, A2)" "route b A2 = Known mac"
    "lwip_out A2 = sentFrames (if_hwaddr A) mac qs @ lwip_out A"
    using update_arp_entry_route [OF assms(1,2), of mac "if_ip A \<noteq> 0"] assms(3) by auto
  have "route b (pbuf_free A2) = route b A2" by (simp add: route_def pbuf_free_def out_def)
  then show ?thesis
    unfolding etharp_arp_input_message [OF m] using A2
    by (simp add: Let_def ARP_REPLY_def ARP_REQUEST_def pbuf_free_def out_def)
qed

text \<open>C14: Address resolution works end to end between two hosts whose tables are in order.  A packet for an address that is not yet known
  is queued and a request broadcast, to the address of all stations; the owner of the address, given that request as received with any padding, answers it; the first
  host, given that answer, stores the hardware address and sends every packet that waited for it, in the order in which they came.
\<close>

theorem arp_resolves:
  assumes "arp_ok A" and "arp_ok B" and "length (if_hwaddr A) = 6" and "length (if_hwaddr B) = 6"
    and "unicast (if_ip B) A" and "route (if_ip B) A = Waiting qs \<or> route (if_ip B) A = Unknown \<and> spare A \<and> qs = []"
    and "mem_oks A (mem_n A)" and "mem_oks A (mem_n A + 1)" and "mem_oks A (mem_n A + 2)"
  shows "\<exists>A1 request. etharp_query (if_ip B) q A = (ERR_OK, A1) \<and> lwip_out A1 = Freed # Frame request # lwip_out A
    \<and> get_bytes request 0 6 = ethbroadcast
    \<and> (\<forall>p. pb_head p = request @ pad \<and> pb_next p = [] \<longrightarrow>
        (\<exists>reply before. lwip_out (etharp_arp_input (if_hwaddr B) p B) = Freed # Frame reply # before
          \<and> (\<forall>p. pb_head p = reply @ pad' \<longrightarrow>
              lwip_out (etharp_arp_input (if_hwaddr A) p A1) = Freed # sentFrames (if_hwaddr A) (if_hwaddr B) (qs @ [copied q]) @ lwip_out A1
              \<and> route (if_ip B) (etharp_arp_input (if_hwaddr A) p A1) = Known (if_hwaddr B))))"
proof -
  let ?b = "if_ip B"
  have w: "waiting ?b A = qs" "\<not> (\<exists>m. route ?b A = Known m)" "route ?b A \<noteq> Unknown \<or> spare A" using assms(6) by (auto simp: waiting_def)
  obtain A1 where A1: "etharp_query ?b q A = (ERR_OK, A1)" "route ?b A1 = Waiting (qs @ [copied q])"
    "lwip_out A1 = Freed # Frame (arpRequest ?b A) # lwip_out A"
    using etharp_query_route [OF assms(1,5) w(3) assms(7-9), of q] w(1,2) by (cases "route ?b A") auto
  have same: "same_host A A1" "arp_ok A1" using etharp_query_same [OF assms(1) A1(1)] by simp_all
  have un: "unicast ?b A1" using assms(5) isbroadcast_same [OF same(1)] by (simp add: unicast_def)
  have nz: "?b \<noteq> 0" using assms(5) by (simp add: unicast_def ip_addr_isany_def)
  have req: "arp_message (arpRequest ?b A) ARP_REQUEST (if_hwaddr A) (if_ip A) ?b"
    unfolding arpRequest_def by (rule arpPacket_message) (use assms(3) in \<open>simp_all add: ethbroadcast_def ethzero_def\<close>)
  have bc: "get_bytes (arpRequest ?b A) 0 6 = ethbroadcast"
    unfolding arpRequest_def by (rule arpPacket_to) (use assms(3) in \<open>simp_all add: ethbroadcast_def ethzero_def\<close>)
  have "\<exists>reply before. lwip_out (etharp_arp_input (if_hwaddr B) p B) = Freed # Frame reply # before
      \<and> (\<forall>p. pb_head p = reply @ pad' \<longrightarrow>
          lwip_out (etharp_arp_input (if_hwaddr A) p A1) = Freed # sentFrames (if_hwaddr A) (if_hwaddr B) (qs @ [copied q]) @ lwip_out A1
          \<and> route ?b (etharp_arp_input (if_hwaddr A) p A1) = Known (if_hwaddr B))"
    if "pb_head p = arpRequest ?b A @ pad \<and> pb_next p = []" for p
  proof -
    define k where "k = snd (update_arp_entry (if_ip A) (if_hwaddr A) True B)"
    have k: "same_host B k" using update_arp_entry_cases [OF assms(2) prod.collapse [symmetric]] unfolding k_def by blast
    define reply where "reply = arpReply (pb_head p) (if_hwaddr B) k"
    have m: "arp_message (pb_head p) ARP_REQUEST (if_hwaddr A) (if_ip A) ?b" using that arp_message_append [OF req] by simp
    have o: "lwip_out (etharp_arp_input (if_hwaddr B) p B) = Freed # Frame reply # lwip_out k"
      using nz that unfolding etharp_arp_input_message [OF m]
      by (simp add: k_def [symmetric] Let_def linkoutput_def out_def pbuf_free_def pb_put_def pbytes_def reply_def)
    have r: "arp_message reply ARP_REPLY (if_hwaddr B) ?b (if_ip A)"
      using arpReply_message [OF m assms(4), of k] k unfolding reply_def by (simp add: same_host_def)
    have "lwip_out (etharp_arp_input (if_hwaddr A) p A1) = Freed # sentFrames (if_hwaddr A) (if_hwaddr B) (qs @ [copied q]) @ lwip_out A1
          \<and> route ?b (etharp_arp_input (if_hwaddr A) p A1) = Known (if_hwaddr B)" if "pb_head p = reply @ pad'" for p
      using arp_reply_taken [OF same(2) un A1(2) _ that] r same(1) by (simp add: same_host_def)
    then show ?thesis using o by blast
  qed
  then show ?thesis using A1(1,3) bc by blast
qed

lemma arp_resolves_witness:
  "\<exists>A1 request. etharp_query 0x0200000a hostPacket (host 0x0100000a hostMac) = (ERR_OK, A1)
    \<and> lwip_out A1 = [Freed, Frame request] \<and> get_bytes request 0 6 = ethbroadcast
    \<and> (\<forall>p. pb_head p = request @ replicate 18 0 \<and> pb_next p = [] \<longrightarrow>
        (\<exists>reply before. lwip_out (etharp_arp_input peerMac p (host 0x0200000a peerMac)) = Freed # Frame reply # before
          \<and> (\<forall>p. pb_head p = reply @ replicate 18 0 \<longrightarrow>
              lwip_out (etharp_arp_input hostMac p A1) = Freed # sentFrames hostMac peerMac [copied hostPacket] @ lwip_out A1
              \<and> route 0x0200000a (etharp_arp_input hostMac p A1) = Known peerMac)))"
  using arp_resolves [of "host 0x0100000a hostMac" "host 0x0200000a peerMac" "[]" hostPacket "replicate 18 0" "replicate 18 0"] host_ok
  by simp

text \<open>C38: A table cleared at the start and changed by any sequence of the operations of \<^verbatim>\<open>etharp.c\<close> (the timer, packets sent
  and received, queries, ARP messages of any content) keeps its order: it has its ten entries, an address has at most one live entry, only a pending
  entry has packets waiting, and a live entry is younger than the age that drops it, so the wrapping \<^verbatim>\<open>ctime\<close> never makes a
  live entry look young.
\<close>

theorem arp_table_ordered:
  assumes "arp_reachable l"
  shows "arp_ok l"
  using assms
proof induction
  case (init l)
  then show ?case by (simp add: arp_start_def arp_ok_def table_ok_def emptyEntry_def ARP_TABLE_SIZE_def)
qed (use etharp_tmr_same etharp_query_same etharp_output_same etharp_ip_input_same etharp_arp_input_same in blast)+

lemma arp_table_ordered_witness: "arp_ok (etharp_tmr (arp_start (host 0x0100000a hostMac)))"
  by (rule arp_table_ordered) (intro arp_reachable.intros)

lemma tick_old: 
  assumes "arp_ok l" "live ((tick ^^ n) e)" "e \<in> set (arp_table l)"
  shows "live e \<and> arp_state ((tick ^^ n) e) = arp_state e \<and> n < 240 \<and> (arp_state e = ETHARP_STATE_PENDING \<longrightarrow> n < 2)"
proof -
  have "live ((tick ^^ n) e) \<Longrightarrow> live e" by (induction n) (auto dest!: tick_live)
  then have e: "live e" using assms(2) by blast
  then have f: "arp_ctime e < ARP_MAXAGE" using arp_okD(5) [OF assms(1,3)] by blast
  show ?thesis using tick_power [OF assms(2) f] e by (cases "n = 0") auto
qed

lemma tick_addr: "arp_ipaddr ((tick ^^ m) e) = arp_ipaddr e" by (induction m) (simp_all add: tick_simps)

lemma tick_gone: assumes "arp_ok l" and w: "route a l = Waiting q \<and> 2 \<le> n \<or> 240 \<le> n" and e: "e \<in> set (arp_table l)"
  shows "\<not> hits a ((tick ^^ n) e)"
proof
  assume h: "hits a ((tick ^^ n) e)"
    obtain k where k: "k < 10" "e = arp_table l ! k" using arp_okD(1) [OF assms(1)] e by (metis in_set_conv_nth)
    have p: "hits a e" "n < 240" "arp_state e = ETHARP_STATE_PENDING \<longrightarrow> n < 2" using tick_old [OF assms(1) conjunct1 [OF h] e] h tick_addr by auto
    then have "route a l = (if arp_state e = ETHARP_STATE_PENDING then Waiting (arp_q e) else Known (arp_ethaddr e))"
      using find_hit [OF assms(1) k(1), of a] k(2) by (simp add: route_def)
    then show False using w p by (auto split: if_splits)
  qed


end
