(* ===== verification/Lwip_Ip.thy ===== *)
theory Lwip_Ip
  imports Lwip_Arp
begin

text \<open>
  lwIP, second part: the IP header (\<^verbatim>\<open>ip.h\<close>), the Internet checksum (\<^verbatim>\<open>inet_chksum.c\<close>), routing and output
  (\<^verbatim>\<open>ip.c\<close>) and the fragmentation of packets larger than the link takes (\<^verbatim>\<open>ip_frag.c\<close>).
\<close>

subsection \<open>The header\<close>

definition IP_HLEN :: nat where "IP_HLEN = 20"
definition IP_PROTO_ICMP :: UInteger16 where "IP_PROTO_ICMP = 1"
definition IP_PROTO_IGMP :: UInteger16 where "IP_PROTO_IGMP = 2"
definition IP_PROTO_TCP :: UInteger16 where "IP_PROTO_TCP = 6"
definition IP_PROTO_UDP :: UInteger16 where "IP_PROTO_UDP = 17"
definition IP_MF :: UInteger16 where "IP_MF = 0x2000"
definition IP_OFFMASK :: UInteger16 where "IP_OFFMASK = 0x1fff"

definition IPH_V :: "Octet list \<Rightarrow> UInteger16" where "IPH_V h = drop_bit 12 (htons (get16 h 0))"
definition IPH_HL :: "Octet list \<Rightarrow> UInteger16" where "IPH_HL h = drop_bit 8 (htons (get16 h 0)) AND 0x0f"
definition IPH_LEN :: "Octet list \<Rightarrow> UInteger16" where "IPH_LEN h = get16 h 2"
definition IPH_OFFSET :: "Octet list \<Rightarrow> UInteger16" where "IPH_OFFSET h = get16 h 6"
definition IPH_TTL :: "Octet list \<Rightarrow> UInteger16" where "IPH_TTL h = drop_bit 8 (htons (get16 h 8))"
definition IPH_PROTO :: "Octet list \<Rightarrow> UInteger16" where "IPH_PROTO h = htons (get16 h 8) AND 0xff"
definition iphdr_src :: "Octet list \<Rightarrow> UInteger32" where "iphdr_src h = get32 h 12"
definition iphdr_dest :: "Octet list \<Rightarrow> UInteger32" where "iphdr_dest h = get32 h 16"

definition IPH_VHLTOS_SET :: "UInteger16 \<Rightarrow> UInteger16 \<Rightarrow> UInteger16 \<Rightarrow> Octet list \<Rightarrow> Octet list" where
  "IPH_VHLTOS_SET v hl tos h = put16 h 0 (htons (push_bit 12 v OR push_bit 8 hl OR tos))"
definition IPH_LEN_SET :: "UInteger16 \<Rightarrow> Octet list \<Rightarrow> Octet list" where "IPH_LEN_SET n h = put16 h 2 n"
definition IPH_ID_SET :: "UInteger16 \<Rightarrow> Octet list \<Rightarrow> Octet list" where "IPH_ID_SET n h = put16 h 4 n"
definition IPH_OFFSET_SET :: "UInteger16 \<Rightarrow> Octet list \<Rightarrow> Octet list" where "IPH_OFFSET_SET n h = put16 h 6 n"
definition IPH_TTL_SET :: "UInteger16 \<Rightarrow> Octet list \<Rightarrow> Octet list" where
  "IPH_TTL_SET ttl h = put16 h 8 (htons (IPH_PROTO h OR push_bit 8 ttl))"
definition IPH_PROTO_SET :: "UInteger16 \<Rightarrow> Octet list \<Rightarrow> Octet list" where
  "IPH_PROTO_SET proto h = put16 h 8 (htons (proto OR push_bit 8 (IPH_TTL h)))"
definition IPH_CHKSUM_SET :: "UInteger16 \<Rightarrow> Octet list \<Rightarrow> Octet list" where "IPH_CHKSUM_SET n h = put16 h 10 n"

subsection \<open>The Internet checksum\<close>

text \<open>The loop of \<^verbatim>\<open>lwip_standard_chksum\<close> (version 1) with its accumulator.\<close>

fun sumWords :: "UInteger32 \<Rightarrow> Octet list \<Rightarrow> UInteger32" where
  "sumWords acc [] = acc"
| "sumWords acc [a] = acc + ucast (push_bit 8 (ucast a :: UInteger16))"
| "sumWords acc (a # b # bs) = sumWords (acc + ucast (push_bit 8 (ucast a) OR ucast b :: UInteger16)) bs"

definition foldCarry :: "UInteger32 \<Rightarrow> UInteger32" where
  "foldCarry acc = drop_bit 16 acc + (acc AND 0x0000ffff)"

definition lwip_standard_chksum :: "Octet list \<Rightarrow> UInteger16" where
  "lwip_standard_chksum bs =
    (let acc = foldCarry (sumWords 0 bs);
         acc = (if acc AND 0xffff0000 \<noteq> 0 then foldCarry acc else acc)
     in htons (ucast acc))"

definition inet_chksum :: "Octet list \<Rightarrow> UInteger16" where
  "inet_chksum bs = NOT (lwip_standard_chksum bs)"

text \<open>The sum of the big-endian words, without the accumulator.\<close>

fun wordSum :: "Octet list \<Rightarrow> nat" where
  "wordSum [] = 0"
| "wordSum [a] = 256 * unat a"
| "wordSum (a # b # bs) = 256 * unat a + unat b + wordSum bs"

lemma octet_less: "unat (x :: Octet) < 256"
  using unsigned_less [of x, where ?'a = nat] by simp

lemma word16_ucast: "unat (ucast (x :: UInteger16) :: UInteger32) = unat x"
  using unsigned_less [of x, where ?'a = nat] by (simp add: unsigned_ucast_eq take_bit_nat_eq_self)

lemma be_word: "unat (push_bit 8 (ucast a) OR ucast b :: UInteger16) = 256 * unat (a :: Octet) + unat (b :: Octet)"
proof -
  have d: "push_bit 8 (ucast a) OR ucast b = push_bit 8 (ucast a) + (ucast b :: UInteger16)"
    by (rule disjunctive_add [symmetric]) (auto simp: bit_simps dest: word8_le_bits)
  have u: "unat (ucast x :: UInteger16) = unat (x :: Octet)" for x using octet_less [of x] by (simp add: unsigned_ucast_eq take_bit_nat_eq_self)
  show ?thesis unfolding d using octet_less [of a] octet_less [of b] by (simp add: push_bit_eq_mult unat_word_ariths u)
qed

lemma sumWords_nat:
  "unat acc + wordSum bs < 2 ^ 32 \<Longrightarrow> unat (sumWords acc bs) = unat acc + wordSum bs"
proof (induction acc bs rule: sumWords.induct)
  case (2 acc a)
  then show ?case using be_word [of a 0] by (simp add: unat_word_ariths word16_ucast)
next
  case (3 acc a b bs)
  have "unat (acc + ucast (push_bit 8 (ucast a) OR ucast b :: UInteger16)) = unat acc + (256 * unat a + unat b)"
    using "3.prems" be_word [of a b] by (simp add: unat_word_ariths word16_ucast)
  then show ?case using 3 by simp
qed simp

lemma foldCarry_nat: "unat (foldCarry acc) = unat acc div 65536 + unat acc mod 65536"
proof -
  have m: "acc AND 0x0000ffff = take_bit 16 acc" by (simp add: take_bit_eq_mask mask_eq_exp_minus_1)
  have a: "unat (drop_bit 16 acc) = unat acc div 65536" "unat (take_bit 16 acc) = unat acc mod 65536"
    using unat_drop_bit_eq [of 16 acc] unsigned_take_bit_eq [of 16 acc, where ?'a = nat]
    by (simp_all only: drop_bit_eq_div [of 16 "unat acc"] take_bit_eq_mod [of 16 "unat acc"]) simp_all
  have "unat acc < 65536 * 65536" using unsigned_less [of acc, where ?'a = nat] by simp
  then have "unat acc div 65536 < 65536" by (simp add: less_mult_imp_div_less)
  moreover have "unat acc mod 65536 < 65536" by simp
  ultimately have "unat acc div 65536 + unat acc mod 65536 < 2 ^ LENGTH(32)" by simp
  then show ?thesis unfolding foldCarry_def m by (simp only: a unat_add_lem [THEN iffD1])
qed


definition folded :: "nat \<Rightarrow> nat" where
  "folded n = (let f = n div 65536 + n mod 65536 in f div 65536 + f mod 65536)"

lemma folded_props:
  assumes "n < 65536 * 65536"
  shows "folded n < 65536" "folded n mod 65535 = n mod 65535" "folded n = 0 \<longleftrightarrow> n = 0"
proof -
  define q r where "q = n div 65536" and "r = n mod 65536"
  have n: "n = 65536 * q + r" by (simp add: q_def r_def)
  have b: "q < 65536" "r < 65536" using assms by (simp_all add: q_def r_def less_mult_imp_div_less)
  have f: "folded n = (if q + r < 65536 then q + r else q + r - 65535)"
  proof (cases "q + r < 65536")
    case False
    then have "(q + r) div 65536 = 1" "(q + r) mod 65536 = q + r - 65536" using b by (simp_all add: div_nat_eqI mod_if)
    then show ?thesis using False b by (simp add: folded_def q_def [symmetric] r_def [symmetric] Let_def)
  qed (simp add: folded_def q_def [symmetric] r_def [symmetric] Let_def)
  show "folded n < 65536" "folded n = 0 \<longleftrightarrow> n = 0" using b unfolding f by (auto simp: n)
  have "n = (q + r) + 65535 * q" unfolding n by simp
  then have m: "n mod 65535 = (q + r) mod 65535" by (simp only: mod_mult_self2)
  show "folded n mod 65535 = n mod 65535"
  proof (cases "q + r < 65536")
    case False
    then show ?thesis unfolding f m using b by (simp add: le_mod_geq)
  qed (simp add: f m)
qed

lemma chksum_folded:
  assumes "wordSum bs < 65536 * 65536"
  shows "\<exists>w. lwip_standard_chksum bs = htons w \<and> unat w = folded (wordSum bs)"
proof -
  define a where "a = foldCarry (sumWords 0 bs)"
  have S: "unat (sumWords 0 bs) = wordSum bs" using assms sumWords_nat [of 0 bs] by simp
  have a: "unat a = wordSum bs div 65536 + wordSum bs mod 65536" using foldCarry_nat S by (simp add: a_def)
  have fa: "unat (foldCarry a) = folded (wordSum bs)" using foldCarry_nat [of a] by (simp add: a folded_def Let_def)
  have "foldCarry a = a" if "a AND 0xffff0000 = 0"
  proof -
    have h: "(0xffff0000 :: UInteger32) = push_bit 16 (mask 16)" by (simp add: mask_eq_exp_minus_1)
    have "drop_bit 16 (a AND push_bit 16 (mask 16)) = drop_bit 16 a" by (rule bit_word_eqI) (auto simp: bit_simps dest: bit_imp_le_length)
    then have "drop_bit 16 a = 0" using that unfolding h by simp
    moreover have "a AND 0x0000ffff = take_bit 16 a" by (simp add: take_bit_eq_mask mask_eq_exp_minus_1)
    moreover have "a = push_bit 16 (drop_bit 16 a) OR take_bit 16 a" by (rule bit_word_eqI) (auto simp: bit_simps)
    ultimately show ?thesis by (simp add: foldCarry_def)
  qed
  then have v: "(if a AND 0xffff0000 \<noteq> 0 then foldCarry a else a) = foldCarry a" by simp
  have "lwip_standard_chksum bs = htons (ucast (foldCarry a))"
    by (simp add: lwip_standard_chksum_def a_def [symmetric] v Let_def)
  moreover have "unat (ucast (foldCarry a) :: UInteger16) = folded (wordSum bs)"
    using fa folded_props(1) [OF assms] by (simp add: unsigned_ucast_eq take_bit_nat_eq_self)
  ultimately show ?thesis by blast
qed

lemma wordSum_bound: "wordSum bs \<le> 65535 * length bs"
proof (induction bs rule: wordSum.induct)
  case (2 a)
  then show ?case using octet_less [of a] by simp
next
  case (3 a b bs)
  then show ?case using octet_less [of a] octet_less [of b] by simp
qed simp

lemma htons_bytes: "htons v = push_bit 8 (ucast (ucast v :: Octet)) OR ucast (ucast (drop_bit 8 v) :: Octet)"
  unfolding htons_def byte_masks16 by (rule bit_word_eqI) (auto simp: bit_simps)

lemma not_word: "unat (NOT (w :: UInteger16)) = 65535 - unat w"
proof -
  have "NOT w = (- 1) - w" by (simp add: not_eq_complement)
  then show ?thesis by (simp only: unat_sub [OF word_order.extremum]) (simp add: unsigned_minus_1_eq_mask mask_eq_exp_minus_1)
qed

lemma htons_NOT: "htons (NOT v) = NOT (htons v)"
  unfolding htons_def byte_masks16 by (rule bit_word_eqI) (auto simp: bit_simps)

lemma put_bytes_Cons2: "put_bytes (a # b # bs) (Suc (Suc i)) cs = a # b # put_bytes bs i cs"
  by (induction cs arbitrary: bs i) (simp_all add: put_bytes.simps)

lemma wordSum_put16:
  "get16 b (2 * k) = 0 \<Longrightarrow> 2 * k + 2 \<le> length b \<Longrightarrow> wordSum (put16 b (2 * k) v) = wordSum b + unat (htons v)"
proof (induction k arbitrary: b)
  case 0
  then obtain x y bs where b: "b = x # y # bs" by (metis One_nat_def Suc_1 Suc_le_length_iff add_0 mult_0_right)
  have z: "ucast x OR push_bit 8 (ucast y) = (0 :: UInteger16)" using 0(1) by (simp add: b get16_def get_bytes_def un_le16_def)
  have "x = ucast (ucast x OR push_bit 8 (ucast y) :: UInteger16)" "y = ucast (drop_bit 8 (ucast x OR push_bit 8 (ucast y) :: UInteger16))"
    by (rule bit_word_eqI, auto simp: bit_simps dest: word8_le_bits)+
  then have "x = 0" "y = 0" unfolding z by simp_all
  then show ?case by (simp add: b put16_def put_bytes.simps le16_def htons_bytes be_word)
next
  case (Suc k)
  then obtain x y bs where b: "b = x # y # bs" by (cases b; cases "tl b") auto
  have "get16 bs (2 * k) = 0" using Suc.prems(1) by (simp add: b get16_def get_bytes_def)
  then show ?case using Suc.IH [of bs] Suc.prems(2) by (simp add: b put16_def put_bytes_Cons2)
qed

lemma chksum_verifies:
  assumes "length b < 65536" and "2 * k + 2 \<le> length b" and "get16 b (2 * k) = 0"
  shows "inet_chksum (put16 b (2 * k) (inet_chksum b)) = 0"
proof -
  let ?S = "wordSum b"
  have S: "?S < 65536 * 65536" using wordSum_bound [of b] assms(1) by linarith
  obtain w where w: "lwip_standard_chksum b = htons w" "unat w = folded ?S" using chksum_folded [OF S] by blast
  define b' where "b' = put16 b (2 * k) (inet_chksum b)"
  have n: "unat (NOT w) = 65535 - folded ?S"
    using w(2) by (simp add: not_word)
  have s: "wordSum b' = ?S + (65535 - folded ?S)"
    unfolding b'_def using wordSum_put16 [OF assms(3,2)] n by (simp add: inet_chksum_def w(1) htons_NOT)
  have S': "wordSum b' < 65536 * 65536" using wordSum_bound [of b'] assms(1) by (simp add: b'_def)
  obtain w' where w': "lwip_standard_chksum b' = htons w'" "unat w' = folded (wordSum b')" using chksum_folded [OF S'] by blast
  have f: "folded ?S < 65536" "folded ?S mod 65535 = ?S mod 65535" "folded ?S = 0 \<longleftrightarrow> ?S = 0" using folded_props [OF S] .
  have m: "(?S + (65535 - folded ?S)) mod 65535 = 0"
  proof -
    have "(?S + (65535 - folded ?S)) mod 65535 = (folded ?S + (65535 - folded ?S)) mod 65535"
      using f(2) by (metis mod_add_left_eq)
    then show ?thesis using f(1) by simp
  qed
  have "folded (wordSum b') = 65535"
  proof -
    have "folded (wordSum b') mod 65535 = 0" using folded_props(2) [OF S'] m s by simp
    moreover have "folded (wordSum b') \<noteq> 0" using folded_props(3) [OF S'] s f(1,3) by auto
    moreover have "folded (wordSum b') < 65536" using folded_props(1) [OF S'] .
    ultimately show ?thesis by (auto simp: mod_eq_0_iff_dvd elim!: dvdE)
  qed
  then have "w' = NOT 0" using w'(2) by (intro word_unat_eq_iff [THEN iffD2]) (simp add: unsigned_minus_1_eq_mask mask_eq_exp_minus_1)
  then have "inet_chksum b' = NOT (htons (NOT 0))" unfolding inet_chksum_def w'(1) by (simp only:)
  also have "\<dots> = 0" by (simp only: htons_NOT) (simp add: htons_def)
  finally show ?thesis unfolding b'_def .
qed

text \<open>C40: A message whose checksum field, at an even offset, is filled with \<^verbatim>\<open>inet_chksum\<close> of the message with that field cleared is accepted by the
  test the receiver makes: \<^verbatim>\<open>inet_chksum\<close> of the whole message is zero.  The accumulator never wraps for a 16 bit length, and folding
  the carry twice is enough.
\<close>

theorem inet_chksum_verifies:
  assumes "length b < 65536" and "2 * k + 2 \<le> length b" and "get16 b (2 * k) = 0"
  shows "inet_chksum (put16 b (2 * k) (inet_chksum b)) = 0"
  using chksum_verifies [OF assms] .

lemma inet_chksum_verifies_witness:
  "inet_chksum (put16 [22, 0, 0, 0, 224, 0, 1, 129] 2 (inet_chksum [22, 0, 0, 0, 224, 0, 1, 129])) = 0"
  using inet_chksum_verifies [of "[22, 0, 0, 0, 224, 0, 1, 129]" 1] by (simp add: get16_def get_bytes_def un_le16_def)

subsection \<open>Output\<close>

text \<open>
  The room \<^verbatim>\<open>pbuf_alloc\<close> leaves in front of a payload for the layers \<^verbatim>\<open>PBUF_LINK\<close> (14 bytes) and \<^verbatim>\<open>PBUF_TRANSPORT\<close> (20 + 20 + 14
  bytes) with the payload aligned to four bytes.
\<close>

definition PBUF_LINK_ROOM :: nat where "PBUF_LINK_ROOM = 16"
definition PBUF_TRANSPORT_ROOM :: nat where "PBUF_TRANSPORT_ROOM = 56"

definition netif_is_up :: "Lwip \<Rightarrow> bool" where
  "netif_is_up l \<longleftrightarrow> if_flags l AND NETIF_FLAG_UP \<noteq> 0"

text \<open>\<^verbatim>\<open>ip_route\<close>, for the one interface: it is returned or no interface is.\<close>

definition ip_route :: "UInteger32 \<Rightarrow> Lwip \<Rightarrow> bool" where
  "ip_route dest l =
    (if if_listed l \<and> netif_is_up l \<and> ip_addr_netcmp dest (if_ip l) (if_mask l) then True
     else if \<not> if_default l \<or> \<not> netif_is_up l then False
     else True)"

text \<open>
  \<^verbatim>\<open>ip_frag\<close>: one fragment after the other is built in the static buffer, put behind a fresh buffer with room for the link header,
  and given to \<^verbatim>\<open>netif->output\<close>.  \<open>data\<close> is what is left of the packet and \<open>ofo\<close> the offset in units of eight bytes; the
  buffer keeps its old bytes behind the copied ones.
\<close>

definition IF_MTU :: nat where "IF_MTU = 1500"

definition fragHeader :: "UInteger16 \<Rightarrow> nat \<Rightarrow> Octet list \<Rightarrow> Octet list" where
  "fragHeader tmp cop h =
    (let h = IPH_OFFSET_SET (htons tmp) h;
         h = IPH_LEN_SET (htons (of_nat (cop + IP_HLEN))) h;
         h = IPH_CHKSUM_SET 0 h
     in IPH_CHKSUM_SET (inet_chksum (take IP_HLEN h)) h)"

definition linkHeader :: "Octet list \<Rightarrow> Pbuf" where
  "linkHeader body = \<lparr>pb_room = replicate PBUF_LINK_ROOM 0, pb_head = [], pb_stale = (\<lambda>_. 0), pb_next = [body]\<rparr>"

function fragLoop :: "UInteger16 \<Rightarrow> UInteger32 \<Rightarrow> Octet list \<Rightarrow> UInteger16 \<Rightarrow> Lwip \<Rightarrow> int \<times> Lwip" where
  "fragLoop omf dest data ofo l =
    (if data = [] then (ERR_OK, pbuf_free l)
     else
       let nfb = (IF_MTU - IP_HLEN) div 8;
           final = (length data \<le> IF_MTU - IP_HLEN);
           tmp = omf OR (IP_OFFMASK AND ofo);
           tmp = (if final then tmp else tmp OR IP_MF);
           cop = (if final then length data else nfb * 8);
           l = l\<lparr>frag_buf := put_bytes (frag_buf l) IP_HLEN (take cop data)\<rparr>;
           l = l\<lparr>frag_buf := fragHeader tmp cop (frag_buf l)\<rparr>;
           body = take (if final then length data + IP_HLEN else IF_MTU) (frag_buf l);
           (ok, l) = mem_alloc l
       in if \<not> ok then (ERR_MEM, pbuf_free l)
          else
            let l = pbuf_free (snd (etharp_output (linkHeader body) dest l))
            in fragLoop omf dest (drop cop data) (ofo + of_nat nfb) l)"
  by pat_completeness auto
termination
  by (relation "measure (\<lambda>(omf, dest, data, _). length data)") (auto simp: IP_HLEN_def IF_MTU_def)

declare fragLoop.simps [simp del]

definition ip_frag :: "Pbuf \<Rightarrow> UInteger32 \<Rightarrow> Lwip \<Rightarrow> int \<times> Lwip" where
  "ip_frag p dest l =
    (let (ok, l) = mem_alloc l
     in if \<not> ok then (ERR_MEM, l)
        else
          let l = l\<lparr>frag_buf := put_bytes (frag_buf l) 0 (take IP_HLEN (pb_head p))\<rparr>;
              tmp = htons (IPH_OFFSET (frag_buf l))
          in fragLoop (tmp AND IP_MF) dest (drop IP_HLEN (pbytes p)) (tmp AND IP_OFFMASK) l)"

text \<open>
  \<^verbatim>\<open>ip_output_if_opt\<close> with a header to build: no caller of the modelled part passes \<^verbatim>\<open>IP_HDRINCL\<close>.
\<close>

definition ipHeader :: "UInteger32 \<Rightarrow> UInteger32 \<Rightarrow> UInteger8 \<Rightarrow> UInteger8 \<Rightarrow> UInteger16 \<Rightarrow> nat \<Rightarrow> nat \<Rightarrow> Lwip \<Rightarrow> Octet list \<Rightarrow> Octet list" where
  "ipHeader src dest ttl tos proto ip_hlen len l h =
    (let h = IPH_TTL_SET (ucast ttl) h;
         h = IPH_PROTO_SET proto h;
         h = put32 h 16 dest;
         h = IPH_VHLTOS_SET 4 (of_nat (ip_hlen div 4)) (ucast tos) h;
         h = IPH_LEN_SET (htons (of_nat len)) h;
         h = IPH_OFFSET_SET 0 h;
         h = IPH_ID_SET (htons (ip_id l)) h;
         h = put32 h 12 (if ip_addr_isany src then if_ip l else src)
     in IPH_CHKSUM_SET 0 h)"

definition ip_output_if_opt ::
  "Pbuf \<Rightarrow> UInteger32 \<Rightarrow> UInteger32 \<Rightarrow> UInteger8 \<Rightarrow> UInteger8 \<Rightarrow> UInteger16 \<Rightarrow> Octet list \<Rightarrow> Lwip \<Rightarrow> int \<times> Lwip" where
  "ip_output_if_opt p src dest ttl tos proto ip_options l =
    (let optlen = length ip_options;
         optlen_aligned = (optlen + 3) div 4 * 4;
         (failed, p) = (if optlen \<noteq> 0 then pbuf_header p (int optlen_aligned) else (False, p))
     in if failed then (ERR_BUF, l)
        else
          let p = (if optlen \<noteq> 0
                   then pb_put (\<lambda>b. put_bytes b 0 (ip_options @ replicate (optlen_aligned - optlen) 0)) p else p);
              (failed, p) = pbuf_header p (int IP_HLEN)
          in if failed then (ERR_BUF, l)
             else
               let p = pb_put (ipHeader src dest ttl tos proto (IP_HLEN + optlen_aligned) (pb_tot_len p) l) p;
                   l = l\<lparr>ip_id := ip_id l + 1\<rparr>
               in if pb_tot_len p > IF_MTU then ip_frag p dest l
                  else etharp_output p dest l)"

definition ip_output_if :: "Pbuf \<Rightarrow> UInteger32 \<Rightarrow> UInteger32 \<Rightarrow> UInteger8 \<Rightarrow> UInteger8 \<Rightarrow> UInteger16 \<Rightarrow> Lwip \<Rightarrow> int \<times> Lwip" where
  "ip_output_if p src dest ttl tos proto l = ip_output_if_opt p src dest ttl tos proto [] l"

definition ip_output :: "Pbuf \<Rightarrow> UInteger32 \<Rightarrow> UInteger32 \<Rightarrow> UInteger8 \<Rightarrow> UInteger8 \<Rightarrow> UInteger16 \<Rightarrow> Lwip \<Rightarrow> int \<times> Lwip" where
  "ip_output p src dest ttl tos proto l =
    (if \<not> ip_route dest l then (ERR_RTE, l) else ip_output_if p src dest ttl tos proto l)"

subsection \<open>What is sent\<close>

lemma pbuf_header_room:
  "pb_room p = r @ s \<Longrightarrow> length s = n \<Longrightarrow> 0 < n \<Longrightarrow> pbuf_header p (int n) = (False, p\<lparr>pb_room := r, pb_head := s @ pb_head p\<rparr>)"
  by (simp add: pbuf_header_def)

text \<open>A packet for a group or a broadcast address needs no resolution: it is on the wire at once.\<close>

definition groupMac :: "UInteger32 \<Rightarrow> Lwip \<Rightarrow> Octet list" where
  "groupMac ip l = (if ip_addr_isbroadcast ip l then ethbroadcast else mcastaddr ip)"

lemma etharp_output_group:
  assumes "ip_addr_ismulticast ip \<or> ip_addr_isbroadcast ip l" and "pb_room q = r @ s" and "length s = 14"
  shows "etharp_output q ip l = (link_errs l (link_n l),
    out (Frame (framed (if_hwaddr l) (groupMac ip l) (q\<lparr>pb_room := r, pb_head := s @ pb_head q\<rparr>))) (l\<lparr>link_n := link_n l + 1\<rparr>))"
  using assms(1,3) pbuf_header_room [OF assms(2,3)]
  by (auto simp: etharp_output_def etharp_send_ip_eq groupMac_def)

text \<open>The fields of the header read back.\<close>

lemma vhltos_bits:
  fixes tos :: UInteger8 and v h :: UInteger16
  shows "drop_bit 12 (push_bit 12 (take_bit 4 v) OR push_bit 8 (take_bit 4 h) OR ucast tos :: UInteger16) = take_bit 4 v"
    "drop_bit 8 (push_bit 12 v OR push_bit 8 (take_bit 4 h) OR ucast tos :: UInteger16) AND mask 4 = take_bit 4 h"
  by (rule bit_word_eqI, auto simp: bit_simps dest: word8_le_bits)+

lemma vhltos_fields:
  fixes tos :: UInteger8 and h :: UInteger16
  shows "drop_bit 12 (push_bit 12 4 OR push_bit 8 (take_bit 4 h) OR ucast tos :: UInteger16) = 4"
    "drop_bit 8 (push_bit 12 4 OR push_bit 8 (take_bit 4 h) OR ucast tos :: UInteger16) AND 0x0f = take_bit 4 h"
  using vhltos_bits(1) [of 4 h tos] vhltos_bits(2) [of 4 h tos] by (simp_all add: mask_eq_exp_minus_1)

lemma ttl_proto_fields:
  fixes x :: UInteger16
  shows "(take_bit 8 p OR push_bit 8 x) AND 0xff = take_bit 8 p"
  unfolding byte_masks16 by (rule bit_word_eqI) (auto simp: bit_simps)

lemma ipHeader_fields:
  assumes "20 \<le> length h" and "ip_hlen = 20 \<or> ip_hlen = 24" and "take_bit 8 proto = proto"
  shows "IPH_V (ipHeader src dest ttl tos proto ip_hlen len l h) = 4"
    "IPH_HL (ipHeader src dest ttl tos proto ip_hlen len l h) = of_nat (ip_hlen div 4)"
    "IPH_LEN (ipHeader src dest ttl tos proto ip_hlen len l h) = htons (of_nat len)"
    "IPH_OFFSET (ipHeader src dest ttl tos proto ip_hlen len l h) = 0"
    "IPH_PROTO (ipHeader src dest ttl tos proto ip_hlen len l h) = proto"
    "iphdr_src (ipHeader src dest ttl tos proto ip_hlen len l h) = (if ip_addr_isany src then if_ip l else src)"
    "iphdr_dest (ipHeader src dest ttl tos proto ip_hlen len l h) = dest"
    "length (ipHeader src dest ttl tos proto ip_hlen len l h) = length h"
proof -
  note defs = ipHeader_def IPH_V_def IPH_HL_def IPH_LEN_def IPH_OFFSET_def IPH_PROTO_def IPH_TTL_def iphdr_src_def iphdr_dest_def
    IPH_VHLTOS_SET_def IPH_LEN_SET_def IPH_OFFSET_SET_def IPH_ID_SET_def IPH_TTL_SET_def IPH_PROTO_SET_def IPH_CHKSUM_SET_def Let_def
  have hl: "of_nat (ip_hlen div 4) = (take_bit 4 (of_nat (ip_hlen div 4)) :: UInteger16)" using assms(2) by auto
  show "IPH_V (ipHeader src dest ttl tos proto ip_hlen len l h) = 4"
    "IPH_HL (ipHeader src dest ttl tos proto ip_hlen len l h) = of_nat (ip_hlen div 4)"
    using vhltos_fields [of "of_nat (ip_hlen div 4)" tos] assms(1) unfolding defs hl [symmetric]
    by (simp_all add: put_get_defs buf_simps)
  show "IPH_LEN (ipHeader src dest ttl tos proto ip_hlen len l h) = htons (of_nat len)"
    "IPH_OFFSET (ipHeader src dest ttl tos proto ip_hlen len l h) = 0"
    "iphdr_src (ipHeader src dest ttl tos proto ip_hlen len l h) = (if ip_addr_isany src then if_ip l else src)"
    "iphdr_dest (ipHeader src dest ttl tos proto ip_hlen len l h) = dest"
    "length (ipHeader src dest ttl tos proto ip_hlen len l h) = length h"
    using assms(1) unfolding defs by (simp_all add: put_get_defs buf_simps)
  show "IPH_PROTO (ipHeader src dest ttl tos proto ip_hlen len l h) = proto"
    using assms(1) ttl_proto_fields [of proto] unfolding defs assms(3) by (simp add: put_get_defs buf_simps)
qed

lemma drop_put_bytes: "i + length bs \<le> n \<Longrightarrow> drop n (put_bytes b i bs) = drop n b"
  by (rule nth_equalityI) (simp_all add: nth_put_bytes)

lemma ipHeader_rest:
  assumes "20 \<le> length h"
  shows "drop 20 (ipHeader src dest ttl tos proto ip_hlen len l h) = drop 20 h"
  using assms unfolding ipHeader_def IPH_VHLTOS_SET_def IPH_LEN_SET_def IPH_OFFSET_SET_def IPH_ID_SET_def IPH_TTL_SET_def IPH_PROTO_SET_def
    IPH_CHKSUM_SET_def Let_def put_get_defs
  by (simp add: drop_put_bytes)

subsection \<open>A packet on the wire\<close>

text \<open>The bytes of a packet: a header with these fields and a payload behind it.\<close>

definition ip_packet :: "Octet list \<Rightarrow> UInteger32 \<Rightarrow> UInteger32 \<Rightarrow> UInteger16 \<Rightarrow> nat \<Rightarrow> Octet list \<Rightarrow> bool" where
  "ip_packet b src dest proto hlen payload \<longleftrightarrow> (hlen = 20 \<or> hlen = 24) \<and> length b = hlen + length payload \<and> drop hlen b = payload
    \<and> IPH_V b = 4 \<and> IPH_HL b = of_nat (hlen div 4) \<and> IPH_LEN b = htons (of_nat (length b)) \<and> IPH_OFFSET b = 0 \<and> IPH_PROTO b = proto
    \<and> iphdr_src b = src \<and> iphdr_dest b = dest"

text \<open>An address that needs no query: a group, a broadcast address, or a host of the network whose hardware address is known.\<close>

definition reaches :: "Lwip \<Rightarrow> UInteger32 \<Rightarrow> Octet list \<Rightarrow> bool" where
  "reaches l dest m \<longleftrightarrow>
    (if ip_addr_ismulticast dest \<or> ip_addr_isbroadcast dest l then m = groupMac dest l
     else arp_ok l \<and> dest \<noteq> 0 \<and> ip_addr_netcmp dest (if_ip l) (if_mask l) \<and> route dest l = Known m \<and> length m = 6)"

lemma put_bytes_prefix:
  "length bs \<le> length h \<Longrightarrow> put_bytes (h @ t) 0 bs = bs @ drop (length bs) h @ t"
  by (rule nth_equalityI) (auto simp: nth_put_bytes nth_append)

lemma framed_eq:
  assumes "length src = 6" and "length dst = 6" and "length e = 14" and "pb_head q = e @ b"
  shows "framed src dst q = dst @ src @ [8, 0] @ b @ concat (pb_next q)"
proof -
  have le: "le16 (htons ETHTYPE_IP) = [8, 0]" by (simp add: le16_htons ETHTYPE_IP_def)
  have "put16 (put_bytes (put_bytes (e @ b) 0 dst) 6 src) 12 (htons ETHTYPE_IP) = dst @ src @ [8, 0] @ b"
    unfolding put16_def le
    by (rule nth_equalityI) (use assms in \<open>auto simp: nth_put_bytes nth_append nth_Cons'\<close>)
  then show ?thesis by (simp add: framed_def assms(4))
qed

lemma mac_length: "length (groupMac ip l) = 6"
  by (simp add: groupMac_def ethbroadcast_def mcastaddr_def)

text \<open>What \<^verbatim>\<open>etharp_output\<close> puts on the wire for such an address.\<close>

lemma etharp_output_reaches:
  assumes "reaches l dest m" and "length (if_hwaddr l) = 6" and "pb_room q = r @ e" and "length e = 14"
  shows "\<exists>err l'. etharp_output q dest l = (err, l') \<and> lwip_out l' = Frame (m @ if_hwaddr l @ [8, 0] @ pbytes q) # lwip_out l \<and> length m = 6"
proof (cases "ip_addr_ismulticast dest \<or> ip_addr_isbroadcast dest l")
  case True
  then show ?thesis
    using assms etharp_output_group [OF _ assms(3,4), of dest l]
    by (auto simp: reaches_def out_def framed_eq [OF assms(2) mac_length assms(4)] pbytes_def mac_length)
next
  case False
  then have m: "arp_ok l" "dest \<noteq> 0" "ip_addr_netcmp dest (if_ip l) (if_mask l)" "route dest l = Known m" "length m = 6"
    using assms(1) by (auto simp: reaches_def)
  let ?q = "q\<lparr>pb_room := r, pb_head := e @ pb_head q\<rparr>"
  have o': "etharp_output q dest l = etharp_query dest ?q l"
    using False m(3) pbuf_header_room [OF assms(3,4)] by (auto simp: etharp_output_def)
  have u: "unicast dest l" using False m(2) by (auto simp: unicast_def ip_addr_isany_def)
  obtain err l' where q: "etharp_query dest ?q l = (err, l')" "lwip_out l' = Frame (framed (if_hwaddr l) m ?q) # lwip_out l"
    using etharp_query_known [OF m(1) u m(4)] by blast
  show ?thesis using q o' m(5) framed_eq [OF assms(2) m(5) assms(4), of ?q "pb_head q"] by (auto simp: pbytes_def)
qed

end
