(* ===== verification/Lwip_Igmp.thy ===== *)
theory Lwip_Igmp
  imports Lwip_Ip
begin

text \<open>
  lwIP, third part: multicast group membership (\<^verbatim>\<open>core/ipv4/igmp.c\<close>) for the one interface of the device.  The
  interface has no \<^verbatim>\<open>igmp_mac_filter\<close> (\<^verbatim>\<open>netif_add\<close> clears it and the driver does not set it), so those calls are left out.
\<close>

definition IGMP_TTL :: UInteger8 where "IGMP_TTL = 1"
definition IGMP_MINLEN :: nat where "IGMP_MINLEN = 8"
definition ROUTER_ALERT :: UInteger16 where "ROUTER_ALERT = 0x9404"
definition IGMP_MEMB_QUERY :: UInteger8 where "IGMP_MEMB_QUERY = 0x11"
definition IGMP_V2_MEMB_REPORT :: UInteger8 where "IGMP_V2_MEMB_REPORT = 0x16"
definition IGMP_LEAVE_GROUP :: UInteger8 where "IGMP_LEAVE_GROUP = 0x17"
definition IGMP_V1_DELAYING_MEMBER_TMR :: UInteger8 where "IGMP_V1_DELAYING_MEMBER_TMR = 10"
definition IGMP_JOIN_DELAYING_MEMBER_TMR :: UInteger8 where "IGMP_JOIN_DELAYING_MEMBER_TMR = 5"

definition allsystems :: UInteger32 where "allsystems = htonl 0xe0000001"
definition allrouters :: UInteger32 where "allrouters = htonl 0xe0000002"

subsection \<open>The list of groups\<close>

definition on_group :: "nat \<Rightarrow> (igmp_group \<Rightarrow> igmp_group) \<Rightarrow> Lwip \<Rightarrow> Lwip" where
  "on_group i f l = l\<lparr>groups := (groups l)[i := f (groups l ! i)]\<rparr>"

fun lookfor :: "UInteger32 \<Rightarrow> igmp_group list \<Rightarrow> nat option" where
  "lookfor a [] = None"
| "lookfor a (g # gs) = (if group_address g = a then Some 0 else map_option Suc (lookfor a gs))"

definition igmp_lookfor_group :: "UInteger32 \<Rightarrow> Lwip \<Rightarrow> nat option" where
  "igmp_lookfor_group a l = lookfor a (groups l)"

definition new_group :: "UInteger32 \<Rightarrow> igmp_group" where
  "new_group a = \<lparr>group_address = a, last_reporter_flag = False, group_state = IGMP_GROUP_NON_MEMBER, ig_timer = 0, ig_use = 0\<rparr>"

definition igmp_lookup_group :: "UInteger32 \<Rightarrow> Lwip \<Rightarrow> nat option \<times> Lwip" where
  "igmp_lookup_group a l =
    (case igmp_lookfor_group a l of
       Some i \<Rightarrow> (Some i, l)
     | None \<Rightarrow>
         let (ok, l) = mem_alloc l
         in if ok then (Some 0, l\<lparr>groups := new_group a # groups l\<rparr>) else (None, l))"

definition igmp_remove_group :: "nat \<Rightarrow> Lwip \<Rightarrow> Lwip" where
  "igmp_remove_group i l = l\<lparr>groups := take i (groups l) @ drop (Suc i) (groups l)\<rparr>"

subsection \<open>Timers and messages\<close>

definition igmp_start_timer :: "UInteger8 \<Rightarrow> igmp_group \<Rightarrow> igmp_group" where
  "igmp_start_timer max_time g = g\<lparr>ig_timer := ucast max_time\<rparr>"

definition igmp_delaying_member :: "UInteger8 \<Rightarrow> igmp_group \<Rightarrow> igmp_group" where
  "igmp_delaying_member maxresp g =
    (if group_state g = IGMP_GROUP_IDLE_MEMBER
        \<or> group_state g = IGMP_GROUP_DELAYING_MEMBER \<and> ucast maxresp > ig_timer g
     then (igmp_start_timer (maxresp div 2) g)\<lparr>group_state := IGMP_GROUP_DELAYING_MEMBER\<rparr>
     else g)"

definition igmp_ip_output_if :: "Pbuf \<Rightarrow> UInteger32 \<Rightarrow> UInteger32 \<Rightarrow> UInteger8 \<Rightarrow> UInteger16 \<Rightarrow> Lwip \<Rightarrow> int \<times> Lwip" where
  "igmp_ip_output_if p src dest ttl proto l =
    ip_output_if_opt p src dest ttl 0 proto (le16 (htons ROUTER_ALERT) @ le16 0) l"

text \<open>The eight bytes of a message; a fresh buffer is written completely.\<close>

definition igmpMessage :: "UInteger8 \<Rightarrow> UInteger32 \<Rightarrow> Octet list" where
  "igmpMessage type addr =
    (let m = replicate IGMP_MINLEN 0;
         m = put32 m 4 addr;
         m = put8 (put8 m 0 type) 1 0;
         m = put16 m 2 0
     in put16 m 2 (inet_chksum m))"

definition igmp_send :: "nat \<Rightarrow> UInteger8 \<Rightarrow> Lwip \<Rightarrow> Lwip" where
  "igmp_send i type l =
    (let (ok, l) = mem_alloc l
     in if \<not> ok then l
        else
          let a = group_address (groups l ! i);
              dest = (if type = IGMP_V2_MEMB_REPORT then a else allrouters);
              l = (if type = IGMP_V2_MEMB_REPORT then on_group i (\<lambda>g. g\<lparr>last_reporter_flag := True\<rparr>) l else l);
              p = \<lparr>pb_room = replicate PBUF_TRANSPORT_ROOM 0, pb_head = igmpMessage type a, pb_stale = (\<lambda>_. 0), pb_next = []\<rparr>;
              l = (if type = IGMP_V2_MEMB_REPORT \<or> type = IGMP_LEAVE_GROUP
                   then snd (igmp_ip_output_if p (if_ip l) dest IGMP_TTL IP_PROTO_IGMP l) else l)
          in pbuf_free l)"

definition igmp_timeout :: "nat \<Rightarrow> Lwip \<Rightarrow> Lwip" where
  "igmp_timeout i l =
    (if group_state (groups l ! i) = IGMP_GROUP_DELAYING_MEMBER then igmp_send i IGMP_V2_MEMB_REPORT l else l)"

definition tmrGroup :: "nat \<Rightarrow> Lwip \<Rightarrow> Lwip" where
  "tmrGroup i l =
    (if ig_timer (groups l ! i) \<noteq> 0
     then
       let l = on_group i (\<lambda>g. g\<lparr>ig_timer := ig_timer g - 1\<rparr>) l
       in if ig_timer (groups l ! i) = 0 then igmp_timeout i l else l
     else l)"

definition igmp_tmr :: "Lwip \<Rightarrow> Lwip" where
  "igmp_tmr l = fold tmrGroup [0..<length (groups l)] l"

subsection \<open>Starting, stopping, joining and leaving\<close>

definition igmp_start :: "Lwip \<Rightarrow> int \<times> Lwip" where
  "igmp_start l =
    (let (g, l) = igmp_lookup_group allsystems l
     in case g of
          Some i \<Rightarrow> (ERR_OK, on_group i (\<lambda>g. g\<lparr>group_state := IGMP_GROUP_IDLE_MEMBER, ig_use := ig_use g + 1\<rparr>) l)
        | None \<Rightarrow> (ERR_MEM, l))"

definition igmp_stop :: "Lwip \<Rightarrow> int \<times> Lwip" where
  "igmp_stop l = (ERR_OK, l\<lparr>groups := []\<rparr>)"

definition igmp_report_groups :: "Lwip \<Rightarrow> Lwip" where
  "igmp_report_groups l = l\<lparr>groups := map (igmp_delaying_member IGMP_JOIN_DELAYING_MEMBER_TMR) (groups l)\<rparr>"

definition joinNetif :: "UInteger32 \<Rightarrow> Lwip \<Rightarrow> int \<times> Lwip" where
  "joinNetif groupaddr l =
    (let (g, l) = igmp_lookup_group groupaddr l
     in case g of
          None \<Rightarrow> (ERR_MEM, l)
        | Some i \<Rightarrow>
            let l = (if group_state (groups l ! i) \<noteq> IGMP_GROUP_NON_MEMBER then l
                     else
                       on_group i (\<lambda>g. (igmp_start_timer IGMP_JOIN_DELAYING_MEMBER_TMR g)\<lparr>group_state := IGMP_GROUP_DELAYING_MEMBER\<rparr>)
                         (igmp_send i IGMP_V2_MEMB_REPORT l))
            in (ERR_OK, on_group i (\<lambda>g. g\<lparr>ig_use := ig_use g + 1\<rparr>) l))"

definition on_interface :: "UInteger32 \<Rightarrow> Lwip \<Rightarrow> bool" where
  "on_interface ifaddr l \<longleftrightarrow> if_listed l \<and> if_flags l AND NETIF_FLAG_IGMP \<noteq> 0 \<and> (ip_addr_isany ifaddr \<or> if_ip l = ifaddr)"

definition igmp_joingroup :: "UInteger32 \<Rightarrow> UInteger32 \<Rightarrow> Lwip \<Rightarrow> int \<times> Lwip" where
  "igmp_joingroup ifaddr groupaddr l =
    (if \<not> ip_addr_ismulticast groupaddr then (ERR_VAL, l)
     else if groupaddr = allsystems then (ERR_VAL, l)
     else if on_interface ifaddr l then joinNetif groupaddr l
     else (ERR_VAL, l))"

definition leaveNetif :: "UInteger32 \<Rightarrow> Lwip \<Rightarrow> int \<times> Lwip" where
  "leaveNetif groupaddr l =
    (case igmp_lookfor_group groupaddr l of
       None \<Rightarrow> (ERR_VAL, l)
     | Some i \<Rightarrow>
         if ig_use (groups l ! i) \<le> 1
         then
           let l = (if last_reporter_flag (groups l ! i) then igmp_send i IGMP_LEAVE_GROUP l else l)
           in (ERR_OK, igmp_remove_group i l)
         else (ERR_OK, on_group i (\<lambda>g. g\<lparr>ig_use := ig_use g - 1\<rparr>) l))"

definition igmp_leavegroup :: "UInteger32 \<Rightarrow> UInteger32 \<Rightarrow> Lwip \<Rightarrow> int \<times> Lwip" where
  "igmp_leavegroup ifaddr groupaddr l =
    (if \<not> ip_addr_ismulticast groupaddr then (ERR_VAL, l)
     else if groupaddr = allsystems then (ERR_VAL, l)
     else if on_interface ifaddr l then leaveNetif groupaddr l
     else (ERR_VAL, l))"

subsection \<open>Input\<close>

definition generalQuery :: "UInteger8 \<Rightarrow> igmp_group \<Rightarrow> igmp_group" where
  "generalQuery maxresp g = (if group_address g \<noteq> allsystems then igmp_delaying_member maxresp g else g)"

definition igmpQuery :: "nat \<Rightarrow> UInteger32 \<Rightarrow> Octet list \<Rightarrow> Lwip \<Rightarrow> Lwip" where
  "igmpQuery i dest m l =
    (if dest = allsystems \<and> get32 m 4 = 0
     then
       let maxresp = (if get8 m 1 = 0 then IGMP_V1_DELAYING_MEMBER_TMR else get8 m 1)
       in l\<lparr>groups := map (generalQuery maxresp) (groups l)\<rparr>
     else if group_address (groups l ! i) \<noteq> 0
     then case (if dest = allsystems then igmp_lookfor_group (get32 m 4) l else Some i) of
            Some j \<Rightarrow> on_group j (igmp_delaying_member (get8 m 1)) l
          | None \<Rightarrow> l
     else l)"

definition igmpReport :: "nat \<Rightarrow> Lwip \<Rightarrow> Lwip" where
  "igmpReport i l =
    (if group_state (groups l ! i) = IGMP_GROUP_DELAYING_MEMBER
     then on_group i (\<lambda>g. g\<lparr>ig_timer := 0, group_state := IGMP_GROUP_IDLE_MEMBER, last_reporter_flag := False\<rparr>) l else l)"

definition igmp_input :: "Pbuf \<Rightarrow> UInteger32 \<Rightarrow> Lwip \<Rightarrow> Lwip" where
  "igmp_input p dest l =
    (let (failed, p) = pbuf_header p (- int (unat (IPH_HL (hdr 20 p)) * 4))
     in if failed \<or> length (pb_head p) < IGMP_MINLEN then pbuf_free l
        else if inet_chksum (pb_head p) \<noteq> 0 then pbuf_free l
        else
          case igmp_lookfor_group dest l of
            None \<Rightarrow> pbuf_free l
          | Some i \<Rightarrow>
              let m = pb_head p;
                  l = (if get8 m 0 = IGMP_MEMB_QUERY then igmpQuery i dest m l
                       else if get8 m 0 = IGMP_V2_MEMB_REPORT then igmpReport i l
                       else l)
              in pbuf_free l)"

subsection \<open>Messages on the wire\<close>

text \<open>The frame of a membership message: to the group or to all routers, with the router alert option.\<close>

definition igmp_frame :: "UInteger8 \<Rightarrow> UInteger32 \<Rightarrow> Lwip \<Rightarrow> Octet list \<Rightarrow> bool" where
  "igmp_frame type a l fr \<longleftrightarrow> (\<exists>m b. fr = m @ if_hwaddr l @ [8, 0] @ b \<and> length m = 6
    \<and> ip_packet b (if_ip l) (if type = IGMP_V2_MEMB_REPORT then a else allrouters) IP_PROTO_IGMP 24 (igmpMessage type a))"

lemma igmpMessage_valid: "length (igmpMessage type a) = 8" "inet_chksum (igmpMessage type a) = 0"
proof -
  define m where "m = put16 (put8 (put8 (put32 (replicate 8 0) 4 a) 0 type) 1 0) 2 0"
  have m: "igmpMessage type a = put16 m 2 (inet_chksum m)" by (simp add: igmpMessage_def m_def IGMP_MINLEN_def Let_def)
  have "length m = 8" "get16 m (2 * 1) = 0" by (simp_all add: m_def put_get_defs buf_simps)
  then show "length (igmpMessage type a) = 8" "inet_chksum (igmpMessage type a) = 0"
    using chksum_verifies [of m 1] by (simp_all add: m)
qed

lemma etharp_output_multicast:
  assumes "ip_addr_ismulticast dest" and "length (if_hwaddr l) = 6" and "pb_room q = r @ e" and "length e = 14"
  shows "\<exists>m. length m = 6 \<and> etharp_output q dest l = (link_errs l (link_n l),
    l\<lparr>link_n := link_n l + 1, lwip_out := Frame (m @ if_hwaddr l @ [8, 0] @ pbytes q) # lwip_out l\<rparr>)"
  using assms etharp_output_group [OF disjI1 assms(3,4), of dest l]
  by (intro exI [of _ "groupMac dest l"])
    (simp add: out_def mac_length framed_eq [OF assms(2) mac_length assms(4), of "q\<lparr>pb_room := r, pb_head := e @ pb_head q\<rparr>" "pb_head q"] pbytes_def)

lemma igmp_output:
  assumes "ip_addr_ismulticast dest" and "length (if_hwaddr l) = 6" and "if_ip l \<noteq> 0" and "length msg = 8"
  shows "\<exists>m b. length m = 6 \<and> ip_packet b (if_ip l) dest IP_PROTO_IGMP 24 msg
    \<and> snd (igmp_ip_output_if \<lparr>pb_room = replicate PBUF_TRANSPORT_ROOM 0, pb_head = msg, pb_stale = (\<lambda>_. 0), pb_next = []\<rparr> (if_ip l) dest IGMP_TTL IP_PROTO_IGMP l)
      = l\<lparr>ip_id := ip_id l + 1, link_n := link_n l + 1, lwip_out := Frame (m @ if_hwaddr l @ [8, 0] @ b) # lwip_out l\<rparr>"
proof -
  let ?p = "\<lparr>pb_room = replicate PBUF_TRANSPORT_ROOM 0, pb_head = msg, pb_stale = (\<lambda>_. 0), pb_next = []\<rparr>"
  let ?k = "l\<lparr>ip_id := ip_id l + 1\<rparr>"
  define z where "z n = replicate n (0 :: Octet)" for n
  have z: "replicate PBUF_TRANSPORT_ROOM 0 = z 18 @ z 14 @ z 20 @ z 4"
    by (simp add: z_def PBUF_TRANSPORT_ROOM_def replicate_add [symmetric])
  have lz: "length (z n) = n" for n by (simp add: z_def)
  define opts where "opts = put_bytes (z 4 @ msg) 0 (le16 (htons ROUTER_ALERT) @ le16 0)"
  have opts: "length opts = 12" "drop 4 opts = msg" using assms(4) lz by (simp_all add: opts_def drop_put_bytes)
  define hd where "hd = ipHeader (if_ip l) dest IGMP_TTL 0 IP_PROTO_IGMP 24 32 l (z 20 @ opts)"
  define q where "q = \<lparr>pb_room = z 18 @ z 14, pb_head = hd, pb_stale = (\<lambda>_. 0), pb_next = []\<rparr>"
  have f: "IPH_V hd = 4" "IPH_HL hd = of_nat (24 div 4)" "IPH_LEN hd = htons (of_nat 32)" "IPH_OFFSET hd = 0" "IPH_PROTO hd = IP_PROTO_IGMP"
    "iphdr_src hd = if_ip l" "iphdr_dest hd = dest" "length hd = 32"
    unfolding hd_def using ipHeader_fields [of "z 20 @ opts" 24 IP_PROTO_IGMP] lz opts assms(3)
    by (simp_all add: IP_PROTO_IGMP_def ip_addr_isany_def)
  have "drop 20 hd = opts" unfolding hd_def using ipHeader_rest [of "z 20 @ opts"] lz by simp
  then have "drop 4 (drop 20 hd) = msg" using opts(2) by simp
  then have d: "drop 24 hd = msg" by simp
  have ip: "ip_packet (pbytes q) (if_ip l) dest IP_PROTO_IGMP 24 msg"
    using f d assms(4) by (simp add: ip_packet_def q_def pbytes_def)
  define p1 where "p1 = \<lparr>pb_room = z 18 @ z 14 @ z 20, pb_head = z 4 @ msg, pb_stale = (\<lambda>_. 0), pb_next = []\<rparr>"
  define p2 where "p2 = \<lparr>pb_room = z 18 @ z 14 @ z 20, pb_head = opts, pb_stale = (\<lambda>_. 0), pb_next = []\<rparr>"
  define p3 where "p3 = \<lparr>pb_room = z 18 @ z 14, pb_head = z 20 @ opts, pb_stale = (\<lambda>_. 0), pb_next = []\<rparr>"
  have h1: "pbuf_header ?p 4 = (False, p1)"
    using pbuf_header_room [of ?p "z 18 @ z 14 @ z 20" "z 4" 4] z lz by (simp add: p1_def)
  have h2: "pbuf_header p2 20 = (False, p3)"
    using pbuf_header_room [of p2 "z 18 @ z 14" "z 20" 20] lz by (simp add: p2_def p3_def)
  have p: "pb_put (\<lambda>b. put_bytes b 0 (le16 (htons ROUTER_ALERT) @ le16 0)) p1 = p2"
    "pb_tot_len p3 = 32" "pb_put (ipHeader (if_ip l) dest IGMP_TTL 0 IP_PROTO_IGMP 24 32 l) p3 = q" "pb_tot_len q = 32"
    using lz opts(1) f(8) by (simp_all add: pb_put_def p1_def p2_def p3_def opts_def q_def hd_def pb_tot_len_def)
  have o4: "length (le16 (htons ROUTER_ALERT) @ le16 0) = 4" by simp
  have "igmp_ip_output_if ?p (if_ip l) dest IGMP_TTL IP_PROTO_IGMP l = etharp_output q dest ?k"
    unfolding igmp_ip_output_if_def ip_output_if_opt_def Let_def o4 using h1 h2 p by (simp add: IP_HLEN_def IF_MTU_def)
  moreover obtain m where "length m = 6" "etharp_output q dest ?k = (link_errs ?k (link_n ?k),
      ?k\<lparr>link_n := link_n ?k + 1, lwip_out := Frame (m @ if_hwaddr ?k @ [8, 0] @ pbytes q) # lwip_out ?k\<rparr>)"
    using etharp_output_multicast [OF assms(1), of ?k q "z 18" "z 14"] assms(2) lz by (auto simp: q_def)
  ultimately show ?thesis using ip by (intro exI [of _ m] exI [of _ "pbytes q"]) simp
qed

text \<open>Sending a message changes the groups only by the mark of the last reporter.\<close>

lemma igmp_send_effect:
  assumes "type = IGMP_V2_MEMB_REPORT \<or> type = IGMP_LEAVE_GROUP" and "ip_addr_ismulticast (group_address (groups l ! i))"
    and "length (if_hwaddr l) = 6" and "if_ip l \<noteq> 0" and "mem_oks l (mem_n l)"
  shows "\<exists>fr. igmp_frame type (group_address (groups l ! i)) l fr \<and> igmp_send i type l =
    (if type = IGMP_V2_MEMB_REPORT then on_group i (\<lambda>g. g\<lparr>last_reporter_flag := True\<rparr>) l else l)
      \<lparr>mem_n := mem_n l + 1, ip_id := ip_id l + 1, link_n := link_n l + 1, lwip_out := Freed # Frame fr # lwip_out l\<rparr>"
proof -
  let ?a = "group_address (groups l ! i)"
  define dest where "dest = (if type = IGMP_V2_MEMB_REPORT then ?a else allrouters)"
  define k where "k = (if type = IGMP_V2_MEMB_REPORT then on_group i (\<lambda>g. g\<lparr>last_reporter_flag := True\<rparr>) (l\<lparr>mem_n := mem_n l + 1\<rparr>) else l\<lparr>mem_n := mem_n l + 1\<rparr>)"
  have mr: "ip_addr_ismulticast allrouters" by (simp add: ip_addr_ismulticast_def allrouters_def htonl_def)
  have d: "ip_addr_ismulticast dest" using assms(2) mr by (simp add: dest_def)
  have k: "if_ip k = if_ip l" "if_hwaddr k = if_hwaddr l" "lwip_out k = lwip_out l" "ip_id k = ip_id l" "link_n k = link_n l"
    by (simp_all add: k_def on_group_def)
  obtain m b where b: "length m = 6" "ip_packet b (if_ip l) dest IP_PROTO_IGMP 24 (igmpMessage type ?a)"
    "snd (igmp_ip_output_if \<lparr>pb_room = replicate PBUF_TRANSPORT_ROOM 0, pb_head = igmpMessage type ?a, pb_stale = (\<lambda>_. 0), pb_next = []\<rparr> (if_ip k) dest IGMP_TTL IP_PROTO_IGMP k)
      = k\<lparr>ip_id := ip_id k + 1, link_n := link_n k + 1, lwip_out := Frame (m @ if_hwaddr k @ [8, 0] @ b) # lwip_out k\<rparr>"
    using igmp_output [OF d, of k "igmpMessage type ?a"] assms(3,4) igmpMessage_valid(1) by (auto simp: k)
  have "igmp_send i type l = pbuf_free (k\<lparr>ip_id := ip_id k + 1, link_n := link_n k + 1, lwip_out := Frame (m @ if_hwaddr k @ [8, 0] @ b) # lwip_out k\<rparr>)"
  proof (cases "type = IGMP_V2_MEMB_REPORT")
    case True
    then have "dest = ?a" "k = on_group i (\<lambda>g. g\<lparr>last_reporter_flag := True\<rparr>) (l\<lparr>mem_n := mem_n l + 1\<rparr>)" by (simp_all add: dest_def k_def)
    then show ?thesis using True assms(5) b(3) by (simp add: igmp_send_def mem_alloc_def)
  next
    case False
    then have "dest = allrouters" "k = l\<lparr>mem_n := mem_n l + 1\<rparr>" by (simp_all add: dest_def k_def)
    then show ?thesis using False assms(1,5) b(3) by (simp add: igmp_send_def mem_alloc_def)
  qed
  moreover have "igmp_frame type ?a l (m @ if_hwaddr l @ [8, 0] @ b)" using b(1,2) unfolding igmp_frame_def dest_def by blast
  ultimately show ?thesis by (intro exI [of _ "m @ if_hwaddr l @ [8, 0] @ b"]) (simp add: pbuf_free_def out_def k k_def on_group_def)
qed

subsection \<open>The list as a table of reference counts\<close>

definition count_in :: "igmp_group list \<Rightarrow> UInteger32 \<Rightarrow> nat" where
  "count_in gs a = (case lookfor a gs of None \<Rightarrow> 0 | Some i \<Rightarrow> unat (ig_use (gs ! i)))"

definition members :: "Lwip \<Rightarrow> UInteger32 \<Rightarrow> nat" where "members l = count_in (groups l)"

lemma lookfor_Some: "lookfor a gs = Some i \<Longrightarrow> i < length gs \<and> group_address (gs ! i) = a"
  by (induction gs arbitrary: i) (auto split: if_splits)

lemma lookfor_None: "lookfor a gs = None \<longleftrightarrow> a \<notin> group_address ` set gs"
  by (induction gs) auto

lemma lookfor_nth:
  "i < length gs \<Longrightarrow> distinct (map group_address gs) \<Longrightarrow> lookfor (group_address (gs ! i)) gs = Some i"
proof (induction gs arbitrary: i)
  case (Cons g gs)
  then show ?case by (cases i) auto
qed simp

lemma count_Cons: "count_in (g # gs) = (count_in gs)(group_address g := unat (ig_use g))"
  by (auto simp: count_in_def fun_eq_iff split: option.splits)

lemma count_update:
  "lookfor a gs = Some i \<Longrightarrow> group_address g = a \<Longrightarrow> count_in (gs[i := g]) = (count_in gs)(a := unat (ig_use g))"
proof (induction gs arbitrary: i)
  case (Cons h gs)
  then show ?case by (auto simp: count_Cons fun_upd_twist split: if_splits nat.splits)
qed simp

lemma count_remove:
  "lookfor a gs = Some i \<Longrightarrow> distinct (map group_address gs) \<Longrightarrow> count_in (take i gs @ drop (Suc i) gs) = (count_in gs)(a := 0)"
proof (induction gs arbitrary: i)
  case (Cons h gs)
  show ?case
  proof (cases "group_address h = a")
    case True
    then have "lookfor a gs = None" using Cons.prems(2) by (auto simp: lookfor_None)
    then have "count_in gs a = 0" by (simp add: count_in_def)
    then show ?thesis using True Cons.prems(1) by (auto simp: count_Cons fun_eq_iff)
  next
    case False
    then show ?thesis using Cons by (auto simp: count_Cons fun_upd_twist)
  qed
qed simp

text \<open>A list in order: one entry per address, all of them multicast, in use, and past the first state.\<close>

definition groups_ok :: "Lwip \<Rightarrow> bool" where
  "groups_ok l \<longleftrightarrow> distinct (map group_address (groups l)) \<and> length (if_hwaddr l) = 6 \<and> if_ip l \<noteq> 0
    \<and> (\<forall>g \<in> set (groups l). ip_addr_ismulticast (group_address g) \<and> group_state g \<noteq> IGMP_GROUP_NON_MEMBER \<and> ig_use g \<noteq> 0)"

lemma groups_ok_update:
  assumes "groups_ok l" and "i < length (groups l)" and "group_address (f (groups l ! i)) = group_address (groups l ! i)"
    and "group_state (f (groups l ! i)) \<noteq> IGMP_GROUP_NON_MEMBER" and "ig_use (f (groups l ! i)) \<noteq> 0"
  shows "groups_ok (on_group i f l)"
proof -
  have "map group_address ((groups l)[i := f (groups l ! i)]) = map group_address (groups l)"
    using assms(2,3) by (metis list_update_id map_update nth_map)
  moreover have "g = f (groups l ! i) \<or> g \<in> set (groups l)" if "g \<in> set ((groups l)[i := f (groups l ! i)])" for g
    using that set_update_subset_insert [of "groups l" i "f (groups l ! i)"] by blast
  moreover have "ip_addr_ismulticast (group_address (groups l ! i))" using assms(1,2) by (simp add: groups_ok_def)
  ultimately show ?thesis using assms unfolding groups_ok_def on_group_def by fastforce
qed

lemma use_up: "unat (u :: UInteger8) < 255 \<Longrightarrow> unat (u + 1) = unat u + 1 \<and> u + 1 \<noteq> 0"
  by (auto simp: unat_word_ariths unat_eq_0 [symmetric])

lemma use_down: "\<not> (u :: UInteger8) \<le> 1 \<Longrightarrow> unat (u - 1) = unat u - 1 \<and> u - 1 \<noteq> 0"
  by (cases "u = 0") (auto simp: unat_minus_one word_le_nat_alt)

lemma distinct_without: "distinct (map f xs) \<Longrightarrow> distinct (map f (take i xs @ drop (Suc i) xs))"
proof (induction xs arbitrary: i)
  case (Cons x xs)
  then show ?case by (cases i) (auto dest: in_set_takeD in_set_dropD)
qed simp

text \<open>Joining counts up, and reports a group that was not joined before.\<close>

lemma join_counts:
  assumes "groups_ok l" and "on_interface ifaddr l" and "ip_addr_ismulticast a" and "a \<noteq> allsystems" and "members l a < 255"
    and "mem_oks l (mem_n l)" and "mem_oks l (mem_n l + 1)"
  shows "\<exists>l'. igmp_joingroup ifaddr a l = (ERR_OK, l') \<and> groups_ok l' \<and> members l' = (members l)(a := members l a + 1)
    \<and> (if members l a = 0 then \<exists>fr. lwip_out l' = Freed # Frame fr # lwip_out l \<and> igmp_frame IGMP_V2_MEMB_REPORT a l fr
       else lwip_out l' = lwip_out l)"
proof -
  have j: "igmp_joingroup ifaddr a l = joinNetif a l" using assms(2-4) by (simp add: igmp_joingroup_def)
  show ?thesis
  proof (cases "lookfor a (groups l)")
    case (Some i)
    note i = lookfor_Some [OF Some]
    have g: "groups l ! i \<in> set (groups l)" using i by simp
    then have m: "group_state (groups l ! i) \<noteq> IGMP_GROUP_NON_MEMBER" "ig_use (groups l ! i) \<noteq> 0" using assms(1) by (auto simp: groups_ok_def)
    have c: "members l a = unat (ig_use (groups l ! i))" by (simp add: members_def count_in_def Some)
    let ?f = "\<lambda>g. g\<lparr>ig_use := ig_use g + 1\<rparr>"
    have u: "unat (ig_use (groups l ! i) + 1) = members l a + 1" "ig_use (groups l ! i) + 1 \<noteq> 0" using use_up assms(5) c by simp_all
    have "joinNetif a l = (ERR_OK, on_group i ?f l)"
      using m(1) by (simp add: joinNetif_def igmp_lookup_group_def igmp_lookfor_group_def Some)
    moreover have "groups_ok (on_group i ?f l)" using groups_ok_update [OF assms(1) conjunct1 [OF i], of ?f] m u(2) by simp
    moreover have "members (on_group i ?f l) = (members l)(a := members l a + 1)"
      using count_update [OF Some, of "?f (groups l ! i)"] i u(1) by (simp add: members_def on_group_def)
    moreover have "members l a \<noteq> 0" using c m(2) by (simp add: unat_eq_0)
    ultimately show ?thesis unfolding j by (simp add: on_group_def)
  next
    case None
    have c: "members l a = 0" by (simp add: members_def count_in_def None)
    define k where "k = l\<lparr>mem_n := mem_n l + 1, groups := new_group a # groups l\<rparr>"
    have k: "length (if_hwaddr k) = 6" "if_ip k \<noteq> 0" "mem_oks k (mem_n k)" "group_address (groups k ! 0) = a"
      using assms(1,7) by (simp_all add: k_def groups_ok_def new_group_def)
    obtain fr where fr: "igmp_frame IGMP_V2_MEMB_REPORT a k fr"
      "igmp_send 0 IGMP_V2_MEMB_REPORT k = (on_group 0 (\<lambda>g. g\<lparr>last_reporter_flag := True\<rparr>) k)
        \<lparr>mem_n := mem_n k + 1, ip_id := ip_id k + 1, link_n := link_n k + 1, lwip_out := Freed # Frame fr # lwip_out k\<rparr>"
      using igmp_send_effect [of IGMP_V2_MEMB_REPORT k 0] k assms(3) by auto
    have al: "igmp_lookup_group a l = (Some 0, k)"
      using assms(6) by (simp add: igmp_lookup_group_def igmp_lookfor_group_def None mem_alloc_def k_def)
    let ?g = "\<lparr>group_address = a, last_reporter_flag = True, group_state = IGMP_GROUP_DELAYING_MEMBER, ig_timer = 5, ig_use = 1\<rparr>"
    define l' where "l' = l\<lparr>mem_n := mem_n l + 2, ip_id := ip_id l + 1, link_n := link_n l + 1,
      groups := ?g # groups l, lwip_out := Freed # Frame fr # lwip_out l\<rparr>"
    have e: "joinNetif a l = (ERR_OK, l')"
      unfolding joinNetif_def al using fr(2)
      by (simp add: k_def new_group_def on_group_def igmp_start_timer_def IGMP_JOIN_DELAYING_MEMBER_TMR_def l'_def)
    have "a \<notin> group_address ` set (groups l)" using None by (simp add: lookfor_None)
    then have "groups_ok l'" using assms(1,3) by (simp add: groups_ok_def l'_def)
    moreover have "members l' = (members l)(a := 1)" by (simp add: members_def l'_def count_Cons)
    moreover have "igmp_frame IGMP_V2_MEMB_REPORT a l fr" using fr(1) by (simp add: igmp_frame_def k_def)
    ultimately show ?thesis unfolding j e using c by (auto simp: l'_def)
  qed
qed

text \<open>Whether this host was the last to report a group.\<close>

definition last_reporter :: "UInteger32 \<Rightarrow> Lwip \<Rightarrow> bool" where
  "last_reporter a l \<longleftrightarrow> (\<exists>g \<in> set (groups l). group_address g = a \<and> last_reporter_flag g)"

lemma last_reporter_nth:
  assumes "lookfor a (groups l) = Some i" and "distinct (map group_address (groups l))"
  shows "last_reporter a l = last_reporter_flag (groups l ! i)"
proof -
  note i = lookfor_Some [OF assms(1)]
  have "g = groups l ! i" if "g \<in> set (groups l)" "group_address g = a" for g
    using that i assms(2) by (metis distinct_map inj_onD nth_mem)
  then show ?thesis using i by (auto simp: last_reporter_def)
qed

text \<open>Leaving counts down, and the last one to report tells the routers when nobody uses the group any more.\<close>

lemma leave_counts:
  assumes "groups_ok l" and "on_interface ifaddr l" and "ip_addr_ismulticast a" and "a \<noteq> allsystems" and "mem_oks l (mem_n l)"
  shows "\<exists>e l'. igmp_leavegroup ifaddr a l = (e, l') \<and> groups_ok l' \<and> members l' = (members l)(a := members l a - 1)
    \<and> (e = ERR_OK \<longleftrightarrow> members l a \<noteq> 0)
    \<and> (if members l a = 1 \<and> last_reporter a l then \<exists>fr. lwip_out l' = Freed # Frame fr # lwip_out l \<and> igmp_frame IGMP_LEAVE_GROUP a l fr
       else lwip_out l' = lwip_out l)"
proof -
  have j: "igmp_leavegroup ifaddr a l = leaveNetif a l" using assms(2-4) by (simp add: igmp_leavegroup_def)
  show ?thesis
  proof (cases "lookfor a (groups l)")
    case None
    have c: "members l a = 0" by (simp add: members_def count_in_def None)
    then show ?thesis unfolding j using assms(1) by (auto simp: leaveNetif_def igmp_lookfor_group_def None ERR_VAL_def ERR_OK_def)
  next
    case (Some i)
    note i = lookfor_Some [OF Some]
    have g: "groups l ! i \<in> set (groups l)" using i by simp
    have m: "ig_use (groups l ! i) \<noteq> 0" "group_state (groups l ! i) \<noteq> IGMP_GROUP_NON_MEMBER" using assms(1) g by (auto simp: groups_ok_def)
    have c: "members l a = unat (ig_use (groups l ! i))" "members l a \<noteq> 0" using m(1) by (simp_all add: members_def count_in_def Some unat_eq_0)
    show ?thesis
    proof (cases "ig_use (groups l ! i) \<le> 1")
      case True
      then have one: "members l a = 1" using c by (simp add: word_le_nat_alt)
      obtain fr where fr: "igmp_frame IGMP_LEAVE_GROUP a l fr" "igmp_send i IGMP_LEAVE_GROUP l =
          l\<lparr>mem_n := mem_n l + 1, ip_id := ip_id l + 1, link_n := link_n l + 1, lwip_out := Freed # Frame fr # lwip_out l\<rparr>"
        using igmp_send_effect [of IGMP_LEAVE_GROUP l i] assms i
        by (auto simp: groups_ok_def IGMP_LEAVE_GROUP_def IGMP_V2_MEMB_REPORT_def)
      define k where "k = (if last_reporter_flag (groups l ! i) then igmp_send i IGMP_LEAVE_GROUP l else l)"
      have e: "leaveNetif a l = (ERR_OK, igmp_remove_group i k)"
        using True by (simp add: leaveNetif_def igmp_lookfor_group_def Some k_def Let_def)
      have k: "groups k = groups l" "if_hwaddr k = if_hwaddr l" "if_ip k = if_ip l"
        "lwip_out k = (if last_reporter_flag (groups l ! i) then Freed # Frame fr # lwip_out l else lwip_out l)" by (simp_all add: k_def fr(2))
      have s: "set (take i (groups l) @ drop (Suc i) (groups l)) \<subseteq> set (groups l)" by (auto dest: in_set_takeD in_set_dropD)
      have "distinct (map group_address (groups l))" using assms(1) by (simp add: groups_ok_def)
      then have d: "distinct (map group_address (take i (groups l) @ drop (Suc i) (groups l)))" by (rule distinct_without)
      have "groups_ok (igmp_remove_group i k)"
        using assms(1) s d unfolding groups_ok_def igmp_remove_group_def by (auto simp: k)
      moreover have "members (igmp_remove_group i k) = (members l)(a := members l a - 1)"
        using count_remove [OF Some] assms(1) one by (simp add: members_def igmp_remove_group_def k groups_ok_def)
      ultimately show ?thesis unfolding j e using fr(1) k(4) one last_reporter_nth [OF Some] assms(1)
        by (auto simp: igmp_remove_group_def groups_ok_def)
    next
      case False
      let ?f = "\<lambda>g. g\<lparr>ig_use := ig_use g - 1\<rparr>"
      have e: "leaveNetif a l = (ERR_OK, on_group i ?f l)" using False by (simp add: leaveNetif_def igmp_lookfor_group_def Some)
      have u: "unat (ig_use (groups l ! i) - 1) = members l a - 1" "ig_use (groups l ! i) - 1 \<noteq> 0" using use_down [OF False] c by simp_all
      have "groups_ok (on_group i ?f l)" using groups_ok_update [OF assms(1) conjunct1 [OF i], of ?f] m u(2) by simp
      moreover have "members (on_group i ?f l) = (members l)(a := members l a - 1)"
        using count_update [OF Some, of "?f (groups l ! i)"] i u(1) by (simp add: members_def on_group_def)
      moreover have "members l a \<noteq> 1" using False c(1) by (simp add: word_le_nat_alt)
      ultimately show ?thesis unfolding j e using c(2) by (auto simp: on_group_def)
    qed
  qed
qed

subsection \<open>Queries and the timer\<close>

definition gtick :: "igmp_group \<Rightarrow> igmp_group" where
  "gtick g = (if ig_timer g = 0 then g
    else if ig_timer g = 1 \<and> group_state g = IGMP_GROUP_DELAYING_MEMBER then g\<lparr>ig_timer := 0, last_reporter_flag := True\<rparr>
    else g\<lparr>ig_timer := ig_timer g - 1\<rparr>)"

definition due :: "igmp_group \<Rightarrow> bool" where
  "due g \<longleftrightarrow> ig_timer g = 1 \<and> group_state g = IGMP_GROUP_DELAYING_MEMBER"

lemma gtick_address [simp]: "group_address (gtick g) = group_address g" "group_state (gtick g) = group_state g"
  by (simp_all add: gtick_def)

definition is_report :: "UInteger32 \<Rightarrow> Lwip \<Rightarrow> LwipOut \<Rightarrow> bool" where
  "is_report a l x \<longleftrightarrow> (\<exists>fr. x = Frame fr \<and> igmp_frame IGMP_V2_MEMB_REPORT a l fr)"

text \<open>The number of reports of a group in an output.\<close>

definition reported :: "UInteger32 \<Rightarrow> Lwip \<Rightarrow> LwipOut list \<Rightarrow> nat" where
  "reported a l new = length (filter (is_report a l) new)"

text \<open>A report names one group: its destination.\<close>

lemma igmp_frame_unique:
  assumes "igmp_frame IGMP_V2_MEMB_REPORT a l fr" and "igmp_frame IGMP_V2_MEMB_REPORT b l fr"
  shows "a = b"
proof -
  obtain m x where x: "fr = m @ if_hwaddr l @ [8, 0] @ x" "length m = 6" "iphdr_dest x = a"
    using assms(1) by (auto simp: igmp_frame_def ip_packet_def)
  obtain n y where y: "fr = n @ if_hwaddr l @ [8, 0] @ y" "length n = 6" "iphdr_dest y = b"
    using assms(2) by (auto simp: igmp_frame_def ip_packet_def)
  have "x = y" using x(1,2) y(1,2) by simp
  then show ?thesis using x(3) y(3) by simp
qed

text \<open>A host on which every message can be sent.\<close>

definition can_report :: "Lwip \<Rightarrow> bool" where
  "can_report l \<longleftrightarrow> length (if_hwaddr l) = 6 \<and> if_ip l \<noteq> 0 \<and> (\<forall>n. mem_oks l n) \<and> (\<forall>g \<in> set (groups l). ip_addr_ismulticast (group_address g))"

text \<open>A later state of the same host, with more output.\<close>

definition later :: "Lwip \<Rightarrow> LwipOut list \<Rightarrow> Lwip \<Rightarrow> bool" where
  "later l new k \<longleftrightarrow> lwip_out k = new @ lwip_out l \<and> if_ip k = if_ip l \<and> if_hwaddr k = if_hwaddr l \<and> mem_oks k = mem_oks l"

lemma later_trans: "later l n k \<Longrightarrow> later k m j \<Longrightarrow> later l (m @ n) j"
  by (simp add: later_def)

lemma reported_later: "later l new k \<Longrightarrow> reported a k m = reported a l m"
  by (simp add: reported_def is_report_def [abs_def] igmp_frame_def later_def)

lemma reported_append: "reported a l (m @ n) = reported a l m + reported a l n"
  by (simp add: reported_def)

lemma tmrGroup_effect:
  assumes "can_report l" and "i < length (groups l)"
  shows "\<exists>new. later l new (tmrGroup i l) \<and> groups (tmrGroup i l) = (groups l)[i := gtick (groups l ! i)]
    \<and> (\<forall>a. reported a l new = (if due (groups l ! i) \<and> group_address (groups l ! i) = a then 1 else 0))"
proof -
  let ?g = "groups l ! i"
  define k where "k = on_group i (\<lambda>g. g\<lparr>ig_timer := ig_timer g - 1\<rparr>) l"
  have k: "groups k ! i = ?g\<lparr>ig_timer := ig_timer ?g - 1\<rparr>" "group_address (groups k ! i) = group_address ?g"
    "length (if_hwaddr k) = 6" "if_ip k \<noteq> 0" "mem_oks k (mem_n k)" "ip_addr_ismulticast (group_address ?g)"
    using assms by (simp_all add: k_def on_group_def can_report_def)
  consider "ig_timer ?g = 0" | "due ?g" | "ig_timer ?g \<noteq> 0" "\<not> due ?g" by blast
  then show ?thesis
  proof cases
    case 1
    then show ?thesis by (intro exI [of _ "[]"]) (simp add: tmrGroup_def later_def gtick_def due_def reported_def)
  next
    case 2
    obtain fr where fr: "igmp_frame IGMP_V2_MEMB_REPORT (group_address ?g) k fr" "igmp_send i IGMP_V2_MEMB_REPORT k =
        (on_group i (\<lambda>g. g\<lparr>last_reporter_flag := True\<rparr>) k)
          \<lparr>mem_n := mem_n k + 1, ip_id := ip_id k + 1, link_n := link_n k + 1, lwip_out := Freed # Frame fr # lwip_out k\<rparr>"
      using igmp_send_effect [of IGMP_V2_MEMB_REPORT k i] k by auto
    have "tmrGroup i l = igmp_send i IGMP_V2_MEMB_REPORT k"
      using 2 k(1) by (simp add: tmrGroup_def k_def [symmetric] igmp_timeout_def due_def)
    moreover have f: "igmp_frame IGMP_V2_MEMB_REPORT (group_address ?g) l fr" using fr(1) by (simp add: igmp_frame_def k_def on_group_def)
    have "is_report a l (Frame fr) \<longleftrightarrow> group_address ?g = a" for a using f igmp_frame_unique by (auto simp: is_report_def)
    then have "reported a l [Freed, Frame fr] = (if group_address ?g = a then 1 else 0)" for a by (simp add: reported_def) (simp add: is_report_def)
    ultimately show ?thesis
      using 2 k(1) fr(2) assms(2)
      by (intro exI [of _ "[Freed, Frame fr]"]) (auto simp: later_def gtick_def due_def on_group_def k_def)
  next
    case 3
    then have "tmrGroup i l = k"
      using k(1) by (auto simp: tmrGroup_def k_def [symmetric] igmp_timeout_def due_def)
    then show ?thesis
      using 3 by (intro exI [of _ "[]"]) (auto simp: later_def gtick_def due_def on_group_def k_def reported_def)
  qed
qed

lemma can_report_later:
  assumes "can_report l" and "later l new k" and "map group_address (groups k) = map group_address (groups l)"
  shows "can_report k"
proof -
  have "group_address ` set (groups k) = group_address ` set (groups l)" using assms(3) by (metis list.set_map)
  then show ?thesis using assms(1,2) unfolding can_report_def later_def by (metis (no_types, lifting) image_iff)
qed

text \<open>One tick: every group advances, and exactly the due ones report.\<close>

lemma igmp_tmr_effect:
  assumes "can_report l"
  shows "\<exists>new. later l new (igmp_tmr l) \<and> groups (igmp_tmr l) = map gtick (groups l)
    \<and> (\<forall>a. reported a l new = length (filter (\<lambda>g. due g \<and> group_address g = a) (groups l)))"
proof -
  let ?gs = "groups l" and ?d = "\<lambda>a g. due g \<and> group_address g = a"
  have "\<exists>new. later l new (fold tmrGroup [0..<n] l) \<and> groups (fold tmrGroup [0..<n] l) = map gtick (take n ?gs) @ drop n ?gs
    \<and> (\<forall>a. reported a l new = length (filter (?d a) (take n ?gs)))" if "n \<le> length ?gs" for n
    using that
  proof (induction n)
    case 0
    then show ?case by (intro exI [of _ "[]"]) (simp add: later_def reported_def)
  next
    case (Suc n)
    define k where "k = fold tmrGroup [0..<n] l"
    obtain new where new: "later l new k" "groups k = map gtick (take n ?gs) @ drop n ?gs"
      "\<And>a. reported a l new = length (filter (?d a) (take n ?gs))"
      using Suc unfolding k_def by auto
    have n: "n < length ?gs" "groups k ! n = ?gs ! n" using Suc.prems new(2) by (simp_all add: nth_append)
    have "map group_address (groups k) = map group_address (take n ?gs) @ map group_address (drop n ?gs)"
      unfolding new(2) by (simp add: comp_def)
    then have "map group_address (groups k) = map group_address ?gs" by (simp only: map_append [symmetric] append_take_drop_id)
    then have "can_report k" by (rule can_report_later [OF assms new(1)])
    then obtain new' where new': "later k new' (tmrGroup n k)" "groups (tmrGroup n k) = (groups k)[n := gtick (groups k ! n)]"
      "\<And>a. reported a k new' = (if ?d a (groups k ! n) then 1 else 0)"
      using tmrGroup_effect [of k n] n(1) new(2) by auto
    have "groups (tmrGroup n k) = map gtick (take (Suc n) ?gs) @ drop (Suc n) ?gs"
      using n new(2) new'(2) by (simp add: take_Suc_conv_app_nth Cons_nth_drop_Suc [symmetric] list_update_append)
    moreover have "reported a l (new' @ new) = length (filter (?d a) (take (Suc n) ?gs))" for a
      using n new(3) new'(3) [of a] reported_later [OF new(1), of a new'] by (simp add: take_Suc_conv_app_nth reported_append)
    ultimately show ?case using later_trans [OF new(1) new'(1)] by (auto simp: k_def)
  qed
  from this [of "length ?gs"] show ?thesis by (simp add: igmp_tmr_def)
qed

lemma gtick_power:
  assumes "group_state g = IGMP_GROUP_DELAYING_MEMBER"
  shows "unat (ig_timer ((gtick ^^ n) g)) = unat (ig_timer g) - n \<and> group_state ((gtick ^^ n) g) = group_state g
    \<and> group_address ((gtick ^^ n) g) = group_address g"
proof (induction n)
  case (Suc n)
  define h where "h = (gtick ^^ n) g"
  have h: "unat (ig_timer h) = unat (ig_timer g) - n" "group_state h = group_state g" "group_address h = group_address g"
    using Suc unfolding h_def by simp_all
  have "unat (ig_timer (gtick h)) = unat (ig_timer h) - 1"
    using unat_minus_one [of "ig_timer h"] by (cases "ig_timer h = 0") (auto simp: gtick_def)
  then show ?case using h by (simp add: h_def [symmetric])
qed simp

text \<open>A delaying member is due before the tick with the number of its timer, and at no other.\<close>

lemma due_power:
  assumes "group_state g = IGMP_GROUP_DELAYING_MEMBER"
  shows "due ((gtick ^^ n) g) \<longleftrightarrow> unat (ig_timer g) = Suc n"
proof -
  define h where "h = (gtick ^^ n) g"
  have h: "unat (ig_timer h) = unat (ig_timer g) - n" "group_state h = IGMP_GROUP_DELAYING_MEMBER"
    using gtick_power [OF assms, of n] assms unfolding h_def by simp_all
  have "due h \<longleftrightarrow> unat (ig_timer h) = 1" using h(2) by (auto simp: due_def word_unat_eq_iff)
  then show ?thesis using h(1) unfolding h_def by auto
qed

lemma filter_one:
  assumes "g \<in> set gs" and "distinct (map f gs)"
  shows "length (filter (\<lambda>h. P h \<and> f h = f g) gs) = (if P g then 1 else 0)"
proof -
  have "h = g" if "h \<in> set gs" "f h = f g" for h using that assms by (metis distinct_map inj_onD)
  then have "set (filter (\<lambda>h. P h \<and> f h = f g) gs) = (if P g then {g} else {})" using assms(1) by auto
  moreover have "distinct (filter (\<lambda>h. P h \<and> f h = f g) gs)" using assms(2) by (simp add: distinct_map)
  ultimately show ?thesis by (metis card.empty card_1_singleton_iff distinct_card is_singleton_altdef is_singletonI)
qed

text \<open>It reports exactly once, at that tick.\<close>

lemma delayed_report:
  assumes "can_report l" and "distinct (map group_address (groups l))" and "g \<in> set (groups l)"
    and "group_state g = IGMP_GROUP_DELAYING_MEMBER" and "ig_timer g \<noteq> 0"
  shows "\<exists>new. later l new ((igmp_tmr ^^ n) l) \<and> groups ((igmp_tmr ^^ n) l) = map (gtick ^^ n) (groups l) \<and> can_report ((igmp_tmr ^^ n) l)
    \<and> reported (group_address g) l new = (if n < unat (ig_timer g) then 0 else 1)"
proof (induction n)
  case 0
  have "unat (ig_timer g) \<noteq> 0" using assms(5) by (simp add: unat_eq_0)
  then show ?case using assms(1) by (intro exI [of _ "[]"]) (simp add: later_def reported_def)
next
  case (Suc n)
  define k where "k = (igmp_tmr ^^ n) l"
  let ?a = "group_address g" and ?h = "(gtick ^^ n) g"
  obtain new where new: "later l new k" "groups k = map (gtick ^^ n) (groups l)" "can_report k"
    "reported ?a l new = (if n < unat (ig_timer g) then 0 else 1)"
    using Suc unfolding k_def by blast
  obtain new' where new': "later k new' (igmp_tmr k)" "groups (igmp_tmr k) = map gtick (groups k)"
    "reported ?a k new' = length (filter (\<lambda>g. due g \<and> group_address g = ?a) (groups k))"
    using igmp_tmr_effect [OF new(3)] by blast
  have c: "can_report (igmp_tmr k)" using can_report_later [OF new(3) new'(1)] new'(2) by (simp add: comp_def)
  have "group_address ((gtick ^^ n) h) = group_address h" for h by (induction n) simp_all
  then have h: "?h \<in> set (groups k)" "distinct (map group_address (groups k))" "group_address ?h = ?a"
    using assms(2,3) new(2) by (simp_all add: comp_def)
  have "reported ?a l new' = (if unat (ig_timer g) = Suc n then 1 else 0)"
    using new'(3) filter_one [OF h(1,2), of due] due_power [OF assms(4), of n] reported_later [OF new(1), of ?a new'] by (simp add: h(3))
  then have "reported ?a l (new' @ new) = (if Suc n < unat (ig_timer g) then 0 else 1)"
    using new(4) by (auto simp: reported_append)
  then show ?case using later_trans [OF new(1) new'(1)] new(2) new'(2) c by (auto simp: k_def)
qed

text \<open>A general query: well formed, to all systems, for no group in particular.  \<^verbatim>\<open>queryTime\<close> is the time it grants.\<close>

definition general_query :: "Octet list \<Rightarrow> bool" where
  "general_query m \<longleftrightarrow> IGMP_MINLEN \<le> length m \<and> inet_chksum m = 0 \<and> get8 m 0 = IGMP_MEMB_QUERY \<and> get32 m 4 = 0"

definition queryTime :: "Octet list \<Rightarrow> UInteger8" where
  "queryTime m = (if get8 m 1 = 0 then IGMP_V1_DELAYING_MEMBER_TMR else get8 m 1)"

lemma igmp_input_query:
  assumes "pbuf_header p (- int (unat (IPH_HL (hdr 20 p)) * 4)) = (False, q)" and "general_query (pb_head q)"
    and "allsystems \<in> group_address ` set (groups l)"
  shows "igmp_input p allsystems l =
    l\<lparr>groups := map (generalQuery (queryTime (pb_head q))) (groups l), lwip_out := Freed # lwip_out l\<rparr>"
proof -
  have "lookfor allsystems (groups l) \<noteq> None" using assms(3) by (simp add: lookfor_None)
  then obtain i where i: "igmp_lookfor_group allsystems l = Some i" unfolding igmp_lookfor_group_def by blast
  have q: "\<not> length (pb_head q) < IGMP_MINLEN" "inet_chksum (pb_head q) = 0" "get8 (pb_head q) 0 = IGMP_MEMB_QUERY" "get32 (pb_head q) 4 = 0"
    using assms(2) by (simp_all add: general_query_def)
  have "igmpQuery i allsystems (pb_head q) l = l\<lparr>groups := map (generalQuery (queryTime (pb_head q))) (groups l)\<rparr>"
    unfolding igmpQuery_def queryTime_def using q(4) by (simp add: Let_def)
  then show ?thesis unfolding igmp_input_def assms(1) by (simp add: q i pbuf_free_def out_def)
qed

lemma generalQuery_address [simp]: "group_address (generalQuery r g) = group_address g"
  by (simp add: generalQuery_def igmp_delaying_member_def igmp_start_timer_def)

definition ptpGroup :: UInteger32 where "ptpGroup = 0x810100e0"

text \<open>A host in two groups, and a query with ten seconds to answer.\<close>

definition member :: "UInteger32 \<Rightarrow> igmp_group" where
  "member a = (new_group a)\<lparr>group_state := IGMP_GROUP_IDLE_MEMBER, ig_use := 1\<rparr>"

definition groupHost :: Lwip where
  "groupHost = (host 0x0100000a hostMac)\<lparr>groups := [member ptpGroup, member allsystems]\<rparr>"

definition queryPacket :: Pbuf where
  "queryPacket = \<lparr>pb_room = replicate 14 0, pb_head = 0x45 # replicate 19 0 @ [0x11, 100, 0xee, 0x9b, 0, 0, 0, 0], pb_stale = (\<lambda>_. 0), pb_next = []\<rparr>"

text \<open>C16: A general membership query is not answered on the spot: \<^verbatim>\<open>igmp_input\<close> sends nothing.  For every member group but
  all-systems that is idle, or whose running timer is below the granted time, it starts a timer of half that time.  The report of
  the group goes out exactly once, at exactly that many calls of \<^verbatim>\<open>igmp_tmr\<close>: none before, one then, none in the calls that
  follow.  So answering depends on \<^verbatim>\<open>igmp_tmr\<close> being called.  This is for a well-formed query that grants
  at least two units, and a host that can send (it has its addresses and memory), is started (it is in all-systems) and whose list
  has one entry for each group.
\<close>

theorem igmp_query_answered:
  assumes "can_report l" and "distinct (map group_address (groups l))" and "allsystems \<in> group_address ` set (groups l)"
    and "pbuf_header p (- int (unat (IPH_HL (hdr 20 p)) * 4)) = (False, q)" and "general_query (pb_head q)"
    and "g \<in> set (groups l)" and "group_address g \<noteq> allsystems" and "2 \<le> queryTime (pb_head q)"
    and "group_state g = IGMP_GROUP_IDLE_MEMBER
      \<or> group_state g = IGMP_GROUP_DELAYING_MEMBER \<and> ig_timer g < ucast (queryTime (pb_head q))"
  shows "lwip_out (igmp_input p allsystems l) = Freed # lwip_out l
    \<and> g\<lparr>group_state := IGMP_GROUP_DELAYING_MEMBER, ig_timer := ucast (queryTime (pb_head q) div 2)\<rparr> \<in> set (groups (igmp_input p allsystems l))
    \<and> (\<exists>new. lwip_out ((igmp_tmr ^^ n) (igmp_input p allsystems l)) = new @ Freed # lwip_out l
        \<and> reported (group_address g) l new = (if n < unat (queryTime (pb_head q)) div 2 then 0 else 1))"
proof -
  define r where "r = queryTime (pb_head q)"
  define k where "k = igmp_input p allsystems l"
  have k: "k = l\<lparr>groups := map (generalQuery r) (groups l), lwip_out := Freed # lwip_out l\<rparr>"
    unfolding k_def r_def by (rule igmp_input_query [OF assms(4,5,3)])
  define h where "h = g\<lparr>group_state := IGMP_GROUP_DELAYING_MEMBER, ig_timer := ucast (r div 2)\<rparr>"
  have "h = generalQuery r g"
    using assms(7,9) by (auto simp: h_def generalQuery_def igmp_delaying_member_def igmp_start_timer_def r_def)
  then have "h \<in> generalQuery r ` set (groups l)" using assms(6) by (rule image_eqI)
  then have h: "h \<in> set (groups k)" "group_address h = group_address g" "group_state h = IGMP_GROUP_DELAYING_MEMBER"
    by (simp_all add: k) (simp_all add: h_def)
  have "unat (r div 2) < 65536" using unsigned_less [of "r div 2", where ?'a = nat] by simp
  then have t: "unat (ig_timer h) = unat r div 2" by (simp add: h_def unat_div unsigned_ucast_eq take_bit_nat_eq_self)
  have "2 \<le> unat r" using assms(8) by (simp add: r_def word_le_nat_alt)
  then have z: "ig_timer h \<noteq> 0" using t by (auto simp: unat_eq_0 [symmetric])
  have c: "can_report k" "distinct (map group_address (groups k))" using assms(1,2) by (auto simp: k can_report_def comp_def)
  obtain new where n: "lwip_out ((igmp_tmr ^^ n) k) = new @ lwip_out k" "reported (group_address h) k new = (if n < unat (ig_timer h) then 0 else 1)"
    using delayed_report [OF c h(1,3) z, of n] by (auto simp: later_def)
  have "reported (group_address g) k new = reported (group_address g) l new" by (simp add: reported_def is_report_def [abs_def] igmp_frame_def k)
  then show ?thesis using n h(1,2) t unfolding k_def [symmetric] r_def [symmetric] h_def [symmetric] by (auto simp: k)
qed

lemma igmp_query_answered_witness:
  "\<exists>before after. lwip_out ((igmp_tmr ^^ 49) (igmp_input queryPacket allsystems groupHost)) = before @ [Freed] \<and> reported ptpGroup groupHost before = 0
    \<and> lwip_out ((igmp_tmr ^^ 50) (igmp_input queryPacket allsystems groupHost)) = after @ [Freed] \<and> reported ptpGroup groupHost after = 1"
proof -
  define q where "q = \<lparr>pb_room = replicate 14 0 @ 0x45 # replicate 19 0, pb_head = [0x11, 100, 0xee, 0x9b, 0, 0, 0, 0 :: Octet],
    pb_stale = (\<lambda>_. 0 :: Octet), pb_next = []\<rparr>"
  have h: "can_report groupHost" "lwip_out groupHost = []"
    by (simp_all add: can_report_def groupHost_def host_def hostMac_def member_def new_group_def ip_addr_ismulticast_def ptpGroup_def allsystems_def htonl_def)
  have g: "distinct (map group_address (groups groupHost))" "member ptpGroup \<in> set (groups groupHost)" "allsystems \<in> group_address ` set (groups groupHost)"
    "group_address (member ptpGroup) \<noteq> allsystems" "group_state (member ptpGroup) = IGMP_GROUP_IDLE_MEMBER" "group_address (member ptpGroup) = ptpGroup"
    by (simp_all add: groupHost_def member_def new_group_def ptpGroup_def allsystems_def htonl_def)
  have p: "pbuf_header queryPacket (- int (unat (IPH_HL (hdr 20 queryPacket)) * 4)) = (False, q)"
  proof -
    have "unat (IPH_HL (hdr 20 queryPacket)) = 5" by code_simp
    then show ?thesis by (simp add: pbuf_header_def queryPacket_def q_def)
  qed
  have "inet_chksum (pb_head q) = 0" unfolding q_def by code_simp
  moreover have "get8 (pb_head q) 0 = IGMP_MEMB_QUERY" "get32 (pb_head q) 4 = 0" unfolding q_def by code_simp+
  moreover have "get8 (pb_head q) 1 = 100" unfolding q_def by code_simp
  ultimately have m: "general_query (pb_head q)" "queryTime (pb_head q) = 100"
    by (simp_all add: general_query_def queryTime_def q_def IGMP_MINLEN_def)
  note answered = igmp_query_answered [OF h(1) g(1,3) p m(1) g(2,4) _ disjI1 [OF g(5)], unfolded m(2) h(2) g(6)]
  obtain before after where "lwip_out ((igmp_tmr ^^ 49) (igmp_input queryPacket allsystems groupHost)) = before @ [Freed]"
    "reported ptpGroup groupHost before = 0"
    "lwip_out ((igmp_tmr ^^ 50) (igmp_input queryPacket allsystems groupHost)) = after @ [Freed]" "reported ptpGroup groupHost after = 1"
    using answered [of 49] answered [of 50] by auto
  then show ?thesis by blast
qed

text \<open>C15: The membership list refines a table of reference counts: joining a group adds one to its count and no other, leaving takes
  one away (an unknown group is an error); a report goes out exactly at the first join, a leave message exactly at the last
  leave of a host that was the last to report, and the list keeps one entry per group.
\<close>

theorem igmp_membership:
  assumes "groups_ok l" and "on_interface ifaddr l" and "ip_addr_ismulticast a" and "a \<noteq> allsystems" and "members l a < 255"
    and "mem_oks l (mem_n l)" and "mem_oks l (mem_n l + 1)"
  shows "(\<exists>l'. igmp_joingroup ifaddr a l = (ERR_OK, l') \<and> groups_ok l' \<and> members l' = (members l)(a := members l a + 1)
      \<and> (if members l a = 0 then \<exists>fr. lwip_out l' = Freed # Frame fr # lwip_out l \<and> igmp_frame IGMP_V2_MEMB_REPORT a l fr
         else lwip_out l' = lwip_out l))
    \<and> (\<exists>e l'. igmp_leavegroup ifaddr a l = (e, l') \<and> groups_ok l' \<and> members l' = (members l)(a := members l a - 1)
      \<and> (e = ERR_OK \<longleftrightarrow> members l a \<noteq> 0)
      \<and> (if members l a = 1 \<and> last_reporter a l
         then \<exists>fr. lwip_out l' = Freed # Frame fr # lwip_out l \<and> igmp_frame IGMP_LEAVE_GROUP a l fr
         else lwip_out l' = lwip_out l))"
  using join_counts [OF assms] leave_counts [OF assms(1-4,6)] by (rule conjI)

lemma igmp_membership_witness:
  "(\<exists>fr l'. igmp_joingroup 0 0x050100e0 groupHost = (ERR_OK, l') \<and> members l' 0x050100e0 = 1 \<and> members l' ptpGroup = 1
      \<and> lwip_out l' = [Freed, Frame fr])
    \<and> (\<exists>e l'. igmp_leavegroup 0 0x050100e0 groupHost = (e, l') \<and> e \<noteq> ERR_OK \<and> members l' ptpGroup = 1)"
proof -
  have a: "groups_ok groupHost" "on_interface 0 groupHost" "ip_addr_ismulticast 0x050100e0" "0x050100e0 \<noteq> allsystems"
    "mem_oks groupHost n" "lwip_out groupHost = []" for n
    by (simp_all add: groups_ok_def on_interface_def groupHost_def host_def hostMac_def member_def new_group_def ip_addr_ismulticast_def
      ip_addr_isany_def ptpGroup_def allsystems_def htonl_def)
  have m: "members groupHost 0x050100e0 = 0" "members groupHost ptpGroup = 1"
    by (simp_all add: members_def count_in_def groupHost_def member_def new_group_def ptpGroup_def allsystems_def htonl_def)
  have n: "members groupHost 0x050100e0 < 255" "ptpGroup \<noteq> 0x050100e0" using m(1) by (simp_all add: ptpGroup_def)
  show ?thesis using igmp_membership [OF a(1-4) n(1) a(5) a(5)] m n(2) a(6) by auto
qed

end
