(* ===== verification/Lwip_Udp.thy ===== *)
theory Lwip_Udp
  imports Lwip_Igmp
begin

text \<open>
  lwIP, fourth part: UDP (\<^verbatim>\<open>core/udp.c\<close>) with its control blocks, \<^verbatim>\<open>ip_input\<close> and \<^verbatim>\<open>ethernet_input\<close>, which
  give a received frame to the modules above.
\<close>

definition UDP_HLEN :: nat where "UDP_HLEN = 8"
definition UDP_TTL :: UInteger8 where "UDP_TTL = 255"
definition UDP_LOCAL_PORT_RANGE_START :: UInteger16 where "UDP_LOCAL_PORT_RANGE_START = 4096"
definition UDP_LOCAL_PORT_RANGE_END :: UInteger16 where "UDP_LOCAL_PORT_RANGE_END = 0x7fff"
definition ICMP_DUR_PROTO :: UInteger8 where "ICMP_DUR_PROTO = 2"
definition ICMP_DUR_PORT :: UInteger8 where "ICMP_DUR_PORT = 3"

text \<open>The room of a buffer for \<^verbatim>\<open>PBUF_IP\<close> (20 + 14 bytes, aligned).\<close>

definition PBUF_IP_ROOM :: nat where "PBUF_IP_ROOM = 36"

subsection \<open>Control blocks\<close>

definition on_pcb :: "nat \<Rightarrow> (udp_pcb \<Rightarrow> udp_pcb) \<Rightarrow> Lwip \<Rightarrow> Lwip" where
  "on_pcb i f l = l\<lparr>pcbs := (pcbs l)(i := f (pcbs l i))\<rparr>"

text \<open>\<^verbatim>\<open>udp_new\<close>: a block that no one holds, cleared.\<close>

definition udp_alloc :: "Lwip \<Rightarrow> nat option \<times> Lwip" where
  "udp_alloc l =
    (let (ok, l) = mem_alloc l
     in if ok
        then (Some (pcb_n l), (on_pcb (pcb_n l) (\<lambda>_. no_pcb\<lparr>pcb_ttl := UDP_TTL\<rparr>) l)\<lparr>pcb_n := pcb_n l + 1\<rparr>)
        else (None, l))"

definition udp_set_recv :: "nat \<Rightarrow> Recv option \<Rightarrow> Lwip \<Rightarrow> Lwip" where
  "udp_set_recv i f l = on_pcb i (\<lambda>c. c\<lparr>recv_fn := f\<rparr>) l"

lemma port_counts_up:
  assumes "port \<noteq> (e :: UInteger16)"
  shows "unat (e - (port + 1)) < unat (e - port)"
proof -
  have "e - port \<noteq> 0" using assms by simp
  then have "0 < unat (e - port)" "unat (e - port - 1) = unat (e - port) - 1" by (simp_all add: unat_gt_0 unat_minus_one)
  then have "unat (e - port - 1) < unat (e - port)" by simp
  then show ?thesis by (simp add: diff_diff_eq)
qed

text \<open>The search for a free local port: \<open>all\<close> are the ports in use, \<open>ps\<close> those still to be compared.\<close>

function scanPorts :: "UInteger16 list \<Rightarrow> UInteger16 list \<Rightarrow> UInteger16 \<Rightarrow> UInteger16 option" where
  "scanPorts all [] port = Some port"
| "scanPorts all (p # ps) port =
    (if port = UDP_LOCAL_PORT_RANGE_END then None
     else if p = port then scanPorts all all (port + 1)
     else scanPorts all ps port)"
  by pat_completeness auto

termination
  by (relation "measures [\<lambda>(all, ps, port). unat (UDP_LOCAL_PORT_RANGE_END - port), \<lambda>(all, ps, port). length ps]")
    (use port_counts_up in auto)

definition udp_bind :: "nat \<Rightarrow> UInteger32 \<Rightarrow> UInteger16 \<Rightarrow> Lwip \<Rightarrow> int \<times> Lwip" where
  "udp_bind i ip port l =
    (let rebind = (i \<in> set (udp_pcbs l));
         l = on_pcb i (\<lambda>c. c\<lparr>local_ip := ip\<rparr>) l;
         ports = map (\<lambda>j. local_port (pcbs l j)) (udp_pcbs l)
     in case (if port = 0 then scanPorts ports ports UDP_LOCAL_PORT_RANGE_START else Some port) of
          None \<Rightarrow> (ERR_USE, l)
        | Some port \<Rightarrow>
            let l = on_pcb i (\<lambda>c. c\<lparr>local_port := port\<rparr>) l
            in (ERR_OK, if rebind then l else l\<lparr>udp_pcbs := i # udp_pcbs l\<rparr>))"

definition udp_connect_pcb :: "nat \<Rightarrow> UInteger32 \<Rightarrow> UInteger16 \<Rightarrow> Lwip \<Rightarrow> int \<times> Lwip" where
  "udp_connect_pcb i ip port l =
    (let (err, l) = (if local_port (pcbs l i) = 0
                     then udp_bind i (local_ip (pcbs l i)) (local_port (pcbs l i)) l else (ERR_OK, l))
     in if err \<noteq> ERR_OK then (err, l)
        else
          let l = on_pcb i (\<lambda>c. c\<lparr>remote_ip := ip, remote_port := port, connected := True\<rparr>) l
          in (ERR_OK, if i \<in> set (udp_pcbs l) then l else l\<lparr>udp_pcbs := i # udp_pcbs l\<rparr>))"

definition udp_disconnect_pcb :: "nat \<Rightarrow> Lwip \<Rightarrow> Lwip" where
  "udp_disconnect_pcb i l = on_pcb i (\<lambda>c. c\<lparr>remote_ip := 0, remote_port := 0, connected := False\<rparr>) l"

fun unlink :: "nat \<Rightarrow> nat list \<Rightarrow> nat list" where
  "unlink i (x # y # ys) = (if y = i then x # unlink i ys else x # unlink i (y # ys))"
| "unlink i xs = xs"

definition udp_free :: "nat \<Rightarrow> Lwip \<Rightarrow> Lwip" where
  "udp_free i l =
    (case udp_pcbs l of
       [] \<Rightarrow> l
     | x # xs \<Rightarrow> if x = i then l\<lparr>udp_pcbs := xs\<rparr> else l\<lparr>udp_pcbs := unlink i (x # xs)\<rparr>)"

subsection \<open>Sending\<close>

definition udpHeader :: "UInteger16 \<Rightarrow> UInteger16 \<Rightarrow> Octet list \<Rightarrow> Octet list" where
  "udpHeader src dst b = put16 (put16 (put16 b 0 (htons src)) 2 (htons dst)) 6 0"

definition udp_sendto_if :: "nat \<Rightarrow> Pbuf \<Rightarrow> UInteger32 \<Rightarrow> UInteger16 \<Rightarrow> Lwip \<Rightarrow> int \<times> Lwip" where
  "udp_sendto_if i p dst_ip dst_port l =
    (let (err, l) = (if local_port (pcbs l i) = 0
                     then udp_bind i (local_ip (pcbs l i)) (local_port (pcbs l i)) l else (ERR_OK, l))
     in if err \<noteq> ERR_OK then (err, l)
        else
          let (separate, p) = pbuf_header p (int UDP_HLEN);
              (ok, l) = (if separate then mem_alloc l else (True, l))
          in if \<not> ok then (ERR_MEM, l)
             else
               let q = (if separate
                        then \<lparr>pb_room = replicate PBUF_IP_ROOM 0, pb_head = replicate UDP_HLEN 0, pb_stale = (\<lambda>_. 0),
                              pb_next = pb_head p # pb_next p\<rparr>
                        else p);
                   c = pcbs l i;
                   q = pb_put (udpHeader (local_port c) dst_port) q
               in if \<not> ip_addr_isany (local_ip c) \<and> local_ip c \<noteq> if_ip l
                  then (ERR_VAL, if separate then pbuf_free l else l)
                  else
                    let src_ip = (if ip_addr_isany (local_ip c) then if_ip l else local_ip c);
                        q = pb_put (\<lambda>b. put16 b 4 (htons (of_nat (pb_tot_len q)))) q;
                        (err, l) = ip_output_if q src_ip dst_ip (pcb_ttl c) (pcb_tos c) IP_PROTO_UDP l
                    in (err, if separate then pbuf_free l else l))"

definition udp_sendto :: "nat \<Rightarrow> Pbuf \<Rightarrow> UInteger32 \<Rightarrow> UInteger16 \<Rightarrow> Lwip \<Rightarrow> int \<times> Lwip" where
  "udp_sendto i p dst_ip dst_port l =
    (if \<not> ip_route (if ip_addr_ismulticast dst_ip then multicast_ip (pcbs l i) else dst_ip) l then (ERR_RTE, l)
     else udp_sendto_if i p dst_ip dst_port l)"

definition udp_send :: "nat \<Rightarrow> Pbuf \<Rightarrow> Lwip \<Rightarrow> int \<times> Lwip" where
  "udp_send i p l = udp_sendto i p (remote_ip (pcbs l i)) (remote_port (pcbs l i)) l"

subsection \<open>Receiving a datagram\<close>

definition local_match :: "UInteger16 \<Rightarrow> UInteger32 \<Rightarrow> bool \<Rightarrow> udp_pcb \<Rightarrow> bool" where
  "local_match dest dest_ip broadcast c \<longleftrightarrow> local_port c = dest
    \<and> (\<not> broadcast \<and> ip_addr_isany (local_ip c) \<or> local_ip c = dest_ip \<or> ip_addr_ismulticast dest_ip \<or> broadcast)"

definition remote_match :: "UInteger16 \<Rightarrow> UInteger32 \<Rightarrow> udp_pcb \<Rightarrow> bool" where
  "remote_match src src_ip c \<longleftrightarrow> remote_port c = src \<and> (ip_addr_isany (remote_ip c) \<or> remote_ip c = src_ip)"

text \<open>The loop over the active blocks: the first full match, and the first unconnected block seen until then.\<close>

fun demux :: "(udp_pcb \<Rightarrow> bool) \<Rightarrow> (udp_pcb \<Rightarrow> bool) \<Rightarrow> (nat \<Rightarrow> udp_pcb) \<Rightarrow> nat option \<Rightarrow> nat list \<Rightarrow> nat option \<times> nat option" where
  "demux lm rm m uncon [] = (None, uncon)"
| "demux lm rm m uncon (i # is) =
    (let uncon = (if lm (m i) \<and> uncon = None \<and> \<not> connected (m i) then Some i else uncon)
     in if lm (m i) \<and> rm (m i) then (Some i, uncon) else demux lm rm m uncon is)"

definition udp_deliver :: "nat option \<Rightarrow> nat \<Rightarrow> bool \<Rightarrow> UInteger32 \<Rightarrow> UInteger32 \<Rightarrow> UInteger16 \<Rightarrow> Pbuf \<Rightarrow> Lwip \<Rightarrow> Lwip" where
  "udp_deliver pcb hlen broadcast dest_ip src_ip src p l =
    (if pcb \<noteq> None \<or> if_ip l = dest_ip
     then
       let (failed, p) = pbuf_header p (- int UDP_HLEN)
       in if failed then pbuf_free l
          else
            case pcb of
              Some i \<Rightarrow>
                (case recv_fn (pcbs l i) of
                   Some f \<Rightarrow> out (UdpRecv i f p src_ip src) l
                 | None \<Rightarrow> pbuf_free l)
            | None \<Rightarrow>
                pbuf_free
                  (if \<not> broadcast \<and> \<not> ip_addr_ismulticast dest_ip
                   then out (DestUnreach ICMP_DUR_PORT (snd (pbuf_header p (int (hlen + UDP_HLEN))))) l else l)
     else pbuf_free l)"

definition udp_input :: "Pbuf \<Rightarrow> Lwip \<Rightarrow> Lwip" where
  "udp_input p l =
    (let h = hdr 20 p;
         hlen = unat (IPH_HL h) * 4;
         (failed, q) = pbuf_header p (- int hlen)
     in if pb_tot_len p < hlen + UDP_HLEN \<or> failed then pbuf_free l
        else
          let u = hdr 8 q;
              broadcast = ip_addr_isbroadcast (iphdr_dest h) l;
              src = htons (get16 u 0); dest = htons (get16 u 2);
              (full, uncon) = demux (local_match dest (iphdr_dest h) broadcast) (remote_match src (iphdr_src h)) (pcbs l) None (udp_pcbs l)
          in case full of
               Some i \<Rightarrow>
                 udp_deliver (Some i) hlen broadcast (iphdr_dest h) (iphdr_src h) src q (l\<lparr>udp_pcbs := i # remove1 i (udp_pcbs l)\<rparr>)
             | None \<Rightarrow> udp_deliver uncon hlen broadcast (iphdr_dest h) (iphdr_src h) src q l)"

subsection \<open>Receiving a packet and a frame\<close>

text \<open>The interface that takes a packet: with one interface, it or none.\<close>

definition accepted :: "UInteger32 \<Rightarrow> Lwip \<Rightarrow> bool" where
  "accepted dest l \<longleftrightarrow>
    (if ip_addr_ismulticast dest then if_flags l AND NETIF_FLAG_IGMP \<noteq> 0 \<and> igmp_lookfor_group dest l \<noteq> None
     else netif_is_up l \<and> \<not> ip_addr_isany (if_ip l) \<and> (dest = if_ip l \<or> ip_addr_isbroadcast dest l))"

text \<open>
  \<^verbatim>\<open>ip_input\<close>.  There are no raw control blocks, so \<^verbatim>\<open>raw_input\<close> takes nothing; a fragment goes to \<^verbatim>\<open>ip_reass\<close>, and segments and
  echo requests to \<^verbatim>\<open>tcp_input\<close> and \<^verbatim>\<open>icmp_input\<close>, which are not modelled.
\<close>

definition ip_input :: "Pbuf \<Rightarrow> Lwip \<Rightarrow> Lwip" where
  "ip_input p l =
    (let h = hdr 20 p;
         hlen = unat (IPH_HL h) * 4;
         len = unat (htons (IPH_LEN h))
     in if IPH_V h \<noteq> 4 then pbuf_free l
        else if hlen > length (pb_head p) \<or> len > pb_tot_len p then pbuf_free l
        else
          let p = pbuf_realloc p len
          in if ip_addr_isbroadcast (iphdr_src h) l \<or> ip_addr_ismulticast (iphdr_src h) then pbuf_free l
             else if \<not> accepted (iphdr_dest h) l then pbuf_free l
             else if IPH_OFFSET h AND htons (IP_OFFMASK OR IP_MF) \<noteq> 0 then out (Reassemble p) l
             else if IPH_PROTO h = IP_PROTO_UDP then udp_input p l
             else if IPH_PROTO h = IP_PROTO_TCP then out (TcpInput p) l
             else if IPH_PROTO h = IP_PROTO_ICMP then out (IcmpInput p) l
             else if IPH_PROTO h = IP_PROTO_IGMP then igmp_input p (iphdr_dest h) l
             else pbuf_free
               (if \<not> ip_addr_isbroadcast (iphdr_dest h) l \<and> \<not> ip_addr_ismulticast (iphdr_dest h)
                then out (DestUnreach ICMP_DUR_PROTO p) l else l))"

definition ethernet_input :: "Pbuf \<Rightarrow> Lwip \<Rightarrow> Lwip" where
  "ethernet_input p l =
    (let type = htons (get16 (hdr 14 p) 12)
     in if type = ETHTYPE_IP
        then
          let l = etharp_ip_input p l;
              (failed, p) = pbuf_header p (-14)
          in if failed then pbuf_free l else ip_input p l
        else if type = ETHTYPE_ARP then etharp_arp_input (if_hwaddr l) p l
        else pbuf_free l)"

end
