(* ===== verification/Lwip_Deliver.thy ===== *)
theory Lwip_Deliver
  imports Lwip_Udp
begin

text \<open>
  A datagram from one host to another: what \<^verbatim>\<open>udp_sendto\<close> of the one puts on the wire is given by \<^verbatim>\<open>ethernet_input\<close> of the other to
  the callback of the control block the datagram is for.
\<close>

subsection \<open>Finding the control block\<close>

definition udp_target :: "UInteger16 \<Rightarrow> UInteger32 \<Rightarrow> UInteger16 \<Rightarrow> UInteger32 \<Rightarrow> Lwip \<Rightarrow> nat option" where
  "udp_target dest dest_ip src src_ip l =
    (let lm = local_match dest dest_ip (ip_addr_isbroadcast dest_ip l) \<circ> pcbs l; rm = remote_match src src_ip \<circ> pcbs l
     in case find (\<lambda>i. lm i \<and> rm i) (udp_pcbs l) of
          Some i \<Rightarrow> Some i
        | None \<Rightarrow> find (\<lambda>i. lm i \<and> \<not> connected (pcbs l i)) (udp_pcbs l))"

lemma demux_find:
  "\<exists>u'. demux lm rm m u is = (find (\<lambda>i. lm (m i) \<and> rm (m i)) is, u')
    \<and> (find (\<lambda>i. lm (m i) \<and> rm (m i)) is = None \<longrightarrow>
        u' = (case u of Some _ \<Rightarrow> u | None \<Rightarrow> find (\<lambda>i. lm (m i) \<and> \<not> connected (m i)) is))"
proof (induction "is" arbitrary: u)
  case (Cons i "is")
  show ?case
    using Cons [of "if lm (m i) \<and> u = None \<and> \<not> connected (m i) then Some i else u"]
    by (cases u) (auto simp: Let_def split: if_splits)
qed (simp split: option.split)

subsection \<open>Sending\<close>

lemma get_take:
  "i + 2 \<le> n \<Longrightarrow> n \<le> length b \<Longrightarrow> get16 (take n b) i = get16 b i"
  "i + 4 \<le> n \<Longrightarrow> n \<le> length b \<Longrightarrow> get32 (take n b) i = get32 b i"
  using get_append(2) [of i "take n b" "drop n b"] get_append(3) [of i "take n b" "drop n b"] by simp_all

lemmas ip_fields = IPH_V_def IPH_HL_def IPH_LEN_def IPH_OFFSET_def IPH_PROTO_def iphdr_src_def iphdr_dest_def

lemma ip_fields_append:
  assumes "20 \<le> length b"
  shows "IPH_V (b @ c) = IPH_V b" "IPH_HL (b @ c) = IPH_HL b" "IPH_LEN (b @ c) = IPH_LEN b" "IPH_OFFSET (b @ c) = IPH_OFFSET b"
    "IPH_PROTO (b @ c) = IPH_PROTO b" "iphdr_src (b @ c) = iphdr_src b" "iphdr_dest (b @ c) = iphdr_dest b"
  using assms by (simp_all add: ip_fields get_append)

lemma reaches_ip_id [simp]: "reaches (l\<lparr>ip_id := n\<rparr>) dest m = reaches l dest m"
proof -
  have "ip_addr_isbroadcast a (l\<lparr>ip_id := n\<rparr>) = ip_addr_isbroadcast a l" for a by (simp add: ip_addr_isbroadcast_def)
  then show ?thesis by (simp add: reaches_def groupMac_def arp_ok_def route_def)
qed

lemma ip_output_if_sends:
  assumes "reaches l dest m" and "length (if_hwaddr l) = 6" and "pb_room p = r @ e @ h" and "length e = 14" and "length h = 20"
    and "pb_tot_len p + 20 \<le> 1500" and "take_bit 8 proto = proto"
  shows "\<exists>err l' b. ip_output_if p src dest ttl tos proto l = (err, l')
    \<and> lwip_out l' = Frame (m @ if_hwaddr l @ [8, 0] @ b) # lwip_out l \<and> length m = 6
    \<and> ip_packet b (if src = 0 then if_ip l else src) dest proto 20 (pbytes p)"
proof -
  let ?k = "l\<lparr>ip_id := ip_id l + 1\<rparr>"
  define n where "n = 20 + pb_tot_len p"
  define hd where "hd = ipHeader src dest ttl tos proto 20 n l (h @ pb_head p)"
  define q where "q = p\<lparr>pb_room := r @ e, pb_head := hd\<rparr>"
  have len: "length (pbytes p) = pb_tot_len p" by (simp add: pbytes_def pb_tot_len_def length_concat)
  have f: "IPH_V hd = 4" "IPH_HL hd = of_nat (20 div 4)" "IPH_LEN hd = htons (of_nat n)" "IPH_OFFSET hd = 0" "IPH_PROTO hd = proto"
    "iphdr_src hd = (if ip_addr_isany src then if_ip l else src)" "iphdr_dest hd = dest" "length hd = 20 + length (pb_head p)"
    unfolding hd_def using ipHeader_fields [of "h @ pb_head p" 20 proto] assms(5,7) by simp_all
  have d: "drop 20 hd = pb_head p" unfolding hd_def using ipHeader_rest [of "h @ pb_head p"] assms(5) by simp
  have t: "pb_tot_len q = n" using f(8) by (simp add: q_def n_def pb_tot_len_def)
  have tl: "pb_tot_len (p\<lparr>pb_room := r @ e, pb_head := h @ pb_head p\<rparr>) = n" "n \<le> 1500"
    using assms(5,6) by (simp_all add: pb_tot_len_def n_def)
  have "ip_output_if p src dest ttl tos proto l = etharp_output q dest ?k"
    using pbuf_header_room [of p "r @ e" h 20] assms(3,5,6) t tl
    by (simp add: ip_output_if_def ip_output_if_opt_def IP_HLEN_def IF_MTU_def pb_put_def q_def hd_def [symmetric] n_def [symmetric] Let_def)
  moreover obtain err l' where "etharp_output q dest ?k = (err, l')"
    "lwip_out l' = Frame (m @ if_hwaddr l @ [8, 0] @ pbytes q) # lwip_out l" "length m = 6"
    using etharp_output_reaches [of ?k dest m q r e] assms by (auto simp: q_def)
  moreover have "ip_packet (pbytes q) (if src = 0 then if_ip l else src) dest proto 20 (pbytes p)"
    using f d len by (simp add: ip_packet_def pbytes_def q_def ip_fields_append n_def pb_tot_len_def ip_addr_isany_def length_concat add.assoc)
  ultimately show ?thesis by metis
qed

definition udp_datagram :: "Octet list \<Rightarrow> UInteger16 \<Rightarrow> UInteger16 \<Rightarrow> Octet list \<Rightarrow> bool" where
  "udp_datagram u src dst data \<longleftrightarrow> length u = 8 + length data \<and> drop 8 u = data \<and> get16 u 0 = htons src \<and> get16 u 2 = htons dst
    \<and> get16 u 4 = htons (of_nat (length u)) \<and> get16 u 6 = 0"

text \<open>A control block that may send from this host, and a packet with room for all headers.\<close>

definition may_send :: "nat \<Rightarrow> Pbuf \<Rightarrow> UInteger32 \<Rightarrow> Lwip \<Rightarrow> bool" where
  "may_send i p dst l \<longleftrightarrow> local_port (pcbs l i) \<noteq> 0 \<and> (local_ip (pcbs l i) = 0 \<or> local_ip (pcbs l i) = if_ip l)
    \<and> netif_is_up l \<and> if_default l \<and> length (if_hwaddr l) = 6 \<and> 42 \<le> length (pb_room p) \<and> pb_tot_len p + 28 \<le> 1500"

lemma split_room:
  assumes "42 \<le> length (xs :: Octet list)"
  shows "\<exists>r e h s. xs = r @ e @ h @ s \<and> length e = 14 \<and> length h = 20 \<and> length s = 8"
proof -
  define ys where "ys = drop (length xs - 42) xs"
  have "length ys = 42" "xs = take (length xs - 42) xs @ ys" using assms by (simp_all add: ys_def)
  moreover have "ys = take 14 ys @ take 20 (drop 14 ys) @ drop 20 (drop 14 ys)" by (metis append_take_drop_id)
  ultimately show ?thesis
    by (intro exI [of _ "take (length xs - 42) xs"] exI [of _ "take 14 ys"] exI [of _ "take 20 (drop 14 ys)"] exI [of _ "drop 20 (drop 14 ys)"])
      auto
qed

lemma udp_sendto_sends:
  assumes "may_send i p dst l" and "reaches l dst m"
  shows "\<exists>err l' b u. udp_sendto i p dst port l = (err, l') \<and> lwip_out l' = Frame (m @ if_hwaddr l @ [8, 0] @ b) # lwip_out l
    \<and> length m = 6 \<and> ip_packet b (if_ip l) dst IP_PROTO_UDP 20 u \<and> udp_datagram u (local_port (pcbs l i)) port (pbytes p)"
proof -
  let ?c = "pcbs l i"
  note a = assms(1) [unfolded may_send_def]
  obtain r e h s where room: "pb_room p = r @ e @ h @ s" and lens: "length e = 14" "length h = 20" "length s = 8"
    using split_room [of "pb_room p"] a by blast
  define hd where "hd = udpHeader (local_port ?c) port (s @ pb_head p)"
  define n where "n = 8 + pb_tot_len p"
  define q where "q = p\<lparr>pb_room := r @ e @ h, pb_head := put16 hd 4 (htons (of_nat n))\<rparr>"
  have len: "length (pbytes p) = pb_tot_len p" by (simp add: pbytes_def pb_tot_len_def length_concat)
  have lh: "length hd = 8 + length (pb_head p)" using lens by (simp add: hd_def udpHeader_def)
  have t: "pb_tot_len q = n" "length (pb_head p) + sum_list (map length (pb_next p)) = n - 8" using lh by (simp_all add: q_def n_def pb_tot_len_def)
  define src where "src = (if ip_addr_isany (local_ip ?c) then if_ip l else local_ip ?c)"
  have src: "(if src = 0 then if_ip l else src) = if_ip l" using a by (auto simp: src_def ip_addr_isany_def)
  have rt: "ip_route x l" for x using a by (simp add: ip_route_def)
  have bad: "\<not> (\<not> ip_addr_isany (local_ip ?c) \<and> local_ip ?c \<noteq> if_ip l)" using a by (auto simp: ip_addr_isany_def)
  have ph: "pbuf_header p 8 = (False, p\<lparr>pb_room := r @ e @ h, pb_head := s @ pb_head p\<rparr>)"
    using pbuf_header_room [of p "r @ e @ h" s 8] room lens by simp
  have tl: "pb_tot_len (p\<lparr>pb_room := r @ e @ h, pb_head := hd\<rparr>) = n" using lh t(2) by (simp add: pb_tot_len_def n_def)
  have o': "udp_sendto i p dst port l = ip_output_if q src dst (pcb_ttl ?c) (pcb_tos ?c) IP_PROTO_UDP l"
    unfolding udp_sendto_def udp_sendto_if_def using rt a bad
    by (auto simp add: ph UDP_HLEN_def pb_put_def hd_def [symmetric] tl src_def [symmetric] q_def Let_def ERR_OK_def split: prod.split)
  obtain err l' b where b: "ip_output_if q src dst (pcb_ttl ?c) (pcb_tos ?c) IP_PROTO_UDP l = (err, l')"
    "lwip_out l' = Frame (m @ if_hwaddr l @ [8, 0] @ b) # lwip_out l" "length m = 6"
    "ip_packet b (if src = 0 then if_ip l else src) dst IP_PROTO_UDP 20 (pbytes q)"
    using ip_output_if_sends [OF assms(2), of q r e h IP_PROTO_UDP src "pcb_ttl ?c" "pcb_tos ?c"] a lens t(1)
    by (auto simp: q_def n_def IP_PROTO_UDP_def)
  have lq: "length (pbytes q) = n" using t(1) by (simp add: pbytes_def pb_tot_len_def length_concat)
  have "drop 8 (put16 hd 4 x) = pb_head p" for x
    using lens by (simp add: hd_def udpHeader_def put_get_defs drop_put_bytes)
  then have d: "drop 8 (pbytes q) = pbytes p" using lh by (simp add: pbytes_def q_def)
  have g: "get16 (pbytes q) k = get16 (put16 hd 4 (htons (of_nat n))) k" if "k + 2 \<le> 8" for k
    using that lh by (simp add: pbytes_def q_def get_append)
  have "get16 (put16 hd 4 x) 0 = htons (local_port ?c)" "get16 (put16 hd 4 x) 2 = htons port" "get16 (put16 hd 4 x) 4 = x"
    "get16 (put16 hd 4 x) 6 = 0" for x
    using lens unfolding hd_def udpHeader_def by (simp_all add: put_get_defs buf_simps)
  then have "udp_datagram (pbytes q) (local_port ?c) port (pbytes p)"
    unfolding udp_datagram_def lq using g [of 0] g [of 2] g [of 4] g [of 6] d len n_def by simp
  note u = this and k = b(4) [unfolded src] and o = trans [OF o' b(1)]
  show ?thesis by (intro exI conjI) (rule o, rule b(2), rule b(3), rule k, rule u)
qed

subsection \<open>Receiving\<close>

lemma pbuf_header_down:
  "n \<le> length (pb_head p) \<Longrightarrow> 0 < n \<Longrightarrow>
    pbuf_header p (- int n) = (False, p\<lparr>pb_room := pb_room p @ take n (pb_head p), pb_head := drop n (pb_head p)\<rparr>)"
  by (simp add: pbuf_header_def)

lemma hdr_take: "n \<le> length (pb_head p) \<Longrightarrow> hdr n p = take n (pb_head p)"
  by (simp add: hdr_def)

lemma ip_fields_take:
  assumes "20 \<le> length b"
  shows "IPH_V (take 20 b) = IPH_V b" "IPH_HL (take 20 b) = IPH_HL b" "IPH_LEN (take 20 b) = IPH_LEN b"
    "IPH_OFFSET (take 20 b) = IPH_OFFSET b" "IPH_PROTO (take 20 b) = IPH_PROTO b" "iphdr_src (take 20 b) = iphdr_src b"
    "iphdr_dest (take 20 b) = iphdr_dest b"
  using assms ip_fields_append [of "take 20 b" "drop 20 b"] by simp_all

lemma pbuf_realloc_one:
  assumes "pb_next p = []" and "pb_head p = b @ pad"
  shows "pb_head (pbuf_realloc p (length b)) = b \<and> pb_next (pbuf_realloc p (length b)) = []"
  using assms by (simp add: pbuf_realloc_def pb_tot_len_def)

text \<open>A datagram for a control block with a callback is given to it, with its data.\<close>

lemma udp_input_delivers:
  assumes "pb_head p = b" and "pb_next p = []" and "ip_packet b src_ip dest_ip IP_PROTO_UDP 20 u" and "udp_datagram u src dest data"
    and "udp_target dest dest_ip src src_ip l = Some j" and "recv_fn (pcbs l j) = Some f"
  shows "\<exists>q. lwip_out (udp_input p l) = UdpRecv j f q src_ip src # lwip_out l \<and> pbytes q = data"
proof -
  note ip = assms(3) [unfolded ip_packet_def] and dg = assms(4) [unfolded udp_datagram_def]
  have lb: "length b = 28 + length data" "20 \<le> length b" using ip dg by simp_all
  have h: "hdr 20 p = take 20 b" using hdr_take [of 20 p] assms(1) lb(2) by simp
  have hl: "unat (IPH_HL (hdr 20 p)) * 4 = 20" "iphdr_dest (hdr 20 p) = dest_ip" "iphdr_src (hdr 20 p) = src_ip"
    unfolding h ip_fields_take [OF lb(2)] using ip by simp_all
  define q where "q = p\<lparr>pb_room := pb_room p @ take 20 b, pb_head := u\<rparr>"
  have ph: "pbuf_header p (- int 20) = (False, q)"
    using pbuf_header_down [of 20 p] assms(1) lb(2) ip by (simp add: q_def)
  have u8: "hdr 8 q = take 8 u" "8 \<le> length u" using dg by (simp_all add: q_def hdr_take)
  have ports: "htons (get16 (hdr 8 q) 0) = src" "htons (get16 (hdr 8 q) 2) = dest"
    unfolding u8(1) using get_take(1) [of 0 8 u] get_take(1) [of 2 8 u] u8(2) dg by simp_all
  define r where "r = q\<lparr>pb_room := pb_room q @ take 8 u, pb_head := data\<rparr>"
  have ph2: "pbuf_header q (- int 8) = (False, r)"
    using pbuf_header_down [of 8 q] u8(2) dg by (simp add: q_def r_def)
  have data: "pbytes r = data" using assms(2) by (simp add: r_def q_def pbytes_def)
  let ?lm = "local_match dest dest_ip (ip_addr_isbroadcast dest_ip l)" and ?rm = "remote_match src src_ip"
  obtain u' where d: "demux ?lm ?rm (pcbs l) None (udp_pcbs l) = (find (\<lambda>i. ?lm (pcbs l i) \<and> ?rm (pcbs l i)) (udp_pcbs l), u')"
    "find (\<lambda>i. ?lm (pcbs l i) \<and> ?rm (pcbs l i)) (udp_pcbs l) = None \<longrightarrow> u' = find (\<lambda>i. ?lm (pcbs l i) \<and> \<not> connected (pcbs l i)) (udp_pcbs l)"
    using demux_find [of ?lm ?rm "pcbs l" None "udp_pcbs l"] by auto
  have dv: "lwip_out (udp_deliver (Some j) hlen bc dest_ip src_ip src q k) = UdpRecv j f r src_ip src # lwip_out k"
    if "recv_fn (pcbs k j) = Some f" for hlen bc k
    using that ph2 by (simp add: udp_deliver_def UDP_HLEN_def out_def)
  have t: "\<not> pb_tot_len p < 20 + UDP_HLEN" using lb(1) assms(1) by (simp add: pb_tot_len_def UDP_HLEN_def)
  have e: "udp_input p l = (case find (\<lambda>i. ?lm (pcbs l i) \<and> ?rm (pcbs l i)) (udp_pcbs l) of
      Some i \<Rightarrow> udp_deliver (Some i) 20 (ip_addr_isbroadcast dest_ip l) dest_ip src_ip src q (l\<lparr>udp_pcbs := i # remove1 i (udp_pcbs l)\<rparr>)
    | None \<Rightarrow> udp_deliver u' 20 (ip_addr_isbroadcast dest_ip l) dest_ip src_ip src q l)"
    unfolding udp_input_def Let_def hl ph case_prod_conv ports d(1) using t by simp
  have "lwip_out (udp_input p l) = UdpRecv j f r src_ip src # lwip_out l"
    using assms(5,6) d(2) dv [of l] dv [of "l\<lparr>udp_pcbs := j # remove1 j (udp_pcbs l)\<rparr>"]
    unfolding e udp_target_def by (auto split: option.splits)
  then show ?thesis using data by blast
qed

text \<open>A host that takes packets for the address, from a sender it can believe.\<close>

definition listens :: "UInteger32 \<Rightarrow> UInteger32 \<Rightarrow> Lwip \<Rightarrow> bool" where
  "listens src_ip dest_ip l \<longleftrightarrow> accepted dest_ip l \<and> \<not> ip_addr_isbroadcast src_ip l \<and> \<not> ip_addr_ismulticast src_ip"

lemma ip_input_delivers:
  assumes "pb_head p = b @ pad" and "pb_next p = []" and "length b \<le> 1500" and "ip_packet b src_ip dest_ip IP_PROTO_UDP 20 u"
    and "udp_datagram u src dest data" and "listens src_ip dest_ip l"
    and "udp_target dest dest_ip src src_ip l = Some j" and "recv_fn (pcbs l j) = Some f"
  shows "\<exists>q. lwip_out (ip_input p l) = UdpRecv j f q src_ip src # lwip_out l \<and> pbytes q = data"
proof -
  note ip = assms(4) [unfolded ip_packet_def]
  have lb: "20 \<le> length b" using ip by simp
  have h: "hdr 20 p = take 20 b" using hdr_take [of 20 p] assms(1) lb by simp
  have len: "unat (of_nat (length b) :: UInteger16) = length b" unfolding unat_of_nat by (rule mod_less) (use assms(3) in simp)
  have f: "IPH_V (hdr 20 p) = 4" "unat (IPH_HL (hdr 20 p)) * 4 = 20" "unat (htons (IPH_LEN (hdr 20 p))) = length b"
    "IPH_OFFSET (hdr 20 p) = 0" "IPH_PROTO (hdr 20 p) = IP_PROTO_UDP" "iphdr_dest (hdr 20 p) = dest_ip" "iphdr_src (hdr 20 p) = src_ip"
    unfolding h ip_fields_take [OF lb] using ip len by simp_all
  note r = pbuf_realloc_one [OF assms(2,1)]
  have "ip_input p l = udp_input (pbuf_realloc p (length b)) l"
    using assms(1,2,6) lb unfolding ip_input_def Let_def f by (simp add: listens_def pb_tot_len_def)
  then show ?thesis using udp_input_delivers [OF conjunct1 [OF r] conjunct2 [OF r] assms(4,5,7,8)] by simp
qed

lemma same_host_listens:
  assumes "same_host l k"
  shows "listens a b k = listens a b l" "udp_target p d s q k = udp_target p d s q l" "pcbs k = pcbs l" "if_hwaddr k = if_hwaddr l"
proof -
  have s: "if_ip k = if_ip l" "if_flags k = if_flags l" "groups k = groups l" "udp_pcbs k = udp_pcbs l" "pcbs k = pcbs l" "if_hwaddr k = if_hwaddr l"
    using assms by (simp_all add: same_host_def)
  show "listens a b k = listens a b l"
    unfolding listens_def accepted_def igmp_lookfor_group_def netif_is_up_def isbroadcast_same [OF assms] s by (rule refl)
  show "udp_target p d s q k = udp_target p d s q l" unfolding udp_target_def isbroadcast_same [OF assms] s by (rule refl)
  show "pcbs k = pcbs l" "if_hwaddr k = if_hwaddr l" by (rule s)+
qed

lemma ethernet_input_delivers:
  assumes "arp_ok l" and "pb_head p = m @ mac @ [8, 0] @ b @ pad" and "length m = 6" and "length mac = 6" and "pb_next p = []"
    and "length b \<le> 1500" and "ip_packet b src_ip dest_ip IP_PROTO_UDP 20 u" and "udp_datagram u src dest data" and "listens src_ip dest_ip l"
    and "udp_target dest dest_ip src src_ip l = Some j" and "recv_fn (pcbs l j) = Some f"
  shows "\<exists>q before. lwip_out (ethernet_input p l) = UdpRecv j f q src_ip src # before \<and> pbytes q = data"
proof -
  define k where "k = etharp_ip_input p l"
  have k: "same_host l k" using etharp_ip_input_same [OF assms(1)] by (simp add: k_def)
  have g: "get16 (hdr 14 p) 12 = un_le16 [8, 0]"
    using assms(2-4) by (simp add: hdr_take get16_def get_bytes_def nth_append upt_rec)
  have ty: "htons (get16 (hdr 14 p) 12) = ETHTYPE_IP" unfolding g by (simp add: un_le16_def ETHTYPE_IP_def htons_def)
  define q where "q = p\<lparr>pb_room := pb_room p @ take 14 (pb_head p), pb_head := b @ pad\<rparr>"
  have ph: "pbuf_header p (- 14) = (False, q)"
    using pbuf_header_down [of 14 p] assms(2-4) by (simp add: q_def)
  have e: "ethernet_input p l = ip_input q k" unfolding ethernet_input_def ty Let_def k_def [symmetric] ph by simp
  show ?thesis
    unfolding e using ip_input_delivers [of q b pad src_ip dest_ip u src dest data k j f] assms(5-11) same_host_listens [OF k]
    by (auto simp: q_def)
qed

subsection \<open>From one host to another\<close>

text \<open>C13: A datagram sent by \<^verbatim>\<open>udp_sendto\<close> to a group, a broadcast address or a known neighbour goes out as one frame; a host that gets this
  frame, with any padding the link adds, and takes packets for the address gives exactly the bytes that were sent to the callback of the
  control block the datagram is for, with the address and the port of the sender.  The block is the first active one that matches both
  ends, or else the first unconnected one that matches the local end.
\<close>

theorem udp_datagram_delivered:
  assumes "may_send i p dst A" and "reaches A dst m" and "arp_ok B" and "listens (if_ip A) dst B"
    and "udp_target port dst (local_port (pcbs A i)) (if_ip A) B = Some j" and "recv_fn (pcbs B j) = Some f"
  shows "\<exists>err A' frame. udp_sendto i p dst port A = (err, A') \<and> lwip_out A' = Frame frame # lwip_out A
    \<and> (\<forall>r pad. pb_head r = frame @ pad \<and> pb_next r = [] \<longrightarrow>
        (\<exists>q before. lwip_out (ethernet_input r B) = UdpRecv j f q (if_ip A) (local_port (pcbs A i)) # before \<and> pbytes q = pbytes p))"
proof -
  obtain err A' b u where s: "udp_sendto i p dst port A = (err, A')" "lwip_out A' = Frame (m @ if_hwaddr A @ [8, 0] @ b) # lwip_out A"
    "length m = 6" "ip_packet b (if_ip A) dst IP_PROTO_UDP 20 u" "udp_datagram u (local_port (pcbs A i)) port (pbytes p)"
    using udp_sendto_sends [OF assms(1,2)] by blast
  have hw: "length (if_hwaddr A) = 6" using assms(1) by (simp add: may_send_def)
  have "length (pbytes p) = pb_tot_len p" by (simp add: pbytes_def pb_tot_len_def length_concat)
  then have lb: "length b \<le> 1500" using s(4,5) assms(1) by (simp add: ip_packet_def udp_datagram_def may_send_def)
  have "\<exists>q before. lwip_out (ethernet_input r B) = UdpRecv j f q (if_ip A) (local_port (pcbs A i)) # before \<and> pbytes q = pbytes p"
    if "pb_head r = (m @ if_hwaddr A @ [8, 0] @ b) @ pad \<and> pb_next r = []" for r pad
    using ethernet_input_delivers [OF assms(3) _ s(3) hw _ lb s(4,5) assms(4-6), where p = r and pad = pad] that by simp
  then show ?thesis using s(1,2) by blast
qed

text \<open>Two hosts with the event port open and the PTP group joined.\<close>

definition ptpHost :: "UInteger32 \<Rightarrow> Octet list \<Rightarrow> Lwip" where
  "ptpHost ip mac = (host ip mac)\<lparr>
    pcbs := (\<lambda>_. no_pcb\<lparr>pcb_ttl := 255, local_port := 319, multicast_ip := ptpGroup, recv_fn := Some netRecvEvent\<rparr>), udp_pcbs := [0],
    groups := [(new_group ptpGroup)\<lparr>group_state := IGMP_GROUP_DELAYING_MEMBER, ig_use := 1\<rparr>]\<rparr>"

definition ptpMessage :: Pbuf where
  "ptpMessage = \<lparr>pb_room = replicate 56 0, pb_head = replicate 44 7, pb_stale = (\<lambda>_. 0), pb_next = []\<rparr>"

lemma udp_datagram_delivered_witness:
  "\<exists>err A' frame. udp_sendto 0 ptpMessage ptpGroup 319 (ptpHost 0x0100000a hostMac) = (err, A') \<and> lwip_out A' = [Frame frame]
    \<and> (\<forall>r pad. pb_head r = frame @ pad \<and> pb_next r = [] \<longrightarrow>
        (\<exists>q before. lwip_out (ethernet_input r (ptpHost 0x0200000a peerMac)) = UdpRecv 0 netRecvEvent q 0x0100000a 319 # before
          \<and> pbytes q = replicate 44 7))"
proof -
  let ?A = "ptpHost 0x0100000a hostMac" and ?B = "ptpHost 0x0200000a peerMac"
  have mc: "ip_addr_ismulticast ptpGroup" by (simp add: ip_addr_ismulticast_def ptpGroup_def htonl_def)
  have a: "may_send 0 ptpMessage ptpGroup ?A"
    by (simp add: may_send_def ptpHost_def host_def ptpMessage_def no_pcb_def pb_tot_len_def netif_is_up_def hostMac_def)
  have r: "reaches ?A ptpGroup (groupMac ptpGroup ?A)" using mc by (simp add: reaches_def)
  have k: "arp_ok ?B" using host_ok(1) [of "0x0200000a" peerMac] by (simp add: ptpHost_def arp_ok_def)
  have n: "listens (if_ip ?A) ptpGroup ?B"
    using mc by (simp add: listens_def accepted_def igmp_lookfor_group_def ptpHost_def host_def new_group_def ip_addr_isbroadcast_def
      ip_addr_netcmp_def ip_addr_ismulticast_def htonl_def)
  have t: "udp_target 319 ptpGroup (local_port (pcbs ?A 0)) (if_ip ?A) ?B = Some 0"
    using mc by (simp add: udp_target_def local_match_def remote_match_def ptpHost_def host_def no_pcb_def)
  have f: "recv_fn (pcbs ?B 0) = Some netRecvEvent" by (simp add: ptpHost_def)
  show ?thesis
    using udp_datagram_delivered [OF a r k n t f] by (simp add: ptpHost_def host_def no_pcb_def ptpMessage_def pbytes_def)
qed

end
