(* ===== verification/Spec2Isabelle.thy ===== *)
theory Spec2Isabelle
  imports Ptp_Hang Ptp_Peer Ptp_Loop Dev_Calendar Dev_Ntp Dev_Eth Dev_Link Lwip_Deliver
begin

text \<open>
  The firmware of a PTP/NTP time server on an STM32F107: a port of the PTP daemon (\<^verbatim>\<open>ptpd-2.0.0\<close>) on a bare
  lwIP, with a serial command interface, time-of-day input, an SNTP server and client and a cooperative scheduler.
  This development translates its own code into definitions and proves what makes it correct; where the
  code does something else than it means to, the theorem states what it does.

  \<^bold>\<open>The parts and their theories.\<close>

  The PTP stack, \<^verbatim>\<open>ptpd-2.0.0/src\<close>.
  \<^item> \<open>Ptp_Prelude\<close>: the C integer types, conversions to the signed types (\<open>i8\<close>, \<open>i16\<close>, \<open>i32\<close>), shifts; the
    collections of facts the theories share.
  \<^item> \<open>Ptp_Fifo\<close>: the contract of a bounded queue between an interrupt and a polling consumer (locale
    \<open>polled_queue\<close>), interpreted twice: the packet queues of \<open>dep/net.c\<close> (\<open>Ptp_Net\<close>) and the receive descriptors
    (\<open>Dev_Eth\<close>).
  \<^item> \<open>Ptp_Bytes\<close>: \<^verbatim>\<open>htons\<close>, \<^verbatim>\<open>htonl\<close> and access to message buffers; \<open>Ptp_Datatypes\<close>: the structures of
    \<^verbatim>\<open>datatypes.h\<close>; \<open>Ptp_World\<close>: the state, \<^verbatim>\<open>PtpClock\<close> with the globals of the port and of the hardware.
  \<^item> \<open>Ptp_Arith\<close> (\<^verbatim>\<open>arith.c\<close>), \<open>Ptp_Timer\<close> (\<^verbatim>\<open>dep/timer.c\<close>), \<open>Ptp_Msg\<close> (\<^verbatim>\<open>dep/msg.c\<close>), \<open>Ptp_Bmc\<close> (\<^verbatim>\<open>bmc.c\<close>),
    \<open>Ptp_Net\<close> (\<^verbatim>\<open>dep/net.c\<close>), \<open>Ptp_Sys\<close> (\<^verbatim>\<open>dep/sys_time.c\<close> and the PTP clock of \<^verbatim>\<open>port/ethernetif.c\<close>), \<open>Ptp_Servo\<close>
    (\<^verbatim>\<open>dep/servo.c\<close>): one definition per function, under its own name.
  \<^item> \<open>Ptp_Issue\<close> and \<open>Ptp_Handle\<close>: the issue functions, \<^verbatim>\<open>toState\<close>, and the message handlers of \<^verbatim>\<open>protocol.c\<close>;
    \<open>Ptp_Protocol\<close>: \<^verbatim>\<open>doState\<close>, \<^verbatim>\<open>ptpd_Periodic_Handle\<close>, \<^verbatim>\<open>PTPd_Init\<close>, \<^verbatim>\<open>ptpdStartup\<close> and the selection of the mode.
  \<^item> \<open>Ptp_Frame\<close>: what each operation leaves alone; \<open>Ptp_Engine\<close>: the locale \<open>engine_invariant\<close>, which lifts a
    predicate kept by the primitive updates to the whole engine; \<open>Ptp_Invariants\<close>: the runs of the firmware
    (\<open>firmware_run\<close>) and three interpretations of the locale; \<open>Ptp_Loop\<close> and \<open>Ptp_Hang\<close>: when the do-while
    loop of \<^verbatim>\<open>ptpd_Periodic_Handle\<close> ends, and when it does not.
  \<^item> \<open>Ptp_Exchange\<close>, \<open>Ptp_Measure\<close>, \<open>Ptp_Peer\<close>: two ports and the messages between them, from the packed buffer
    of the one to the measured offset or delay of the other.

  The device around it, \<^verbatim>\<open>Main\<close>, \<^verbatim>\<open>USER\<close> and \<^verbatim>\<open>lwip-1.3.1/port\<close>.
  \<^item> \<open>Dev_Calendar\<close>: \<^verbatim>\<open>mktime.c\<close> and \<^verbatim>\<open>mktime\<close> of \<^verbatim>\<open>timer.c\<close>; \<open>Dev_Ntp\<close>: \<^verbatim>\<open>sntp.h\<close>, \<^verbatim>\<open>udp_echoserver.c\<close>,
    \<^verbatim>\<open>sntp_client.c\<close>; \<open>Dev_Flash\<close>: \<^verbatim>\<open>stmflash.c\<close>; \<open>Dev_Tod\<close>: the scanners of \<^verbatim>\<open>bds.c\<close> and the XHTOD sentence.
  \<^item> \<open>Dev_Uart\<close>: the receive interrupt and the hand-over of \<^verbatim>\<open>usart.c\<close>; \<open>Dev_Cmd\<close>: the commands of
    \<^verbatim>\<open>cmd_handle.c\<close>; \<open>Dev_Task\<close>: \<^verbatim>\<open>Main/task.c\<close>, the callbacks of the ports and the interrupt of TIM3; \<open>Dev_Main\<close>:
    the main loop as a whole (\<open>device_run\<close>).
  \<^item> \<open>Dev_Eth\<close>: the DMA descriptor rings with their PTP shadow rings, in both directions; \<open>Dev_Link\<close>: \<^verbatim>\<open>system_init\<close>,
    \<^verbatim>\<open>LwIP_Init\<close>, the flags of \<^verbatim>\<open>core/netif.c\<close>, the link interrupt and its callback.

  The network code below them, \<^verbatim>\<open>lwip-1.3.1/src\<close> as \<^verbatim>\<open>lwipopts.h\<close> configures it, for the one interface of the device.
  \<^item> \<open>Lwip_Arp\<close>: packet buffers (\<^verbatim>\<open>core/pbuf.c\<close>), the tests on addresses, and \<^verbatim>\<open>netif/etharp.c\<close> with its table, the queues
    of packets that wait, and its timer; \<open>Lwip_Ip\<close>: \<^verbatim>\<open>ip.c\<close> (routing and output), \<^verbatim>\<open>ip_frag\<close>, \<^verbatim>\<open>inet_chksum.c\<close>; \<open>Lwip_Igmp\<close>: \<^verbatim>\<open>igmp.c\<close>;
    \<open>Lwip_Udp\<close>: \<^verbatim>\<open>udp.c\<close>, \<^verbatim>\<open>ip_input\<close> and \<^verbatim>\<open>ethernet_input\<close>.  The state is one record, \<open>Lwip\<close>; a frame given to the driver, a
    datagram given to a callback and a packet given to a part that is not modelled are its outputs.  The theories above
    still see the network as streams of results: \<open>Lwip_Udp\<close> models what stands behind them, and \<open>Lwip_Deliver\<close> proves that it
    carries a datagram from one host to another.

  \<^bold>\<open>How state and operations correspond.\<close>  A structure is a record with the same fields (renamed where two
  structures share a field or the name is taken), a pointer to a structure is the record itself, threaded through;
  machine integers are words or, for the signed types, \<open>int\<close> with the conversion written out (\<open>i32\<close>); an enum is a
  \<open>datatype\<close>.  The globals of the stack are fields of \<open>World\<close>, those of the device fields of \<open>Device\<close> and
  \<open>Firmware\<close>, those of the interface fields of \<open>Link\<close>.  What the code sends or programs is appended to \<open>outputs\<close>.  A
  function that may not return has the result type \<open>option\<close> with \<open>None\<close> for not returning
  (\<open>partial_function (option)\<close> for the loops of \<open>Ptp_Protocol\<close>, \<open>Dev_Calendar\<close> and \<open>Dev_Eth\<close>); all others are total, by
  structural recursion or with a \<open>measure\<close>.  No fuel is used anywhere in the model.

  \<^bold>\<open>What is outside, as a parameter.\<close>  The hardware clock (\<open>hw_reads\<close>), the random numbers (\<open>rands\<close>), the time
  stamps of transmissions (\<open>tx_results\<close>), the successes of allocations in lwIP (\<open>udp_new_ok\<close> and its like), the registers of
  the PHY (\<open>phy_reads\<close>) are streams in the state, read one element at a time; the programming of a flash cell (\<open>prog\<close>), the results of \<^verbatim>\<open>inet_aton\<close> on the two
  group addresses (\<open>aton_default\<close>, \<open>aton_peer\<close>), the conversion of a fixed-point fraction to a double and
  memory that is read before it is written (\<open>uninit_time\<close>, \<open>uninit_ts\<close>, \<open>uninit_date\<close>) are arguments or fields no definition restricts; the DMA engine
  is an environment step that may run between any two steps of the driver.  The theorems hold for every
  choice of these, unless a hypothesis says what they need; the witnesses show choices that meet it.

  \<^bold>\<open>What the theorems show.\<close>
  \<^item> The device: a slave's main loop returns, whatever arrives, but for two commands and the last day of a leap year, and feeds its
    watchdog in time while it does; the start leads there; the serial
    ports deliver messages whole and in order; commands and reports can be read back.
  \<^item> The protocol: a slave never masters in any run, the memory keeps its shape, every message sent is the device's own; a
    Sync with its Follow_Up, and a peer delay exchange, measure offset and delay end to end across two ports.
  \<^item> The components: arithmetic, timers, packing, comparison of clocks (a linear order on ranks), filters, servo, queues as
    bounded lists, calendar against a counting reference, SNTP server and client, flash sectors, descriptor rings.
  \<^item> The network code: an address is resolved by a request and its answer, and the packets that waited for it leave in order; the ARP
    table keeps one live entry per address and forgets what is not renewed; a checksummed message sums to zero; a datagram given to
    \<^verbatim>\<open>udp_sendto\<close> reaches the callback of the control block it is for, byte for byte, on every host that gets its frame; the
    membership list counts references and reports first joins and last leaves.
  \<^item> What goes wrong: the selection of the worst master by \<^verbatim>\<open>bmc\<close>, the loop of a port that becomes a master while a message is
    queued, the last day of a leap year, the blocked receive ring, late time stamps, the link that never comes
    back, the reversed addresses after a link change, lost serial bytes, control messages never seen, membership queries that wait for a timer the program never runs.

  \<^bold>\<open>Not modelled.\<close>  The rest of lwIP (TCP, ICMP, the reassembly of fragments, and the memory pools, whose successes are a stream), SNMP, PPP and the
  socket layer (not configured); the vendor libraries, the start-up code and every set-up of hardware registers (clocks,
  pins, interrupts, timers, USART, MAC), which have no effect on the state the software sees; \<^verbatim>\<open>ntp_run.c\<close>, the oscillator
  control of \<^verbatim>\<open>USER/tracking\<close> (floating point) and the real-time clock, which have no caller; the satellite parsers of \<^verbatim>\<open>nmealib\<close> and
  \<^verbatim>\<open>LibNMEA\<close>, which are not built.  Interrupts that run in the middle of a function of the main loop are modelled where the code shares
  data with them (\<open>Dev_Uart\<close>, \<open>Dev_Eth\<close>, the queues of \<open>Ptp_Net\<close>), not elsewhere.
\<close>

end
